(* ===== verification/Prelude.thy ===== *)
theory Prelude
  imports Main "HOL-Library.Word"
begin

text \<open>
  Shared vocabulary of the development.

  Rust's machine integers are words of the same width, \<open>Result<T, E>\<close> is the sum
  \<open>'e + 'a\<close> with \<open>Inl\<close> for \<open>Err\<close>, and the combinators of \<open>Result\<close> the code uses
  (\<open>?\<close> and \<open>map_err\<close>) are the functions below. The theory also holds the error
  values of \<^verbatim>\<open>firestone-core/src/error.rs\<close> and the generic lemmas on results, lists
  and words that the component theories share through the collections
  \<open>result_simps\<close>, \<open>text_simps\<close> and \<open>word_facts\<close>.
\<close>

named_theorems result_simps \<open>evaluation and inversion of fallible computations\<close>
named_theorems text_simps \<open>string splitting, stripping and number printing\<close>
named_theorems word_facts \<open>unsigned readings of fixed-width integers\<close>

type_synonym u8 = "8 word"
type_synonym u16 = "16 word"
type_synonym u32 = "32 word"
type_synonym u64 = "64 word"
type_synonym ('e, 'a) result = "'e + 'a"

section \<open>Results\<close>

definition and_then :: "('e, 'a) result \<Rightarrow> ('a \<Rightarrow> ('e, 'b) result) \<Rightarrow> ('e, 'b) result" where
  "and_then r f = (case r of Inl e \<Rightarrow> Inl e | Inr a \<Rightarrow> f a)"

definition map_err :: "('e \<Rightarrow> 'f) \<Rightarrow> ('e, 'a) result \<Rightarrow> ('f, 'a) result" where
  "map_err g r = (case r of Inl e \<Rightarrow> Inl (g e) | Inr a \<Rightarrow> Inr a)"

definition ok_or :: "'e \<Rightarrow> 'a option \<Rightarrow> ('e, 'a) result" where
  "ok_or e x = (case x of None \<Rightarrow> Inl e | Some a \<Rightarrow> Inr a)"

definition is_ok :: "('e, 'a) result \<Rightarrow> bool" where
  "is_ok r = (case r of Inl _ \<Rightarrow> False | Inr _ \<Rightarrow> True)"

definition ensure :: "bool \<Rightarrow> 'e \<Rightarrow> ('e, unit) result" where
  "ensure b e = (if b then Inr () else Inl e)"

text \<open>A loop whose body may return early with an error: \<open>for x in xs { body(x)?; }\<close>.\<close>

fun for_each :: "('a \<Rightarrow> ('e, unit) result) \<Rightarrow> 'a list \<Rightarrow> ('e, unit) result" where
  "for_each f [] = Inr ()"
| "for_each f (x # xs) = and_then (f x) (\<lambda>_. for_each f xs)"

text \<open>A loop that rewrites every element and may fail: \<open>for x in &mut xs { *x = f(x)?; }\<close>.\<close>

fun map_r :: "('a \<Rightarrow> ('e, 'b) result) \<Rightarrow> 'a list \<Rightarrow> ('e, 'b list) result" where
  "map_r f [] = Inr []"
| "map_r f (x # xs) = and_then (f x) (\<lambda>y. and_then (map_r f xs) (\<lambda>ys. Inr (y # ys)))"

lemma and_then_simps [simp, result_simps]:
  "and_then (Inl e) f = Inl e"
  "and_then (Inr a) f = f a"
  by (simp_all add: and_then_def)

lemma and_then_Inr_iff [result_simps]:
  "and_then r f = Inr b \<longleftrightarrow> (\<exists>a. r = Inr a \<and> f a = Inr b)"
  by (cases r) auto

lemma and_then_Inl_iff [result_simps]:
  "and_then r f = Inl e \<longleftrightarrow> r = Inl e \<or> (\<exists>a. r = Inr a \<and> f a = Inl e)"
  by (cases r) auto

lemma and_then_assoc: "and_then (and_then r f) g = and_then r (\<lambda>a. and_then (f a) g)"
  by (cases r) auto

lemma and_then_cong [fundef_cong]:
  assumes "r = r'" and "\<And>a. r' = Inr a \<Longrightarrow> f a = f' a"
  shows "and_then r f = and_then r' f'"
  using assms by (cases r') auto

lemma map_err_simps [simp, result_simps]:
  "map_err g (Inl e) = Inl (g e)"
  "map_err g (Inr a) = Inr a"
  "map_err g r = Inr a \<longleftrightarrow> r = Inr a"
  by (simp_all add: map_err_def split: sum.splits)

lemma ok_or_simps [simp, result_simps]:
  "ok_or e None = Inl e"
  "ok_or e (Some a) = Inr a"
  "ok_or e x = Inr a \<longleftrightarrow> x = Some a"
  by (simp_all add: ok_or_def split: option.splits)

lemma ensure_simps [simp, result_simps]:
  "ensure True e = Inr ()"
  "ensure False e = Inl e"
  "ensure b e = Inr u \<longleftrightarrow> b"
  "ensure b e = Inl e' \<longleftrightarrow> \<not> b \<and> e' = e"
  by (auto simp: ensure_def)

lemma is_ok_simps [simp, result_simps]:
  "is_ok (Inl e) = False"
  "is_ok (Inr a) = True"
  by (simp_all add: is_ok_def)

lemma is_ok_iff: "is_ok r \<longleftrightarrow> (\<exists>a. r = Inr a)"
  by (cases r) auto

lemma for_each_Inr_iff [result_simps]:
  "for_each f xs = Inr u \<longleftrightarrow> (\<forall>x \<in> set xs. f x = Inr ())"
  by (induction xs) (auto simp: and_then_Inr_iff)

lemma map_r_Inr_iff [result_simps]:
  "map_r f xs = Inr ys \<longleftrightarrow> list_all2 (\<lambda>x y. f x = Inr y) xs ys"
  by (induction xs arbitrary: ys) (auto simp: and_then_Inr_iff list_all2_Cons1)

section \<open>Error values (error.rs)\<close>

datatype ErrorKind =
    Generic | Usage | InvalidSpec | NotFound | NotRunning | Conflict | AlreadyExists
  | AlreadyRunning | Busy | Dependency | Timeout | Checksum | Interrupted

text \<open>
  \<open>FirestoneError\<close> without its \<open>source\<close>: the wrapped cause is used for diagnostics only
  and no branch of the code reads it back.
\<close>

record FirestoneError =
  kind :: ErrorKind
  message :: string
  hint :: "string option"
  field :: "string option"

definition error_new :: "ErrorKind \<Rightarrow> string \<Rightarrow> FirestoneError" where
  "error_new k m = \<lparr>kind = k, message = m, hint = None, field = None\<rparr>"

definition with_hint :: "string \<Rightarrow> FirestoneError \<Rightarrow> FirestoneError" where
  "with_hint h e = e\<lparr>hint := Some h\<rparr>"

definition with_field :: "string \<Rightarrow> FirestoneError \<Rightarrow> FirestoneError" where
  "with_field f e = e\<lparr>field := Some f\<rparr>"

text \<open>\<open>format!("'{s}'")\<close>: the single quotes the messages put around user text.\<close>

definition quoted :: "string \<Rightarrow> string" where
  "quoted s = CHR 0x27 # s @ [CHR 0x27]"

lemma error_kind_simps [simp]:
  "kind (error_new k m) = k"
  "kind (with_hint h e) = kind e"
  "kind (with_field f e) = kind e"
  by (simp_all add: error_new_def with_hint_def with_field_def)

lemma error_field_simps [simp]:
  "field (error_new k m) = None"
  "field (with_hint h e) = field e"
  "field (with_field f e) = Some f"
  by (simp_all add: error_new_def with_hint_def with_field_def)

text \<open>\<open>io::Error\<close>: the kind the code branches on and the text it prints.\<close>

datatype IoKind =
    IoNotFound | IoPermissionDenied | IoAlreadyExists | IoInvalidInput | IoInvalidData
  | IoTimedOut | IoUnexpectedEof | IoInterrupted | IoNotADirectory | IoOther

record IoError =
  io_kind :: IoKind
  io_text :: string

section \<open>Lists and words\<close>

text \<open>\<open>u64::saturating_add\<close> and \<open>u64::saturating_mul\<close>, on values below \<open>2 ^ 64\<close>.\<close>

definition saturating_add :: "nat \<Rightarrow> nat \<Rightarrow> nat" where
  "saturating_add a b = min (a + b) (2 ^ 64 - 1)"

definition saturating_mul :: "nat \<Rightarrow> nat \<Rightarrow> nat" where
  "saturating_mul a b = min (a * b) (2 ^ 64 - 1)"

lemma takeWhile_neq_append [text_simps]:
  "c \<notin> set a \<Longrightarrow> takeWhile (\<lambda>x. x \<noteq> c) (a @ c # b) = a"
  by (induction a) auto

lemma dropWhile_neq_append [text_simps]:
  "c \<notin> set a \<Longrightarrow> dropWhile (\<lambda>x. x \<noteq> c) (a @ c # b) = c # b"
  by (induction a) auto

lemma dropWhile_neq_None: "dropWhile (\<lambda>x. x \<noteq> c) s = [] \<longleftrightarrow> c \<notin> set s"
  by (induction s) auto

lemma filter_eq_distinct: "distinct xs \<Longrightarrow> k \<in> set xs \<Longrightarrow> filter (\<lambda>x. x = k) xs = [k]"
  by (induction xs) (auto simp: filter_empty_conv)

lemma unat_of_nat_u64 [word_facts]: "n < 2 ^ 64 \<Longrightarrow> unat (of_nat n :: u64) = n"
  by (simp add: unat_of_nat)

lemma unat_of_nat_u32 [word_facts]: "n < 2 ^ 32 \<Longrightarrow> unat (of_nat n :: u32) = n"
  by (simp add: unat_of_nat)

lemma unat_of_nat_u16 [word_facts]: "n < 2 ^ 16 \<Longrightarrow> unat (of_nat n :: u16) = n"
  by (simp add: unat_of_nat)

lemma unat_of_nat_u8 [word_facts]: "n < 2 ^ 8 \<Longrightarrow> unat (of_nat n :: u8) = n"
  by (simp add: unat_of_nat)

lemma unat_u8_less [simp]: "unat (w :: u8) < 256"
  using unsigned_less [of w] by simp

lemma unat_u16_less [simp]: "unat (w :: u16) < 65536"
  using unsigned_less [of w] by simp

lemma unat_u32_less [simp]: "unat (w :: u32) < 4294967296"
  using unsigned_less [of w] by simp

lemma unat_u64_less [simp]: "unat (w :: u64) < 18446744073709551616"
  using unsigned_less [of w] by simp

lemma unat_ucast_16_32 [simp]: "unat (ucast (w :: u16) :: u32) = unat w"
  by (simp add: unsigned_ucast_eq take_bit_eq_mod less_trans [OF unat_u16_less])

lemma unat_ucast_32_16 [word_facts]:
  "unat (w :: u32) < 65536 \<Longrightarrow> unat (ucast w :: u16) = unat w"
  by (simp add: unsigned_ucast_eq take_bit_eq_mod)

section \<open>The contract of a text codec\<close>

text \<open>
  Every scalar of the spec has a parser (\<open>FromStr\<close>, used by serde, the CLI and REST) and a
  printer (\<open>Display\<close>, used when the spec is written back). The contract: the parser only
  builds values that satisfy the type's invariant, and a value that satisfies it is read
  back from its own text.
\<close>

locale scalar_codec =
  fixes parse :: "string \<Rightarrow> ('e, 'a) result"
    and display :: "'a \<Rightarrow> string"
    and valid :: "'a \<Rightarrow> bool"
  assumes parse_valid: "parse s = Inr a \<Longrightarrow> valid a"
    and parse_display: "valid a \<Longrightarrow> parse (display a) = Inr a"
begin

text \<open>Re-reading the printed form of a parsed value changes nothing.\<close>

lemma reparse: "parse s = Inr a \<Longrightarrow> parse (display a) = Inr a"
  by (rule parse_display) (rule parse_valid)

lemma display_inject: "valid a \<Longrightarrow> valid b \<Longrightarrow> display a = display b \<longleftrightarrow> a = b"
  using parse_display [of a] parse_display [of b] by (auto simp del: sum.inject dest: sym)

text \<open>The printed text is a normal form: two inputs denote one value iff they print alike.\<close>

lemma normal_form:
  "parse s = Inr a \<Longrightarrow> parse t = Inr b \<Longrightarrow> display a = display b \<longleftrightarrow> a = b"
  by (simp add: display_inject parse_valid)

lemma valid_range: "valid a \<longleftrightarrow> (\<exists>s. parse s = Inr a)"
  using parse_valid parse_display by blast

end

end
