(* ===== verification/Rust_Text.thy ===== *)
theory Rust_Text
  imports Prelude
begin

text \<open>
  The part of Rust's standard library that Firestone's parsers and printers use.

  A Rust \<open>str\<close> is its UTF-8 bytes, one \<open>char\<close> of HOL per byte, so \<open>len\<close> is
  \<open>length\<close>, \<open>bytes().all(p)\<close> is \<open>list_all p\<close> and the byte classes are ASCII ranges.
  The theory models \<open>split\<close>, \<open>split_once\<close>, \<open>rsplit_once\<close>, \<open>strip_prefix\<close>,
  \<open>strip_suffix\<close>, \<open>lines\<close>, \<open>trim\<close> (over the Unicode \<open>White_Space\<close> encodings),
  \<open>from_str_radix\<close> for the unsigned integers and their \<open>Display\<close>. The lemmas say what
  each splitter does on a concatenation, and that parsing a printed number gives the
  number back.
\<close>

section \<open>Byte classes\<close>

definition is_ascii_digit :: "char \<Rightarrow> bool" where
  "is_ascii_digit c \<longleftrightarrow> (let v = (of_char c :: nat) in 48 \<le> v \<and> v \<le> 57)"

definition is_ascii_lowercase :: "char \<Rightarrow> bool" where
  "is_ascii_lowercase c \<longleftrightarrow> (let v = (of_char c :: nat) in 97 \<le> v \<and> v \<le> 122)"

definition is_ascii_uppercase :: "char \<Rightarrow> bool" where
  "is_ascii_uppercase c \<longleftrightarrow> (let v = (of_char c :: nat) in 65 \<le> v \<and> v \<le> 90)"

definition is_ascii_alphabetic :: "char \<Rightarrow> bool" where
  "is_ascii_alphabetic c \<longleftrightarrow> is_ascii_lowercase c \<or> is_ascii_uppercase c"

definition is_ascii_alphanumeric :: "char \<Rightarrow> bool" where
  "is_ascii_alphanumeric c \<longleftrightarrow> is_ascii_alphabetic c \<or> is_ascii_digit c"

definition to_ascii_lowercase :: "char \<Rightarrow> char" where
  "to_ascii_lowercase c = (if is_ascii_uppercase c then char_of (of_char c + 32 :: nat) else c)"

definition is_ascii_hexdigit :: "char \<Rightarrow> bool" where
  "is_ascii_hexdigit c \<longleftrightarrow> is_ascii_digit c \<or> (let v = (of_char c :: nat) in 65 \<le> v \<and> v \<le> 70 \<or> 97 \<le> v \<and> v \<le> 102)"

section \<open>Splitting and stripping\<close>

definition split_once :: "char \<Rightarrow> string \<Rightarrow> (string \<times> string) option" where
  "split_once c s =
     (case dropWhile (\<lambda>x. x \<noteq> c) s of
        [] \<Rightarrow> None
      | _ # b \<Rightarrow> Some (takeWhile (\<lambda>x. x \<noteq> c) s, b))"

definition rsplit_once :: "char \<Rightarrow> string \<Rightarrow> (string \<times> string) option" where
  "rsplit_once c s = map_option (\<lambda>(b, a). (rev a, rev b)) (split_once c (rev s))"

fun split_on :: "char \<Rightarrow> string \<Rightarrow> string list" where
  "split_on c [] = [[]]"
| "split_on c (x # xs) =
     (if x = c then [] # split_on c xs
      else (case split_on c xs of [] \<Rightarrow> [[x]] | p # ps \<Rightarrow> (x # p) # ps))"

fun strip_prefix :: "string \<Rightarrow> string \<Rightarrow> string option" where
  "strip_prefix [] s = Some s"
| "strip_prefix (p # ps) [] = None"
| "strip_prefix (p # ps) (c # cs) = (if p = c then strip_prefix ps cs else None)"

definition strip_suffix :: "string \<Rightarrow> string \<Rightarrow> string option" where
  "strip_suffix p s = map_option rev (strip_prefix (rev p) (rev s))"

definition starts_with :: "string \<Rightarrow> string \<Rightarrow> bool" where
  "starts_with p s \<longleftrightarrow> strip_prefix p s \<noteq> None"

definition ends_with :: "string \<Rightarrow> string \<Rightarrow> bool" where
  "ends_with p s \<longleftrightarrow> strip_suffix p s \<noteq> None"

fun contains_str :: "string \<Rightarrow> string \<Rightarrow> bool" where
  "contains_str p [] \<longleftrightarrow> p = []"
| "contains_str p (c # cs) \<longleftrightarrow> starts_with p (c # cs) \<or> contains_str p cs"

text \<open>
  \<open>str::lines\<close>: split after every line feed, then drop the line feed and one carriage
  return before it. A last piece without a line feed is kept as it is, and no piece follows
  a final line feed.
\<close>

definition chomp_cr :: "string \<Rightarrow> string" where
  "chomp_cr s = (case strip_suffix [CHR 0x0D] s of None \<Rightarrow> s | Some t \<Rightarrow> t)"

definition lines_of :: "string \<Rightarrow> string list" where
  "lines_of s =
     (let ps = split_on (CHR 0x0A) s
      in map chomp_cr (butlast ps) @ (if last ps = [] then [] else [last ps]))"

text \<open>
  \<open>str::trim\<close> removes the characters with the Unicode property \<open>White_Space\<close>. Their UTF-8
  encodings are U+0009 to U+000D, U+0020, U+0085, U+00A0, U+1680, U+2000 to U+200A,
  U+2028, U+2029, U+202F, U+205F and U+3000.
\<close>

definition whitespace_encodings :: "string list" where
  "whitespace_encodings =
     map (\<lambda>c. [c]) [CHR 0x09, CHR 0x0A, CHR 0x0B, CHR 0x0C, CHR 0x0D, CHR 0x20] @
     [[CHR 0xC2, CHR 0x85], [CHR 0xC2, CHR 0xA0], [CHR 0xE1, CHR 0x9A, CHR 0x80]] @
     map (\<lambda>c. [CHR 0xE2, CHR 0x80, c])
       [CHR 0x80, CHR 0x81, CHR 0x82, CHR 0x83, CHR 0x84, CHR 0x85, CHR 0x86, CHR 0x87,
        CHR 0x88, CHR 0x89, CHR 0x8A, CHR 0xA8, CHR 0xA9, CHR 0xAF] @
     [[CHR 0xE2, CHR 0x81, CHR 0x9F], [CHR 0xE3, CHR 0x80, CHR 0x80]]"

definition contains_whitespace :: "string \<Rightarrow> bool" where
  "contains_whitespace s \<longleftrightarrow> list_ex (\<lambda>w. contains_str w s) whitespace_encodings"

fun first_stripped :: "string list \<Rightarrow> string \<Rightarrow> string option" where
  "first_stripped [] s = None"
| "first_stripped (p # ps) s =
     (case strip_prefix p s of Some t \<Rightarrow> Some t | None \<Rightarrow> first_stripped ps s)"

fun trim_by :: "string list \<Rightarrow> string \<Rightarrow> string" where
  "trim_by ps s =
     (case first_stripped ps s of
        None \<Rightarrow> s
      | Some t \<Rightarrow> if length t < length s then trim_by ps t else s)"

declare trim_by.simps [simp del]

definition trim_start :: "string \<Rightarrow> string" where
  "trim_start s = trim_by whitespace_encodings s"

definition trim_end :: "string \<Rightarrow> string" where
  "trim_end s = rev (trim_by (map rev whitespace_encodings) (rev s))"

definition trim :: "string \<Rightarrow> string" where
  "trim s = trim_end (trim_start s)"

section \<open>Numbers\<close>

definition to_digit :: "nat \<Rightarrow> char \<Rightarrow> nat option" where
  "to_digit radix c =
     (let v = (of_char c :: nat);
          d = (if 48 \<le> v \<and> v \<le> 57 then Some (v - 48)
               else if 97 \<le> v \<and> v \<le> 122 then Some (v - 87)
               else if 65 \<le> v \<and> v \<le> 90 then Some (v - 55)
               else None)
      in case d of None \<Rightarrow> None | Some n \<Rightarrow> if n < radix then Some n else None)"

fun digits_value :: "nat \<Rightarrow> nat \<Rightarrow> string \<Rightarrow> nat option" where
  "digits_value radix acc [] = Some acc"
| "digits_value radix acc (c # cs) =
     (case to_digit radix c of
        None \<Rightarrow> None
      | Some d \<Rightarrow> digits_value radix (acc * radix + d) cs)"

text \<open>
  \<open>uN::from_str_radix\<close>: an optional leading \<open>+\<close> before at least one digit, then digits
  of the radix only, and the value below \<open>2 ^ N\<close>. The kinds of failure (empty input,
  invalid digit, overflow) are one \<open>None\<close>: every caller maps them to the same error.
\<close>

definition strip_plus :: "string \<Rightarrow> string" where
  "strip_plus s = (case s of [] \<Rightarrow> [] | c # cs \<Rightarrow> if c = CHR ''+'' \<and> cs \<noteq> [] then cs else s)"

definition from_str_radix :: "nat \<Rightarrow> nat \<Rightarrow> string \<Rightarrow> nat option" where
  "from_str_radix limit radix s =
     (if s = [] then None
      else (case digits_value radix 0 (strip_plus s) of
              None \<Rightarrow> None
            | Some n \<Rightarrow> if n < limit then Some n else None))"

definition parse_u8_hex :: "string \<Rightarrow> u8 option" where
  "parse_u8_hex s = map_option of_nat (from_str_radix (2 ^ 8) 16 s)"

definition parse_u32 :: "string \<Rightarrow> u32 option" where
  "parse_u32 s = map_option of_nat (from_str_radix (2 ^ 32) 10 s)"

definition parse_u64 :: "string \<Rightarrow> u64 option" where
  "parse_u64 s = map_option of_nat (from_str_radix (2 ^ 64) 10 s)"

definition digit_char :: "nat \<Rightarrow> char" where
  "digit_char d = char_of (if d < 10 then 48 + d else 87 + d)"

text \<open>\<open>Display\<close> and \<open>{:x}\<close> of an unsigned integer: no leading zeros, lower-case digits.\<close>

function show_radix :: "nat \<Rightarrow> nat \<Rightarrow> string" where
  "show_radix b n =
     (if n < b \<or> b < 2 then [digit_char n] else show_radix b (n div b) @ [digit_char (n mod b)])"
  by pat_completeness auto
termination
  by (relation "measure snd") (auto simp: div_less_dividend)

declare show_radix.simps [simp del]

abbreviation show_nat :: "nat \<Rightarrow> string" where
  "show_nat \<equiv> show_radix 10"

definition show_int :: "int \<Rightarrow> string" where
  "show_int i = (if i < 0 then CHR ''-'' # show_nat (nat (- i)) else show_nat (nat i))"

text \<open>\<open>{:02x}\<close>: at least two hexadecimal digits.\<close>

definition show_hex2 :: "nat \<Rightarrow> string" where
  "show_hex2 n = (let s = show_radix 16 n in replicate (2 - length s) (CHR ''0'') @ s)"

section \<open>UTF-8 validity\<close>

text \<open>\<open>str::from_utf8(bytes).is_ok()\<close>: well-formed sequences of one to four bytes.\<close>

definition in_range :: "nat \<Rightarrow> nat \<Rightarrow> nat \<Rightarrow> bool" where
  "in_range lo hi v \<longleftrightarrow> lo \<le> v \<and> v \<le> hi"

fun utf8_ok :: "nat list \<Rightarrow> bool" where
  "utf8_ok [] = True"
| "utf8_ok (a # bs) =
     (if a < 0x80 then utf8_ok bs
      else (case bs of
        [] \<Rightarrow> False
      | b # cs \<Rightarrow>
          if in_range 0xC2 0xDF a then in_range 0x80 0xBF b \<and> utf8_ok cs
          else (case cs of
            [] \<Rightarrow> False
          | c # ds \<Rightarrow>
              if a = 0xE0 then in_range 0xA0 0xBF b \<and> in_range 0x80 0xBF c \<and> utf8_ok ds
              else if a = 0xED then in_range 0x80 0x9F b \<and> in_range 0x80 0xBF c \<and> utf8_ok ds
              else if in_range 0xE1 0xEF a then
                in_range 0x80 0xBF b \<and> in_range 0x80 0xBF c \<and> utf8_ok ds
              else (case ds of
                [] \<Rightarrow> False
              | d # es \<Rightarrow>
                  in_range 0x80 0xBF c \<and> in_range 0x80 0xBF d \<and> utf8_ok es \<and>
                  (if a = 0xF0 then in_range 0x90 0xBF b
                   else if in_range 0xF1 0xF3 a then in_range 0x80 0xBF b
                   else a = 0xF4 \<and> in_range 0x80 0x8F b)))))"

definition is_utf8 :: "string \<Rightarrow> bool" where
  "is_utf8 s = utf8_ok (map of_char s)"

section \<open>What the splitters do\<close>

lemma split_once_Some_iff [text_simps]:
  "split_once c s = Some (a, b) \<longleftrightarrow> s = a @ c # b \<and> c \<notin> set a"
proof
  assume l: "split_once c s = Some (a, b)"
  then obtain x where d: "dropWhile (\<lambda>x. x \<noteq> c) s = x # b"
    and a: "a = takeWhile (\<lambda>x. x \<noteq> c) s"
    by (auto simp: split_once_def split: list.splits)
  have "x = c"
    using d hd_dropWhile [of "\<lambda>x. x \<noteq> c" s] by simp
  with d a show "s = a @ c # b \<and> c \<notin> set a"
    by (metis (mono_tags, lifting) set_takeWhileD takeWhile_dropWhile_id)
next
  assume "s = a @ c # b \<and> c \<notin> set a"
  then show "split_once c s = Some (a, b)"
    by (simp add: split_once_def takeWhile_neq_append dropWhile_neq_append)
qed

lemma split_once_None_iff [text_simps]: "split_once c s = None \<longleftrightarrow> c \<notin> set s"
proof (cases "c \<in> set s")
  case True
  then obtain a b where "s = a @ c # b" "c \<notin> set a"
    by (metis split_list_first)
  then show ?thesis using split_once_Some_iff [of c s a b] by simp
next
  case False
  then have "dropWhile (\<lambda>x. x \<noteq> c) s = []" by (simp only: dropWhile_neq_None not_False_eq_True)
  with False show ?thesis by (simp only: split_once_def list.case) simp
qed

lemma rsplit_once_Some_iff [text_simps]:
  "rsplit_once c s = Some (a, b) \<longleftrightarrow> s = a @ c # b \<and> c \<notin> set b"
proof -
  have "rsplit_once c s = Some (a, b) \<longleftrightarrow> split_once c (rev s) = Some (rev b, rev a)"
    unfolding rsplit_once_def by (cases "split_once c (rev s)") (auto simp: rev_swap)
  also have "\<dots> \<longleftrightarrow> rev s = rev b @ c # rev a \<and> c \<notin> set b"
    by (simp add: split_once_Some_iff)
  also have "\<dots> \<longleftrightarrow> s = a @ c # b \<and> c \<notin> set b"
    by (metis append_assoc rev_append rev_rev_ident append_Cons append_Nil rev.simps(2))
  finally show ?thesis .
qed

lemma rsplit_once_None_iff [text_simps]: "rsplit_once c s = None \<longleftrightarrow> c \<notin> set s"
  by (simp add: rsplit_once_def split_once_None_iff)

lemma strip_prefix_Some_iff [text_simps]: "strip_prefix p s = Some t \<longleftrightarrow> s = p @ t"
  by (induction p s rule: strip_prefix.induct) auto

lemma strip_suffix_Some_iff [text_simps]: "strip_suffix p s = Some t \<longleftrightarrow> s = t @ p"
proof -
  have "strip_suffix p s = Some t \<longleftrightarrow> strip_prefix (rev p) (rev s) = Some (rev t)"
    unfolding strip_suffix_def by (cases "strip_prefix (rev p) (rev s)") (auto simp: rev_swap)
  then show ?thesis
    by (simp add: strip_prefix_Some_iff) (metis rev_append rev_rev_ident)
qed

lemma strip_prefix_append [simp]: "strip_prefix p (p @ t) = Some t"
  by (simp add: strip_prefix_Some_iff)

lemma strip_suffix_append [simp]: "strip_suffix p (t @ p) = Some t"
  by (simp add: strip_suffix_Some_iff)

lemma starts_with_iff [text_simps]: "starts_with p s \<longleftrightarrow> (\<exists>t. s = p @ t)"
  by (auto simp: starts_with_def strip_prefix_Some_iff)

lemma ends_with_iff [text_simps]: "ends_with p s \<longleftrightarrow> (\<exists>t. s = t @ p)"
  by (auto simp: ends_with_def strip_suffix_Some_iff)

lemma split_on_nonempty [simp]: "split_on c s \<noteq> []"
  by (induction c s rule: split_on.induct) (auto split: list.splits)

lemma split_on_single [text_simps]: "c \<notin> set a \<Longrightarrow> split_on c a = [a]"
  by (induction a) auto

lemma split_on_append [text_simps]:
  "c \<notin> set a \<Longrightarrow> split_on c (a @ c # b) = a # split_on c b"
  by (induction a) auto

lemma split_on_pieces: "p \<in> set (split_on c s) \<Longrightarrow> c \<notin> set p"
  by (induction c s arbitrary: p rule: split_on.induct) (auto split: list.splits if_splits)

text \<open>Splitting is inverse to joining the pieces with the separator.\<close>

fun join_with :: "char \<Rightarrow> string list \<Rightarrow> string" where
  "join_with c [] = []"
| "join_with c [p] = p"
| "join_with c (p # q # ps) = p @ c # join_with c (q # ps)"

lemma join_split_on: "join_with c (split_on c s) = s"
proof (induction c s rule: split_on.induct)
  case (1 c)
  then show ?case by simp
next
  case (2 c x xs)
  show ?case
  proof (cases "split_on c xs")
    case Nil
    then show ?thesis by simp
  next
    case (Cons p ps)
    with 2 show ?thesis by (cases ps) auto
  qed
qed

lemma split_on_join:
  "ps \<noteq> [] \<Longrightarrow> (\<forall>p \<in> set ps. c \<notin> set p) \<Longrightarrow> split_on c (join_with c ps) = ps"
  by (induction c ps rule: join_with.induct) (auto simp: split_on_append split_on_single)

section \<open>Trimming\<close>

definition plain_char :: "char \<Rightarrow> bool" where
  "plain_char c \<longleftrightarrow> (let v = (of_char c :: nat) in 33 \<le> v \<and> v \<le> 126)"

lemma first_stripped_None_iff:
  "first_stripped ps s = None \<longleftrightarrow> (\<forall>p \<in> set ps. \<not> (\<exists>t. s = p @ t))"
proof (induction ps)
  case Nil
  then show ?case by simp
next
  case (Cons p ps)
  then show ?case
    by (cases "strip_prefix p s") (auto simp: strip_prefix_Some_iff simp flip: strip_prefix_Some_iff)
qed

lemma first_stripped_Some:
  "first_stripped ps s = Some t \<Longrightarrow> \<exists>p \<in> set ps. s = p @ t"
  by (induction ps) (auto simp: strip_prefix_Some_iff split: option.splits)

lemma trim_by_none [simp]: "first_stripped ps s = None \<Longrightarrow> trim_by ps s = s"
  by (subst trim_by.simps) simp

lemma trim_by_suffix: "\<exists>a. s = a @ trim_by ps s"
proof (induction ps s rule: trim_by.induct)
  case (1 ps s)
  show ?case
  proof (cases "first_stripped ps s")
    case None
    then show ?thesis by simp
  next
    case (Some t)
    obtain p where p: "s = p @ t"
      using first_stripped_Some [OF Some] by blast
    show ?thesis
    proof (cases "length t < length s")
      case True
      with 1 Some obtain a where "t = a @ trim_by ps t" by blast
      moreover have "trim_by ps s = trim_by ps t"
        using Some True by (simp add: trim_by.simps [of ps s])
      ultimately have "s = (p @ a) @ trim_by ps s" using p by simp
      then show ?thesis ..
    next
      case False
      with Some show ?thesis by (subst trim_by.simps) auto
    qed
  qed
qed

lemma trim_middle: "\<exists>a b. s = a @ trim s @ b"
proof -
  obtain a where a: "s = a @ trim_start s"
    using trim_by_suffix by (auto simp: trim_start_def)
  obtain b where "rev (trim_start s) = b @ trim_by (map rev whitespace_encodings) (rev (trim_start s))"
    using trim_by_suffix by blast
  then have "trim_start s = trim s @ rev b"
    by (metis rev_append rev_rev_ident trim_def trim_end_def)
  with a show ?thesis by metis
qed

text \<open>Every encoding starts and ends with a byte outside the printable ASCII range.\<close>

lemma whitespace_encodings_ends:
  "list_all (\<lambda>p. p \<noteq> [] \<and> \<not> plain_char (hd p) \<and> \<not> plain_char (last p)) whitespace_encodings"
  by (simp add: whitespace_encodings_def plain_char_def)

lemma first_stripped_plain:
  assumes "list_all (\<lambda>p. p \<noteq> [] \<and> \<not> plain_char (hd p)) ps"
    and "s = [] \<or> plain_char (hd s)"
  shows "first_stripped ps s = None"
  using assms by (auto simp: first_stripped_None_iff list_all_iff hd_append)

lemma trim_end_plain: "s = [] \<or> plain_char (last s) \<Longrightarrow> trim_end s = s"
  unfolding trim_end_def
  using whitespace_encodings_ends
  by (subst trim_by_none [OF first_stripped_plain])
     (auto simp: list_all_iff hd_rev)

lemma trim_start_plain: "s = [] \<or> plain_char (hd s) \<Longrightarrow> trim_start s = s"
  unfolding trim_start_def
  using whitespace_encodings_ends
  by (subst trim_by_none [OF first_stripped_plain]) (auto simp: list_all_iff)

lemma trim_plain [text_simps]:
  "s = [] \<or> plain_char (hd s) \<and> plain_char (last s) \<Longrightarrow> trim s = s"
  unfolding trim_def using trim_start_plain trim_end_plain by metis

section \<open>Printing and parsing numbers\<close>

lemma to_digit_digit_char [simp]: "d < b \<Longrightarrow> b \<le> 36 \<Longrightarrow> to_digit b (digit_char d) = Some d"
  by (auto simp: to_digit_def digit_char_def)

lemma digits_value_append:
  "digits_value b acc (xs @ ys) =
     (case digits_value b acc xs of None \<Rightarrow> None | Some a \<Rightarrow> digits_value b a ys)"
  by (induction xs arbitrary: acc) (auto split: option.splits)

lemma digits_value_show:
  "2 \<le> b \<Longrightarrow> b \<le> 36 \<Longrightarrow> digits_value b 0 (show_radix b n) = Some n"
proof (induction b n rule: show_radix.induct)
  case (1 b n)
  show ?case
  proof (cases "n < b \<or> b < 2")
    case True
    with 1 show ?thesis by (subst show_radix.simps) simp
  next
    case False
    with 1 have "digits_value b 0 (show_radix b (n div b)) = Some (n div b)" by simp
    with False 1 show ?thesis
      by (subst show_radix.simps) (simp add: digits_value_append)
  qed
qed

lemma show_radix_nonempty [simp]: "show_radix b n \<noteq> []"
  by (subst show_radix.simps) simp

lemma set_show_radix: "2 \<le> b \<Longrightarrow> set (show_radix b n) \<subseteq> digit_char ` {..<b}"
proof (induction b n rule: show_radix.induct)
  case (1 b n)
  then show ?case
    by (subst show_radix.simps) (auto intro: imageI)
qed

lemma digit_char_alnum: "d < 36 \<Longrightarrow> is_ascii_lowercase (digit_char d) \<or> is_ascii_digit (digit_char d)"
  by (auto simp: digit_char_def is_ascii_digit_def is_ascii_lowercase_def)

lemma digit_char_decimal: "d < 10 \<Longrightarrow> is_ascii_digit (digit_char d)"
  by (auto simp: digit_char_def is_ascii_digit_def)

lemma show_nat_digits: "list_all is_ascii_digit (show_nat n)"
  using set_show_radix [of 10 n] digit_char_decimal by (fastforce simp: list_all_iff)

lemma show_radix_alnum:
  "2 \<le> b \<Longrightarrow> b \<le> 36 \<Longrightarrow> c \<in> set (show_radix b n) \<Longrightarrow> is_ascii_lowercase c \<or> is_ascii_digit c"
proof -
  assume "2 \<le> b" "b \<le> 36" "c \<in> set (show_radix b n)"
  then obtain d where "c = digit_char d" "d < b"
    using set_show_radix [of b n] by auto
  with \<open>b \<le> 36\<close> show ?thesis by (simp add: digit_char_alnum)
qed

lemma alnum_plain: "is_ascii_lowercase c \<or> is_ascii_digit c \<Longrightarrow> plain_char c"
  by (auto simp: is_ascii_lowercase_def is_ascii_digit_def plain_char_def Let_def)

lemma show_radix_no_sep [simp]:
  assumes "2 \<le> b" and "b \<le> 36" and "\<not> is_ascii_lowercase c" and "\<not> is_ascii_digit c"
  shows "c \<notin> set (show_radix b n)"
  using show_radix_alnum [OF assms(1,2)] assms(3,4) by blast

lemma strip_plus_id: "s = [] \<or> hd s \<noteq> CHR ''+'' \<Longrightarrow> strip_plus s = s"
  by (auto simp: strip_plus_def split: list.splits)

lemma strip_plus_show [simp]: "2 \<le> b \<Longrightarrow> b \<le> 36 \<Longrightarrow> strip_plus (show_radix b n) = show_radix b n"
proof (rule strip_plus_id, rule disjI2)
  assume "2 \<le> b" "b \<le> 36"
  then have "is_ascii_lowercase (hd (show_radix b n)) \<or> is_ascii_digit (hd (show_radix b n))"
    by (metis show_radix_alnum hd_in_set show_radix_nonempty)
  then show "hd (show_radix b n) \<noteq> CHR ''+''"
    by (auto simp: is_ascii_lowercase_def is_ascii_digit_def)
qed

lemma from_str_radix_show [text_simps]:
  "2 \<le> b \<Longrightarrow> b \<le> 36 \<Longrightarrow>
     from_str_radix limit b (show_radix b n) = (if n < limit then Some n else None)"
  by (simp add: from_str_radix_def digits_value_show)

lemma parse_u32_show [simp]: "parse_u32 (show_nat (unat (w :: u32))) = Some w"
  by (simp add: parse_u32_def from_str_radix_show)

lemma parse_u64_show [simp]: "parse_u64 (show_nat (unat (w :: u64))) = Some w"
  by (simp add: parse_u64_def from_str_radix_show)

lemma from_str_radix_less: "from_str_radix limit b s = Some n \<Longrightarrow> n < limit"
  by (auto simp: from_str_radix_def split: option.splits if_splits)

text \<open>Printed numbers have no superfluous leading zero and a bounded number of digits.\<close>

lemma show_radix_length:
  "2 \<le> b \<Longrightarrow> n < b ^ k \<Longrightarrow> 0 < k \<Longrightarrow> length (show_radix b n) \<le> k"
proof (induction k arbitrary: n)
  case 0
  then show ?case by simp
next
  case (Suc k)
  show ?case
  proof (cases "n < b")
    case True
    then show ?thesis by (subst show_radix.simps) simp
  next
    case False
    with Suc.prems have k: "0 < k" by (cases k) auto
    have "n div b < b ^ k"
      using Suc.prems by (simp add: less_mult_imp_div_less mult.commute)
    with Suc k have "length (show_radix b (n div b)) \<le> k" by simp
    with False Suc.prems show ?thesis by (subst show_radix.simps) simp
  qed
qed

lemma show_radix_hd_zero:
  "2 \<le> b \<Longrightarrow> b \<le> 36 \<Longrightarrow> 0 < n \<Longrightarrow> hd (show_radix b n) \<noteq> CHR ''0''"
proof (induction b n rule: show_radix.induct)
  case (1 b n)
  show ?case
  proof (cases "n < b")
    case True
    with 1 have "digit_char n \<noteq> CHR ''0''"
      using to_digit_digit_char [of n b] by (auto simp: to_digit_def split: if_splits)
    with True show ?thesis by (subst show_radix.simps) simp
  next
    case False
    with 1 have "hd (show_radix b (n div b)) \<noteq> CHR ''0''"
      by (simp add: div_greater_zero_iff)
    with False 1 show ?thesis by (subst show_radix.simps) (simp add: hd_append)
  qed
qed

lemma split_on_chars: "x \<in> set s \<Longrightarrow> x \<noteq> c \<Longrightarrow> \<exists>p \<in> set (split_on c s). x \<in> set p"
  by (induction c s rule: split_on.induct) (auto split: list.splits if_splits)

lemma contains_str_append: "contains_str p s \<Longrightarrow> contains_str p (a @ s)"
  by (induction a) auto

lemma contains_str_iff: "contains_str p s \<longleftrightarrow> (\<exists>a b. s = a @ p @ b)"
proof
  show "contains_str p s \<Longrightarrow> \<exists>a b. s = a @ p @ b"
  proof (induction s)
    case (Cons c cs)
    then consider t where "c # cs = p @ t" | a b where "cs = a @ p @ b" by (auto simp: starts_with_iff)
    then show ?case
    proof cases
      case 1
      then show ?thesis by (intro exI [of _ "[]"] exI [of _ t]) simp
    next
      case 2
      then show ?thesis by (intro exI [of _ "c # a"] exI [of _ b]) simp
    qed
  qed auto
  have "contains_str p (p @ b)" for b
  proof (cases "p @ b")
    case (Cons c cs)
    then have "starts_with p (c # cs)" unfolding starts_with_iff by metis
    then show ?thesis unfolding Cons by simp
  qed auto
  then show "\<exists>a b. s = a @ p @ b \<Longrightarrow> contains_str p s" using contains_str_append by auto
qed

lemma contained_in_front:
  assumes "name @ t = a @ p @ b" "p \<noteq> []" "last p \<notin> set t"
  shows "\<exists>b'. name = a @ p @ b'"
proof -
  have "(a @ p) @ b = name @ t" using assms(1) by simp
  then consider us where "a @ p = name @ us" "us @ b = t" | us where "name = (a @ p) @ us"
    unfolding append_eq_append_conv2 by blast
  then show ?thesis
  proof cases
    case 1
    have "us = []"
    proof (rule ccontr)
      assume "us \<noteq> []"
      then have "last us = last p" using 1(1) assms(2) by (metis last_appendR)
      then show False using assms(3) 1(2) \<open>us \<noteq> []\<close> by (metis UnI1 last_in_set set_append)
    qed
    then show ?thesis using 1 by (metis append.right_neutral append_assoc)
  qed auto
qed

section \<open>Lower case\<close>

lemma lower_upper: "is_ascii_uppercase c \<Longrightarrow> is_ascii_lowercase (to_ascii_lowercase c)"
  by (auto simp: to_ascii_lowercase_def is_ascii_uppercase_def is_ascii_lowercase_def Let_def)

lemma lowercase_not_uppercase: "is_ascii_lowercase c \<Longrightarrow> \<not> is_ascii_uppercase c"
  by (auto simp: is_ascii_uppercase_def is_ascii_lowercase_def Let_def)

lemma to_ascii_lowercase_idem [simp]: "to_ascii_lowercase (to_ascii_lowercase c) = to_ascii_lowercase c"
  using lower_upper [of c] lowercase_not_uppercase by (auto simp: to_ascii_lowercase_def)

lemma lower_keeps: "\<not> is_ascii_uppercase c \<Longrightarrow> c \<in> set s \<Longrightarrow> c \<in> set (map to_ascii_lowercase s)"
  by (force simp: to_ascii_lowercase_def)

text \<open>\<open>join\<close> with a separator of several characters.\<close>

fun join_str :: "string \<Rightarrow> string list \<Rightarrow> string" where
  "join_str sep [] = []"
| "join_str sep [p] = p"
| "join_str sep (p # q # ps) = p @ sep @ join_str sep (q # ps)"

end
