(* ===== verification/Values.thy ===== *)
theory Values
  imports Rust_Text
begin

text \<open>
  The scalar values of a machine spec, from \<^verbatim>\<open>firestone-core/src/spec/value.rs\<close>:
  \<open>Arch\<close>, \<open>ByteSize\<close>, \<open>ImageRef\<close>, \<open>MacAddr\<close>, \<open>Firmware\<close> and \<open>HumanDuration\<close>,
  each with the parser behind \<open>FromStr\<close> and serde and the printer behind \<open>Display\<close>.

  A common contract ties them together: printing a value that a parser produced and parsing
  the text again gives the same value, which is what makes a spec survive its trip through
  \<open>firestone.toml\<close> and the REST API. It is the locale \<open>scalar_codec\<close>, interpreted for every
  type below.
\<close>

section \<open>Architectures\<close>

datatype Arch = X86_64 | Aarch64

fun arch_as_str :: "Arch \<Rightarrow> string" where
  "arch_as_str X86_64 = ''x86_64''"
| "arch_as_str Aarch64 = ''aarch64''"

text \<open>\<open>Arch::current\<close>, with \<open>std::env::consts::ARCH\<close> as its argument.\<close>

definition arch_current :: "string \<Rightarrow> (string, Arch) result" where
  "arch_current host =
     (if host = ''x86_64'' then Inr X86_64
      else if host = ''aarch64'' then Inr Aarch64
      else Inl (''unsupported host architecture '' @ quoted host))"

section \<open>Sizes\<close>

datatype ByteSize = ByteSize (as_bytes: u64)

datatype ParseByteSizeError = ParseByteSizeError

definition MIB :: u64 where "MIB = 1024 * 1024"
definition GIB :: u64 where "GIB = 1024 * MIB"

definition BUILTIN_MEMORY :: ByteSize where "BUILTIN_MEMORY = ByteSize (2 * GIB)"
definition BUILTIN_DISK :: ByteSize where "BUILTIN_DISK = ByteSize (20 * GIB)"
definition MINIMUM_MEMORY :: ByteSize where "MINIMUM_MEMORY = ByteSize (128 * MIB)"

definition checked_mul :: "u64 \<Rightarrow> u64 \<Rightarrow> u64 option" where
  "checked_mul a b = (if unat a * unat b < 2 ^ 64 then Some (a * b) else None)"

definition from_mib :: "u64 \<Rightarrow> (ParseByteSizeError, ByteSize) result" where
  "from_mib value = (case checked_mul value MIB of
     Some bytes \<Rightarrow> Inr (ByteSize bytes) | None \<Rightarrow> Inl ParseByteSizeError)"

definition from_gib :: "u64 \<Rightarrow> (ParseByteSizeError, ByteSize) result" where
  "from_gib value = (case checked_mul value GIB of
     Some bytes \<Rightarrow> Inr (ByteSize bytes) | None \<Rightarrow> Inl ParseByteSizeError)"

definition as_mib :: "ByteSize \<Rightarrow> u64" where
  "as_mib b = as_bytes b div MIB"

definition bytesize_display :: "ByteSize \<Rightarrow> string" where
  "bytesize_display b =
     (if as_bytes b mod GIB = 0
      then show_nat (unat (as_bytes b div GIB)) @ ''G''
      else show_nat (unat (as_bytes b div MIB)) @ ''M'')"

definition bytesize_from_str :: "string \<Rightarrow> (ParseByteSizeError, ByteSize) result" where
  "bytesize_from_str text =
     (let value = trim text
      in if value = [] then Inl ParseByteSizeError
         else
           let c = last value;
               parsed = (if c = CHR ''M'' \<or> c = CHR ''m'' then Some (butlast value, MIB)
                         else if c = CHR ''G'' \<or> c = CHR ''g'' then Some (butlast value, GIB)
                         else if is_ascii_digit c then Some (value, MIB)
                         else None)
           in (case parsed of
                 None \<Rightarrow> Inl ParseByteSizeError
               | Some (number, multiplier) \<Rightarrow>
                   if number = [] \<or> \<not> list_all is_ascii_digit number
                   then Inl ParseByteSizeError
                   else (case parse_u64 number of
                           None \<Rightarrow> Inl ParseByteSizeError
                         | Some amount \<Rightarrow>
                             if multiplier = GIB then from_gib amount else from_mib amount)))"

text \<open>The serde visitor: a number of MiB or the text form.\<close>

datatype size_scalar = VisitU64 u64 | VisitI64 int | VisitStr string

fun bytesize_deserialize :: "size_scalar \<Rightarrow> (ParseByteSizeError, ByteSize) result" where
  "bytesize_deserialize (VisitU64 value) = from_mib value"
| "bytesize_deserialize (VisitI64 value) =
     (if value < 0 then Inl ParseByteSizeError else from_mib (of_int value))"
| "bytesize_deserialize (VisitStr value) = bytesize_from_str value"

section \<open>Image references\<close>

datatype ImageRef = ImageRef (image_as_str: string)

definition image_ref_default :: ImageRef where
  "image_ref_default = ImageRef ''ubuntu:24.04''"

section \<open>MAC addresses\<close>

datatype MacAddr = MacAddr (octets: "u8 list")

datatype ParseMacAddrError = ParseMacAddrError

text \<open>The loop over the six octets of the array, consuming one \<open>:\<close>-separated part each.\<close>

fun mac_octets :: "nat \<Rightarrow> string list \<Rightarrow> (u8 list \<times> string list) option" where
  "mac_octets 0 parts = Some ([], parts)"
| "mac_octets (Suc n) [] = None"
| "mac_octets (Suc n) (part # parts) =
     (if length part \<noteq> 2 then None
      else (case parse_u8_hex part of
              None \<Rightarrow> None
            | Some octet \<Rightarrow>
                (case mac_octets n parts of
                   None \<Rightarrow> None
                 | Some (os, rest) \<Rightarrow> Some (octet # os, rest))))"

definition mac_from_str :: "string \<Rightarrow> (ParseMacAddrError, MacAddr) result" where
  "mac_from_str value =
     (case mac_octets 6 (split_on (CHR '':'') value) of
        None \<Rightarrow> Inl ParseMacAddrError
      | Some (os, rest) \<Rightarrow> if rest \<noteq> [] then Inl ParseMacAddrError else Inr (MacAddr os))"

definition mac_display :: "MacAddr \<Rightarrow> string" where
  "mac_display mac = join_with (CHR '':'') (map (\<lambda>o'. show_hex2 (unat o')) (octets mac))"

section \<open>Firmware\<close>

datatype Firmware = FwAuto | FwRhf | FwEdk2 | FwPath string

datatype ParseFirmwareError = ParseFirmwareError

definition firmware_path :: "string \<Rightarrow> (ParseFirmwareError, Firmware) result" where
  "firmware_path path =
     (if \<not> is_utf8 path then Inl ParseFirmwareError
      else if path = [] \<or> path \<in> {''auto'', ''rhf'', ''edk2''} then Inl ParseFirmwareError
      else Inr (FwPath path))"

fun as_path :: "Firmware \<Rightarrow> string option" where
  "as_path (FwPath path) = Some path"
| "as_path FwAuto = None"
| "as_path FwRhf = None"
| "as_path FwEdk2 = None"

definition is_edk2 :: "Firmware \<Rightarrow> bool" where
  "is_edk2 f \<longleftrightarrow> f = FwEdk2"

fun edk2_file_name :: "Arch \<Rightarrow> string" where
  "edk2_file_name X86_64 = ''CLOUDHV.fd''"
| "edk2_file_name Aarch64 = ''CLOUDHV_EFI.fd''"

datatype CatalogFirmware = CatalogRhf | CatalogEdk2

fun firmware_from_catalog :: "CatalogFirmware \<Rightarrow> Firmware" where
  "firmware_from_catalog CatalogRhf = FwRhf"
| "firmware_from_catalog CatalogEdk2 = FwEdk2"

fun firmware_display :: "Firmware \<Rightarrow> string" where
  "firmware_display FwAuto = ''auto''"
| "firmware_display FwRhf = ''rhf''"
| "firmware_display FwEdk2 = ''edk2''"
| "firmware_display (FwPath path) = path"

definition firmware_from_str :: "string \<Rightarrow> (ParseFirmwareError, Firmware) result" where
  "firmware_from_str value =
     (if value = ''auto'' then Inr FwAuto
      else if value = ''rhf'' then Inr FwRhf
      else if value = ''edk2'' then Inr FwEdk2
      else firmware_path value)"

section \<open>Durations\<close>

text \<open>\<open>HumanDuration\<close> holds a \<open>Duration\<close> of whole seconds.\<close>

datatype HumanDuration = HumanDuration (as_secs: u64)

datatype ParseDurationError = ParseDurationError

definition DEFAULT_FIRST_BOOT_TIMEOUT :: HumanDuration where
  "DEFAULT_FIRST_BOOT_TIMEOUT = HumanDuration 300"
definition DEFAULT_START_TIMEOUT :: HumanDuration where
  "DEFAULT_START_TIMEOUT = HumanDuration 60"
definition DEFAULT_STOP_TIMEOUT :: HumanDuration where
  "DEFAULT_STOP_TIMEOUT = HumanDuration 30"

definition from_secs :: "u64 \<Rightarrow> (ParseDurationError, HumanDuration) result" where
  "from_secs seconds =
     (if seconds = 0 then Inl ParseDurationError else Inr (HumanDuration seconds))"

definition duration_display :: "HumanDuration \<Rightarrow> string" where
  "duration_display d = show_nat (unat (as_secs d)) @ ''s''"

definition duration_from_str :: "string \<Rightarrow> (ParseDurationError, HumanDuration) result" where
  "duration_from_str text =
     (let value = trim text
      in (case strip_suffix ''s'' value of
            None \<Rightarrow> Inl ParseDurationError
          | Some number \<Rightarrow>
              if number = [] \<or> \<not> list_all is_ascii_digit number then Inl ParseDurationError
              else (case parse_u64 number of
                      None \<Rightarrow> Inl ParseDurationError
                    | Some amount \<Rightarrow> from_secs amount)))"

section \<open>Size laws\<close>

text \<open>Every size the code can build is a whole number of MiB.\<close>

definition bytesize_valid :: "ByteSize \<Rightarrow> bool" where
  "bytesize_valid b \<longleftrightarrow> unat (as_bytes b) mod unat MIB = 0"

lemma unat_MIB [simp]: "unat MIB = 1048576"
  by (simp add: MIB_def)

lemma unat_GIB [simp]: "unat GIB = 1073741824"
  by (simp add: GIB_def MIB_def)

lemma MIB_neq_GIB [simp]: "MIB \<noteq> GIB"
  by (simp add: GIB_def MIB_def)

lemma checked_mul_Some [word_facts]:
  "checked_mul a b = Some c \<Longrightarrow> unat c = unat a * unat b"
  by (auto simp: checked_mul_def unat_word_ariths split: if_splits)

lemma checked_mul_div:
  assumes "unat x mod unat m = 0"
  shows "checked_mul (x div m) m = Some x"
proof -
  have eq: "unat (x div m) * unat m = unat x"
    using assms by (simp add: unat_div mod_0_imp_dvd)
  have "unat ((x div m) * m) = unat (x div m) * unat m mod 2 ^ 64"
    by (simp only: unat_word_ariths(2)) simp
  also have "\<dots> = unat x" by (simp only: eq) simp
  finally have "unat ((x div m) * m) = unat x" .
  then have "(x div m) * m = x" by (simp only: word_unat_eq_iff)
  with eq show ?thesis by (simp add: checked_mul_def)
qed

lemma from_mib_Inr: "from_mib n = Inr b \<Longrightarrow> unat (as_bytes b) = unat n * 1048576"
  by (auto simp: from_mib_def dest: checked_mul_Some split: option.splits)

lemma from_gib_Inr: "from_gib n = Inr b \<Longrightarrow> unat (as_bytes b) = unat n * 1073741824"
  by (auto simp: from_gib_def dest: checked_mul_Some split: option.splits)

lemma from_mib_valid: "from_mib n = Inr b \<Longrightarrow> bytesize_valid b"
  by (simp add: bytesize_valid_def from_mib_Inr)

lemma from_gib_valid: "from_gib n = Inr b \<Longrightarrow> bytesize_valid b"
proof -
  assume "from_gib n = Inr b"
  then have "unat (as_bytes b) = (unat n * 1024) * 1048576"
    by (simp add: from_gib_Inr)
  then show ?thesis by (simp add: bytesize_valid_def)
qed

lemma bytesize_from_str_valid: "bytesize_from_str s = Inr b \<Longrightarrow> bytesize_valid b"
  by (auto simp: bytesize_from_str_def Let_def intro: from_mib_valid from_gib_valid
      split: if_splits option.splits)

lemma hd_show_plain [simp]: "plain_char (hd (show_nat n @ t))"
proof -
  have "is_ascii_digit (hd (show_nat n))"
    using show_nat_digits [of n] by (simp add: list_all_iff)
  then show ?thesis by (simp add: hd_append alnum_plain)
qed

lemma trim_show_suffix: "plain_char c \<Longrightarrow> trim (show_nat n @ [c]) = show_nat n @ [c]"
  by (intro trim_plain disjI2 conjI) (simp_all only: hd_show_plain last_snoc)

lemma bytesize_parse_suffix:
  "bytesize_from_str (show_nat (unat w) @ ''G'') = from_gib w"
  "bytesize_from_str (show_nat (unat w) @ ''M'') = from_mib w"
  using show_nat_digits [of "unat w"]
  by (simp_all add: bytesize_from_str_def trim_show_suffix plain_char_def Let_def)

lemma bytesize_parse_display:
  assumes "bytesize_valid b"
  shows "bytesize_from_str (bytesize_display b) = Inr b"
proof (cases "as_bytes b mod GIB = 0")
  case True
  then have "unat (as_bytes b) mod unat GIB = 0" by (metis unat_0 unat_mod)
  then have "checked_mul (as_bytes b div GIB) GIB = Some (as_bytes b)"
    by (rule checked_mul_div)
  with True show ?thesis
    by (simp add: bytesize_display_def bytesize_parse_suffix from_gib_def)
next
  case False
  from assms have "checked_mul (as_bytes b div MIB) MIB = Some (as_bytes b)"
    by (intro checked_mul_div) (simp add: bytesize_valid_def)
  with False show ?thesis
    by (simp add: bytesize_display_def bytesize_parse_suffix from_mib_def)
qed

interpretation bytesize: scalar_codec bytesize_from_str bytesize_display bytesize_valid
  by unfold_locales (fact bytesize_from_str_valid, fact bytesize_parse_display)

lemma bytesize_deserialize_valid: "bytesize_deserialize v = Inr b \<Longrightarrow> bytesize_valid b"
  by (cases v) (auto intro: from_mib_valid bytesize_from_str_valid split: if_splits)

lemma builtin_sizes_valid:
  "bytesize_valid BUILTIN_MEMORY" "bytesize_valid BUILTIN_DISK" "bytesize_valid MINIMUM_MEMORY"
  by (simp_all add: bytesize_valid_def BUILTIN_MEMORY_def BUILTIN_DISK_def MINIMUM_MEMORY_def
      GIB_def MIB_def)

section \<open>Duration laws\<close>

definition duration_valid :: "HumanDuration \<Rightarrow> bool" where
  "duration_valid d \<longleftrightarrow> as_secs d \<noteq> 0"

lemma duration_from_str_valid: "duration_from_str s = Inr d \<Longrightarrow> duration_valid d"
  by (auto simp: duration_from_str_def from_secs_def duration_valid_def Let_def
      split: option.splits if_splits)

lemma duration_parse_display:
  "duration_valid d \<Longrightarrow> duration_from_str (duration_display d) = Inr d"
  using show_nat_digits [of "unat (as_secs d)"]
  by (simp add: duration_from_str_def duration_display_def trim_show_suffix plain_char_def
      from_secs_def duration_valid_def)

interpretation duration: scalar_codec duration_from_str duration_display duration_valid
  by unfold_locales (fact duration_from_str_valid, fact duration_parse_display)

section \<open>Firmware laws\<close>

definition firmware_valid :: "Firmware \<Rightarrow> bool" where
  "firmware_valid f \<longleftrightarrow>
     (case f of
        FwPath p \<Rightarrow> is_utf8 p \<and> p \<noteq> [] \<and> p \<notin> {''auto'', ''rhf'', ''edk2''}
      | _ \<Rightarrow> True)"

lemma firmware_path_Inr [result_simps]:
  "firmware_path p = Inr f \<longleftrightarrow> f = FwPath p \<and> firmware_valid (FwPath p)"
  by (auto simp: firmware_path_def firmware_valid_def)

lemma firmware_from_str_valid: "firmware_from_str s = Inr f \<Longrightarrow> firmware_valid f"
  by (auto simp: firmware_from_str_def firmware_path_Inr firmware_valid_def split: if_splits)

lemma firmware_parse_display: "firmware_valid f \<Longrightarrow> firmware_from_str (firmware_display f) = Inr f"
  by (cases f) (auto simp: firmware_from_str_def firmware_path_def firmware_valid_def)

interpretation firmware: scalar_codec firmware_from_str firmware_display firmware_valid
  by unfold_locales (fact firmware_from_str_valid, fact firmware_parse_display)

section \<open>MAC address laws\<close>

definition mac_valid :: "MacAddr \<Rightarrow> bool" where
  "mac_valid m \<longleftrightarrow> length (octets m) = 6"

lemma mac_octets_length:
  "mac_octets n parts = Some (os, rest) \<Longrightarrow> length os = n \<and> length parts = n + length rest"
  by (induction n parts arbitrary: os rest rule: mac_octets.induct)
     (auto split: option.splits if_splits)

lemma mac_from_str_valid: "mac_from_str s = Inr m \<Longrightarrow> mac_valid m"
  using mac_octets_length [of 6]
  by (auto simp: mac_from_str_def mac_valid_def split: option.splits if_splits)

lemma show_hex2_digits:
  assumes "n < 256"
  shows "length (show_hex2 n) = 2" and "digits_value 16 0 (show_hex2 n) = Some n"
proof -
  have len: "length (show_radix 16 n) \<le> 2"
    using assms by (intro show_radix_length) simp_all
  then show "length (show_hex2 n) = 2" by (simp add: show_hex2_def Let_def)
  have "0 < length (show_radix 16 n)" by simp
  with len consider "length (show_radix 16 n) = 1" | "length (show_radix 16 n) = 2" by linarith
  then show "digits_value 16 0 (show_hex2 n) = Some n"
    by cases (simp_all add: show_hex2_def to_digit_def digits_value_show)
qed

lemma set_show_hex2: "c \<in> set (show_hex2 n) \<Longrightarrow> is_ascii_lowercase c \<or> is_ascii_digit c"
  by (auto simp: show_hex2_def Let_def is_ascii_digit_def dest: show_radix_alnum [rotated 2])

lemma strip_plus_hex2 [simp]: "n < 256 \<Longrightarrow> strip_plus (show_hex2 n) = show_hex2 n"
proof (rule strip_plus_id, rule disjI2)
  assume "n < 256"
  then have "show_hex2 n \<noteq> []" using show_hex2_digits(1) by fastforce
  then have "is_ascii_lowercase (hd (show_hex2 n)) \<or> is_ascii_digit (hd (show_hex2 n))"
    using set_show_hex2 hd_in_set by blast
  then show "hd (show_hex2 n) \<noteq> CHR ''+''"
    by (auto simp: is_ascii_lowercase_def is_ascii_digit_def)
qed

lemma parse_u8_hex_show [simp]: "parse_u8_hex (show_hex2 (unat (w :: u8))) = Some w"
proof -
  have "show_hex2 (unat w) \<noteq> []"
    using show_hex2_digits(1) [of "unat w"] by fastforce
  then show ?thesis
    by (simp add: parse_u8_hex_def from_str_radix_def show_hex2_digits)
qed

lemma mac_octets_show: "mac_octets (length os) (map (\<lambda>w. show_hex2 (unat w)) os) = Some (os, [])"
  by (induction os) (simp_all add: show_hex2_digits)

lemma mac_parse_display:
  assumes "mac_valid m"
  shows "mac_from_str (mac_display m) = Inr m"
proof -
  have ne: "octets m \<noteq> []" using assms by (auto simp: mac_valid_def)
  have sep: "\<forall>p \<in> set (map (\<lambda>w. show_hex2 (unat w)) (octets m)). CHR '':'' \<notin> set p"
    using set_show_hex2 by (fastforce simp: is_ascii_lowercase_def is_ascii_digit_def)
  have "split_on (CHR '':'') (mac_display m) = map (\<lambda>w. show_hex2 (unat w)) (octets m)"
    unfolding mac_display_def using ne sep by (intro split_on_join) simp_all
  then show ?thesis
    using assms mac_octets_show [of "octets m"] by (simp add: mac_from_str_def mac_valid_def)
qed

interpretation mac: scalar_codec mac_from_str mac_display mac_valid
  by unfold_locales (fact mac_from_str_valid, fact mac_parse_display)

section \<open>Properties\<close>

lemma parse_u64_show_nat:
  "parse_u64 (show_nat n) = (if n < 2 ^ 64 then Some (of_nat n) else None)"
  by (simp add: parse_u64_def from_str_radix_def digits_value_show)

lemma checked_mul_of_nat:
  assumes "n < 2 ^ 64"
  shows "checked_mul (of_nat n) m =
           (if n * unat m < 2 ^ 64 then Some (of_nat (n * unat m)) else None)"
  using assms by (simp add: checked_mul_def unat_of_nat_u64)

lemma mul_below: "0 < (k :: nat) \<Longrightarrow> n * k < b \<Longrightarrow> n < b"
  by (metis One_nat_def Suc_leI less_le_trans linorder_not_le mult_le_mono2 nat_mult_1_right)

text \<open>
  C37. A size written as a number of GiB or MiB is read as exactly that many bytes when it fits in
  64 bits, and refused when it does not: the multiplication never wraps, whatever the number of
  digits.
\<close>

theorem size_text_exact:
  "bytesize_from_str (show_nat n @ ''G'') =
     (if n * 1073741824 < 2 ^ 64 then Inr (ByteSize (of_nat (n * 1073741824)))
      else Inl ParseByteSizeError)
   \<and> bytesize_from_str (show_nat n @ ''M'') =
     (if n * 1048576 < 2 ^ 64 then Inr (ByteSize (of_nat (n * 1048576)))
      else Inl ParseByteSizeError)"
  by (auto simp: bytesize_from_str_def trim_show_suffix plain_char_def Let_def parse_u64_show_nat
      from_gib_def from_mib_def checked_mul_of_nat show_nat_digits dest: mul_below [rotated])


end
