(* ===== verification/Ip_Text.thy ===== *)
theory Ip_Text
  imports Rust_Text
begin

text \<open>
  \<open>std::net::IpAddr\<close> as text: the recursive-descent parser behind \<open>FromStr\<close> and the
  printer behind \<open>Display\<close>. Port forwards carry an optional bind address and rely on both.

  A parser maps the unread bytes to a value and the rest; \<open>None\<close> leaves the input where it
  was, as \<open>read_atomically\<close> does. The main result is that every address is read back from
  its printed form, with the compressed and the IPv4-mapped forms of IPv6 included.
\<close>

type_synonym 'a parser = "string \<Rightarrow> ('a \<times> string) option"

datatype Ipv4Addr = Ipv4Addr u8 u8 u8 u8

datatype Ipv6Addr = Ipv6Addr (segments: "u16 list")

datatype IpAddr = V4 Ipv4Addr | V6 Ipv6Addr

text \<open>\<open>Ipv6Addr\<close> is an array of eight segments; the parser only builds such lists.\<close>

fun ip_valid :: "IpAddr \<Rightarrow> bool" where
  "ip_valid (V4 a) = True"
| "ip_valid (V6 a) = (length (segments a) = 8)"

section \<open>Parsing\<close>

definition is_digit_of :: "nat \<Rightarrow> char \<Rightarrow> bool" where
  "is_digit_of radix c \<longleftrightarrow> to_digit radix c \<noteq> None"

definition read_number :: "nat \<Rightarrow> nat \<Rightarrow> bool \<Rightarrow> nat \<Rightarrow> nat parser" where
  "read_number radix max_digits allow_zero_prefix limit s =
     (let ds = takeWhile (is_digit_of radix) s
      in if length ds > max_digits then None
         else if ds = [] then None
         else if \<not> allow_zero_prefix \<and> hd ds = CHR ''0'' \<and> length ds > 1 then None
         else (case digits_value radix 0 ds of
                 None \<Rightarrow> None
               | Some n \<Rightarrow> if n < limit then Some (n, drop (length ds) s) else None))"

definition read_separator :: "char \<Rightarrow> bool \<Rightarrow> 'a parser \<Rightarrow> 'a parser" where
  "read_separator sep first inner s =
     (if first then inner s
      else (case s of [] \<Rightarrow> None | c # cs \<Rightarrow> if c = sep then inner cs else None))"

definition read_octet :: "bool \<Rightarrow> u8 parser" where
  "read_octet first s =
     map_option (\<lambda>(n, r). (of_nat n, r))
       (read_separator (CHR ''.'') first (read_number 10 3 False 256) s)"

definition read_ipv4_addr :: "Ipv4Addr parser" where
  "read_ipv4_addr s =
     (case read_octet True s of None \<Rightarrow> None | Some (a, s1) \<Rightarrow>
      (case read_octet False s1 of None \<Rightarrow> None | Some (b, s2) \<Rightarrow>
      (case read_octet False s2 of None \<Rightarrow> None | Some (c, s3) \<Rightarrow>
      (case read_octet False s3 of None \<Rightarrow> None | Some (d, s4) \<Rightarrow>
         Some (Ipv4Addr a b c d, s4)))))"

definition u16_of_octets :: "u8 \<Rightarrow> u8 \<Rightarrow> u16" where
  "u16_of_octets a b = of_nat (unat a * 256 + unat b)"

fun ipv4_segments :: "Ipv4Addr \<Rightarrow> u16 list" where
  "ipv4_segments (Ipv4Addr a b c d) = [u16_of_octets a b, u16_of_octets c d]"

text \<open>
  \<open>read_groups\<close> fills up to \<open>k\<close> more slots. A trailing IPv4 address takes two slots and is
  tried only while at least two are left; it ends the run of groups.
\<close>

fun read_groups :: "nat \<Rightarrow> bool \<Rightarrow> string \<Rightarrow> u16 list \<times> bool \<times> string" where
  "read_groups 0 first s = ([], False, s)"
| "read_groups (Suc k) first s =
     (case (if 0 < k then read_separator (CHR '':'') first read_ipv4_addr s else None) of
        Some (v4, r) \<Rightarrow> (ipv4_segments v4, True, r)
      | None \<Rightarrow>
          (case read_separator (CHR '':'') first (read_number 16 4 True 65536) s of
             None \<Rightarrow> ([], False, s)
           | Some (g, r) \<Rightarrow>
               (let (gs, v4, r') = read_groups k False r in (of_nat g # gs, v4, r'))))"

definition read_ipv6_addr :: "Ipv6Addr parser" where
  "read_ipv6_addr s =
     (let (hd_groups, hd_v4, r) = read_groups 8 True s
      in if length hd_groups = 8 then Some (Ipv6Addr hd_groups, r)
         else if hd_v4 then None
         else (case strip_prefix ''::'' r of
                 None \<Rightarrow> None
               | Some r2 \<Rightarrow>
                   (let (tl_groups, _, r3) = read_groups (8 - (length hd_groups + 1)) True r2
                    in Some (Ipv6Addr (hd_groups
                               @ replicate (8 - length tl_groups - length hd_groups) 0
                               @ tl_groups), r3))))"

definition read_ip_addr :: "IpAddr parser" where
  "read_ip_addr s =
     (case read_ipv4_addr s of
        Some (a, r) \<Rightarrow> Some (V4 a, r)
      | None \<Rightarrow> map_option (\<lambda>(a, r). (V6 a, r)) (read_ipv6_addr s))"

definition ip_from_str :: "string \<Rightarrow> IpAddr option" where
  "ip_from_str s =
     (case read_ip_addr s of None \<Rightarrow> None | Some (a, r) \<Rightarrow> if r = [] then Some a else None)"

section \<open>Printing\<close>

fun ipv4_display :: "Ipv4Addr \<Rightarrow> string" where
  "ipv4_display (Ipv4Addr a b c d) =
     show_nat (unat a) @ ''.'' @ show_nat (unat b) @ ''.'' @
     show_nat (unat c) @ ''.'' @ show_nat (unat d)"

text \<open>\<open>fmt_subslice\<close>: lower-case hexadecimal segments joined with colons.\<close>

definition fmt_subslice :: "u16 list \<Rightarrow> string" where
  "fmt_subslice gs = join_with (CHR '':'') (map (\<lambda>g. show_radix 16 (unat g)) gs)"

text \<open>
  The scan for the first longest run of zero segments: \<open>i\<close> is the position, \<open>(ls, ll)\<close>
  the longest span so far and \<open>(cs, cl)\<close> the current one.
\<close>

fun zero_span :: "nat \<Rightarrow> nat \<times> nat \<Rightarrow> nat \<times> nat \<Rightarrow> u16 list \<Rightarrow> nat \<times> nat" where
  "zero_span i longest current [] = longest"
| "zero_span i (ls, ll) (cs, cl) (g # gs) =
     (if g = 0 then
        (let cur = (if cl = 0 then i else cs, cl + 1)
         in zero_span (i + 1) (if snd cur > ll then cur else (ls, ll)) cur gs)
      else zero_span (i + 1) (ls, ll) (0, 0) gs)"

definition to_ipv4_mapped :: "u16 list \<Rightarrow> Ipv4Addr option" where
  "to_ipv4_mapped gs =
     (if length gs = 8 \<and> take 5 gs = replicate 5 0 \<and> gs ! 5 = 0xFFFF
      then Some (Ipv4Addr (of_nat (unat (gs ! 6) div 256)) (of_nat (unat (gs ! 6) mod 256))
                          (of_nat (unat (gs ! 7) div 256)) (of_nat (unat (gs ! 7) mod 256)))
      else None)"

definition ipv6_display :: "Ipv6Addr \<Rightarrow> string" where
  "ipv6_display a =
     (case to_ipv4_mapped (segments a) of
        Some v4 \<Rightarrow> ''::ffff:'' @ ipv4_display v4
      | None \<Rightarrow>
          (let (start, len) = zero_span 0 (0, 0) (0, 0) (segments a)
           in if len > 1
              then fmt_subslice (take start (segments a)) @ ''::'' @
                   fmt_subslice (drop (start + len) (segments a))
              else fmt_subslice (segments a)))"

fun ip_display :: "IpAddr \<Rightarrow> string" where
  "ip_display (V4 a) = ipv4_display a"
| "ip_display (V6 a) = ipv6_display a"

section \<open>Reading printed numbers\<close>

lemma is_digit_of_show: "2 \<le> b \<Longrightarrow> b \<le> 36 \<Longrightarrow> c \<in> set (show_radix b n) \<Longrightarrow> is_digit_of b c"
  using set_show_radix [of b n] by (auto simp: is_digit_of_def)

lemma takeWhile_show:
  assumes "2 \<le> b" "b \<le> 36" and "r = [] \<or> \<not> is_digit_of b (hd r)"
  shows "takeWhile (is_digit_of b) (show_radix b n @ r) = show_radix b n"
  using assms is_digit_of_show by (cases r) (auto simp: takeWhile_append)

lemma read_number_show:
  assumes "2 \<le> b" "b \<le> 36" "n < limit" "n < b ^ k" "0 < k"
    and "r = [] \<or> \<not> is_digit_of b (hd r)"
  shows "read_number b k z limit (show_radix b n @ r) = Some (n, r)"
proof -
  have "length (show_radix b n) \<le> k"
    using assms by (intro show_radix_length) auto
  moreover have "\<not> (hd (show_radix b n) = CHR ''0'' \<and> length (show_radix b n) > 1)"
  proof (cases "n = 0")
    case True
    then have "length (show_radix b n) = 1" using assms(1) by (subst show_radix.simps) simp
    then show ?thesis by simp
  next
    case False
    then show ?thesis using show_radix_hd_zero [of b n] assms by simp
  qed
  ultimately show ?thesis
    using assms by (auto simp: read_number_def takeWhile_show digits_value_show Let_def)
qed

lemma read_number_hd: "s = [] \<or> \<not> is_digit_of b (hd s) \<Longrightarrow> read_number b k z limit s = None"
  by (cases s) (auto simp: read_number_def)

lemma read_number_suffix: "read_number b k z limit s = Some (n, r) \<Longrightarrow> set r \<subseteq> set s"
  by (auto simp: read_number_def Let_def split: if_splits option.splits dest: in_set_dropD)

section \<open>IPv4\<close>

lemma read_octet_first:
  "r = [] \<or> hd r = CHR ''.'' \<Longrightarrow> read_octet True (show_nat (unat (w :: u8)) @ r) = Some (w, r)"
  unfolding read_octet_def read_separator_def
  by (subst if_P, simp, subst read_number_show)
     (auto simp: is_digit_of_def to_digit_def intro: less_trans [OF unat_u8_less])

lemma read_octet_next:
  "r = [] \<or> hd r = CHR ''.'' \<Longrightarrow>
     read_octet False (CHR ''.'' # show_nat (unat (w :: u8)) @ r) = Some (w, r)"
  using read_octet_first by (simp add: read_octet_def read_separator_def)

lemma read_ipv4_display: "read_ipv4_addr (ipv4_display a) = Some (a, [])"
proof (cases a)
  case (Ipv4Addr a b c d)
  have "read_octet False (CHR ''.'' # show_nat (unat d)) = Some (d, [])"
    using read_octet_next [of "[]"] by simp
  with Ipv4Addr show ?thesis
    by (simp add: read_ipv4_addr_def read_octet_first read_octet_next)
qed

lemma read_octet_first_suffix: "read_octet True s = Some (w, r) \<Longrightarrow> set r \<subseteq> set s"
  by (auto simp: read_octet_def read_separator_def dest: read_number_suffix)

lemma read_ipv4_needs_dot: "CHR ''.'' \<notin> set s \<Longrightarrow> read_ipv4_addr s = None"
proof (cases "read_octet True s")
  case None
  then show ?thesis by (simp add: read_ipv4_addr_def)
next
  case (Some p)
  obtain w r where p: "p = (w, r)" by (cases p)
  assume "CHR ''.'' \<notin> set s"
  with Some p read_octet_first_suffix have "CHR ''.'' \<notin> set r" by blast
  then have "read_octet False r = None"
    by (cases r) (auto simp: read_octet_def read_separator_def)
  with Some p show ?thesis by (simp add: read_ipv4_addr_def)
qed

section \<open>IPv6 groups\<close>

text \<open>A group cannot be read at the end, nor at a colon that a digit does not follow.\<close>

definition stops :: "bool \<Rightarrow> string \<Rightarrow> bool" where
  "stops first r \<longleftrightarrow>
     (if first then r = [] \<or> \<not> is_digit_of 16 (hd r)
      else r = [] \<or> hd r \<noteq> CHR '':'' \<or> tl r = [] \<or> \<not> is_digit_of 16 (hd (tl r)))"

lemma read_separator_stops:
  "stops first r \<Longrightarrow> read_separator (CHR '':'') first (read_number 16 4 True 65536) r = None"
  by (cases r; cases "tl r") (auto simp: stops_def read_separator_def read_number_hd)

lemma read_separator_no_dot:
  "CHR ''.'' \<notin> set s \<Longrightarrow> read_separator sep first read_ipv4_addr s = None"
  by (cases s) (auto simp: read_separator_def read_ipv4_needs_dot)

lemma read_groups_stops:
  "CHR ''.'' \<notin> set r \<Longrightarrow> stops first r \<Longrightarrow> read_groups k first r = ([], False, r)"
  by (cases k) (simp_all add: read_separator_no_dot read_separator_stops)

lemma colon_not_hex: "\<not> is_digit_of 16 (CHR '':'')"
  by (simp add: is_digit_of_def to_digit_def)

lemma read_group_show:
  "r = [] \<or> hd r = CHR '':'' \<Longrightarrow>
     read_number 16 4 True 65536 (show_radix 16 (unat (g :: u16)) @ r) = Some (unat g, r)"
  by (subst read_number_show) (auto simp: colon_not_hex)

text \<open>The text of a run of groups that follows another group.\<close>

definition colon_groups :: "u16 list \<Rightarrow> string" where
  "colon_groups gs = concat (map (\<lambda>g. CHR '':'' # show_radix 16 (unat g)) gs)"

lemma fmt_subslice_Cons: "fmt_subslice (g # gs) = show_radix 16 (unat g) @ colon_groups gs"
proof (induction gs arbitrary: g)
  case Nil
  then show ?case by (simp add: fmt_subslice_def colon_groups_def)
next
  case (Cons h hs)
  then show ?case by (simp add: fmt_subslice_def colon_groups_def)
qed

lemma hex_no_dot [simp]: "CHR ''.'' \<notin> set (show_radix 16 n)"
  by (rule show_radix_no_sep) (simp_all add: is_ascii_lowercase_def is_ascii_digit_def)

lemma colon_groups_no_dot [simp]: "CHR ''.'' \<notin> set (colon_groups gs)"
  by (auto simp: colon_groups_def)

lemma fmt_subslice_no_dot [simp]: "CHR ''.'' \<notin> set (fmt_subslice gs)"
  by (cases gs) (simp_all add: fmt_subslice_Cons, simp add: fmt_subslice_def)

lemma colon_groups_hd: "colon_groups gs @ r = [] \<or> hd (colon_groups gs @ r) = CHR '':''"
  if "r = [] \<or> hd r = CHR '':''"
  using that by (cases gs) (auto simp: colon_groups_def)

lemma read_groups_colon:
  assumes "CHR ''.'' \<notin> set r" "stops False r" "r = [] \<or> hd r = CHR '':''" "length gs \<le> k"
  shows "read_groups k False (colon_groups gs @ r) = (gs, False, r)"
  using assms(4)
proof (induction gs arbitrary: k)
  case Nil
  then show ?case using assms by (simp add: colon_groups_def read_groups_stops)
next
  case (Cons g gs)
  then obtain k' where k: "k = Suc k'" and le: "length gs \<le> k'" by (cases k) auto
  have eq: "colon_groups (g # gs) @ r = CHR '':'' # show_radix 16 (unat g) @ (colon_groups gs @ r)"
    by (simp add: colon_groups_def)
  have nodot: "CHR ''.'' \<notin> set (CHR '':'' # show_radix 16 (unat g) @ (colon_groups gs @ r))"
    using assms(1) by simp
  have gr: "read_separator (CHR '':'') False (read_number 16 4 True 65536)
              (CHR '':'' # show_radix 16 (unat g) @ (colon_groups gs @ r)) =
            Some (unat g, colon_groups gs @ r)"
    by (simp add: read_separator_def read_group_show [OF colon_groups_hd [OF assms(3)]])
  show ?case
    unfolding eq k read_groups.simps read_separator_no_dot [OF nodot] gr
    using Cons.IH [OF le] by simp
qed

lemma read_groups_fmt:
  assumes "CHR ''.'' \<notin> set r" "r = [] \<or> (\<exists>r'. r = CHR '':'' # CHR '':'' # r')" "length gs \<le> k"
  shows "read_groups k True (fmt_subslice gs @ r) = (gs, False, r)"
proof (cases gs)
  case Nil
  have "stops True r" using assms(2) by (auto simp: stops_def colon_not_hex)
  with Nil assms(1) show ?thesis by (simp add: fmt_subslice_def read_groups_stops)
next
  case (Cons g hs)
  with assms(3) obtain k' where k: "k = Suc k'" and le: "length hs \<le> k'" by (cases k) auto
  have st: "stops False r" using assms(2) by (auto simp: stops_def colon_not_hex)
  have hd: "r = [] \<or> hd r = CHR '':''" using assms(2) by auto
  have nodot: "CHR ''.'' \<notin> set (show_radix 16 (unat g) @ (colon_groups hs @ r))"
    using assms(1) by simp
  have gr: "read_separator (CHR '':'') True (read_number 16 4 True 65536)
              (show_radix 16 (unat g) @ (colon_groups hs @ r)) =
            Some (unat g, colon_groups hs @ r)"
    by (simp add: read_separator_def read_group_show [OF colon_groups_hd [OF hd]])
  show ?thesis
    unfolding Cons k fmt_subslice_Cons append_assoc read_groups.simps
      read_separator_no_dot [OF nodot] gr
    using read_groups_colon [OF assms(1) st hd le] by simp
qed

section \<open>IPv6\<close>

definition is_zero_span :: "u16 list \<Rightarrow> nat \<times> nat \<Rightarrow> bool" where
  "is_zero_span gs p \<longleftrightarrow>
     fst p + snd p \<le> length gs \<and> (\<forall>i. fst p \<le> i \<and> i < fst p + snd p \<longrightarrow> gs ! i = 0)"

lemma zero_span_inv:
  assumes "is_zero_span (pre @ gs) longest" and "is_zero_span pre current"
    and "snd current = 0 \<or> fst current + snd current = length pre"
  shows "is_zero_span (pre @ gs) (zero_span (length pre) longest current gs)"
  using assms
proof (induction gs arbitrary: pre longest current)
  case Nil
  then show ?case by simp
next
  case (Cons g gs)
  obtain ls ll cs cl where lc: "longest = (ls, ll)" "current = (cs, cl)"
    by (cases longest, cases current) auto
  have len: "length (pre @ [g]) = length pre + 1" by simp
  show ?case
  proof (cases "g = 0")
    case False
    then show ?thesis
      using Cons.IH [of "pre @ [g]" "(ls, ll)" "(0, 0)"] Cons.prems
      by (simp add: lc is_zero_span_def)
  next
    case True
    let ?cur = "(if cl = 0 then length pre else cs, cl + 1)"
    have cur: "is_zero_span (pre @ [g]) ?cur" "fst ?cur + snd ?cur = length (pre @ [g])"
      using Cons.prems True by (auto simp: lc is_zero_span_def nth_append)
    have "is_zero_span ((pre @ [g]) @ gs) ?cur"
      using cur True by (auto simp: is_zero_span_def nth_append less_Suc_eq)
    then have "is_zero_span ((pre @ [g]) @ gs) (if snd ?cur > ll then ?cur else (ls, ll))"
      using Cons.prems(1) by (simp add: lc)
    from Cons.IH [OF this cur(1)] cur(2) True show ?thesis
      by (cases "cl = 0"; cases "ll < cl + 1") (simp_all add: lc Let_def)
  qed
qed

lemma zero_span_split:
  assumes "zero_span 0 (0, 0) (0, 0) gs = (start, len)"
  shows "gs = take start gs @ replicate len 0 @ drop (start + len) gs" "start + len \<le> length gs"
proof -
  have z: "is_zero_span gs (start, len)"
    using zero_span_inv [of "[]" gs "(0, 0)" "(0, 0)"] assms by (simp add: is_zero_span_def)
  then show le: "start + len \<le> length gs" by (simp add: is_zero_span_def)
  have "take len (drop start gs) = replicate len 0"
    using z le by (intro nth_equalityI) (auto simp: is_zero_span_def)
  then show "gs = take start gs @ replicate len 0 @ drop (start + len) gs"
    by (metis append_take_drop_id add.commute drop_drop)
qed

lemma u16_of_octets_split: "u16_of_octets (of_nat (unat (g :: u16) div 256)) (of_nat (unat g mod 256)) = g"
proof -
  have "unat g div 256 < 256" using unat_u16_less [of g] by linarith
  then have "unat (of_nat (unat g div 256) :: u8) = unat g div 256"
    by (simp add: unat_of_nat)
  moreover have "unat (of_nat (unat g mod 256) :: u8) = unat g mod 256"
    by (simp add: unat_of_nat)
  ultimately show ?thesis by (simp add: u16_of_octets_def)
qed

lemma to_ipv4_mapped_segments:
  assumes "to_ipv4_mapped gs = Some v4"
  shows "gs = replicate 5 0 @ 0xFFFF # ipv4_segments v4"
proof -
  from assms have h: "length gs = 8" "take 5 gs = replicate 5 0" "gs ! 5 = 0xFFFF"
    and v: "v4 = Ipv4Addr (of_nat (unat (gs ! 6) div 256)) (of_nat (unat (gs ! 6) mod 256))
                          (of_nat (unat (gs ! 7) div 256)) (of_nat (unat (gs ! 7) mod 256))"
    by (auto simp: to_ipv4_mapped_def split: if_splits)
  have "drop 5 gs = [gs ! 5, gs ! 6, gs ! 7]"
    using h(1) by (intro nth_equalityI) (auto simp: less_Suc_eq numeral_eq_Suc)
  then have "gs = take 5 gs @ [gs ! 5, gs ! 6, gs ! 7]" by (metis append_take_drop_id)
  with h v show ?thesis by (simp add: u16_of_octets_split)
qed

lemma read_ipv6_mapped:
  "read_ipv6_addr (''::ffff:'' @ ipv4_display v4) =
     Some (Ipv6Addr (replicate 5 0 @ 0xFFFF # ipv4_segments v4), [])"
proof -
  have ffff: "show_radix 16 65535 = ''ffff''"
    by (simp add: show_radix.simps digit_char_def char_of_def bit_0)
  have no4: "read_ipv4_addr (''ffff:'' @ ipv4_display v4) = None"
    by (simp add: read_ipv4_addr_def read_octet_def read_separator_def read_number_hd
        is_digit_of_def to_digit_def)
  have g: "read_number 16 4 True 65536 (''ffff:'' @ ipv4_display v4) =
             Some (0xFFFF, CHR '':'' # ipv4_display v4)"
    using read_group_show [of "CHR '':'' # ipv4_display v4" "0xFFFF"] by (simp add: ffff)
  have gs: "read_groups 7 True (''ffff:'' @ ipv4_display v4) =
              (0xFFFF # ipv4_segments v4, True, [])"
    using no4 g read_groups.simps(2) [of 6 True "''ffff:'' @ ipv4_display v4"]
      read_groups.simps(2) [of 5 False "CHR '':'' # ipv4_display v4"]
    by (simp add: read_separator_def read_ipv4_display)
  have len: "length (ipv4_segments v4) = 2" by (cases v4) simp
  have "read_groups 8 True (''::ffff:'' @ ipv4_display v4) = ([], False, ''::ffff:'' @ ipv4_display v4)"
    using read_groups.simps(2) [of 7 True "''::ffff:'' @ ipv4_display v4"]
    by (simp add: read_separator_def read_number_hd read_ipv4_addr_def
        read_octet_def is_digit_of_def to_digit_def)
  with gs len show ?thesis
    by (simp add: read_ipv6_addr_def)
qed

lemma read_ipv6_display:
  assumes "length gs = 8"
  shows "read_ipv6_addr (ipv6_display (Ipv6Addr gs)) = Some (Ipv6Addr gs, [])"
proof (cases "to_ipv4_mapped gs")
  case (Some v4)
  then show ?thesis
    by (simp add: ipv6_display_def read_ipv6_mapped to_ipv4_mapped_segments [OF Some, symmetric]
        del: ipv4_segments.simps append.simps)
next
  case None
  obtain start len where z: "zero_span 0 (0, 0) (0, 0) gs = (start, len)" by fastforce
  note parts = zero_span_split [OF z]
  show ?thesis
  proof (cases "len > 1")
    case True
    let ?h = "take start gs" and ?t = "drop (start + len) gs"
    have printed: "ipv6_display (Ipv6Addr gs) = fmt_subslice ?h @ ''::'' @ fmt_subslice ?t"
      using None z True by (simp add: ipv6_display_def)
    have h: "read_groups 8 True (fmt_subslice ?h @ ''::'' @ fmt_subslice ?t) =
               (?h, False, ''::'' @ fmt_subslice ?t)"
      using assms by (intro read_groups_fmt) simp_all
    have t: "read_groups (7 - start) True (fmt_subslice ?t) = (?t, False, [])"
      using read_groups_fmt [of "[]" ?t "7 - start"] assms True by simp
    have "start + len \<le> 8" using parts(2) assms by simp
    with h t True assms parts(1) show ?thesis
      by (simp add: printed read_ipv6_addr_def min_def)
  next
    case False
    then have "ipv6_display (Ipv6Addr gs) = fmt_subslice gs"
      using None z by (simp add: ipv6_display_def)
    with assms show ?thesis
      using read_groups_fmt [of "[]" gs 8] by (simp add: read_ipv6_addr_def)
  qed
qed

lemma read_ipv4_ipv6_display: "length gs = 8 \<Longrightarrow> read_ipv4_addr (ipv6_display (Ipv6Addr gs)) = None"
proof (cases "to_ipv4_mapped gs")
  case (Some v4)
  then show ?thesis
    by (simp add: ipv6_display_def read_ipv4_addr_def read_octet_def read_separator_def
        read_number_hd is_digit_of_def to_digit_def)
next
  case None
  then have "CHR ''.'' \<notin> set (ipv6_display (Ipv6Addr gs))"
    by (simp add: ipv6_display_def split: prod.split)
  then show ?thesis by (rule read_ipv4_needs_dot)
qed

section \<open>The codec law\<close>

lemma read_groups_length: "length (fst (read_groups k first s)) \<le> k"
proof (induction k first s rule: read_groups.induct)
  case (1 first s)
  then show ?case by simp
next
  case (2 k first s)
  have "length (ipv4_segments a) = 2" for a by (cases a) simp
  then show ?case using 2
    by (auto split: option.splits prod.splits simp: Let_def)
qed

lemma read_ipv6_valid: "read_ipv6_addr s = Some (a, r) \<Longrightarrow> length (segments a) = 8"
proof -
  assume a: "read_ipv6_addr s = Some (a, r)"
  obtain h v4 r1 where h: "read_groups 8 True s = (h, v4, r1)" by (cases "read_groups 8 True s")
  have hl: "length h \<le> 8" using read_groups_length [of 8 True s] h by simp
  have tl: "length (fst (read_groups (7 - length h) True x)) \<le> 7 - length h" for x
    by (rule read_groups_length)
  show ?thesis
  proof (cases "length h = 8")
    case True
    with a h show ?thesis by (auto simp: read_ipv6_addr_def)
  next
    case False
    with a h obtain r2 where r2: "strip_prefix ''::'' r1 = Some r2"
      by (auto simp: read_ipv6_addr_def split: if_splits option.splits)
    obtain t b r3 where t: "read_groups (7 - length h) True r2 = (t, b, r3)"
      by (cases "read_groups (7 - length h) True r2")
    have "length t \<le> 7 - length h" using tl [of r2] t by simp
    with a h r2 t False hl show ?thesis
      by (auto simp: read_ipv6_addr_def split: if_splits)
  qed
qed

definition ip_parse :: "string \<Rightarrow> (unit, IpAddr) result" where
  "ip_parse s = ok_or () (ip_from_str s)"

lemma ip_from_str_display: "ip_valid a \<Longrightarrow> ip_from_str (ip_display a) = Some a"
proof (cases a)
  case (V4 x)
  then show ?thesis by (simp add: ip_from_str_def read_ip_addr_def read_ipv4_display)
next
  case (V6 x)
  assume "ip_valid a"
  with V6 show ?thesis
    by (cases x) (simp add: ip_from_str_def read_ip_addr_def read_ipv6_display read_ipv4_ipv6_display)
qed

lemma ip_from_str_valid: "ip_from_str s = Some a \<Longrightarrow> ip_valid a"
  by (auto simp: ip_from_str_def read_ip_addr_def dest: read_ipv6_valid
      split: option.splits if_splits prod.splits)

interpretation ip: scalar_codec ip_parse ip_display ip_valid
  by unfold_locales (simp_all add: ip_parse_def ip_from_str_valid ip_from_str_display)

end
