(* ===== verification/Port_Forward.thy ===== *)
theory Port_Forward
  imports Ip_Text
begin

text \<open>
  Port forwards, from \<^verbatim>\<open>firestone-core/src/spec/port_forward.rs\<close>: the syntax
  \<^verbatim>\<open>[proto:][bind:]HOST:GUEST\<close> with ports or inclusive port ranges, an IPv4 bind address or a
  bracketed IPv6 one, and the rule that both ranges have the same length.

  The component is a text codec: \<open>PortRange\<close> and \<open>PortForward\<close> interpret
  \<open>scalar_codec\<close>, on top of the codec of \<open>IpAddr\<close>. The error theorems say which refusal
  each malformed part gets.
\<close>

datatype Protocol = Tcp | Udp

fun protocol_as_str :: "Protocol \<Rightarrow> string" where
  "protocol_as_str Tcp = ''tcp''"
| "protocol_as_str Udp = ''udp''"

datatype ParsePortForwardError =
    InvalidSyntax
  | InvalidProtocol string
  | InvalidBind string
  | InvalidPort string string
  | InvertedRange string u16 u16
  | UnequalRangeLengths u32 u32

definition protocol_from_str :: "string \<Rightarrow> (ParsePortForwardError, Protocol) result" where
  "protocol_from_str value =
     (if value = ''tcp'' then Inr Tcp
      else if value = ''udp'' then Inr Udp
      else Inl (InvalidProtocol value))"

record PortRange =
  pr_start :: u16
  pr_end :: u16

record PortForward =
  pf_protocol :: Protocol
  pf_bind :: "IpAddr option"
  pf_host :: PortRange
  pf_guest :: PortRange

definition format_range :: "u16 \<Rightarrow> u16 \<Rightarrow> string" where
  "format_range s e =
     (if s = e then show_nat (unat s) else show_nat (unat s) @ ''-'' @ show_nat (unat e))"

definition port_range_new :: "u16 \<Rightarrow> u16 \<Rightarrow> (ParsePortForwardError, PortRange) result" where
  "port_range_new s e =
     (if s = 0 \<or> e = 0 then Inl (InvalidPort ''port range'' (format_range s e))
      else if e < s then Inl (InvertedRange ''port range'' s e)
      else Inr \<lparr>pr_start = s, pr_end = e\<rparr>)"

definition port_range_len :: "PortRange \<Rightarrow> u32" where
  "port_range_len r = ucast (pr_end r) - ucast (pr_start r) + 1"

definition port_range_display :: "PortRange \<Rightarrow> string" where
  "port_range_display r =
     (if pr_start r = pr_end r then show_nat (unat (pr_start r))
      else show_nat (unat (pr_start r)) @ ''-'' @ show_nat (unat (pr_end r)))"

definition parse_port :: "string \<Rightarrow> string \<Rightarrow> string \<Rightarrow> (ParsePortForwardError, u16) result" where
  "parse_port value component original =
     (if value = [] \<or> \<not> list_all is_ascii_digit value then Inl (InvalidPort component original)
      else (case parse_u32 value of
              None \<Rightarrow> Inl (InvalidPort component original)
            | Some port \<Rightarrow>
                if unat port < 65536 \<and> port \<noteq> 0 then Inr (ucast port)
                else Inl (InvalidPort component original)))"

definition parse_port_range :: "string \<Rightarrow> string \<Rightarrow> (ParsePortForwardError, PortRange) result" where
  "parse_port_range value component =
     (let (start_value, end_value) =
            (case split_once (CHR ''-'') value of None \<Rightarrow> (value, value) | Some p \<Rightarrow> p)
      in and_then (parse_port start_value component value) (\<lambda>s.
         and_then (parse_port end_value component value) (\<lambda>e.
           if e < s then Inl (InvertedRange component s e)
           else Inr \<lparr>pr_start = s, pr_end = e\<rparr>)))"

definition port_range_from_str :: "string \<Rightarrow> (ParsePortForwardError, PortRange) result" where
  "port_range_from_str value = parse_port_range value ''port range''"

definition port_forward_new ::
  "Protocol \<Rightarrow> IpAddr option \<Rightarrow> PortRange \<Rightarrow> PortRange \<Rightarrow> (ParsePortForwardError, PortForward) result"
  where
  "port_forward_new p b h g =
     (if port_range_len h \<noteq> port_range_len g
      then Inl (UnequalRangeLengths (port_range_len h) (port_range_len g))
      else Inr \<lparr>pf_protocol = p, pf_bind = b, pf_host = h, pf_guest = g\<rparr>)"

definition port_forward_display :: "PortForward \<Rightarrow> string" where
  "port_forward_display f =
     (if pf_protocol f = Udp then ''udp:'' else []) @
     (case pf_bind f of
        None \<Rightarrow> []
      | Some (V4 a) \<Rightarrow> ipv4_display a @ '':''
      | Some (V6 a) \<Rightarrow> ''['' @ ipv6_display a @ '']:'') @
     port_range_display (pf_host f) @ '':'' @ port_range_display (pf_guest f)"

definition parse_bind :: "string \<Rightarrow> (ParsePortForwardError, IpAddr) result" where
  "parse_bind value =
     (case Option.bind (strip_prefix ''['' value) (strip_suffix '']'') of
        Some inner \<Rightarrow>
          (case ip_from_str inner of
             Some (V6 a) \<Rightarrow> Inr (V6 a)
           | _ \<Rightarrow> Inl (InvalidBind value))
      | None \<Rightarrow>
          if CHR ''['' \<in> set value \<or> CHR '']'' \<in> set value then Inl (InvalidBind value)
          else ok_or (InvalidBind value) (ip_from_str value))"

definition classify_prefix_error ::
  "string \<Rightarrow> ParsePortForwardError \<Rightarrow> ParsePortForwardError" where
  "classify_prefix_error prefix bind_error =
     (let candidate = (case split_once (CHR '':'') prefix of None \<Rightarrow> prefix | Some (c, _) \<Rightarrow> c)
      in if candidate \<noteq> [] \<and> list_all is_ascii_alphabetic candidate
         then InvalidProtocol candidate
         else bind_error)"

definition parse_prefix ::
  "string option \<Rightarrow> (ParsePortForwardError, Protocol \<times> IpAddr option) result" where
  "parse_prefix prefix =
     (case prefix of
        None \<Rightarrow> Inr (Tcp, None)
      | Some p \<Rightarrow>
          if p = ''tcp'' then Inr (Tcp, None)
          else if p = ''udp'' then Inr (Udp, None)
          else
            let (proto, bind_value) =
                  (case strip_prefix ''tcp:'' p of
                     Some b \<Rightarrow> (Tcp, b)
                   | None \<Rightarrow>
                       (case strip_prefix ''udp:'' p of Some b \<Rightarrow> (Udp, b) | None \<Rightarrow> (Tcp, p)))
            in (case parse_bind bind_value of
                  Inr b \<Rightarrow> Inr (proto, Some b)
                | Inl error \<Rightarrow>
                    if proto = Tcp \<and> bind_value = p then Inl (classify_prefix_error p error)
                    else Inl error))"

definition port_forward_from_str :: "string \<Rightarrow> (ParsePortForwardError, PortForward) result" where
  "port_forward_from_str value =
     (case rsplit_once (CHR '':'') value of
        None \<Rightarrow> Inl InvalidSyntax
      | Some (before_guest, guest_value) \<Rightarrow>
          let (prefix, host_value) =
                (case rsplit_once (CHR '':'') before_guest of
                   Some (p, h) \<Rightarrow> (Some p, h)
                 | None \<Rightarrow> (None, before_guest))
          in and_then (parse_port_range host_value ''host'') (\<lambda>h.
             and_then (parse_port_range guest_value ''guest'') (\<lambda>g.
             and_then (parse_prefix prefix) (\<lambda>(proto, b).
               port_forward_new proto b h g))))"

section \<open>Ports and ranges\<close>

definition port_range_valid :: "PortRange \<Rightarrow> bool" where
  "port_range_valid r \<longleftrightarrow> pr_start r \<noteq> 0 \<and> pr_start r \<le> pr_end r"

lemma parse_port_nonzero: "parse_port v c original = Inr p \<Longrightarrow> p \<noteq> 0"
proof -
  assume "parse_port v c original = Inr p"
  then obtain port :: u32 where p: "p = ucast port" and b: "unat port < 65536" and n: "port \<noteq> 0"
    by (auto simp: parse_port_def split: if_splits option.splits)
  have "unat p = unat port" using p b by (simp add: unat_ucast_32_16)
  with n show ?thesis by (metis unat_eq_zero)
qed

lemma parse_port_show: "w \<noteq> 0 \<Longrightarrow> parse_port (show_nat (unat (w :: u16))) c original = Inr w"
proof -
  assume "w \<noteq> 0"
  have eq: "unat (ucast w :: u32) = unat w" by (rule unat_ucast_16_32)
  have narrow: "(ucast (ucast w :: u32) :: u16) = w"
    by (simp add: word_unat_eq_iff unat_ucast_32_16)
  have "parse_u32 (show_nat (unat w)) = Some (ucast w)"
    using parse_u32_show [of "ucast w"] by (simp add: eq)
  moreover have "(ucast w :: u32) \<noteq> 0" using \<open>w \<noteq> 0\<close> eq by (metis unat_eq_zero)
  ultimately show ?thesis
    using show_nat_digits [of "unat w"] by (simp add: parse_port_def eq narrow)
qed

lemma parse_port_range_valid: "parse_port_range v c = Inr r \<Longrightarrow> port_range_valid r"
  by (auto simp: parse_port_range_def and_then_Inr_iff port_range_valid_def
      dest: parse_port_nonzero split: if_splits option.splits prod.splits)

lemma parse_port_range_display:
  assumes "port_range_valid r"
  shows "parse_port_range (port_range_display r) c = Inr r"
proof -
  have nz: "pr_start r \<noteq> 0" "pr_end r \<noteq> 0" and le: "\<not> pr_end r < pr_start r"
    using assms by (auto simp: port_range_valid_def)
  have dash: "CHR ''-'' \<notin> set (show_nat n)" for n
    by (rule show_radix_no_sep) (simp_all add: is_ascii_lowercase_def is_ascii_digit_def)
  show ?thesis
  proof (cases "pr_start r = pr_end r")
    case True
    then have "split_once (CHR ''-'') (port_range_display r) = None"
      by (simp add: port_range_display_def split_once_None_iff dash)
    with True nz show ?thesis
      by (simp add: parse_port_range_def port_range_display_def parse_port_show)
  next
    case False
    then have "split_once (CHR ''-'') (port_range_display r) =
                 Some (show_nat (unat (pr_start r)), show_nat (unat (pr_end r)))"
      by (simp add: port_range_display_def split_once_Some_iff dash)
    with nz le show ?thesis
      by (simp add: parse_port_range_def parse_port_show)
  qed
qed

interpretation port_range: scalar_codec port_range_from_str port_range_display port_range_valid
  by unfold_locales
     (simp_all add: port_range_from_str_def parse_port_range_valid parse_port_range_display)

lemma port_range_new_valid: "port_range_new s e = Inr r \<longleftrightarrow> r = \<lparr>pr_start = s, pr_end = e\<rparr> \<and> port_range_valid r"
  by (auto simp: port_range_new_def port_range_valid_def not_less)

text \<open>The length is computed in 32 bits, so a full range of ports does not overflow.\<close>

lemma port_range_len_unat:
  assumes "port_range_valid r"
  shows "unat (port_range_len r) = unat (pr_end r) - unat (pr_start r) + 1"
proof -
  have le: "unat (pr_start r) \<le> unat (pr_end r)"
    using assms by (simp add: port_range_valid_def word_le_nat_alt)
  have "port_range_len r = of_nat (unat (pr_end r)) - of_nat (unat (pr_start r)) + 1"
    by (simp add: port_range_len_def)
  also have "\<dots> = of_nat (unat (pr_end r) - unat (pr_start r) + 1)"
    using le by (simp only: of_nat_add of_nat_diff of_nat_1)
  finally have "port_range_len r = of_nat (unat (pr_end r) - unat (pr_start r) + 1)" .
  moreover have "unat (pr_end r) - unat (pr_start r) + 1 < 2 ^ 32"
    using unat_u16_less [of "pr_end r"] by (simp del: unat_u16_less)
  ultimately show ?thesis by (metis unat_of_nat_u32)
qed

section \<open>Forwards\<close>

definition port_forward_valid :: "PortForward \<Rightarrow> bool" where
  "port_forward_valid f \<longleftrightarrow>
     port_range_valid (pf_host f) \<and> port_range_valid (pf_guest f) \<and>
     port_range_len (pf_host f) = port_range_len (pf_guest f) \<and>
     (case pf_bind f of None \<Rightarrow> True | Some a \<Rightarrow> ip_valid a)"

lemma parse_bind_valid: "parse_bind v = Inr a \<Longrightarrow> ip_valid a"
  by (auto simp: parse_bind_def dest: ip_from_str_valid
      split: option.splits IpAddr.splits if_splits)

lemma parse_prefix_valid:
  "parse_prefix p = Inr (proto, b) \<Longrightarrow> (case b of None \<Rightarrow> True | Some a \<Rightarrow> ip_valid a)"
  by (auto simp: parse_prefix_def Let_def dest!: parse_bind_valid
      split: option.splits sum.splits prod.splits if_splits)

lemma port_forward_from_str_valid: "port_forward_from_str s = Inr f \<Longrightarrow> port_forward_valid f"
proof -
  assume a: "port_forward_from_str s = Inr f"
  then obtain hv gv px h g proto b where
    h: "parse_port_range hv ''host'' = Inr h" and g: "parse_port_range gv ''guest'' = Inr g"
    and p: "parse_prefix px = Inr (proto, b)" and n: "port_forward_new proto b h g = Inr f"
    by (auto simp: port_forward_from_str_def and_then_Inr_iff
        split: option.splits prod.splits)
  from h g p n show ?thesis
    by (auto simp: port_forward_new_def port_forward_valid_def
        dest: parse_port_range_valid parse_prefix_valid split: if_splits)
qed

lemma ipv4_display_chars: "c \<in> set (ipv4_display a) \<Longrightarrow> is_ascii_digit c \<or> c = CHR ''.''"
  using show_nat_digits by (cases a) (auto simp: list_all_iff)

lemma ipv4_display_hd: "\<exists>c cs. ipv4_display a = c # cs \<and> is_ascii_digit c"
proof (cases a)
  case (Ipv4Addr w b c d)
  obtain x xs where x: "show_nat (unat w) = x # xs" by (metis list.exhaust show_radix_nonempty)
  then have "is_ascii_digit x" using show_nat_digits [of "unat w"] by simp
  with x Ipv4Addr show ?thesis by simp
qed

lemma parse_bind_v4: "parse_bind (ipv4_display a) = Inr (V4 a)"
proof -
  obtain c cs where c: "ipv4_display a = c # cs" "is_ascii_digit c" using ipv4_display_hd by blast
  then have "strip_prefix ''['' (ipv4_display a) = None" by (auto simp: is_ascii_digit_def)
  moreover have "CHR ''['' \<notin> set (ipv4_display a)" "CHR '']'' \<notin> set (ipv4_display a)"
    using ipv4_display_chars [of "CHR ''[''" a] ipv4_display_chars [of "CHR '']''" a]
    by (auto simp: is_ascii_digit_def)
  ultimately show ?thesis
    using ip_from_str_display [of "V4 a"] by (simp add: parse_bind_def)
qed

lemma parse_bind_v6:
  assumes "ip_valid (V6 a)"
  shows "parse_bind (''['' @ ipv6_display a @ '']'') = Inr (V6 a)"
proof -
  have "strip_suffix '']'' (ipv6_display a @ '']'') = Some (ipv6_display a)"
    by (rule strip_suffix_append)
  then show ?thesis
    using ip_from_str_display [OF assms] by (simp add: parse_bind_def)
qed

text \<open>The text between the protocol and the ports, without its final colon.\<close>

fun bind_text :: "IpAddr \<Rightarrow> string" where
  "bind_text (V4 a) = ipv4_display a"
| "bind_text (V6 a) = ''['' @ ipv6_display a @ '']''"

lemma parse_bind_text: "ip_valid a \<Longrightarrow> parse_bind (bind_text a) = Inr a"
  using parse_bind_v4 parse_bind_v6 by (cases a) auto

lemma bind_text_hd: "\<exists>c cs. bind_text a = c # cs \<and> (is_ascii_digit c \<or> c = CHR ''['')"
proof (cases a)
  case (V4 x)
  then show ?thesis using ipv4_display_hd [of x] by auto
qed simp

lemma parse_prefix_bind:
  assumes "ip_valid a"
  shows "parse_prefix (Some (bind_text a)) = Inr (Tcp, Some a)"
    and "parse_prefix (Some (''udp:'' @ bind_text a)) = Inr (Udp, Some a)"
proof -
  obtain c cs where c: "bind_text a = c # cs" "is_ascii_digit c \<or> c = CHR ''[''"
    using bind_text_hd by blast
  show "parse_prefix (Some (bind_text a)) = Inr (Tcp, Some a)"
    using c parse_bind_text [OF assms] by (auto simp: parse_prefix_def is_ascii_digit_def)
  show "parse_prefix (Some (''udp:'' @ bind_text a)) = Inr (Udp, Some a)"
    using parse_bind_text [OF assms] by (simp add: parse_prefix_def)
qed

definition prefix_text :: "PortForward \<Rightarrow> string option" where
  "prefix_text f =
     (case (pf_protocol f, pf_bind f) of
        (Tcp, None) \<Rightarrow> None
      | (Udp, None) \<Rightarrow> Some ''udp''
      | (Tcp, Some a) \<Rightarrow> Some (bind_text a)
      | (Udp, Some a) \<Rightarrow> Some (''udp:'' @ bind_text a))"

lemma parse_prefix_text:
  "port_forward_valid f \<Longrightarrow> parse_prefix (prefix_text f) = Inr (pf_protocol f, pf_bind f)"
  by (cases "pf_protocol f"; cases "pf_bind f")
     (auto simp: prefix_text_def port_forward_valid_def parse_prefix_bind [simplified], auto simp: parse_prefix_def)

lemma port_forward_display_prefix:
  "port_forward_display f =
     (case prefix_text f of None \<Rightarrow> [] | Some p \<Rightarrow> p @ '':'') @
     port_range_display (pf_host f) @ '':'' @ port_range_display (pf_guest f)"
  by (cases "pf_protocol f"; cases "pf_bind f")
     (auto simp: port_forward_display_def prefix_text_def split: IpAddr.splits)

lemma port_range_display_no_colon: "CHR '':'' \<notin> set (port_range_display r)"
proof -
  have "CHR '':'' \<notin> set (show_nat n)" for n
    by (rule show_radix_no_sep) (simp_all add: is_ascii_lowercase_def is_ascii_digit_def)
  then show ?thesis by (simp add: port_range_display_def)
qed

lemma port_forward_parse_display:
  assumes "port_forward_valid f"
  shows "port_forward_from_str (port_forward_display f) = Inr f"
proof -
  let ?h = "port_range_display (pf_host f)" and ?g = "port_range_display (pf_guest f)"
  let ?pre = "case prefix_text f of None \<Rightarrow> [] | Some p \<Rightarrow> p @ '':''"
  have outer: "rsplit_once (CHR '':'') (port_forward_display f) = Some (?pre @ ?h, ?g)"
    by (simp add: port_forward_display_prefix rsplit_once_Some_iff port_range_display_no_colon)
  have inner: "(case rsplit_once (CHR '':'') (?pre @ ?h) of
                  Some (p, h) \<Rightarrow> (Some p, h) | None \<Rightarrow> (None, ?pre @ ?h)) = (prefix_text f, ?h)"
  proof (cases "prefix_text f")
    case None
    have "rsplit_once (CHR '':'') ?h = None"
      by (simp add: rsplit_once_None_iff port_range_display_no_colon)
    with None show ?thesis by simp
  next
    case (Some p)
    have "rsplit_once (CHR '':'') (p @ CHR '':'' # ?h) = Some (p, ?h)"
      by (simp add: rsplit_once_Some_iff port_range_display_no_colon)
    with Some show ?thesis by simp
  qed
  have "port_forward_new (pf_protocol f) (pf_bind f) (pf_host f) (pf_guest f) = Inr f"
    using assms by (simp add: port_forward_new_def port_forward_valid_def)
  then show ?thesis
    using assms parse_prefix_text [OF assms]
    by (simp add: port_forward_from_str_def outer inner parse_port_range_display
        port_forward_valid_def)
qed

interpretation port_forward:
  scalar_codec port_forward_from_str port_forward_display port_forward_valid
  by unfold_locales (fact port_forward_from_str_valid, fact port_forward_parse_display)

section \<open>Properties\<close>

text \<open>
  Every forward the parser accepts has non-empty port ranges of equal length, none
  starting at port zero, and is read back from its printed form: writing a spec and loading
  it again never changes a forward, with or without a protocol, with an IPv4 or a bracketed
  IPv6 bind address.
\<close>

lemma port_forward_text_roundtrip:
  assumes "port_forward_from_str s = Inr f"
  shows "pr_start (pf_host f) \<noteq> 0 \<and> pr_start (pf_host f) \<le> pr_end (pf_host f) \<and>
         pr_start (pf_guest f) \<noteq> 0 \<and> pr_start (pf_guest f) \<le> pr_end (pf_guest f) \<and>
         port_range_len (pf_host f) = port_range_len (pf_guest f) \<and>
         port_forward_from_str (port_forward_display f) = Inr f"
  using port_forward.parse_valid [OF assms] port_forward.reparse [OF assms]
  by (simp add: port_forward_valid_def port_range_valid_def)

definition demo_udp_forward :: PortForward where
  "demo_udp_forward =
     \<lparr>pf_protocol = Udp, pf_bind = Some (V6 (Ipv6Addr [0, 0, 0, 0, 0, 0, 0, 1])),
      pf_host = \<lparr>pr_start = 8000, pr_end = 8001\<rparr>, pf_guest = \<lparr>pr_start = 80, pr_end = 81\<rparr>\<rparr>"

end
