(* ===== verification/Spec.thy ===== *)
theory Spec
  imports Values Port_Forward Json
begin

text \<open>
  Machine specs and their layers, from \<^verbatim>\<open>firestone-core/src/spec.rs\<close>: the complete
  \<open>MachineSpec\<close>, the sparse \<open>MachineSpecPatch\<close> that global defaults, the machine file, CLI
  flags and REST patches all are, the clear markers, and the order in which layers are
  applied.

  The main results: what a valid patch is, how each layer wins over the earlier ones, that
  vectors are appended by defaults and patches but replaced by the machine file, and that
  the persisted form of a spec is lossless over any valid global defaults.
\<close>

section \<open>The complete spec\<close>

datatype NetMode = Passt | Tap | NetNone

record NetworkSpec =
  ns_mode :: NetMode
  ns_forward :: "PortForward list"
  ns_tap :: "string option"
  ns_mac :: "MacAddr option"

record MountSpec =
  mt_host :: string
  mt_guest :: string
  mt_readonly :: bool
  mt_tag :: "string option"

definition effective_tag :: "MountSpec \<Rightarrow> nat \<Rightarrow> string" where
  "effective_tag m index =
     (case mt_tag m of Some tag \<Rightarrow> tag | None \<Rightarrow> ''share'' @ show_nat index)"

record CloudInitSpec =
  ci_user_data :: "string option"
  ci_user_data_inline :: "string option"
  ci_network_config :: "string option"
  ci_ssh_keys :: "string list"
  ci_ssh_authorized_keys :: "string list"
  ci_password :: "string option"
  ci_ssh_pwauth :: bool
  ci_provisioning :: bool

record VmmSpec =
  vs_binary :: "string option"
  vs_firmware :: Firmware
  vs_extra_args :: "string list"
  vs_config_overlay :: "json option"

record MachineSpec =
  ms_image :: ImageRef
  ms_arch :: "Arch option"
  ms_cpus :: u8
  ms_cpus_max :: "u8 option"
  ms_memory :: ByteSize
  ms_memory_max :: "ByteSize option"
  ms_disk :: ByteSize
  ms_user :: string
  ms_network :: NetworkSpec
  ms_mounts :: "MountSpec list"
  ms_cloud_init :: CloudInitSpec
  ms_vmm :: VmmSpec

definition network_spec_default :: NetworkSpec where
  "network_spec_default = \<lparr>ns_mode = Passt, ns_forward = [], ns_tap = None, ns_mac = None\<rparr>"

definition cloud_init_spec_default :: CloudInitSpec where
  "cloud_init_spec_default =
     \<lparr>ci_user_data = None, ci_user_data_inline = None, ci_network_config = None,
      ci_ssh_keys = [], ci_ssh_authorized_keys = [], ci_password = None,
      ci_ssh_pwauth = False, ci_provisioning = True\<rparr>"

definition vmm_spec_default :: VmmSpec where
  "vmm_spec_default =
     \<lparr>vs_binary = None, vs_firmware = FwAuto, vs_extra_args = [], vs_config_overlay = None\<rparr>"

definition machine_spec_default :: MachineSpec where
  "machine_spec_default =
     \<lparr>ms_image = image_ref_default, ms_arch = None, ms_cpus = 2, ms_cpus_max = None,
      ms_memory = BUILTIN_MEMORY, ms_memory_max = None, ms_disk = BUILTIN_DISK,
      ms_user = ''root'', ms_network = network_spec_default, ms_mounts = [],
      ms_cloud_init = cloud_init_spec_default, ms_vmm = vmm_spec_default\<rparr>"

section \<open>Clear markers\<close>

datatype SpecClear =
    ClearArch | ClearNetworkForward | ClearNetworkTap | ClearNetworkMac | ClearMount
  | ClearCloudInitUserData | ClearCloudInitUserDataInline | ClearCloudInitNetworkConfig
  | ClearCloudInitSshKeys | ClearCloudInitSshAuthorizedKeys | ClearCloudInitPassword
  | ClearVmmBinary | ClearVmmExtraArgs | ClearVmmConfigOverlay | ClearCpusMax | ClearMemoryMax

definition spec_clear_all :: "SpecClear list" where
  "spec_clear_all =
     [ClearArch, ClearNetworkForward, ClearNetworkTap, ClearNetworkMac, ClearMount,
      ClearCloudInitUserData, ClearCloudInitUserDataInline, ClearCloudInitNetworkConfig,
      ClearCloudInitSshKeys, ClearCloudInitSshAuthorizedKeys, ClearCloudInitPassword,
      ClearVmmBinary, ClearVmmExtraArgs, ClearVmmConfigOverlay, ClearCpusMax, ClearMemoryMax]"

fun spec_clear_as_str :: "SpecClear \<Rightarrow> string" where
  "spec_clear_as_str ClearArch = ''arch''"
| "spec_clear_as_str ClearNetworkForward = ''network.forward''"
| "spec_clear_as_str ClearNetworkTap = ''network.tap''"
| "spec_clear_as_str ClearNetworkMac = ''network.mac''"
| "spec_clear_as_str ClearMount = ''mount''"
| "spec_clear_as_str ClearCloudInitUserData = ''cloud_init.user_data''"
| "spec_clear_as_str ClearCloudInitUserDataInline = ''cloud_init.user_data_inline''"
| "spec_clear_as_str ClearCloudInitNetworkConfig = ''cloud_init.network_config''"
| "spec_clear_as_str ClearCloudInitSshKeys = ''cloud_init.ssh_keys''"
| "spec_clear_as_str ClearCloudInitSshAuthorizedKeys = ''cloud_init.ssh_authorized_keys''"
| "spec_clear_as_str ClearCloudInitPassword = ''cloud_init.password''"
| "spec_clear_as_str ClearVmmBinary = ''vmm.binary''"
| "spec_clear_as_str ClearVmmExtraArgs = ''vmm.extra_args''"
| "spec_clear_as_str ClearVmmConfigOverlay = ''vmm.config_overlay''"
| "spec_clear_as_str ClearCpusMax = ''cpus_max''"
| "spec_clear_as_str ClearMemoryMax = ''memory_max''"

datatype ParseSpecClearError = ParseSpecClearError string

definition spec_clear_from_str :: "string \<Rightarrow> (ParseSpecClearError, SpecClear) result" where
  "spec_clear_from_str value =
     ok_or (ParseSpecClearError value)
       (find (\<lambda>c. spec_clear_as_str c = value) spec_clear_all)"

section \<open>Sparse layers\<close>

record NetworkSpecPatch =
  np_mode :: "NetMode option"
  np_forward :: "PortForward list option"
  np_tap :: "string option"
  np_mac :: "MacAddr option"

record CloudInitSpecPatch =
  cp_user_data :: "string option"
  cp_user_data_inline :: "string option"
  cp_network_config :: "string option"
  cp_ssh_keys :: "string list option"
  cp_ssh_authorized_keys :: "string list option"
  cp_password :: "string option"
  cp_ssh_pwauth :: "bool option"
  cp_provisioning :: "bool option"

record VmmSpecPatch =
  vp_binary :: "string option"
  vp_firmware :: "Firmware option"
  vp_extra_args :: "string list option"
  vp_config_overlay :: "json option"

record MachineSpecPatch =
  mp_clear :: "SpecClear list"
  mp_image :: "ImageRef option"
  mp_arch :: "Arch option"
  mp_cpus :: "u8 option"
  mp_cpus_max :: "u8 option"
  mp_memory :: "ByteSize option"
  mp_memory_max :: "ByteSize option"
  mp_disk :: "ByteSize option"
  mp_user :: "string option"
  mp_network :: "NetworkSpecPatch option"
  mp_mounts :: "MountSpec list option"
  mp_cloud_init :: "CloudInitSpecPatch option"
  mp_vmm :: "VmmSpecPatch option"

definition machine_spec_patch_default :: MachineSpecPatch where
  "machine_spec_patch_default =
     \<lparr>mp_clear = [], mp_image = None, mp_arch = None, mp_cpus = None, mp_cpus_max = None,
      mp_memory = None, mp_memory_max = None, mp_disk = None, mp_user = None,
      mp_network = None, mp_mounts = None, mp_cloud_init = None, mp_vmm = None\<rparr>"

datatype VectorMerge = Append | Replace

definition merge_vector :: "'a list \<Rightarrow> 'a list \<Rightarrow> VectorMerge \<Rightarrow> 'a list" where
  "merge_vector target values merge =
     (case merge of Replace \<Rightarrow> values | Append \<Rightarrow> target @ values)"

text \<open>\<open>if let Some(x) = &patch.field { target = x }\<close> and its variants.\<close>

definition set_or :: "'a option \<Rightarrow> 'a \<Rightarrow> 'a" where
  "set_or x old = (case x of Some a \<Rightarrow> a | None \<Rightarrow> old)"

definition some_or :: "'a option \<Rightarrow> 'a option \<Rightarrow> 'a option" where
  "some_or x old = (case x of Some a \<Rightarrow> Some a | None \<Rightarrow> old)"

definition merge_or :: "'a list option \<Rightarrow> VectorMerge \<Rightarrow> 'a list \<Rightarrow> 'a list" where
  "merge_or x merge old = (case x of Some v \<Rightarrow> merge_vector old v merge | None \<Rightarrow> old)"

definition network_apply_to ::
  "NetworkSpecPatch \<Rightarrow> VectorMerge \<Rightarrow> NetworkSpec \<Rightarrow> NetworkSpec" where
  "network_apply_to p merge s =
     s\<lparr>ns_mode := set_or (np_mode p) (ns_mode s),
       ns_forward := merge_or (np_forward p) merge (ns_forward s),
       ns_tap := some_or (np_tap p) (ns_tap s),
       ns_mac := some_or (np_mac p) (ns_mac s)\<rparr>"

definition cloud_init_apply_to ::
  "CloudInitSpecPatch \<Rightarrow> VectorMerge \<Rightarrow> CloudInitSpec \<Rightarrow> CloudInitSpec" where
  "cloud_init_apply_to p merge s =
     s\<lparr>ci_user_data := some_or (cp_user_data p) (ci_user_data s),
       ci_user_data_inline := some_or (cp_user_data_inline p) (ci_user_data_inline s),
       ci_network_config := some_or (cp_network_config p) (ci_network_config s),
       ci_ssh_keys := merge_or (cp_ssh_keys p) merge (ci_ssh_keys s),
       ci_ssh_authorized_keys :=
         merge_or (cp_ssh_authorized_keys p) merge (ci_ssh_authorized_keys s),
       ci_password := some_or (cp_password p) (ci_password s),
       ci_ssh_pwauth := set_or (cp_ssh_pwauth p) (ci_ssh_pwauth s),
       ci_provisioning := set_or (cp_provisioning p) (ci_provisioning s)\<rparr>"

definition vmm_apply_to :: "VmmSpecPatch \<Rightarrow> VectorMerge \<Rightarrow> VmmSpec \<Rightarrow> VmmSpec" where
  "vmm_apply_to p merge s =
     s\<lparr>vs_binary := some_or (vp_binary p) (vs_binary s),
       vs_firmware := set_or (vp_firmware p) (vs_firmware s),
       vs_extra_args := merge_or (vp_extra_args p) merge (vs_extra_args s),
       vs_config_overlay := some_or (vp_config_overlay p) (vs_config_overlay s)\<rparr>"

text \<open>Whether a patch sets the field that a clear marker names.\<close>

fun patch_sets :: "MachineSpecPatch \<Rightarrow> SpecClear \<Rightarrow> bool" where
  "patch_sets p ClearArch = (mp_arch p \<noteq> None)"
| "patch_sets p ClearNetworkForward = (Option.bind (mp_network p) np_forward \<noteq> None)"
| "patch_sets p ClearNetworkTap = (Option.bind (mp_network p) np_tap \<noteq> None)"
| "patch_sets p ClearNetworkMac = (Option.bind (mp_network p) np_mac \<noteq> None)"
| "patch_sets p ClearMount = (mp_mounts p \<noteq> None)"
| "patch_sets p ClearCloudInitUserData = (Option.bind (mp_cloud_init p) cp_user_data \<noteq> None)"
| "patch_sets p ClearCloudInitUserDataInline =
     (Option.bind (mp_cloud_init p) cp_user_data_inline \<noteq> None)"
| "patch_sets p ClearCloudInitSshAuthorizedKeys =
     (Option.bind (mp_cloud_init p) cp_ssh_authorized_keys \<noteq> None)"
| "patch_sets p ClearCloudInitPassword = (Option.bind (mp_cloud_init p) cp_password \<noteq> None)"
| "patch_sets p ClearCloudInitNetworkConfig =
     (Option.bind (mp_cloud_init p) cp_network_config \<noteq> None)"
| "patch_sets p ClearCloudInitSshKeys = (Option.bind (mp_cloud_init p) cp_ssh_keys \<noteq> None)"
| "patch_sets p ClearVmmBinary = (Option.bind (mp_vmm p) vp_binary \<noteq> None)"
| "patch_sets p ClearVmmExtraArgs = (Option.bind (mp_vmm p) vp_extra_args \<noteq> None)"
| "patch_sets p ClearVmmConfigOverlay = (Option.bind (mp_vmm p) vp_config_overlay \<noteq> None)"
| "patch_sets p ClearCpusMax = (mp_cpus_max p \<noteq> None)"
| "patch_sets p ClearMemoryMax = (mp_memory_max p \<noteq> None)"

text \<open>The body of the loop over \<open>self.clear\<close> in \<open>apply_clears\<close>.\<close>

fun apply_clear :: "SpecClear \<Rightarrow> MachineSpec \<Rightarrow> MachineSpec" where
  "apply_clear ClearArch s = s\<lparr>ms_arch := None\<rparr>"
| "apply_clear ClearNetworkForward s = s\<lparr>ms_network := (ms_network s)\<lparr>ns_forward := []\<rparr>\<rparr>"
| "apply_clear ClearNetworkTap s = s\<lparr>ms_network := (ms_network s)\<lparr>ns_tap := None\<rparr>\<rparr>"
| "apply_clear ClearNetworkMac s = s\<lparr>ms_network := (ms_network s)\<lparr>ns_mac := None\<rparr>\<rparr>"
| "apply_clear ClearMount s = s\<lparr>ms_mounts := []\<rparr>"
| "apply_clear ClearCloudInitUserData s =
     s\<lparr>ms_cloud_init := (ms_cloud_init s)\<lparr>ci_user_data := None\<rparr>\<rparr>"
| "apply_clear ClearCloudInitUserDataInline s =
     s\<lparr>ms_cloud_init := (ms_cloud_init s)\<lparr>ci_user_data_inline := None\<rparr>\<rparr>"
| "apply_clear ClearCloudInitNetworkConfig s =
     s\<lparr>ms_cloud_init := (ms_cloud_init s)\<lparr>ci_network_config := None\<rparr>\<rparr>"
| "apply_clear ClearCloudInitSshKeys s =
     s\<lparr>ms_cloud_init := (ms_cloud_init s)\<lparr>ci_ssh_keys := []\<rparr>\<rparr>"
| "apply_clear ClearCloudInitSshAuthorizedKeys s =
     s\<lparr>ms_cloud_init := (ms_cloud_init s)\<lparr>ci_ssh_authorized_keys := []\<rparr>\<rparr>"
| "apply_clear ClearCloudInitPassword s =
     s\<lparr>ms_cloud_init := (ms_cloud_init s)\<lparr>ci_password := None\<rparr>\<rparr>"
| "apply_clear ClearVmmBinary s = s\<lparr>ms_vmm := (ms_vmm s)\<lparr>vs_binary := None\<rparr>\<rparr>"
| "apply_clear ClearVmmExtraArgs s = s\<lparr>ms_vmm := (ms_vmm s)\<lparr>vs_extra_args := []\<rparr>\<rparr>"
| "apply_clear ClearVmmConfigOverlay s = s\<lparr>ms_vmm := (ms_vmm s)\<lparr>vs_config_overlay := None\<rparr>\<rparr>"
| "apply_clear ClearCpusMax s = s\<lparr>ms_cpus_max := None\<rparr>"
| "apply_clear ClearMemoryMax s = s\<lparr>ms_memory_max := None\<rparr>"

definition apply_clears :: "MachineSpecPatch \<Rightarrow> MachineSpec \<Rightarrow> MachineSpec" where
  "apply_clears p s = fold apply_clear (mp_clear p) s"

definition validate_overlay :: "json \<Rightarrow> string \<Rightarrow> (FirestoneError, unit) result" where
  "validate_overlay overlay key =
     (if is_object overlay then Inr ()
      else Inl (with_hint (''set '' @ key @ '' to a JSON object such as {}'')
             (error_new InvalidSpec (key @ '' must be a JSON object''))))"

text \<open>The loop of \<open>MachineSpecPatch::validate\<close>, with the set of markers already seen.\<close>

fun validate_clears ::
  "MachineSpecPatch \<Rightarrow> SpecClear set \<Rightarrow> SpecClear list \<Rightarrow> (FirestoneError, unit) result" where
  "validate_clears p seen [] = Inr ()"
| "validate_clears p seen (c # cs) =
     (if c \<in> seen then
        Inl (with_hint (''keep one '' @ quoted (spec_clear_as_str c) @ '' entry in clear'')
          (error_new InvalidSpec
            (''clear path '' @ quoted (spec_clear_as_str c) @ '' appears more than once'')))
      else if patch_sets p c then
        Inl (with_hint
          (''remove '' @ quoted (spec_clear_as_str c) @ '' from clear or omit its value'')
          (error_new InvalidSpec
            (''patch sets and clears '' @ quoted (spec_clear_as_str c) @ '' in the same layer'')))
      else validate_clears p (insert c seen) cs)"

definition patch_validate :: "MachineSpecPatch \<Rightarrow> (FirestoneError, unit) result" where
  "patch_validate p =
     and_then
       (case Option.bind (mp_vmm p) vp_config_overlay of
          Some overlay \<Rightarrow> validate_overlay overlay ''vmm.config_overlay''
        | None \<Rightarrow> Inr ())
       (\<lambda>_. validate_clears p {} (mp_clear p))"

text \<open>The part of \<open>apply_to_with_vectors\<close> that follows the validation.\<close>

definition apply_fields :: "MachineSpecPatch \<Rightarrow> VectorMerge \<Rightarrow> MachineSpec \<Rightarrow> MachineSpec" where
  "apply_fields p merge s0 =
     (let s = apply_clears p s0
      in s\<lparr>ms_image := set_or (mp_image p) (ms_image s),
           ms_arch := some_or (mp_arch p) (ms_arch s),
           ms_cpus := set_or (mp_cpus p) (ms_cpus s),
           ms_cpus_max := some_or (mp_cpus_max p) (ms_cpus_max s),
           ms_memory := set_or (mp_memory p) (ms_memory s),
           ms_memory_max := some_or (mp_memory_max p) (ms_memory_max s),
           ms_disk := set_or (mp_disk p) (ms_disk s),
           ms_user := set_or (mp_user p) (ms_user s),
           ms_network :=
             (case mp_network p of
                Some n \<Rightarrow> network_apply_to n merge (ms_network s) | None \<Rightarrow> ms_network s),
           ms_mounts := merge_or (mp_mounts p) merge (ms_mounts s),
           ms_cloud_init :=
             (case mp_cloud_init p of
                Some c \<Rightarrow> cloud_init_apply_to c merge (ms_cloud_init s)
              | None \<Rightarrow> ms_cloud_init s),
           ms_vmm :=
             (case mp_vmm p of
                Some v \<Rightarrow> vmm_apply_to v merge (ms_vmm s) | None \<Rightarrow> ms_vmm s)\<rparr>)"

definition apply_to_with_vectors ::
  "MachineSpecPatch \<Rightarrow> VectorMerge \<Rightarrow> MachineSpec \<Rightarrow> (FirestoneError, MachineSpec) result" where
  "apply_to_with_vectors p merge s =
     and_then (patch_validate p) (\<lambda>_. Inr (apply_fields p merge s))"

definition apply_to :: "MachineSpecPatch \<Rightarrow> MachineSpec \<Rightarrow> (FirestoneError, MachineSpec) result" where
  "apply_to p s = apply_to_with_vectors p Append s"

definition from_layers ::
  "MachineSpecPatch \<Rightarrow> MachineSpecPatch \<Rightarrow> MachineSpecPatch \<Rightarrow> (FirestoneError, MachineSpec) result"
  where
  "from_layers global_defaults machine patch =
     and_then (apply_to_with_vectors global_defaults Append machine_spec_default) (\<lambda>s1.
     and_then (apply_to_with_vectors machine Replace s1) (\<lambda>s2.
       apply_to_with_vectors patch Append s2))"

text \<open>\<open>From<&MachineSpec> for MachineSpecPatch\<close>: the lossless machine-file layer.\<close>

definition persisted_clears :: "MachineSpec \<Rightarrow> SpecClear list" where
  "persisted_clears s =
     (if ms_arch s = None then [ClearArch] else []) @
     (if ns_tap (ms_network s) = None then [ClearNetworkTap] else []) @
     (if ns_mac (ms_network s) = None then [ClearNetworkMac] else []) @
     (if ci_user_data (ms_cloud_init s) = None then [ClearCloudInitUserData] else []) @
     (if ci_user_data_inline (ms_cloud_init s) = None then [ClearCloudInitUserDataInline] else []) @
     (if ci_network_config (ms_cloud_init s) = None then [ClearCloudInitNetworkConfig] else []) @
     (if ci_password (ms_cloud_init s) = None then [ClearCloudInitPassword] else []) @
     (if vs_binary (ms_vmm s) = None then [ClearVmmBinary] else []) @
     (if vs_config_overlay (ms_vmm s) = None then [ClearVmmConfigOverlay] else []) @
     (if ms_cpus_max s = None then [ClearCpusMax] else []) @
     (if ms_memory_max s = None then [ClearMemoryMax] else [])"

definition to_persisted_patch :: "MachineSpec \<Rightarrow> MachineSpecPatch" where
  "to_persisted_patch s =
     \<lparr>mp_clear = persisted_clears s,
      mp_image = Some (ms_image s), mp_arch = ms_arch s, mp_cpus = Some (ms_cpus s),
      mp_cpus_max = ms_cpus_max s, mp_memory = Some (ms_memory s),
      mp_memory_max = ms_memory_max s, mp_disk = Some (ms_disk s), mp_user = Some (ms_user s),
      mp_network = Some
        \<lparr>np_mode = Some (ns_mode (ms_network s)),
         np_forward = Some (ns_forward (ms_network s)),
         np_tap = ns_tap (ms_network s), np_mac = ns_mac (ms_network s)\<rparr>,
      mp_mounts = Some (ms_mounts s),
      mp_cloud_init = Some
        \<lparr>cp_user_data = ci_user_data (ms_cloud_init s),
         cp_user_data_inline = ci_user_data_inline (ms_cloud_init s),
         cp_network_config = ci_network_config (ms_cloud_init s),
         cp_ssh_keys = Some (ci_ssh_keys (ms_cloud_init s)),
         cp_ssh_authorized_keys = Some (ci_ssh_authorized_keys (ms_cloud_init s)),
         cp_password = ci_password (ms_cloud_init s),
         cp_ssh_pwauth = Some (ci_ssh_pwauth (ms_cloud_init s)),
         cp_provisioning = Some (ci_provisioning (ms_cloud_init s))\<rparr>,
      mp_vmm = Some
        \<lparr>vp_binary = vs_binary (ms_vmm s), vp_firmware = Some (vs_firmware (ms_vmm s)),
         vp_extra_args = Some (vs_extra_args (ms_vmm s)),
         vp_config_overlay = vs_config_overlay (ms_vmm s)\<rparr>\<rparr>"

section \<open>What clearing does\<close>

text \<open>
  Every clear marker empties one field and leaves the others alone. The two locales state
  this for one field and lift it to the loop over all markers of a patch; each field of a
  spec interprets one of them.
\<close>

locale cleared_field =
  fixes get :: "MachineSpec \<Rightarrow> 'a" and marker :: SpecClear and empty :: 'a
  assumes get_clear: "get (apply_clear c s) = (if c = marker then empty else get s)"
begin

lemma get_clears: "get (apply_clears p s) = (if marker \<in> set (mp_clear p) then empty else get s)"
proof -
  have "get (fold apply_clear cs s) = (if marker \<in> set cs then empty else get s)" for cs
    by (induction cs arbitrary: s) (auto simp: get_clear)
  then show ?thesis by (simp add: apply_clears_def)
qed

end

locale kept_field =
  fixes get :: "MachineSpec \<Rightarrow> 'a"
  assumes get_keep: "get (apply_clear c s) = get s"
begin

lemma get_keeps: "get (apply_clears p s) = get s"
proof -
  have "get (fold apply_clear cs s) = get s" for cs
    by (induction cs arbitrary: s) (auto simp: get_keep)
  then show ?thesis by (simp add: apply_clears_def)
qed

end

interpretation f_arch: cleared_field "ms_arch" ClearArch "None"
  by unfold_locales (case_tac c; simp)

interpretation f_forward: cleared_field "\<lambda>s. ns_forward (ms_network s)" ClearNetworkForward "[]"
  by unfold_locales (case_tac c; simp)

interpretation f_tap: cleared_field "\<lambda>s. ns_tap (ms_network s)" ClearNetworkTap "None"
  by unfold_locales (case_tac c; simp)

interpretation f_nmac: cleared_field "\<lambda>s. ns_mac (ms_network s)" ClearNetworkMac "None"
  by unfold_locales (case_tac c; simp)

interpretation f_mounts: cleared_field "ms_mounts" ClearMount "[]"
  by unfold_locales (case_tac c; simp)

interpretation f_udata: cleared_field "\<lambda>s. ci_user_data (ms_cloud_init s)" ClearCloudInitUserData "None"
  by unfold_locales (case_tac c; simp)

interpretation f_inline: cleared_field "\<lambda>s. ci_user_data_inline (ms_cloud_init s)" ClearCloudInitUserDataInline "None"
  by unfold_locales (case_tac c; simp)

interpretation f_netconf: cleared_field "\<lambda>s. ci_network_config (ms_cloud_init s)" ClearCloudInitNetworkConfig "None"
  by unfold_locales (case_tac c; simp)

interpretation f_keys: cleared_field "\<lambda>s. ci_ssh_keys (ms_cloud_init s)" ClearCloudInitSshKeys "[]"
  by unfold_locales (case_tac c; simp)

interpretation f_akeys: cleared_field "\<lambda>s. ci_ssh_authorized_keys (ms_cloud_init s)" ClearCloudInitSshAuthorizedKeys "[]"
  by unfold_locales (case_tac c; simp)

interpretation f_password: cleared_field "\<lambda>s. ci_password (ms_cloud_init s)" ClearCloudInitPassword "None"
  by unfold_locales (case_tac c; simp)

interpretation f_binary: cleared_field "\<lambda>s. vs_binary (ms_vmm s)" ClearVmmBinary "None"
  by unfold_locales (case_tac c; simp)

interpretation f_eargs: cleared_field "\<lambda>s. vs_extra_args (ms_vmm s)" ClearVmmExtraArgs "[]"
  by unfold_locales (case_tac c; simp)

interpretation f_overlay: cleared_field "\<lambda>s. vs_config_overlay (ms_vmm s)" ClearVmmConfigOverlay "None"
  by unfold_locales (case_tac c; simp)

interpretation f_cmax: cleared_field "ms_cpus_max" ClearCpusMax "None"
  by unfold_locales (case_tac c; simp)

interpretation f_mmax: cleared_field "ms_memory_max" ClearMemoryMax "None"
  by unfold_locales (case_tac c; simp)

interpretation f_image: kept_field "ms_image"
  by unfold_locales (case_tac c; simp)

interpretation f_cpus: kept_field "ms_cpus"
  by unfold_locales (case_tac c; simp)

interpretation f_memory: kept_field "ms_memory"
  by unfold_locales (case_tac c; simp)

interpretation f_disk: kept_field "ms_disk"
  by unfold_locales (case_tac c; simp)

interpretation f_user: kept_field "ms_user"
  by unfold_locales (case_tac c; simp)

interpretation f_mode: kept_field "\<lambda>s. ns_mode (ms_network s)"
  by unfold_locales (case_tac c; simp)

interpretation f_pwauth: kept_field "\<lambda>s. ci_ssh_pwauth (ms_cloud_init s)"
  by unfold_locales (case_tac c; simp)

interpretation f_provisioning: kept_field "\<lambda>s. ci_provisioning (ms_cloud_init s)"
  by unfold_locales (case_tac c; simp)

interpretation f_firmware: kept_field "\<lambda>s. vs_firmware (ms_vmm s)"
  by unfold_locales (case_tac c; simp)

lemmas apply_clears_fields =
  f_arch.get_clears f_forward.get_clears f_tap.get_clears f_nmac.get_clears f_mounts.get_clears f_udata.get_clears f_inline.get_clears f_netconf.get_clears f_keys.get_clears f_akeys.get_clears f_password.get_clears f_binary.get_clears f_eargs.get_clears f_overlay.get_clears f_cmax.get_clears f_mmax.get_clears
  f_image.get_keeps f_cpus.get_keeps f_memory.get_keeps f_disk.get_keeps f_user.get_keeps f_mode.get_keeps f_pwauth.get_keeps f_provisioning.get_keeps f_firmware.get_keeps

section \<open>Valid patches\<close>

interpretation spec_clear: scalar_codec spec_clear_from_str spec_clear_as_str "\<lambda>_. True"
proof
  fix a
  show "spec_clear_from_str (spec_clear_as_str a) = Inr a"
    by (cases a) (simp_all add: spec_clear_from_str_def spec_clear_all_def)
qed simp

definition overlay_ok :: "json option \<Rightarrow> bool" where
  "overlay_ok x = (case x of None \<Rightarrow> True | Some j \<Rightarrow> is_object j)"

lemma validate_clears_iff:
  "validate_clears p seen cs = Inr u \<longleftrightarrow>
     distinct cs \<and> set cs \<inter> seen = {} \<and> (\<forall>c \<in> set cs. \<not> patch_sets p c)"
  by (induction cs arbitrary: seen) auto

lemma patch_validate_iff:
  "patch_validate p = Inr () \<longleftrightarrow>
     overlay_ok (Option.bind (mp_vmm p) vp_config_overlay) \<and>
     distinct (mp_clear p) \<and> (\<forall>c \<in> set (mp_clear p). \<not> patch_sets p c)"
  by (auto simp: patch_validate_def and_then_Inr_iff validate_clears_iff validate_overlay_def
      overlay_ok_def split: option.splits if_splits)

lemma patch_validate_kind: "patch_validate p = Inl e \<Longrightarrow> kind e = InvalidSpec"
proof -
  have "validate_clears p seen cs = Inl e \<Longrightarrow> kind e = InvalidSpec" for seen cs
    by (induction cs arbitrary: seen) (auto split: if_splits)
  then show "patch_validate p = Inl e \<Longrightarrow> kind e = InvalidSpec"
    by (auto simp: patch_validate_def and_then_Inl_iff validate_overlay_def
        split: option.splits if_splits)
qed

lemma apply_to_with_vectors_Inr:
  "apply_to_with_vectors p merge s = Inr s' \<longleftrightarrow>
     patch_validate p = Inr () \<and> s' = apply_fields p merge s"
  by (auto simp: apply_to_with_vectors_def and_then_Inr_iff)

lemma default_patch_valid [simp]: "patch_validate machine_spec_patch_default = Inr ()"
  by (simp add: patch_validate_def machine_spec_patch_default_def)

lemma default_patch_id [simp]: "apply_fields machine_spec_patch_default merge s = s"
  by (simp add: apply_fields_def apply_clears_def machine_spec_patch_default_def set_or_def
      some_or_def merge_or_def)

lemma from_layers_Inr:
  "from_layers g m p = Inr s \<longleftrightarrow>
     patch_validate g = Inr () \<and> patch_validate m = Inr () \<and> patch_validate p = Inr () \<and>
     s = apply_fields p Append (apply_fields m Replace (apply_fields g Append machine_spec_default))"
  by (auto simp: from_layers_def and_then_Inr_iff apply_to_with_vectors_Inr)

section \<open>The persisted layer\<close>

lemma concat_if_filter: "concat (map (\<lambda>c. if P c then [c] else []) xs) = filter P xs"
  by (induction xs) auto

lemma persisted_clears_filter:
  "persisted_clears s =
     filter (\<lambda>c. \<not> patch_sets (to_persisted_patch s) c)
       [ClearArch, ClearNetworkTap, ClearNetworkMac, ClearCloudInitUserData,
        ClearCloudInitUserDataInline, ClearCloudInitNetworkConfig, ClearCloudInitPassword,
        ClearVmmBinary, ClearVmmConfigOverlay, ClearCpusMax, ClearMemoryMax]"
  by (simp add: persisted_clears_def to_persisted_patch_def flip: concat_if_filter)

lemma persisted_clears_distinct: "distinct (persisted_clears s)"
  unfolding persisted_clears_filter by (intro distinct_filter) simp

lemma persisted_clears_unset:
  "c \<in> set (persisted_clears s) \<Longrightarrow> \<not> patch_sets (to_persisted_patch s) c"
  by (simp only: persisted_clears_filter set_filter mem_Collect_eq not_False_eq_True)

lemma persisted_patch_valid:
  "patch_validate (to_persisted_patch s) = Inr () \<longleftrightarrow> overlay_ok (vs_config_overlay (ms_vmm s))"
proof -
  have "Option.bind (mp_vmm (to_persisted_patch s)) vp_config_overlay = vs_config_overlay (ms_vmm s)"
    by (simp add: to_persisted_patch_def)
  moreover have "mp_clear (to_persisted_patch s) = persisted_clears s"
    by (simp add: to_persisted_patch_def)
  ultimately show ?thesis
    unfolding patch_validate_iff using persisted_clears_distinct persisted_clears_unset by auto
qed

lemma network_eqI:
  fixes a b :: NetworkSpec
  assumes "ns_mode a = ns_mode b" "ns_forward a = ns_forward b" "ns_tap a = ns_tap b"
    "ns_mac a = ns_mac b"
  shows "a = b"
  using assms by (cases a, cases b) simp

lemma cloud_init_eqI:
  fixes a b :: CloudInitSpec
  assumes "ci_user_data a = ci_user_data b" "ci_user_data_inline a = ci_user_data_inline b"
    "ci_network_config a = ci_network_config b" "ci_ssh_keys a = ci_ssh_keys b"
    "ci_ssh_authorized_keys a = ci_ssh_authorized_keys b" "ci_password a = ci_password b"
    "ci_ssh_pwauth a = ci_ssh_pwauth b" "ci_provisioning a = ci_provisioning b"
  shows "a = b"
  using assms by (cases a, cases b) simp

lemma vmm_eqI:
  fixes a b :: VmmSpec
  assumes "vs_binary a = vs_binary b" "vs_firmware a = vs_firmware b"
    "vs_extra_args a = vs_extra_args b" "vs_config_overlay a = vs_config_overlay b"
  shows "a = b"
  using assms by (cases a, cases b) simp

lemma machine_spec_eqI:
  fixes a b :: MachineSpec
  assumes "ms_image a = ms_image b" "ms_arch a = ms_arch b" "ms_cpus a = ms_cpus b"
    "ms_cpus_max a = ms_cpus_max b" "ms_memory a = ms_memory b"
    "ms_memory_max a = ms_memory_max b" "ms_disk a = ms_disk b" "ms_user a = ms_user b"
    "ms_network a = ms_network b" "ms_mounts a = ms_mounts b"
    "ms_cloud_init a = ms_cloud_init b" "ms_vmm a = ms_vmm b"
  shows "a = b"
  using assms by (cases a, cases b) simp

lemmas spec_eqIs = machine_spec_eqI network_eqI cloud_init_eqI vmm_eqI

lemmas layer_defs = set_or_def some_or_def merge_or_def merge_vector_def

lemma persisted_mem:
  "ClearArch \<in> set (persisted_clears s) \<longleftrightarrow> ms_arch s = None"
  "ClearNetworkTap \<in> set (persisted_clears s) \<longleftrightarrow> ns_tap (ms_network s) = None"
  "ClearNetworkMac \<in> set (persisted_clears s) \<longleftrightarrow> ns_mac (ms_network s) = None"
  "ClearCloudInitUserData \<in> set (persisted_clears s) \<longleftrightarrow> ci_user_data (ms_cloud_init s) = None"
  "ClearCloudInitUserDataInline \<in> set (persisted_clears s) \<longleftrightarrow>
     ci_user_data_inline (ms_cloud_init s) = None"
  "ClearCloudInitNetworkConfig \<in> set (persisted_clears s) \<longleftrightarrow>
     ci_network_config (ms_cloud_init s) = None"
  "ClearCloudInitPassword \<in> set (persisted_clears s) \<longleftrightarrow> ci_password (ms_cloud_init s) = None"
  "ClearVmmBinary \<in> set (persisted_clears s) \<longleftrightarrow> vs_binary (ms_vmm s) = None"
  "ClearVmmConfigOverlay \<in> set (persisted_clears s) \<longleftrightarrow> vs_config_overlay (ms_vmm s) = None"
  "ClearCpusMax \<in> set (persisted_clears s) \<longleftrightarrow> ms_cpus_max s = None"
  "ClearMemoryMax \<in> set (persisted_clears s) \<longleftrightarrow> ms_memory_max s = None"
  by (auto simp: persisted_clears_def)

lemma persisted_clear_field [simp]: "mp_clear (to_persisted_patch s) = persisted_clears s"
  by (simp add: to_persisted_patch_def)

text \<open>Over any earlier layers the persisted machine layer restores the spec it came from.\<close>

lemma apply_persisted: "apply_fields (to_persisted_patch s) Replace s0 = s"
proof -
  define s1 where "s1 = apply_clears (to_persisted_patch s) s0"
  note clears = apply_clears_fields [where p = "to_persisted_patch s" and s = s0,
      unfolded persisted_clear_field persisted_mem, folded s1_def]
  show ?thesis
    unfolding apply_fields_def Let_def s1_def [symmetric]
    by (rule machine_spec_eqI; (rule network_eqI cloud_init_eqI vmm_eqI)?)
       (simp_all add: clears to_persisted_patch_def network_apply_to_def cloud_init_apply_to_def
         vmm_apply_to_def layer_defs split: option.splits)
qed

section \<open>What a layer does to each field\<close>

lemma apply_fields_scalars:
  "ms_image (apply_fields p merge s) = set_or (mp_image p) (ms_image s)"
  "ms_cpus (apply_fields p merge s) = set_or (mp_cpus p) (ms_cpus s)"
  "ms_memory (apply_fields p merge s) = set_or (mp_memory p) (ms_memory s)"
  "ms_disk (apply_fields p merge s) = set_or (mp_disk p) (ms_disk s)"
  "ms_user (apply_fields p merge s) = set_or (mp_user p) (ms_user s)"
  by (simp_all add: apply_fields_def Let_def apply_clears_fields)

lemma apply_fields_options:
  "ms_arch (apply_fields p merge s) =
     some_or (mp_arch p) (if ClearArch \<in> set (mp_clear p) then None else ms_arch s)"
  "ms_cpus_max (apply_fields p merge s) =
     some_or (mp_cpus_max p) (if ClearCpusMax \<in> set (mp_clear p) then None else ms_cpus_max s)"
  "ms_memory_max (apply_fields p merge s) =
     some_or (mp_memory_max p) (if ClearMemoryMax \<in> set (mp_clear p) then None else ms_memory_max s)"
  by (simp_all add: apply_fields_def Let_def apply_clears_fields)

lemma apply_fields_forward:
  "ns_forward (ms_network (apply_fields p merge s)) =
     merge_or (Option.bind (mp_network p) np_forward) merge
       (if ClearNetworkForward \<in> set (mp_clear p) then [] else ns_forward (ms_network s))"
  by (auto simp: apply_fields_def Let_def apply_clears_fields network_apply_to_def
      merge_or_def split: option.split)

lemma apply_fields_mounts:
  "ms_mounts (apply_fields p merge s) =
     merge_or (mp_mounts p) merge (if ClearMount \<in> set (mp_clear p) then [] else ms_mounts s)"
  by (simp add: apply_fields_def Let_def apply_clears_fields)

text \<open>Whether the field a marker names is empty.\<close>

fun is_cleared :: "MachineSpec \<Rightarrow> SpecClear \<Rightarrow> bool" where
  "is_cleared s ClearArch = (ms_arch s = None)"
| "is_cleared s ClearNetworkForward = (ns_forward (ms_network s) = [])"
| "is_cleared s ClearNetworkTap = (ns_tap (ms_network s) = None)"
| "is_cleared s ClearNetworkMac = (ns_mac (ms_network s) = None)"
| "is_cleared s ClearMount = (ms_mounts s = [])"
| "is_cleared s ClearCloudInitUserData = (ci_user_data (ms_cloud_init s) = None)"
| "is_cleared s ClearCloudInitUserDataInline = (ci_user_data_inline (ms_cloud_init s) = None)"
| "is_cleared s ClearCloudInitNetworkConfig = (ci_network_config (ms_cloud_init s) = None)"
| "is_cleared s ClearCloudInitSshKeys = (ci_ssh_keys (ms_cloud_init s) = [])"
| "is_cleared s ClearCloudInitSshAuthorizedKeys = (ci_ssh_authorized_keys (ms_cloud_init s) = [])"
| "is_cleared s ClearCloudInitPassword = (ci_password (ms_cloud_init s) = None)"
| "is_cleared s ClearVmmBinary = (vs_binary (ms_vmm s) = None)"
| "is_cleared s ClearVmmExtraArgs = (vs_extra_args (ms_vmm s) = [])"
| "is_cleared s ClearVmmConfigOverlay = (vs_config_overlay (ms_vmm s) = None)"
| "is_cleared s ClearCpusMax = (ms_cpus_max s = None)"
| "is_cleared s ClearMemoryMax = (ms_memory_max s = None)"

lemma apply_fields_groups:
  "ms_network (apply_fields p merge s) =
     (case mp_network p of
        Some n \<Rightarrow> network_apply_to n merge (ms_network (apply_clears p s))
      | None \<Rightarrow> ms_network (apply_clears p s))"
  "ms_cloud_init (apply_fields p merge s) =
     (case mp_cloud_init p of
        Some c \<Rightarrow> cloud_init_apply_to c merge (ms_cloud_init (apply_clears p s))
      | None \<Rightarrow> ms_cloud_init (apply_clears p s))"
  "ms_vmm (apply_fields p merge s) =
     (case mp_vmm p of
        Some v \<Rightarrow> vmm_apply_to v merge (ms_vmm (apply_clears p s))
      | None \<Rightarrow> ms_vmm (apply_clears p s))"
  by (simp_all add: apply_fields_def Let_def)

lemma apply_fields_cleared:
  assumes "c \<in> set (mp_clear p)" and "\<not> patch_sets p c"
  shows "is_cleared (apply_fields p merge s) c"
proof -
  note defs = network_apply_to_def cloud_init_apply_to_def vmm_apply_to_def layer_defs
  show ?thesis
    using assms
    by - ((cases c; cases "mp_network p"; cases "mp_cloud_init p"; cases "mp_vmm p"),
       simp_all add: apply_fields_options apply_fields_mounts apply_fields_groups
         apply_clears_fields defs)
qed

section \<open>Properties of spec layering\<close>

text \<open>C1. The persisted form of a machine spec is lossless: written to the machine file and
  loaded over any valid global defaults, it gives the same spec back. The overlay has to be a
  JSON object, which the deserializer and every patch enforce.\<close>

theorem persisted_spec_lossless:
  assumes "patch_validate global_defaults = Inr ()"
    and "overlay_ok (vs_config_overlay (ms_vmm spec))"
  shows "from_layers global_defaults (to_persisted_patch spec) machine_spec_patch_default = Inr spec"
  using assms by (simp add: from_layers_Inr persisted_patch_valid apply_persisted)

definition sample_spec :: MachineSpec where
  "sample_spec = machine_spec_default
     \<lparr>ms_cpus_max := Some 4, ms_vmm := vmm_spec_default\<lparr>vs_config_overlay := Some (JObject [])\<rparr>\<rparr>"

definition sample_defaults :: MachineSpecPatch where
  "sample_defaults = machine_spec_patch_default
     \<lparr>mp_clear := [ClearMount], mp_arch := Some X86_64, mp_cpus := Some 8\<rparr>"

theorem persisted_spec_lossless_witness:
  "patch_validate sample_defaults = Inr () \<and> overlay_ok (vs_config_overlay (ms_vmm sample_spec)) \<and>
   from_layers sample_defaults (to_persisted_patch sample_spec) machine_spec_patch_default =
     Inr sample_spec"
proof -
  have g: "patch_validate sample_defaults = Inr ()"
    by (simp add: patch_validate_iff sample_defaults_def machine_spec_patch_default_def overlay_ok_def)
  have o: "overlay_ok (vs_config_overlay (ms_vmm sample_spec))"
    by (simp add: sample_spec_def overlay_ok_def)
  show ?thesis using g o persisted_spec_lossless [OF g o] by blast
qed



text \<open>Port forwards: the machine file replaces the list of the global defaults, a CLI or
  REST patch appends to what the earlier layers gave, and a clear marker empties the list
  before its own layer is applied.\<close>

lemma layers_forward_vectors:
  assumes "from_layers g m p = Inr s"
  shows "ns_forward (ms_network s) =
    (if ClearNetworkForward \<in> set (mp_clear p) then []
     else (case Option.bind (mp_network m) np_forward of
             Some v \<Rightarrow> v
           | None \<Rightarrow>
               if ClearNetworkForward \<in> set (mp_clear m) then []
               else (case Option.bind (mp_network g) np_forward of None \<Rightarrow> [] | Some v \<Rightarrow> v)))
    @ (case Option.bind (mp_network p) np_forward of None \<Rightarrow> [] | Some v \<Rightarrow> v)"
  using assms
  by (auto simp: from_layers_Inr apply_fields_forward merge_or_def merge_vector_def
      machine_spec_default_def network_spec_default_def patch_validate_iff split: option.splits)

definition sample_forward :: PortForward where
  "sample_forward =
     \<lparr>pf_protocol = Tcp, pf_bind = None, pf_host = \<lparr>pr_start = 8080, pr_end = 8080\<rparr>,
      pf_guest = \<lparr>pr_start = 80, pr_end = 80\<rparr>\<rparr>"

definition sample_forward_patch :: MachineSpecPatch where
  "sample_forward_patch = machine_spec_patch_default
     \<lparr>mp_network := Some \<lparr>np_mode = None, np_forward = Some [sample_forward], np_tap = None,
                        np_mac = None\<rparr>\<rparr>"



text \<open>Once a patch with a clear marker has been applied, the field the marker names is
  empty, whatever the spec held before and whatever else the patch sets.\<close>

lemma apply_to_clears:
  assumes "apply_to_with_vectors p merge s = Inr s'" and "c \<in> set (mp_clear p)"
  shows "is_cleared s' c"
  using assms by (auto simp: apply_to_with_vectors_Inr patch_validate_iff intro: apply_fields_cleared)

end
