(* ===== verification/Btree.thy ===== *)
theory Btree
  imports Prelude "HOL-Library.List_Lexorder" "HOL-Library.Char_ord"
begin

text \<open>
  The ordered maps and sets of the standard library (\<open>BTreeMap\<close>, \<open>BTreeSet\<close>): a map is the list
  of its entries in iteration order, strictly increasing in the key; a set is the list of its
  members. Strings compare bytewise, as \<open>str\<close> does.
\<close>

fun btree_insert :: "'k::linorder \<Rightarrow> 'v \<Rightarrow> ('k \<times> 'v) list \<Rightarrow> ('k \<times> 'v) list" where
  "btree_insert k v [] = [(k, v)]"
| "btree_insert k v ((k', v') # t) =
     (if k = k' then (k, v) # t
      else if k < k' then (k, v) # (k', v') # t
      else (k', v') # btree_insert k v t)"

fun btree_remove :: "'k::linorder \<Rightarrow> ('k \<times> 'v) list \<Rightarrow> ('v \<times> ('k \<times> 'v) list) option" where
  "btree_remove k [] = None"
| "btree_remove k ((k', v) # t) =
     (if k = k' then Some (v, t)
      else map_option (\<lambda>(x, t'). (x, (k', v) # t')) (btree_remove k t))"

definition btree_wf :: "('k::linorder \<times> 'v) list \<Rightarrow> bool" where
  "btree_wf t \<longleftrightarrow> sorted_wrt (<) (map fst t)"

definition btree_set :: "'a::linorder list \<Rightarrow> 'a list" where
  "btree_set xs = remdups_adj (sort xs)"

lemma btree_wf_simps [simp]:
  "btree_wf []"
  "btree_wf ((k, v) # t) \<longleftrightarrow> (\<forall>x \<in> fst ` set t. k < x) \<and> btree_wf t"
  by (auto simp: btree_wf_def)

lemma map_of_btree_insert [simp]: "map_of (btree_insert k v t) = (map_of t)(k \<mapsto> v)"
  by (induction t) auto

lemma fst_btree_insert [simp]: "fst ` set (btree_insert k v t) = insert k (fst ` set t)"
proof (induction t)
  case (Cons p t)
  then show ?case by (cases p) (simp add: insert_commute)
qed simp

lemma btree_insert_wf [intro]: "btree_wf t \<Longrightarrow> btree_wf (btree_insert k v t)"
proof (induction t)
  case (Cons p t)
  obtain k' v' where p: "p = (k', v')" by (cases p)
  consider "k = k'" | "k < k'" | "k' < k" by fastforce
  then show ?case
  proof cases
    case 2
    then show ?thesis using Cons p by (auto intro: less_trans)
  next
    case 3
    then show ?thesis using Cons p fst_btree_insert [of k v t] by (auto simp: not_less_iff_gr_or_eq)
  qed (use Cons p in simp)
qed simp

lemma btree_wf_distinct: "btree_wf t \<Longrightarrow> distinct (map fst t)"
  unfolding btree_wf_def by (simp add: strict_sorted_iff)

lemma btree_lookup: "btree_wf t \<Longrightarrow> map_of t k = Some v \<longleftrightarrow> (k, v) \<in> set t"
  by (simp add: btree_wf_distinct)

lemma btree_remove_insert: "\<exists>t'. btree_remove k (btree_insert k v t) = Some (v, t')"
  by (induction t) auto

lemma set_btree_insert:
  "x \<in> set (btree_insert k v t) \<Longrightarrow> x = (k, v) \<or> x \<in> set t"
  by (induction t) (auto split: if_splits)

lemma btree_remove_wf:
  "btree_wf t \<Longrightarrow> btree_remove k t = Some (v, t') \<Longrightarrow> btree_wf t' \<and> set t' \<subseteq> set t"
proof (induction t arbitrary: t')
  case (Cons p t)
  then show ?case by (cases p) (fastforce simp: btree_wf_def split: if_splits)
qed simp

lemma set_btree_set [simp]: "set (btree_set xs) = set xs"
  by (simp add: btree_set_def)

lemma distinct_btree_set [simp]: "distinct (btree_set xs)"
proof -
  have "sorted xs \<Longrightarrow> distinct (remdups_adj xs)" for xs :: "'a list"
    by (induction xs rule: remdups_adj.induct) auto
  then show ?thesis by (simp add: btree_set_def)
qed

end
