(* ===== verification/Toml_Keys.thy ===== *)
theory Toml_Keys
  imports Spec Btree "HOL-Library.AList"
begin

text \<open>
  Key checking of \<^verbatim>\<open>firestone.toml\<close> and \<^verbatim>\<open>config.toml\<close>, from
  \<^verbatim>\<open>firestone-core/src/spec.rs\<close>: the schema tables, the walk that refuses unknown keys with a
  suggestion, the edit distance behind the suggestion, and the helpers that lift
  \<open>vmm.config_overlay\<close> out of the TOML tree and back.

  The edit distance is the two-row dynamic program of the source; it is proved equal to the
  recursive Levenshtein distance. The key walk is proved to accept exactly the documents
  whose every key is in the schema.
\<close>

section \<open>TOML values\<close>

text \<open>
  A table is the list of its entries in the order of the \<open>toml\<close> crate's map, which is sorted by
  key.
\<close>

datatype toml =
    TString string
  | TInteger int
  | TFloat string
  | TBoolean bool
  | TDatetime string
  | TArray "toml list"
  | TTable "(string \<times> toml) list"

fun as_table :: "toml \<Rightarrow> (string \<times> toml) list option" where
  "as_table (TTable t) = Some t"
| "as_table _ = None"

section \<open>Edit distance\<close>

text \<open>
  One row of the dynamic program. \<open>prev\<close> is the rest of the previous row from the column
  left of the current one, and \<open>left\<close> the value just computed in the current row.
\<close>

fun edit_row :: "char \<Rightarrow> string \<Rightarrow> nat list \<Rightarrow> nat \<Rightarrow> nat list" where
  "edit_row a (b # bs) (d # u # prev) left =
     (let v = (if a = b then d else 1 + min (min d left) u)
      in v # edit_row a bs (u # prev) v)"
| "edit_row a _ _ left = []"

text \<open>The loop over the characters of the left string; the row has one more entry than \<open>right\<close>.\<close>

fun edit_rows :: "nat \<Rightarrow> string \<Rightarrow> string \<Rightarrow> nat list \<Rightarrow> nat list" where
  "edit_rows i [] right previous = previous"
| "edit_rows i (a # as) right previous =
     edit_rows (i + 1) as right ((i + 1) # edit_row a right previous (i + 1))"

definition edit_distance :: "string \<Rightarrow> string \<Rightarrow> nat" where
  "edit_distance left right =
     edit_rows 0 left right [0..<length right + 1] ! length right"

definition closest_key :: "string \<Rightarrow> string list \<Rightarrow> string option" where
  "closest_key unknown candidates =
     (case filter (\<lambda>p. snd p \<le> 3) (map (\<lambda>c. (c, edit_distance unknown c)) candidates) of
        [] \<Rightarrow> None
      | p # ps \<Rightarrow> Some (fst (fold (\<lambda>q best. if snd q < snd best then q else best) ps p)))"

section \<open>Schemas\<close>

datatype TomlSchema = SchemaMachine | SchemaGlobal

datatype TableSchema =
    TMachine | TNetwork | TMount | TCloudInit | TVmm | TGlobal | TStart | TStop | TUi | TImages

fun schema_keys :: "TableSchema \<Rightarrow> string list" where
  "schema_keys TMachine =
     [''clear'', ''image'', ''arch'', ''cpus'', ''cpus_max'', ''memory'', ''memory_max'', ''disk'',
      ''user'', ''network'', ''mount'', ''cloud_init'', ''vmm'']"
| "schema_keys TNetwork = [''mode'', ''forward'', ''tap'', ''mac'']"
| "schema_keys TMount = [''host'', ''guest'', ''readonly'', ''tag'']"
| "schema_keys TCloudInit =
     [''user_data'', ''user_data_inline'', ''network_config'', ''ssh_keys'',
      ''ssh_authorized_keys'', ''password'', ''ssh_pwauth'', ''provisioning'']"
| "schema_keys TVmm = [''binary'', ''firmware'', ''extra_args'', ''config_overlay'']"
| "schema_keys TGlobal = [''defaults'', ''start'', ''stop'', ''ui'', ''images'']"
| "schema_keys TStart = [''timeout_first_boot'', ''timeout'']"
| "schema_keys TStop = [''timeout'']"
| "schema_keys TUi = [''color'']"
| "schema_keys TImages = [''catalog'', ''insecure_registries'']"

definition schema_child :: "TableSchema \<Rightarrow> string \<Rightarrow> TableSchema option" where
  "schema_child schema key =
     (case schema of
        TMachine \<Rightarrow>
          (if key = ''network'' then Some TNetwork
           else if key = ''mount'' then Some TMount
           else if key = ''cloud_init'' then Some TCloudInit
           else if key = ''vmm'' then Some TVmm
           else None)
      | TGlobal \<Rightarrow>
          (if key = ''defaults'' then Some TMachine
           else if key = ''start'' then Some TStart
           else if key = ''stop'' then Some TStop
           else if key = ''ui'' then Some TUi
           else if key = ''images'' then Some TImages
           else None)
      | _ \<Rightarrow> None)"

definition key_path :: "string \<Rightarrow> string \<Rightarrow> string" where
  "key_path prefix key = (if prefix = [] then key else prefix @ ''.'' @ key)"

definition unknown_key_error :: "TableSchema \<Rightarrow> string \<Rightarrow> string \<Rightarrow> string \<Rightarrow> FirestoneError" where
  "unknown_key_error schema prefix key file =
     (let path = key_path prefix key;
          err = error_new InvalidSpec (''unknown key '' @ quoted path @ '' in '' @ file)
      in case closest_key key (schema_keys schema) of
           Some candidate \<Rightarrow>
             with_hint (''did you mean '' @ quoted (key_path prefix candidate) @ ''?'') err
         | None \<Rightarrow>
             with_hint (''remove '' @ quoted path @ '' or use a key documented in '' @ file) err)"

text \<open>
  The recursive walk. \<open>check_entries\<close> is the loop over a table's keys and \<open>check_elements\<close>
  the loop over the elements of a \<open>[[mount]]\<close> array.
\<close>

fun validate_table_keys ::
    "toml \<Rightarrow> TableSchema \<Rightarrow> string \<Rightarrow> string \<Rightarrow> (FirestoneError, unit) result"
  and check_entries ::
    "(string \<times> toml) list \<Rightarrow> TableSchema \<Rightarrow> string \<Rightarrow> string \<Rightarrow> (FirestoneError, unit) result"
  and check_elements ::
    "nat \<Rightarrow> toml list \<Rightarrow> TableSchema \<Rightarrow> string \<Rightarrow> string \<Rightarrow> (FirestoneError, unit) result"
  where
  "validate_table_keys (TTable table) schema prefix file = check_entries table schema prefix file"
| "validate_table_keys _ schema prefix file = Inr ()"
| "check_entries [] schema prefix file = Inr ()"
| "check_entries ((key, child_value) # rest) schema prefix file =
     (if key \<notin> set (schema_keys schema) then Inl (unknown_key_error schema prefix key file)
      else and_then
        (case schema_child schema key of
           None \<Rightarrow> Inr ()
         | Some child_schema \<Rightarrow>
             (case child_value of
                TArray values \<Rightarrow>
                  if child_schema = TMount
                  then check_elements 0 values child_schema (key_path prefix key) file
                  else validate_table_keys (TArray values) child_schema (key_path prefix key) file
              | v \<Rightarrow> validate_table_keys v child_schema (key_path prefix key) file))
        (\<lambda>_. check_entries rest schema prefix file))"
| "check_elements i [] schema path file = Inr ()"
| "check_elements i (v # vs) schema path file =
     and_then
       (validate_table_keys v schema (path @ ''['' @ show_nat i @ '']'') file)
       (\<lambda>_. check_elements (i + 1) vs schema path file)"

definition root_schema :: "TomlSchema \<Rightarrow> TableSchema" where
  "root_schema schema = (case schema of SchemaMachine \<Rightarrow> TMachine | SchemaGlobal \<Rightarrow> TGlobal)"

text \<open>\<open>validate_known_keys\<close>, with the parse of the \<open>toml\<close> crate as its first argument.\<close>

definition validate_known_keys ::
  "(string \<Rightarrow> (string, toml) result) \<Rightarrow> string \<Rightarrow> TomlSchema \<Rightarrow> string \<Rightarrow> (FirestoneError, unit) result"
  where
  "validate_known_keys toml_parse input schema file =
     (case toml_parse input of
        Inl err \<Rightarrow>
          Inl (with_hint (''fix the TOML syntax in '' @ file)
            (error_new InvalidSpec (''cannot parse '' @ file @ '': '' @ err)))
      | Inr value \<Rightarrow> validate_table_keys value (root_schema schema) [] file)"

section \<open>The overlay inside the tree\<close>

text \<open>\<open>take_toml_path\<close>: the value at a path, removed from the tree. \<open>None\<close> leaves the tree as it is.\<close>

fun take_toml_path :: "toml \<Rightarrow> string list \<Rightarrow> (toml \<times> toml) option" where
  "take_toml_path value [] = None"
| "take_toml_path value [leaf] =
     (case as_table value of
        None \<Rightarrow> None
      | Some t \<Rightarrow> map_option (\<lambda>(x, t'). (x, TTable t')) (btree_remove leaf t))"
| "take_toml_path value (parent # q # path) =
     (case as_table value of
        None \<Rightarrow> None
      | Some t \<Rightarrow>
          (case map_of t parent of
             None \<Rightarrow> None
           | Some child \<Rightarrow>
               map_option (\<lambda>(x, child'). (x, TTable (AList.update parent child' t)))
                 (take_toml_path child (q # path))))"

definition not_table_error :: "string \<Rightarrow> string \<Rightarrow> FirestoneError" where
  "not_table_error key file =
     with_hint ''report this Firestone serialization error''
       (error_new Generic (''cannot encode '' @ quoted key @ '' as a TOML table in '' @ file))"

fun insert_toml_path ::
  "toml \<Rightarrow> string list \<Rightarrow> toml \<Rightarrow> string \<Rightarrow> (FirestoneError, toml) result" where
  "insert_toml_path value [] inserted file =
     Inl (with_hint ''report this Firestone serialization error''
       (error_new Generic (''cannot encode an empty TOML key path for '' @ file)))"
| "insert_toml_path value [leaf] inserted file =
     (case as_table value of
        None \<Rightarrow> Inl (not_table_error leaf file)
      | Some t \<Rightarrow> Inr (TTable (btree_insert leaf inserted t)))"
| "insert_toml_path value (parent # q # path) inserted file =
     (case as_table value of
        None \<Rightarrow> Inl (not_table_error parent file)
      | Some t \<Rightarrow>
          and_then
            (insert_toml_path
               (case map_of t parent of Some child \<Rightarrow> child | None \<Rightarrow> TTable [])
               (q # path) inserted file)
            (\<lambda>child. Inr (TTable (btree_insert parent child t))))"

text \<open>
  \<open>decode_toml_overlay\<close>: the overlay is JSON text in TOML. The JSON parser of \<open>serde_json\<close> is
  the first argument.
\<close>

definition decode_toml_overlay ::
  "(string \<Rightarrow> (string, json) result) \<Rightarrow> toml \<Rightarrow> string \<Rightarrow> string list \<Rightarrow> (FirestoneError, json) result"
  where
  "decode_toml_overlay json_parse value file path =
     (let key = join_with (CHR ''.'') path
      in and_then
        (case value of
           TString t \<Rightarrow>
             map_err (\<lambda>err. with_hint (''set '' @ quoted key @ '' to a JSON object'')
                 (error_new InvalidSpec
                   (''invalid JSON text for '' @ quoted key @ '' in '' @ file @ '': '' @ err)))
               (json_parse t)
         | _ \<Rightarrow>
             Inl (with_hint
               (''set '' @ quoted key @ '' to JSON text such as '' @ quoted ''{}'')
               (error_new InvalidSpec
                 (quoted key @ '' in '' @ file @ '' must be canonical JSON text''))))
        (\<lambda>overlay. and_then (validate_overlay overlay key) (\<lambda>_. Inr overlay)))"

section \<open>Documents with an overlay\<close>

text \<open>
  \<open>serialize_toml_with_overlay\<close> and \<open>deserialize_patch_toml\<close>. The \<open>toml\<close> and
  \<open>serde_json\<close> crates are arguments: \<open>toml_print\<close>, \<open>toml_parse\<close>, \<open>json_print\<close>,
  \<open>json_parse\<close>, and \<open>from_toml\<close> for the derived \<open>Deserialize\<close> of the patch.
\<close>

definition serialization_error :: "string \<Rightarrow> string \<Rightarrow> FirestoneError" where
  "serialization_error file msg =
     with_hint ''report this Firestone serialization error'' (error_new Generic (msg @ '' for '' @ file))"

definition parse_toml ::
  "(string \<Rightarrow> (string, toml) result) \<Rightarrow> string \<Rightarrow> string \<Rightarrow> (FirestoneError, toml) result" where
  "parse_toml toml_parse input file =
     map_err (\<lambda>err. with_hint (''fix the TOML syntax in '' @ file)
         (error_new InvalidSpec (''cannot parse '' @ file @ '': '' @ err)))
       (toml_parse input)"

definition encode_toml_value ::
  "(toml \<Rightarrow> string option) \<Rightarrow> toml \<Rightarrow> string \<Rightarrow> (FirestoneError, string) result" where
  "encode_toml_value toml_print value file =
     ok_or (serialization_error file ''cannot encode TOML document'') (toml_print value)"

definition serialize_toml_with_overlay ::
  "(toml \<Rightarrow> string option) \<Rightarrow> (json \<Rightarrow> string option) \<Rightarrow> toml option \<Rightarrow> json option
   \<Rightarrow> string list \<Rightarrow> string \<Rightarrow> (FirestoneError, string) result" where
  "serialize_toml_with_overlay toml_print json_print try_from overlay overlay_path file =
     and_then (ok_or (serialization_error file ''cannot encode values as TOML'') try_from) (\<lambda>value.
     and_then
       (case overlay of
          None \<Rightarrow> Inr value
        | Some ov \<Rightarrow>
            and_then (validate_overlay ov (join_with (CHR ''.'') overlay_path)) (\<lambda>_.
            and_then (ok_or
                (serialization_error file ''cannot encode vmm.config_overlay as JSON'') (json_print ov)) (\<lambda>t.
            insert_toml_path value overlay_path (TString t) file)))
       (\<lambda>value. encode_toml_value toml_print value file))"

definition vmm_spec_patch_default :: VmmSpecPatch where
  "vmm_spec_patch_default =
     \<lparr>vp_binary = None, vp_firmware = None, vp_extra_args = None, vp_config_overlay = None\<rparr>"

definition set_overlay :: "json option \<Rightarrow> MachineSpecPatch \<Rightarrow> MachineSpecPatch" where
  "set_overlay overlay patch =
     (case overlay of
        None \<Rightarrow> patch
      | Some ov \<Rightarrow>
          patch \<lparr>mp_vmm := Some ((case mp_vmm patch of Some v \<Rightarrow> v | None \<Rightarrow> vmm_spec_patch_default)
            \<lparr>vp_config_overlay := Some ov\<rparr>)\<rparr>)"

definition deserialize_patch_toml ::
  "(string \<Rightarrow> (string, toml) result) \<Rightarrow> (toml \<Rightarrow> string option) \<Rightarrow> (string \<Rightarrow> (string, json) result)
   \<Rightarrow> (string \<Rightarrow> string \<Rightarrow> (FirestoneError, MachineSpecPatch) result)
   \<Rightarrow> string \<Rightarrow> string \<Rightarrow> string list \<Rightarrow> (FirestoneError, MachineSpecPatch) result" where
  "deserialize_patch_toml toml_parse toml_print json_parse deserialize_toml input file overlay_path =
     and_then (parse_toml toml_parse input file) (\<lambda>value.
     and_then
       (case take_toml_path value overlay_path of
          None \<Rightarrow> Inr (None, value)
        | Some (taken, rest) \<Rightarrow>
            and_then (decode_toml_overlay json_parse taken file overlay_path)
              (\<lambda>ov. Inr (Some ov, rest)))
       (\<lambda>(overlay, value).
     and_then (encode_toml_value toml_print value file) (\<lambda>input_without_overlay.
     and_then (deserialize_toml input_without_overlay file) (\<lambda>patch.
     let patch = set_overlay overlay patch
     in and_then (patch_validate patch) (\<lambda>_. Inr patch)))))"

section \<open>The edit distance is the least number of edits\<close>

text \<open>
  Turning one string into another by keeping, changing, deleting and inserting characters;
  the number counts all but the kept ones.
\<close>

inductive edits :: "string \<Rightarrow> string \<Rightarrow> nat \<Rightarrow> bool" where
  edits_nil: "edits [] [] 0"
| edits_keep: "edits as bs n \<Longrightarrow> edits (c # as) (c # bs) n"
| edits_change: "edits as bs n \<Longrightarrow> edits (a # as) (b # bs) (Suc n)"
| edits_delete: "edits as bs n \<Longrightarrow> edits (a # as) bs (Suc n)"
| edits_insert: "edits as bs n \<Longrightarrow> edits as (b # bs) (Suc n)"

text \<open>The recursive distance, on the reversed strings.\<close>
fun lev :: "string \<Rightarrow> string \<Rightarrow> nat" where
  "lev [] bs = length bs"
| "lev as [] = length as"
| "lev (a # as) (b # bs) =
     (if a = b then lev as bs else 1 + min (min (lev as bs) (lev (a # as) bs)) (lev as (b # bs)))"

lemma lev_Nil2 [simp]: "lev as [] = length as" by (cases as) auto

lemma lev_sym: "lev as bs = lev bs as"
  by (induction as bs rule: lev.induct) (auto simp: min.commute min.left_commute)

lemma lev_drop: "lev as bs \<le> Suc (lev (a # as) bs)"
proof (induction "length as + length bs" arbitrary: as bs a rule: less_induct)
  case less
  show ?case
  proof (cases bs)
    case Nil
    then show ?thesis by simp
  next
    case (Cons b bs')
    have up: "lev as (b # bs') \<le> Suc (lev as bs')"
    proof (cases as)
      case Nil
      then show ?thesis by simp
    next
      case as: (Cons x xs)
      then show ?thesis using less [of xs bs' x] Cons by auto
    qed
    moreover have "lev as bs' \<le> Suc (lev (a # as) bs')" using less [of as bs' a] Cons by simp
    ultimately show ?thesis using Cons by auto
  qed
qed

lemma lev_grow: "lev (a # as) bs \<le> Suc (lev as bs)"
proof (cases bs)
  case (Cons b bs')
  then show ?thesis using lev_drop [of bs' as b] by (simp add: lev_sym [of as])
qed simp

lemma edits_length1: "edits as [] (length as)"
  by (induction as) (auto intro: edits.intros)
lemma edits_length2: "edits [] bs (length bs)"
  by (induction bs) (auto intro: edits.intros)

lemma edits_lev: "edits as bs (lev as bs)"
  by (induction as bs rule: lev.induct)
    (auto simp: edits_length1 edits_length2 min_def intro: edits.intros edits_length1 [of "_ # _", simplified])

lemma lev_least: "edits as bs n \<Longrightarrow> lev as bs \<le> n"
proof (induction rule: edits.induct)
  case (edits_keep as bs n c) then show ?case by simp
next
  case (edits_change as bs n a b) then show ?case by (simp add: min.coboundedI1)
next
  case (edits_delete as bs n a)
  then show ?case using lev_grow [of a as bs] by simp
next
  case (edits_insert as bs n b)
  then show ?case using lev_grow [of b bs as] by (simp add: lev_sym)
qed simp

lemma edits_snoc:
  assumes "edits as bs n"
  shows "edits (as @ [c]) (bs @ [c]) n \<and> edits (as @ [a]) (bs @ [b]) (Suc n)
    \<and> edits (as @ [a]) bs (Suc n) \<and> edits as (bs @ [b]) (Suc n)"
  using assms by (induction rule: edits.induct) (auto intro: edits.intros)

lemma edits_rev: "edits as bs n \<Longrightarrow> edits (rev as) (rev bs) n"
  by (induction rule: edits.induct) (auto intro: edits.intros dest: edits_snoc)

text \<open>
  A row of the table: the distances of \<open>as\<close> to the growing (reversed) prefixes of the right
  string. The inner loop turns the row of \<open>as\<close> into the row of \<open>a # as\<close>.
\<close>

fun lev_row :: "string \<Rightarrow> string \<Rightarrow> string \<Rightarrow> nat list" where
  "lev_row as r [] = [lev as r]"
| "lev_row as r (b # bs) = lev as r # lev_row as (b # r) bs"

lemma lev_row_hd: "\<exists>t. lev_row as r bs = lev as r # t"
  by (cases bs) auto

lemma edit_row_correct:
  "lev (a # as) r # edit_row a bs (lev_row as r bs) (lev (a # as) r) = lev_row (a # as) r bs"
proof (induction bs arbitrary: r)
  case Nil
  then show ?case by simp
next
  case (Cons b bs)
  obtain t where t: "lev_row as (b # r) bs = lev as (b # r) # t" using lev_row_hd by blast
  show ?case using Cons.IH [of "b # r"] by (simp add: t Let_def)
qed

lemma edit_rows_correct:
  "edit_rows (length as) left right (lev_row as [] right) = lev_row (rev left @ as) [] right"
proof (induction left arbitrary: as)
  case (Cons a left)
  then show ?case using edit_row_correct [of a as "[]" right] Cons.IH [of "a # as"] by simp
qed simp

lemma lev_row_nth: "lev_row as r bs ! length bs = lev as (rev bs @ r)"
  by (induction bs arbitrary: r) auto

lemma lev_row_start: "lev_row [] r bs = [length r ..< length r + length bs + 1]"
  by (induction bs arbitrary: r) (simp_all add: upt_conv_Cons del: upt_Suc)

lemma edit_distance_lev: "edit_distance left right = lev (rev left) (rev right)"
  using edit_rows_correct [of "[]" left right]
  by (simp add: edit_distance_def lev_row_start lev_row_nth del: upt_Suc)

lemma edit_distance_least:
  "edit_distance left right \<le> n \<longleftrightarrow> (\<exists>k. k \<le> n \<and> edits left right k)"
  using edits_lev [THEN edits_rev, of "rev left" "rev right"] lev_least edits_rev
  by (metis edit_distance_lev le_trans rev_rev_ident)
section \<open>The suggestion\<close>

lemma fold_min_correct:
  fixes p :: "string \<times> nat"
  defines "m \<equiv> \<lambda>ps p. fold (\<lambda>q best. if snd q < snd best then q else best) ps p"
  shows "m ps p \<in> set (p # ps) \<and> (\<forall>q \<in> set (p # ps). snd (m ps p) \<le> snd q)"
proof (induction ps arbitrary: p)
  case Nil
  then show ?case by (simp add: m_def)
next
  case (Cons q ps)
  have "m (q # ps) p = m ps (if snd q < snd p then q else p)" by (simp add: m_def)
  then show ?case using Cons.IH [of "if snd q < snd p then q else p"]
    by (cases "snd q < snd p") auto
qed

lemma closest_key_None:
  "closest_key u cs = None \<longleftrightarrow> (\<forall>c \<in> set cs. 3 < edit_distance u c)"
proof -
  have "closest_key u cs = None
      \<longleftrightarrow> filter (\<lambda>p. snd p \<le> 3) (map (\<lambda>c. (c, edit_distance u c)) cs) = []"
    unfolding closest_key_def by (auto split: list.split)
  then show ?thesis by (auto simp: filter_empty_conv not_le)
qed

lemma closest_key_Some:
  assumes "closest_key u cs = Some c"
  shows "c \<in> set cs \<and> edit_distance u c \<le> 3 \<and> (\<forall>d \<in> set cs. edit_distance u c \<le> edit_distance u d)"
proof -
  define near where "near = filter (\<lambda>p. snd p \<le> 3) (map (\<lambda>c. (c, edit_distance u c)) cs)"
  obtain p ps where near: "near = p # ps"
    and c: "c = fst (fold (\<lambda>q best. if snd q < snd best then q else best) ps p)"
    using assms unfolding closest_key_def near_def [symmetric] by (auto split: list.splits)
  define b where "b = fold (\<lambda>q best. if snd q < snd best then q else best) ps p"
  have "b \<in> set near" and least: "\<forall>q \<in> set near. snd b \<le> snd q"
    using fold_min_correct [of ps p] unfolding b_def near by blast+
  then have b: "fst b \<in> set cs" "snd b = edit_distance u (fst b)" "snd b \<le> 3"
    unfolding near_def by auto
  have "snd b \<le> edit_distance u d" if "d \<in> set cs" for d
  proof (cases "edit_distance u d \<le> 3")
    case True
    then have "(d, edit_distance u d) \<in> set near" using that by (auto simp: near_def)
    then show ?thesis using least by force
  qed (use b in simp)
  then show ?thesis using b c by (simp add: b_def)
qed

text \<open>
  The key suggested for an unknown one is a candidate at the least edit distance, and
  within three edits; when there is no suggestion, no candidate is within three edits.
\<close>

lemma suggestion_is_nearest:
  "(case closest_key unknown candidates of
      Some c \<Rightarrow> c \<in> set candidates \<and> (\<exists>n \<le> 3. edits unknown c n
        \<and> (\<forall>d m. d \<in> set candidates \<and> edits unknown d m \<longrightarrow> n \<le> m))
    | None \<Rightarrow> \<not> (\<exists>d m. d \<in> set candidates \<and> m \<le> 3 \<and> edits unknown d m))"
proof (cases "closest_key unknown candidates")
  case None
  then show ?thesis using closest_key_None [of unknown candidates] edit_distance_least [of unknown _ 3]
    by (simp add: not_le [symmetric])
next
  case (Some c)
  have ed: "edits unknown c (edit_distance unknown c)"
    using edit_distance_least [of unknown c "edit_distance unknown c"] edit_distance_least [of unknown c]
    by (metis le_antisym order_refl)
  have le: "edit_distance unknown d \<le> m" if "edits unknown d m" for d m
    using edit_distance_least that by blast
  have "\<exists>n \<le> 3. edits unknown c n
        \<and> (\<forall>d m. d \<in> set candidates \<and> edits unknown d m \<longrightarrow> n \<le> m)"
    using closest_key_Some [OF Some] ed le by (meson le_trans)
  then show ?thesis using closest_key_Some [OF Some] Some by simp
qed

section \<open>The key walk\<close>

text \<open>
  The tables of a document that the walk checks, each with the schema it is checked against:
  the root, the tables under keys with a child schema and the elements of \<open>[[mount]]\<close>.
\<close>

inductive schema_at :: "toml \<Rightarrow> TableSchema \<Rightarrow> (string \<times> toml) list \<Rightarrow> TableSchema \<Rightarrow> bool" where
  at_here: "schema_at (TTable t) s t s"
| at_child: "\<lbrakk>(k, v) \<in> set t; schema_child s k = Some s'; schema_at v s' u r\<rbrakk>
    \<Longrightarrow> schema_at (TTable t) s u r"
| at_element: "\<lbrakk>(k, TArray vs) \<in> set t; schema_child s k = Some TMount; v \<in> set vs; schema_at v TMount u r\<rbrakk>
    \<Longrightarrow> schema_at (TTable t) s u r"

definition keys_known :: "(string \<times> toml) list \<Rightarrow> TableSchema \<Rightarrow> bool" where
  "keys_known t s \<longleftrightarrow> fst ` set t \<subseteq> set (schema_keys s)"

inductive_cases schema_atE: "schema_at v s u r"
inductive_simps schema_at_table: "schema_at (TTable t) s u r"
inductive_simps schema_at_array [simp]: "schema_at (TArray t) s u r"

text \<open>A list of entries is fine when its keys are known and all tables below it are fine.\<close>

definition entries_fine :: "(string \<times> toml) list \<Rightarrow> TableSchema \<Rightarrow> bool" where
  "entries_fine t s \<longleftrightarrow> (\<forall>u r. schema_at (TTable t) s u r \<longrightarrow> keys_known u r)"

lemma entries_fine_iff:
  "entries_fine t s \<longleftrightarrow> keys_known t s
    \<and> (\<forall>k v s'. (k, v) \<in> set t \<longrightarrow> schema_child s k = Some s'
        \<longrightarrow> (\<forall>u r. schema_at v s' u r \<longrightarrow> keys_known u r))
    \<and> (\<forall>k vs. (k, TArray vs) \<in> set t \<longrightarrow> schema_child s k = Some TMount
        \<longrightarrow> (\<forall>v \<in> set vs. \<forall>u r. schema_at v TMount u r \<longrightarrow> keys_known u r))"
  unfolding entries_fine_def schema_at_table by blast

lemma entries_fine_Cons:
  "entries_fine ((k, v) # t) s \<longleftrightarrow> k \<in> set (schema_keys s)
    \<and> (\<forall>s'. schema_child s k = Some s' \<longrightarrow> (\<forall>u r. schema_at v s' u r \<longrightarrow> keys_known u r))
    \<and> (schema_child s k = Some TMount \<longrightarrow> (\<forall>vs. v = TArray vs \<longrightarrow>
        (\<forall>e \<in> set vs. \<forall>u r. schema_at e TMount u r \<longrightarrow> keys_known u r)))
    \<and> entries_fine t s"
proof -
  have "entries_fine ((k, v) # t) s \<longleftrightarrow> (k \<in> set (schema_keys s) \<and> keys_known t s)
    \<and> ((\<forall>s'. schema_child s k = Some s' \<longrightarrow> (\<forall>u r. schema_at v s' u r \<longrightarrow> keys_known u r))
       \<and> (\<forall>k v s'. (k, v) \<in> set t \<longrightarrow> schema_child s k = Some s'
        \<longrightarrow> (\<forall>u r. schema_at v s' u r \<longrightarrow> keys_known u r)))
    \<and> ((schema_child s k = Some TMount \<longrightarrow> (\<forall>vs. v = TArray vs \<longrightarrow>
        (\<forall>e \<in> set vs. \<forall>u r. schema_at e TMount u r \<longrightarrow> keys_known u r)))
      \<and> (\<forall>k vs. (k, TArray vs) \<in> set t \<longrightarrow> schema_child s k = Some TMount
        \<longrightarrow> (\<forall>v \<in> set vs. \<forall>u r. schema_at v TMount u r \<longrightarrow> keys_known u r)))"
    unfolding entries_fine_iff
  proof (intro conj_cong)
    show "keys_known ((k, v) # t) s \<longleftrightarrow> k \<in> set (schema_keys s) \<and> keys_known t s"
      by (auto simp: keys_known_def)
  qed auto
  then show ?thesis unfolding entries_fine_iff [of t] by blast
qed

lemma and_then_unit: "and_then (r :: ('e, unit) result) f = Inr () \<longleftrightarrow> r = Inr () \<and> f () = Inr ()"
  by (cases r) auto

lemma not_schema_at [simp]:
  "as_table v = None \<Longrightarrow> \<not> schema_at v s u r"
  by (auto elim: schema_atE)

lemma walk_accepts:
  "(validate_table_keys v s p f = Inr () \<longleftrightarrow> (\<forall>u r. schema_at v s u r \<longrightarrow> keys_known u r))"
  "(check_entries t s p f = Inr () \<longleftrightarrow> entries_fine t s)"
  "(check_elements i vs s p f = Inr () \<longleftrightarrow> (\<forall>v \<in> set vs. \<forall>u r. schema_at v s u r \<longrightarrow> keys_known u r))"
proof (induction v s p f and t s p f and i vs s p f
    rule: validate_table_keys_check_entries_check_elements.induct)
  case (1 t s p f)
  then show ?case by (simp add: entries_fine_def)
next
  case (4 k v rest s p f)
  show ?case
  proof (cases "k \<in> set (schema_keys s)")
    case False
    then show ?thesis by (simp add: entries_fine_Cons)
  next
    case True
    note IH = 4 [simplified True not_True_eq_False]
    let ?r = "case schema_child s k of None \<Rightarrow> Inr ()
       | Some s' \<Rightarrow> (case v of
            TArray values \<Rightarrow> if s' = TMount then check_elements 0 values s' (key_path p k) f
              else validate_table_keys (TArray values) s' (key_path p k) f
          | v \<Rightarrow> validate_table_keys v s' (key_path p k) f)"
    have "?r = Inr ()
      \<longleftrightarrow> (\<forall>s'. schema_child s k = Some s' \<longrightarrow> (\<forall>u r. schema_at v s' u r \<longrightarrow> keys_known u r))
        \<and> (schema_child s k = Some TMount \<longrightarrow> (\<forall>vs. v = TArray vs \<longrightarrow>
           (\<forall>e \<in> set vs. \<forall>u r. schema_at e TMount u r \<longrightarrow> keys_known u r)))"
      using IH by (cases "schema_child s k"; cases v) auto
    moreover have "?r = Inr () \<Longrightarrow> check_entries rest s p f = Inr () \<longleftrightarrow> entries_fine rest s"
      by (rule 4) (use True in simp_all)
    ultimately show ?thesis
      using True unfolding check_entries.simps and_then_unit entries_fine_Cons
      by (simp only: not_True_eq_False if_False and_then_unit) blast
  qed
next
  case (6 i v vs s p f)
  then show ?case by (simp add: and_then_unit) blast
qed (simp_all add: and_then_unit entries_fine_iff keys_known_def)

text \<open>A refusal names a key of a checked table that the table's schema does not have.\<close>

definition refuses :: "FirestoneError \<Rightarrow> string \<Rightarrow> (string \<times> toml) list \<Rightarrow> TableSchema \<Rightarrow> bool" where
  "refuses e f t s \<longleftrightarrow>
     (\<exists>k p. k \<in> fst ` set t \<and> k \<notin> set (schema_keys s) \<and> e = unknown_key_error s p k f)"

lemma refuses_mono: "refuses e f t s \<Longrightarrow> set t \<subseteq> set t' \<Longrightarrow> refuses e f t' s"
  unfolding refuses_def by blast

lemma schema_at_mono:
  "schema_at (TTable t) s u r \<Longrightarrow> u \<noteq> t \<or> r \<noteq> s \<Longrightarrow> set t \<subseteq> set t' \<Longrightarrow> schema_at (TTable t') s u r"
  unfolding schema_at_table by blast

lemma refuses_Cons:
  assumes "schema_at (TTable t) s u r" "refuses e f u r"
  shows "\<exists>u r. schema_at (TTable (x # t)) s u r \<and> refuses e f u r"
proof (cases "u = t \<and> r = s")
  case True
  then show ?thesis using assms refuses_mono [of e f t s "x # t"] by (auto intro: at_here)
next
  case False
  then show ?thesis using assms schema_at_mono [of t s u r "x # t"] by auto
qed

lemma walk_refuses:
  "validate_table_keys v s p f = Inl e \<Longrightarrow> \<exists>u r. schema_at v s u r \<and> refuses e f u r"
  "check_entries t s p f = Inl e \<Longrightarrow> \<exists>u r. schema_at (TTable t) s u r \<and> refuses e f u r"
  "check_elements i vs s p f = Inl e \<Longrightarrow> \<exists>v \<in> set vs. \<exists>u r. schema_at v s u r \<and> refuses e f u r"
proof (induction v s p f and t s p f and i vs s p f
    rule: validate_table_keys_check_entries_check_elements.induct)
  case (4 k v rest s p f)
  show ?case
  proof (cases "k \<in> set (schema_keys s)")
    case False
    then have "refuses e f ((k, v) # rest) s" using 4(10) by (auto simp: refuses_def)
    then show ?thesis using at_here by blast
  next
    case True
    let ?r = "case schema_child s k of None \<Rightarrow> Inr ()
       | Some s' \<Rightarrow> (case v of
            TArray values \<Rightarrow> if s' = TMount then check_elements 0 values s' (key_path p k) f
              else validate_table_keys (TArray values) s' (key_path p k) f
          | v \<Rightarrow> validate_table_keys v s' (key_path p k) f)"
    show ?thesis
    proof (cases ?r)
      case (Inr a)
      then have "check_entries rest s p f = Inl e" using 4(10) True by simp
      then show ?thesis using refuses_Cons 4(9) [OF _ Inr] True by blast
    next
      case (Inl e')
      then have "?r = Inl e" using 4(10) True by simp
      then have "(\<exists>s' u r. schema_child s k = Some s' \<and> schema_at v s' u r \<and> refuses e f u r) \<or>
        (\<exists>vs u r. v = TArray vs \<and> schema_child s k = Some TMount
           \<and> (\<exists>x \<in> set vs. schema_at x TMount u r \<and> refuses e f u r))"
        using 4(1-8) True by (cases "schema_child s k"; cases v) (auto split: if_splits)
      then show ?thesis by (meson at_child at_element list.set_intros(1))
    qed
  qed
next
  case (6 i v vs s p f)
  then show ?case by (cases "validate_table_keys v s (p @ ''['' @ show_nat i @ '']'') f") auto
qed auto

text \<open>
  C31. Key checking accepts a TOML document exactly when every table it reaches has only keys of
  its schema; a refusal names such a key of such a table, and a document that does not parse is
  an \<open>InvalidSpec\<close> error.
\<close>

theorem known_keys_accepts_iff:
  "(case toml_parse input of
      Inl m \<Rightarrow> (\<exists>e. validate_known_keys toml_parse input schema file = Inl e \<and> kind e = InvalidSpec)
    | Inr doc \<Rightarrow>
        (validate_known_keys toml_parse input schema file = Inr () \<longleftrightarrow>
           (\<forall>t s. schema_at doc (root_schema schema) t s \<longrightarrow> fst ` set t \<subseteq> set (schema_keys s)))
      \<and> (\<forall>e. validate_known_keys toml_parse input schema file = Inl e \<longrightarrow>
           (\<exists>t s k p. schema_at doc (root_schema schema) t s \<and> k \<in> fst ` set t
              \<and> k \<notin> set (schema_keys s) \<and> e = unknown_key_error s p k file)))"
proof (cases "toml_parse input")
  case (Inl m)
  then show ?thesis by (simp add: validate_known_keys_def error_new_def with_hint_def)
next
  case (Inr doc)
  then have walk: "validate_known_keys toml_parse input schema file
      = validate_table_keys doc (root_schema schema) [] file"
    by (simp add: validate_known_keys_def)
  have "validate_table_keys doc (root_schema schema) [] file = Inr () \<longleftrightarrow>
      (\<forall>t s. schema_at doc (root_schema schema) t s \<longrightarrow> fst ` set t \<subseteq> set (schema_keys s))"
    unfolding walk_accepts(1) keys_known_def ..
  moreover have "\<exists>t s k p. schema_at doc (root_schema schema) t s \<and> k \<in> fst ` set t
      \<and> k \<notin> set (schema_keys s) \<and> e = unknown_key_error s p k file"
    if "validate_table_keys doc (root_schema schema) [] file = Inl e" for e
    using walk_refuses(1) [OF that] unfolding refuses_def by metis
  ultimately show ?thesis unfolding Inr sum.case walk by simp
qed

theorem known_keys_accepts_iff_witness:
  "(let doc = TTable [(''image'', TString ''x''), (''netwrk'', TTable [])];
        parse = (\<lambda>_. Inr doc) :: string \<Rightarrow> (string, toml) result
    in \<exists>t s k p. schema_at doc TMachine t s \<and> k \<in> fst ` set t \<and> k \<notin> set (schema_keys s)
         \<and> validate_known_keys parse [] SchemaMachine ''f'' = Inl (unknown_key_error s p k ''f''))"
proof -
  let ?doc = "TTable [(''image'', TString ''x''), (''netwrk'', TTable [])]"
  let ?parse = "(\<lambda>_. Inr ?doc) :: string \<Rightarrow> (string, toml) result"
  have "validate_known_keys ?parse [] SchemaMachine ''f''
      = Inl (unknown_key_error TMachine [] ''netwrk'' ''f'')"
    by (simp add: validate_known_keys_def root_schema_def schema_child_def)
  then show ?thesis
    using known_keys_accepts_iff [of ?parse "[]" SchemaMachine "''f''"]
    by (simp add: root_schema_def)
qed

section \<open>Lifting the overlay out of the tree and back\<close>

lemma take_insert_toml_path:
  "insert_toml_path val path x f = Inr val' \<Longrightarrow> \<exists>rest. take_toml_path val' path = Some (x, rest)"
proof (induction val path x f arbitrary: val' rule: insert_toml_path.induct)
  case (2 val leaf x f)
  then show ?case using btree_remove_insert [of leaf x] by (auto split: option.splits)
next
  case (3 val parent q path x f)
  then obtain t where t: "as_table val = Some t" by (auto split: option.splits)
  with 3 obtain child where child:
    "insert_toml_path (case map_of t parent of Some child \<Rightarrow> child | None \<Rightarrow> TTable []) (q # path) x f
      = Inr child" and v': "val' = TTable (btree_insert parent child t)"
    by (auto simp: and_then_Inr_iff)
  show ?case using 3(1) [OF t child] v' by (auto simp: map_of_btree_insert)
qed simp

text \<open>
  An overlay written into a TOML document is the overlay read back: when the TOML and JSON
  printers are inverted by the parsers, reading the written document with any decoder of the
  remaining fields gives a patch whose \<open>vmm.config_overlay\<close> is the overlay, provided the decoder
  and the patch's validation accept.
\<close>

lemma overlay_survives_toml:
  assumes "\<And>v s. toml_print v = Some s \<Longrightarrow> toml_parse s = Inr v"
      and "\<And>j s. json_print j = Some s \<Longrightarrow> json_parse s = Inr j"
      and "serialize_toml_with_overlay toml_print json_print value (Some overlay) path file = Inr doc"
      and "deserialize_patch_toml toml_parse toml_print json_parse decode doc file path = Inr patch"
  shows "\<exists>v. mp_vmm patch = Some v \<and> vp_config_overlay v = Some overlay"
proof -
  obtain v t v' where ov: "validate_overlay overlay (join_with (CHR ''.'') path) = Inr ()"
      and t: "json_print overlay = Some t"
      and v': "insert_toml_path v path (TString t) file = Inr v'"
      and doc: "toml_print v' = Some doc"
    using assms(3)
    by (auto simp: serialize_toml_with_overlay_def encode_toml_value_def and_then_Inr_iff ok_or_def
        split: option.splits)
  obtain rest where take: "take_toml_path v' path = Some (TString t, rest)"
    using take_insert_toml_path [OF v'] by blast
  have "decode_toml_overlay json_parse (TString t) file path = Inr overlay"
    using ov assms(2) [OF t] by (simp add: decode_toml_overlay_def map_err_def Let_def)
  then obtain p where "patch = set_overlay (Some overlay) p"
    using assms(4) take assms(1) [OF doc]
    by (auto simp: deserialize_patch_toml_def parse_toml_def map_err_def and_then_Inr_iff Let_def)
  then show ?thesis by (simp add: set_overlay_def split: option.split)
qed

end
