(* ===== verification/Catalog.thy ===== *)
theory Catalog
  imports Toml_Keys "HOL-Library.Product_Lexorder"
begin

text \<open>
  The image catalog of \<^verbatim>\<open>firestone-core/src/catalog.rs\<close>: conversion and checks of catalog
  documents, the merge of the built-in document with the user's, reference lookup
  (\<open>distro\<close>, \<open>distro:version\<close>, \<open>distro:alias\<close>) and the suggestions for an unknown image.

  A catalog that passes its checks is unambiguous: every reference names at most one entry and
  every distro has a default. The catalog's own Levenshtein loop is proved equal to the one
  used for configuration keys.

  The TOML decoder, the URL parser and the file system are arguments.
\<close>

section \<open>Data\<close>

definition DEFAULT_SSHD_PATH :: string where "DEFAULT_SSHD_PATH = ''/usr/sbin/sshd''"
definition CATALOG_FILE_HINT :: string where "CATALOG_FILE_HINT = ''fix the catalog file and retry''"

datatype SshdPath = SshdPath "string option"

definition sshd_component_ok :: "string \<Rightarrow> bool" where
  "sshd_component_ok component \<longleftrightarrow>
     component \<noteq> [] \<and> component \<notin> {''.'', ''..''}
     \<and> list_all (\<lambda>b. is_ascii_alphanumeric b \<or> b \<in> {CHR ''.'', CHR ''_'', CHR ''+'', CHR ''-''}) component"

definition sshd_path_new :: "string \<Rightarrow> (FirestoneError, SshdPath) result" where
  "sshd_path_new val =
     (let valid = (case strip_prefix ''/'' val of
                     None \<Rightarrow> False
                   | Some relative \<Rightarrow>
                       relative \<noteq> [] \<and> list_all sshd_component_ok (split_on (CHR ''/'') relative))
      in if \<not> valid \<or> length val > 4096
         then Inl (with_hint ''set sshd_path to the absolute sshd executable inside the guest''
           (error_new InvalidSpec
             (''sshd_path must be an absolute POSIX executable path using only +                 ''
              @ ''[A-Za-z0-9._+-] components'')))
         else Inr (SshdPath (if val \<noteq> DEFAULT_SSHD_PATH then Some val else None)))"

fun sshd_as_str :: "SshdPath \<Rightarrow> string" where
  "sshd_as_str (SshdPath p) = (case p of Some s \<Rightarrow> s | None \<Rightarrow> DEFAULT_SSHD_PATH)"

datatype ImageFormat = Qcow2 | Raw

datatype ChecksumAlgorithm = Sha256 | Sha512

datatype CatalogChecksum = ManifestUrl string | Sha256Digest string

record CatalogArchSource =
  ca_url :: string
  ca_checksum :: CatalogChecksum
  ca_checksum_algorithm :: ChecksumAlgorithm
  ca_firmware :: "CatalogFirmware option"

record CatalogEntry =
  ce_distro :: string
  ce_version :: string
  ce_aliases :: "string list"
  ce_default :: bool
  ce_firmware :: CatalogFirmware
  ce_format :: ImageFormat
  ce_sshd_path :: SshdPath
  ce_arch :: "(string \<times> CatalogArchSource) list"

definition canonical_reference :: "CatalogEntry \<Rightarrow> string" where
  "canonical_reference e = ce_distro e @ CHR '':'' # ce_version e"

record ResolvedCatalogEntry =
  re_canonical_reference :: string
  re_source :: CatalogArchSource
  re_checksum_algorithm :: ChecksumAlgorithm
  re_firmware :: CatalogFirmware
  re_format :: ImageFormat
  re_sshd_path :: SshdPath
  re_architecture :: string

record Catalog =
  entries :: "(string \<times> CatalogEntry) list"

record RawArchSource =
  ra_url :: string
  ra_checksum_url :: "string option"
  ra_sha256 :: "string option"
  ra_firmware :: "CatalogFirmware option"
  ra_checksum_alg :: ChecksumAlgorithm

record RawCatalogEntry =
  rw_distro :: string
  rw_version :: string
  rw_aliases :: "string list"
  rw_default :: bool
  rw_firmware :: CatalogFirmware
  rw_format :: ImageFormat
  rw_sshd_path :: SshdPath
  rw_arch :: "(string \<times> RawArchSource) list"

text \<open>What the code reads of a URL parsed by the \<open>url\<close> crate.\<close>

record ParsedUrl =
  url_violation :: bool
  url_scheme :: string
  url_has_host :: bool
  url_username :: string
  url_password :: "string option"
  url_authority :: string
  url_fragment :: "string option"

section \<open>Conversion of a document\<close>

definition with_catalog_hint :: "FirestoneError \<Rightarrow> bool \<Rightarrow> FirestoneError" where
  "with_catalog_hint err user_editable =
     (if user_editable then with_hint CATALOG_FILE_HINT err else err)"

definition invalid_catalog :: "string \<Rightarrow> string \<Rightarrow> bool \<Rightarrow> FirestoneError" where
  "invalid_catalog source detail user_editable =
     with_catalog_hint (error_new InvalidSpec (''invalid '' @ source @ '': '' @ detail)) user_editable"

definition parse_https_url :: "(string \<Rightarrow> ParsedUrl option) \<Rightarrow> string \<Rightarrow> ParsedUrl option" where
  "parse_https_url url_parse val =
     (if contains_whitespace val then None
      else case url_parse val of
        None \<Rightarrow> None
      | Some parsed \<Rightarrow>
          if url_violation parsed \<or> url_scheme parsed \<noteq> ''https'' \<or> \<not> url_has_host parsed
             \<or> url_username parsed \<noteq> [] \<or> url_password parsed \<noteq> None
             \<or> CHR ''@'' \<in> set (url_authority parsed) \<or> url_fragment parsed \<noteq> None
          then None else Some parsed)"

definition is_https_url :: "(string \<Rightarrow> ParsedUrl option) \<Rightarrow> string \<Rightarrow> bool" where
  "is_https_url url_parse val \<longleftrightarrow> parse_https_url url_parse val \<noteq> None"

definition is_reference_component :: "string \<Rightarrow> bool" where
  "is_reference_component val =
     (case val of
        [] \<Rightarrow> False
      | c # cs \<Rightarrow> is_ascii_alphanumeric c
          \<and> list_all (\<lambda>x. is_ascii_alphanumeric x \<or> x \<in> {CHR ''.'', CHR ''_'', CHR ''+'', CHR ''-''}) cs)"

definition validate_reference_component ::
  "string \<Rightarrow> string \<Rightarrow> string \<Rightarrow> bool \<Rightarrow> (FirestoneError, unit) result" where
  "validate_reference_component fld val source user_editable =
     ensure (is_reference_component val)
       (invalid_catalog source (fld @ '' '' @ quoted val @ '' is not a valid catalog reference component'')
         user_editable)"

definition validate_architecture_name ::
  "string \<Rightarrow> string \<Rightarrow> string \<Rightarrow> bool \<Rightarrow> (FirestoneError, unit) result" where
  "validate_architecture_name architecture canonical source user_editable =
     ensure (architecture \<in> {''x86_64'', ''aarch64''})
       (invalid_catalog source
         (''image '' @ quoted canonical @ '' key '' @ quoted (''image.arch.'' @ architecture)
           @ '' is unsupported; expected x86_64 or aarch64'') user_editable)"

definition convert_arch_source ::
  "(string \<Rightarrow> ParsedUrl option) \<Rightarrow> RawArchSource \<Rightarrow> string \<Rightarrow> string \<Rightarrow> string \<Rightarrow> bool
   \<Rightarrow> (FirestoneError, CatalogArchSource) result" where
  "convert_arch_source url_parse raw canonical architecture source user_editable =
     (let field_context = ''image '' @ quoted canonical @ '' architecture '' @ quoted architecture;
          bad = (\<lambda>detail. invalid_catalog source (field_context @ detail) user_editable)
      in if \<not> is_https_url url_parse (ra_url raw)
      then Inl (bad ('' has invalid image URL '' @ quoted (ra_url raw)
             @ ''; expected HTTPS with a host and without credentials or a fragment''))
      else and_then
        (case (ra_checksum_url raw, ra_sha256 raw) of
           (Some checksum_url, None) \<Rightarrow>
             if \<not> is_https_url url_parse checksum_url
             then Inl (bad ('' has invalid checksum URL '' @ quoted checksum_url
                    @ ''; expected HTTPS with a host and without credentials or a fragment''))
             else Inr (ManifestUrl checksum_url)
         | (None, Some sha256) \<Rightarrow>
             if ra_checksum_alg raw \<noteq> Sha256
             then Inl (bad '' uses direct sha256 with a non-sha256 algorithm'')
             else if length sha256 \<noteq> 64 \<or> \<not> list_all is_ascii_hexdigit sha256
             then Inl (bad '' has an invalid sha256 digest'')
             else Inr (Sha256Digest (map to_ascii_lowercase sha256))
         | (Some _, Some _) \<Rightarrow> Inl (bad '' sets both checksum_url and sha256'')
         | (None, None) \<Rightarrow> Inl (bad '' requires checksum_url or sha256''))
        (\<lambda>checksum.
          Inr \<lparr>ca_url = ra_url raw, ca_checksum = checksum,
               ca_checksum_algorithm = ra_checksum_alg raw, ca_firmware = ra_firmware raw\<rparr>))"

text \<open>The loop over the aliases; \<open>seen\<close> is the \<open>BTreeSet\<close> built so far.\<close>

fun check_aliases ::
  "string list \<Rightarrow> string list \<Rightarrow> string \<Rightarrow> string \<Rightarrow> bool \<Rightarrow> (FirestoneError, string list) result" where
  "check_aliases seen [] canonical source user_editable = Inr (btree_set seen)"
| "check_aliases seen (alias # rest) canonical source user_editable =
     and_then (validate_reference_component ''alias'' alias source user_editable) (\<lambda>_.
     if alias \<in> set seen
     then Inl (invalid_catalog source
            (''image '' @ quoted canonical @ '' repeats alias '' @ quoted alias) user_editable)
     else check_aliases (alias # seen) rest canonical source user_editable)"

definition convert_entry ::
  "(string \<Rightarrow> ParsedUrl option) \<Rightarrow> RawCatalogEntry \<Rightarrow> string \<Rightarrow> bool \<Rightarrow> (FirestoneError, CatalogEntry) result" where
  "convert_entry url_parse raw source user_editable =
     and_then (validate_reference_component ''distro'' (rw_distro raw) source user_editable) (\<lambda>_.
     and_then (validate_reference_component ''version'' (rw_version raw) source user_editable) (\<lambda>_.
     let canonical = rw_distro raw @ CHR '':'' # rw_version raw
     in and_then (check_aliases [] (rw_aliases raw) canonical source user_editable) (\<lambda>aliases.
     if rw_arch raw = []
     then Inl (invalid_catalog source
            (''image '' @ quoted canonical @ '' has no architecture sources'') user_editable)
     else and_then
       (map_r (\<lambda>(architecture, raw_source).
          and_then (validate_architecture_name architecture canonical source user_editable) (\<lambda>_.
          and_then (convert_arch_source url_parse raw_source canonical architecture source user_editable)
            (\<lambda>s. Inr (architecture, s)))) (rw_arch raw))
       (\<lambda>arch.
     Inr \<lparr>ce_distro = rw_distro raw, ce_version = rw_version raw, ce_aliases = aliases,
          ce_default = rw_default raw, ce_firmware = rw_firmware raw, ce_format = rw_format raw,
          ce_sshd_path = rw_sshd_path raw, ce_arch = arch\<rparr>))))"

text \<open>The loop of \<open>parse_document\<close>; \<open>seen\<close> is \<open>canonical_references\<close>.\<close>

fun convert_entries ::
  "(string \<Rightarrow> ParsedUrl option) \<Rightarrow> string list \<Rightarrow> RawCatalogEntry list \<Rightarrow> string \<Rightarrow> bool
   \<Rightarrow> (FirestoneError, CatalogEntry list) result" where
  "convert_entries url_parse seen [] source user_editable = Inr []"
| "convert_entries url_parse seen (raw # rest) source user_editable =
     and_then (convert_entry url_parse raw source user_editable) (\<lambda>entry.
     let canonical = canonical_reference entry
     in if canonical \<in> set seen
        then Inl (invalid_catalog source
               (''duplicate canonical reference '' @ quoted canonical) user_editable)
        else and_then (convert_entries url_parse (canonical # seen) rest source user_editable)
               (\<lambda>es. Inr (entry # es)))"

definition parse_document ::
  "(string \<Rightarrow> (string, RawCatalogEntry list) result) \<Rightarrow> (string \<Rightarrow> ParsedUrl option)
   \<Rightarrow> string \<Rightarrow> string \<Rightarrow> bool \<Rightarrow> (FirestoneError, CatalogEntry list) result" where
  "parse_document toml_from_str url_parse input source user_editable =
     and_then
       (map_err (\<lambda>err. with_catalog_hint
           (error_new InvalidSpec (''cannot parse '' @ source @ '': '' @ err)) user_editable)
         (toml_from_str input))
       (\<lambda>image. convert_entries url_parse [] image source user_editable)"

section \<open>Catalog checks\<close>

definition entries_by_reference :: "CatalogEntry list \<Rightarrow> (string \<times> CatalogEntry) list" where
  "entries_by_reference es = fold (\<lambda>e. btree_insert (canonical_reference e) e) es []"

definition values_of :: "(string \<times> CatalogEntry) list \<Rightarrow> CatalogEntry list" where
  "values_of t = map snd t"

definition validate_defaults :: "(string \<times> CatalogEntry) list \<Rightarrow> (FirestoneError, unit) result" where
  "validate_defaults t =
     for_each (\<lambda>distro.
       let releases = filter (\<lambda>e. ce_distro e = distro) (values_of t);
           defaults = map canonical_reference (filter ce_default releases)
       in if length defaults \<noteq> 1
          then Inl (with_hint CATALOG_FILE_HINT (error_new InvalidSpec
                 (''catalog distro '' @ quoted distro @ '' must have exactly one default release; found ''
                   @ show_nat (length defaults) @ '' across ''
                   @ join_str '', '' (map canonical_reference releases))))
          else Inr ())
       (btree_set (map ce_distro (values_of t)))"

definition selectors_of :: "CatalogEntry \<Rightarrow> string list" where
  "selectors_of e = btree_set (ce_aliases e @ [ce_version e])"

text \<open>The loops of \<open>validate_reference_names\<close>; \<open>names\<close> is the map built so far.\<close>

fun insert_names ::
  "string \<Rightarrow> string \<Rightarrow> string list \<Rightarrow> (string \<times> string \<Rightarrow> string option)
   \<Rightarrow> (FirestoneError, string \<times> string \<Rightarrow> string option) result" where
  "insert_names distro canonical [] names = Inr names"
| "insert_names distro canonical (selector # rest) names =
     (case names (distro, selector) of
        Some previous \<Rightarrow>
          if previous \<noteq> canonical
          then Inl (with_hint CATALOG_FILE_HINT (error_new InvalidSpec
                 (''catalog name '' @ quoted (distro @ CHR '':'' # selector) @ '' is ambiguous between ''
                   @ quoted previous @ '' and '' @ quoted canonical)))
          else insert_names distro canonical rest (names((distro, selector) \<mapsto> canonical))
      | None \<Rightarrow> insert_names distro canonical rest (names((distro, selector) \<mapsto> canonical)))"

fun reference_names ::
  "CatalogEntry list \<Rightarrow> (string \<times> string \<Rightarrow> string option)
   \<Rightarrow> (FirestoneError, string \<times> string \<Rightarrow> string option) result" where
  "reference_names [] names = Inr names"
| "reference_names (e # es) names =
     and_then (insert_names (ce_distro e) (canonical_reference e) (selectors_of e) names)
       (reference_names es)"

definition validate_reference_names ::
  "(string \<times> CatalogEntry) list \<Rightarrow> (FirestoneError, unit) result" where
  "validate_reference_names t =
     and_then (reference_names (values_of t) (\<lambda>_. None)) (\<lambda>_. Inr ())"

definition catalog_validate :: "(string \<times> CatalogEntry) list \<Rightarrow> (FirestoneError, Catalog) result" where
  "catalog_validate t =
     and_then (validate_defaults t) (\<lambda>_.
     and_then (validate_reference_names t) (\<lambda>_. Inr \<lparr>entries = t\<rparr>))"

section \<open>Loading\<close>

text \<open>The two file-system calls of the loader.\<close>

record CatalogFs =
  read_to_string :: "string \<Rightarrow> (IoError, string) result"
  symlink_metadata :: "string \<Rightarrow> (IoError, unit) result"

definition optional_catalog_file_is_absent :: "CatalogFs \<Rightarrow> string \<Rightarrow> IoError \<Rightarrow> bool" where
  "optional_catalog_file_is_absent fs path err \<longleftrightarrow>
     io_kind err = IoNotFound
     \<and> (case symlink_metadata fs path of
          Inl metadata_error \<Rightarrow> io_kind metadata_error = IoNotFound
        | Inr _ \<Rightarrow> False)"

definition merge_catalog_file ::
  "(string \<Rightarrow> (string, RawCatalogEntry list) result) \<Rightarrow> (string \<Rightarrow> ParsedUrl option) \<Rightarrow> CatalogFs
   \<Rightarrow> (string \<times> CatalogEntry) list \<Rightarrow> string \<Rightarrow> bool
   \<Rightarrow> (FirestoneError, (string \<times> CatalogEntry) list) result" where
  "merge_catalog_file toml_from_str url_parse fs t path optional =
     (case read_to_string fs path of
        Inl err \<Rightarrow>
          if optional \<and> optional_catalog_file_is_absent fs path err then Inr t
          else Inl (with_hint ''check the catalog path and file permissions''
                 (error_new (if io_kind err = IoNotFound then NotFound else Generic)
                   (''cannot read catalog '' @ quoted path @ '': '' @ io_text err)))
      | Inr input \<Rightarrow>
          and_then (parse_document toml_from_str url_parse input (''catalog '' @ quoted path) True)
            (\<lambda>es. Inr (fold (\<lambda>e. btree_insert (canonical_reference e) e) es t)))"

fun merge_extra_catalogs ::
  "(string \<Rightarrow> (string, RawCatalogEntry list) result) \<Rightarrow> (string \<Rightarrow> ParsedUrl option) \<Rightarrow> CatalogFs
   \<Rightarrow> (string \<times> CatalogEntry) list \<Rightarrow> string list \<Rightarrow> (FirestoneError, (string \<times> CatalogEntry) list) result" where
  "merge_extra_catalogs toml_from_str url_parse fs t [] = Inr t"
| "merge_extra_catalogs toml_from_str url_parse fs t (path # paths) =
     and_then (merge_catalog_file toml_from_str url_parse fs t path False)
       (\<lambda>t. merge_extra_catalogs toml_from_str url_parse fs t paths)"

text \<open>\<open>Catalog::load\<close> and \<open>built_in\<close>; the embedded document is the argument \<open>built_in\<close>.\<close>

definition catalog_built_in ::
  "(string \<Rightarrow> (string, RawCatalogEntry list) result) \<Rightarrow> (string \<Rightarrow> ParsedUrl option) \<Rightarrow> string
   \<Rightarrow> (FirestoneError, Catalog) result" where
  "catalog_built_in toml_from_str url_parse built_in =
     and_then (parse_document toml_from_str url_parse built_in ''built-in catalog'' False)
       (\<lambda>es. catalog_validate (entries_by_reference es))"

definition catalog_load ::
  "(string \<Rightarrow> (string, RawCatalogEntry list) result) \<Rightarrow> (string \<Rightarrow> ParsedUrl option) \<Rightarrow> CatalogFs
   \<Rightarrow> string \<Rightarrow> string \<Rightarrow> string list \<Rightarrow> (FirestoneError, Catalog) result" where
  "catalog_load toml_from_str url_parse fs built_in config_catalog extra_catalogs =
     and_then (parse_document toml_from_str url_parse built_in ''built-in catalog'' False) (\<lambda>es.
     and_then (merge_catalog_file toml_from_str url_parse fs (entries_by_reference es) config_catalog True) (\<lambda>t.
     and_then (merge_extra_catalogs toml_from_str url_parse fs t extra_catalogs) (\<lambda>t.
     catalog_validate t)))"

section \<open>Lookup\<close>

definition catalog_find :: "Catalog \<Rightarrow> string \<Rightarrow> CatalogEntry option" where
  "catalog_find c reference =
     (case split_once (CHR '':'') reference of
        Some (distro, selector) \<Rightarrow>
          find (\<lambda>e. ce_distro e = distro \<and> (ce_version e = selector \<or> selector \<in> set (ce_aliases e)))
            (values_of (entries c))
      | None \<Rightarrow>
          find (\<lambda>e. ce_distro e = reference \<and> ce_default e) (values_of (entries c)))"

definition contains_reference :: "Catalog \<Rightarrow> string \<Rightarrow> bool" where
  "contains_reference c reference \<longleftrightarrow> catalog_find c reference \<noteq> None"

fun levenshtein_row :: "char \<Rightarrow> string \<Rightarrow> nat list \<Rightarrow> nat \<Rightarrow> nat list" where
  "levenshtein_row a (b # bs) (d # u # prev) left =
     (let substitution = d + (if a \<noteq> b then 1 else 0);
          insertion = left + 1;
          deletion = u + 1;
          v = min (min substitution insertion) deletion
      in v # levenshtein_row a bs (u # prev) v)"
| "levenshtein_row a _ _ left = []"

fun levenshtein_rows :: "nat \<Rightarrow> string \<Rightarrow> string \<Rightarrow> nat list \<Rightarrow> nat list" where
  "levenshtein_rows i [] right previous = previous"
| "levenshtein_rows i (a # as) right previous =
     levenshtein_rows (i + 1) as right ((i + 1) # levenshtein_row a right previous (i + 1))"

definition levenshtein :: "string \<Rightarrow> string \<Rightarrow> nat" where
  "levenshtein left right =
     levenshtein_rows 0 left right [0..<length right + 1] ! length right"

definition catalog_names :: "Catalog \<Rightarrow> string list" where
  "catalog_names c =
     btree_set (concat (map (\<lambda>e.
       [canonical_reference e] @ (if ce_default e then [ce_distro e] else [])
       @ map (\<lambda>alias. ce_distro e @ CHR '':'' # alias) (ce_aliases e)) (values_of (entries c))))"

definition closest_names :: "Catalog \<Rightarrow> string \<Rightarrow> nat \<Rightarrow> string list" where
  "closest_names c reference limit =
     map snd (take limit (sort (map (\<lambda>name. (levenshtein reference name, name)) (catalog_names c))))"

definition unknown_image :: "Catalog \<Rightarrow> string \<Rightarrow> FirestoneError" where
  "unknown_image c reference =
     (let closest = join_str '', '' (closest_names c reference 3);
          msg = (if closest = [] then ''unknown image '' @ quoted reference
                 else ''unknown image '' @ quoted reference @ ''; closest catalog images: '' @ closest)
      in with_hint (''run `firestone catalog` to list catalog images, or pull a container image ''
            @ ''by writing `docker://nginx`'') (error_new NotFound msg))"

definition resolve :: "Catalog \<Rightarrow> string \<Rightarrow> string \<Rightarrow> (FirestoneError, ResolvedCatalogEntry) result" where
  "resolve c reference host_architecture =
     and_then (ok_or (unknown_image c reference) (catalog_find c reference)) (\<lambda>entry.
     let canonical = canonical_reference entry
     in and_then
       (ok_or
          (with_hint ''use a host with one of the available architectures''
            (error_new NotFound (''image '' @ quoted canonical @ '' has no source for architecture ''
              @ quoted host_architecture @ ''; available architectures: ''
              @ join_str '', '' (map fst (ce_arch entry)))))
          (map_of (ce_arch entry) host_architecture))
       (\<lambda>source.
     Inr \<lparr>re_canonical_reference = canonical, re_source = source,
          re_checksum_algorithm = ca_checksum_algorithm source,
          re_firmware = (case ca_firmware source of Some f \<Rightarrow> f | None \<Rightarrow> ce_firmware entry),
          re_format = ce_format entry, re_sshd_path = ce_sshd_path entry,
          re_architecture = host_architecture\<rparr>))"

section \<open>One distance, two implementations\<close>

lemma lev_min:
  "lev (a # as) (b # bs) =
     min (min (lev as bs + (if a \<noteq> b then 1 else 0)) (lev (a # as) bs + 1)) (lev as (b # bs) + 1)"
proof (cases "a = b")
  case True
  have "lev as bs \<le> lev (a # as) bs + 1" using lev_drop by simp
  moreover have "lev as bs \<le> lev as (b # bs) + 1"
    using lev_drop [of bs as b] unfolding lev_sym [of bs as] lev_sym [of "b # bs" as] by simp
  ultimately show ?thesis using True by simp
qed simp

lemma levenshtein_row_correct:
  "lev (a # as) r # levenshtein_row a bs (lev_row as r bs) (lev (a # as) r) = lev_row (a # as) r bs"
proof (induction bs arbitrary: r)
  case (Cons b bs)
  obtain t where t: "lev_row as (b # r) bs = lev as (b # r) # t" using lev_row_hd by blast
  show ?case using Cons.IH [of "b # r"] lev_min [of a as b r]
    by (simp add: t Let_def del: lev.simps(3))
qed simp

lemma levenshtein_rows_correct:
  "levenshtein_rows (length as) left right (lev_row as [] right) = lev_row (rev left @ as) [] right"
proof (induction left arbitrary: as)
  case (Cons a left)
  then show ?case using levenshtein_row_correct [of a as "[]" right] Cons.IH [of "a # as"] by simp
qed simp


section \<open>Well-formed catalogs\<close>

text \<open>Every entry is filed under its own reference, whose parts are reference components.\<close>

definition entry_wf :: "CatalogEntry \<Rightarrow> bool" where
  "entry_wf e \<longleftrightarrow> is_reference_component (ce_distro e) \<and> is_reference_component (ce_version e)
     \<and> list_all is_reference_component (ce_aliases e) \<and> ce_arch e \<noteq> []
     \<and> set (map fst (ce_arch e)) \<subseteq> {''x86_64'', ''aarch64''}"

definition table_wf :: "(string \<times> CatalogEntry) list \<Rightarrow> bool" where
  "table_wf t \<longleftrightarrow> btree_wf t \<and> (\<forall>(k, e) \<in> set t. k = canonical_reference e \<and> entry_wf e)"

lemma check_aliases_ok:
  "check_aliases seen aliases canonical source ue = Inr r \<Longrightarrow>
     list_all is_reference_component aliases \<and> set r = set seen \<union> set aliases"
  by (induction seen aliases canonical source ue arbitrary: r rule: check_aliases.induct)
    (auto simp: and_then_Inr_iff validate_reference_component_def split: if_splits)

lemma convert_entry_wf:
  assumes "convert_entry up raw source ue = Inr e"
  shows "entry_wf e"
proof -
  obtain aliases arch where
      d: "is_reference_component (rw_distro raw)" and v: "is_reference_component (rw_version raw)"
    and a: "check_aliases [] (rw_aliases raw) (rw_distro raw @ CHR '':'' # rw_version raw) source ue = Inr aliases"
    and ne: "rw_arch raw \<noteq> []"
    and m: "list_all2 (\<lambda>(architecture, raw_source) y.
          and_then (validate_architecture_name architecture (rw_distro raw @ CHR '':'' # rw_version raw) source ue) (\<lambda>_.
          and_then (convert_arch_source up raw_source (rw_distro raw @ CHR '':'' # rw_version raw) architecture source ue)
            (\<lambda>s. Inr (architecture, s))) = Inr y) (rw_arch raw) arch"
    and e: "e = \<lparr>ce_distro = rw_distro raw, ce_version = rw_version raw, ce_aliases = aliases,
          ce_default = rw_default raw, ce_firmware = rw_firmware raw, ce_format = rw_format raw,
          ce_sshd_path = rw_sshd_path raw, ce_arch = arch\<rparr>"
    using assms
    by (auto simp: convert_entry_def validate_reference_component_def and_then_Inr_iff Let_def
        map_r_Inr_iff case_prod_unfold split: if_splits)
  have "arch \<noteq> []" using m ne by auto
  moreover have "\<forall>y \<in> set arch. fst y \<in> {''x86_64'', ''aarch64''}"
    using m by (induction rule: list_all2_induct)
      (auto simp: and_then_Inr_iff validate_architecture_name_def)
  moreover have "list_all is_reference_component aliases"
    using check_aliases_ok [OF a] by (auto simp: list_all_iff)
  ultimately show ?thesis using d v by (auto simp: e entry_wf_def)
qed

lemma convert_entries_wf:
  "convert_entries up seen raws source ue = Inr es \<Longrightarrow> \<forall>e \<in> set es. entry_wf e"
  by (induction up seen raws source ue arbitrary: es rule: convert_entries.induct)
    (auto simp: and_then_Inr_iff Let_def convert_entry_wf split: if_splits)

lemma parse_document_wf: "parse_document tp up input source ue = Inr es \<Longrightarrow> \<forall>e \<in> set es. entry_wf e"
  by (auto simp: parse_document_def and_then_Inr_iff dest: convert_entries_wf)

lemma table_insert_wf: "table_wf t \<Longrightarrow> entry_wf e \<Longrightarrow> table_wf (btree_insert (canonical_reference e) e t)"
  by (auto simp: table_wf_def dest!: set_btree_insert)

lemma table_fold_wf:
  "table_wf t \<Longrightarrow> \<forall>e \<in> set es. entry_wf e \<Longrightarrow> table_wf (fold (\<lambda>e. btree_insert (canonical_reference e) e) es t)"
  by (induction es arbitrary: t) (auto intro: table_insert_wf)

lemma merge_catalog_file_wf:
  "merge_catalog_file tp up fs t path opt = Inr t' \<Longrightarrow> table_wf t \<Longrightarrow> table_wf t'"
  by (auto simp: merge_catalog_file_def and_then_Inr_iff split: sum.splits if_splits
      dest!: parse_document_wf intro: table_fold_wf)

lemma merge_extra_catalogs_wf:
  "merge_extra_catalogs tp up fs t paths = Inr t' \<Longrightarrow> table_wf t \<Longrightarrow> table_wf t'"
  by (induction tp up fs t paths arbitrary: t' rule: merge_extra_catalogs.induct)
    (auto simp: and_then_Inr_iff dest: merge_catalog_file_wf)

lemma entries_by_reference_wf: "\<forall>e \<in> set es. entry_wf e \<Longrightarrow> table_wf (entries_by_reference es)"
  unfolding entries_by_reference_def by (rule table_fold_wf) (simp_all add: table_wf_def)

lemma catalog_validate_iff:
  "catalog_validate t = Inr c \<longleftrightarrow>
     c = \<lparr>entries = t\<rparr> \<and> validate_defaults t = Inr () \<and> validate_reference_names t = Inr ()"
  by (auto simp: catalog_validate_def and_then_Inr_iff)

lemma catalog_load_table:
  assumes "catalog_load tp up fs b cfg extra = Inr c"
  shows "table_wf (entries c) \<and> validate_defaults (entries c) = Inr () \<and> validate_reference_names (entries c) = Inr ()"
proof -
  obtain es t t' where "parse_document tp up b ''built-in catalog'' False = Inr es"
      and "merge_catalog_file tp up fs (entries_by_reference es) cfg True = Inr t"
      and "merge_extra_catalogs tp up fs t extra = Inr t'" and "catalog_validate t' = Inr c"
    using assms by (auto simp: catalog_load_def and_then_Inr_iff)
  note steps = this
  have "table_wf t'"
    using merge_extra_catalogs_wf [OF steps(3) merge_catalog_file_wf [OF steps(2) entries_by_reference_wf]]
      parse_document_wf [OF steps(1)] by blast
  then show ?thesis using steps(4) by (auto simp: catalog_validate_iff)
qed

section \<open>References are unambiguous\<close>

lemma insert_names_ok:
  "insert_names d c sels names = Inr names' \<Longrightarrow>
     (\<forall>s \<in> set sels. names' (d, s) = Some c) \<and> (\<forall>x v. names x = Some v \<longrightarrow> names' x = Some v)"
proof (induction d c sels names rule: insert_names.induct)
  case (2 d c s rest names)
  have ok: "insert_names d c rest (names((d, s) \<mapsto> c)) = Inr names'" and same: "\<forall>p. names (d, s) = Some p \<longrightarrow> p = c"
    using 2(3) by (auto split: option.splits if_splits)
  have IH: "(\<forall>s \<in> set rest. names' (d, s) = Some c)
      \<and> (\<forall>x v. (names((d, s) \<mapsto> c)) x = Some v \<longrightarrow> names' x = Some v)"
  proof (cases "names (d, s)")
    case None
    show ?thesis by (rule 2(1) [OF None ok])
  next
    case (Some p)
    then show ?thesis using same 2(2) [OF Some _ ok] by blast
  qed
  then have new: "names' (d, s) = Some c" by simp
  have "names' x = Some v" if "names x = Some v" for x v
  proof (cases "x = (d, s)")
    case False
    then have "(names((d, s) \<mapsto> c)) x = Some v" using that by simp
    then show ?thesis using IH by blast
  qed (use new same that in auto)
  then show ?case using IH new by auto
qed simp

lemma reference_names_ok:
  "reference_names es names = Inr names' \<Longrightarrow>
     (\<forall>e \<in> set es. \<forall>s \<in> set (selectors_of e). names' (ce_distro e, s) = Some (canonical_reference e))
     \<and> (\<forall>x v. names x = Some v \<longrightarrow> names' x = Some v)"
proof (induction es arbitrary: names)
  case (Cons e es)
  then obtain n where "insert_names (ce_distro e) (canonical_reference e) (selectors_of e) names = Inr n"
      and "reference_names es n = Inr names'" by (auto simp: and_then_Inr_iff)
  note n = insert_names_ok [OF this(1)] Cons.IH [OF this(2)]
  then show ?case by auto
qed simp

text \<open>The reference names an entry answers to: its version, its aliases and, as default, the bare distro.\<close>

definition answers :: "CatalogEntry \<Rightarrow> string \<Rightarrow> bool" where
  "answers e reference \<longleftrightarrow>
     (\<exists>s \<in> {ce_version e} \<union> set (ce_aliases e). reference = ce_distro e @ CHR '':'' # s)
     \<or> ce_default e \<and> reference = ce_distro e"

lemma component_no_colon: "is_reference_component s \<Longrightarrow> CHR '':'' \<notin> set s"
  by (auto simp: is_reference_component_def list_all_iff is_ascii_alphanumeric_def is_ascii_alphabetic_def
      is_ascii_lowercase_def is_ascii_uppercase_def is_ascii_digit_def split: list.splits)

lemma answers_iff:
  assumes "entry_wf e"
  shows "answers e reference \<longleftrightarrow>
    (case split_once (CHR '':'') reference of
       Some (d, s) \<Rightarrow> ce_distro e = d \<and> (ce_version e = s \<or> s \<in> set (ce_aliases e))
     | None \<Rightarrow> ce_distro e = reference \<and> ce_default e)"
proof -
  have d: "CHR '':'' \<notin> set (ce_distro e)" using assms component_no_colon by (simp add: entry_wf_def)
  show ?thesis
  proof (cases "split_once (CHR '':'') reference")
    case None
    then have "CHR '':'' \<notin> set reference" by (simp add: split_once_None_iff)
    then show ?thesis using None by (auto simp: answers_def)
  next
    case (Some p)
    obtain x s where p: "p = (x, s)" by (cases p)
    then have r: "reference = x @ CHR '':'' # s" and x: "CHR '':'' \<notin> set x"
      using Some by (simp_all add: split_once_Some_iff)
    have eq: "ce_distro e @ CHR '':'' # s' = x @ CHR '':'' # s \<longleftrightarrow> ce_distro e = x \<and> s' = s" for s'
    proof -
      have "split_once (CHR '':'') (ce_distro e @ CHR '':'' # s') = Some (ce_distro e, s')"
        and "split_once (CHR '':'') (x @ CHR '':'' # s) = Some (x, s)"
        using d x by (simp_all add: split_once_Some_iff)
      then show ?thesis by (metis option.inject prod.inject)
    qed
    have "reference \<noteq> ce_distro e" using d r by (metis in_set_conv_decomp)
    then have "answers e reference \<longleftrightarrow> (\<exists>s' \<in> {ce_version e} \<union> set (ce_aliases e). ce_distro e = x \<and> s' = s)"
      unfolding answers_def r using eq by metis
    then show ?thesis using Some p by auto
  qed
qed

lemma catalog_find_answers:
  assumes "table_wf (entries c)"
  shows "catalog_find c reference = find (\<lambda>e. answers e reference) (values_of (entries c))"
proof -
  have "find P (values_of (entries c)) = find Q (values_of (entries c))"
    if "\<And>e. entry_wf e \<Longrightarrow> P e = Q e" for P Q
    using assms that by (intro find_cong) (auto simp: values_of_def table_wf_def)
  note eq = this
  show ?thesis
    unfolding catalog_find_def
    by (cases "split_once (CHR '':'') reference")
      (auto simp: answers_iff intro!: eq)
qed

definition catalog_ok :: "Catalog \<Rightarrow> bool" where
  "catalog_ok c \<longleftrightarrow> table_wf (entries c) \<and> validate_defaults (entries c) = Inr ()
     \<and> validate_reference_names (entries c) = Inr ()"

lemma same_canonical:
  assumes "table_wf t" "e \<in> set (values_of t)" "e' \<in> set (values_of t)"
    and "canonical_reference e = canonical_reference e'"
  shows "e = e'"
proof -
  have "(canonical_reference e, e) \<in> set t" "(canonical_reference e', e') \<in> set t"
    using assms(1-3) by (auto simp: table_wf_def values_of_def)
  then show ?thesis
    using assms(1,4) btree_lookup [of t] unfolding table_wf_def by (metis option.inject)
qed

lemma one_default:
  assumes "validate_defaults t = Inr ()" "e \<in> set (values_of t)"
  shows "\<exists>e0. filter ce_default (filter (\<lambda>x. ce_distro x = ce_distro e) (values_of t)) = [e0]"
proof -
  have "ce_distro e \<in> set (btree_set (map ce_distro (values_of t)))" using assms(2) by simp
  then have "length (filter ce_default (filter (\<lambda>x. ce_distro x = ce_distro e) (values_of t))) = 1"
    using assms(1) unfolding validate_defaults_def for_each_Inr_iff
    by (auto simp: Let_def split: if_splits)
  then show ?thesis by (simp add: length_Suc_conv)
qed

lemma answers_unique:
  assumes ok: "catalog_ok c" and e: "e \<in> set (values_of (entries c))" "answers e reference"
    and e': "e' \<in> set (values_of (entries c))" "answers e' reference"
  shows "e = e'"
proof -
  have wf: "entry_wf e" "entry_wf e'"
    using ok e(1) e'(1) by (auto simp: catalog_ok_def table_wf_def values_of_def)
  show ?thesis
  proof (cases "split_once (CHR '':'') reference")
    case None
    then have "ce_default e" "ce_default e'" "ce_distro e = reference" "ce_distro e' = reference"
      using e(2) e'(2) wf by (auto simp: answers_iff)
    note defaults = this
    obtain e0 where
      e0: "filter ce_default (filter (\<lambda>x. ce_distro x = ce_distro e) (values_of (entries c))) = [e0]"
      using one_default ok e(1) by (auto simp: catalog_ok_def)
    have "e \<in> set [e0]" "e' \<in> set [e0]"
      unfolding e0 [symmetric] using defaults e(1) e'(1) by auto
    then show ?thesis by simp
  next
    case (Some p)
    obtain d s where p: "p = (d, s)" by (cases p)
    have m: "ce_distro e = d" "s \<in> set (selectors_of e)" "ce_distro e' = d" "s \<in> set (selectors_of e')"
      using e(2) e'(2) wf Some p by (auto simp: answers_iff selectors_of_def)
    obtain names where "reference_names (values_of (entries c)) (\<lambda>_. None) = Inr names"
      using ok by (auto simp: catalog_ok_def validate_reference_names_def and_then_Inr_iff)
    then have "canonical_reference e = canonical_reference e'"
      using reference_names_ok m e(1) e'(1) by (metis option.inject)
    then show ?thesis using same_canonical ok e(1) e'(1) by (auto simp: catalog_ok_def)
  qed
qed

lemma find_unique:
  assumes "\<And>x y. x \<in> set xs \<Longrightarrow> P x \<Longrightarrow> y \<in> set xs \<Longrightarrow> P y \<Longrightarrow> x = y"
  shows "find P xs = Some x \<longleftrightarrow> x \<in> set xs \<and> P x"
proof
  assume "find P xs = Some x"
  then show "x \<in> set xs \<and> P x" by (auto simp: find_Some_iff)
next
  assume x: "x \<in> set xs \<and> P x"
  then obtain y where y: "find P xs = Some y" by (cases "find P xs") (auto simp: find_None_iff)
  then have "y \<in> set xs \<and> P y" by (auto simp: find_Some_iff)
  then show "find P xs = Some x" using assms x y by blast
qed

text \<open>
  C32. In a catalog that loads, a reference finds an entry exactly when the entry answers to it,
  so that no reference is ambiguous and the order of the entries does not matter; and every
  distro of the catalog has exactly one default, which its bare name finds.
\<close>

theorem loaded_catalog_unambiguous:
  assumes "catalog_load toml_from_str url_parse fs built_in config_catalog extra_catalogs = Inr c"
  shows "(catalog_find c reference = Some e \<longleftrightarrow>
       e \<in> set (values_of (entries c)) \<and> answers e reference)
    \<and> (e \<in> set (values_of (entries c)) \<longrightarrow>
       (\<exists>!d. d \<in> set (values_of (entries c)) \<and> ce_distro d = ce_distro e \<and> ce_default d
          \<and> catalog_find c (ce_distro e) = Some d))"
proof -
  have ok: "catalog_ok c" using catalog_load_table [OF assms] by (simp add: catalog_ok_def)
  have found: "catalog_find c r = Some x \<longleftrightarrow> x \<in> set (values_of (entries c)) \<and> answers x r" for r x
    using find_unique [of "values_of (entries c)" "\<lambda>x. answers x r"] answers_unique [OF ok]
      catalog_find_answers [of c r] ok by (auto simp: catalog_ok_def)
  have "\<exists>!d. d \<in> set (values_of (entries c)) \<and> ce_distro d = ce_distro e \<and> ce_default d
      \<and> catalog_find c (ce_distro e) = Some d" if e: "e \<in> set (values_of (entries c))"
  proof -
    obtain d where "filter ce_default (filter (\<lambda>x. ce_distro x = ce_distro e) (values_of (entries c))) = [d]"
      using one_default ok e by (auto simp: catalog_ok_def)
    then have "d \<in> set (filter ce_default (filter (\<lambda>x. ce_distro x = ce_distro e) (values_of (entries c))))"
      by simp
    then have d: "d \<in> set (values_of (entries c))" "ce_distro d = ce_distro e" "ce_default d" by auto
    then have "catalog_find c (ce_distro e) = Some d" using found by (simp add: answers_def)
    then show ?thesis using d by (intro ex1I [of _ d]) auto
  qed
  then show ?thesis using found by blast
qed

lemma fold_insert_last:
  "map_of (fold (\<lambda>e. btree_insert (canonical_reference e) e) es t) k =
     (case find (\<lambda>e. canonical_reference e = k) (rev es) of Some e \<Rightarrow> Some e | None \<Rightarrow> map_of t k)"
proof (induction es arbitrary: t)
  case (Cons e es)
  have "find P (xs @ [e]) = (case find P xs of Some x \<Rightarrow> Some x | None \<Rightarrow> if P e then Some e else None)"
    for P :: "CatalogEntry \<Rightarrow> bool" and xs by (induction xs) auto
  then show ?case using Cons by (auto split: option.split)
qed simp

text \<open>
  A catalog file replaces, by canonical reference, the entries of the documents before it
  and keeps all others.
\<close>

lemma catalog_file_overrides:
  assumes "merge_catalog_file toml_from_str url_parse fs t path optional = Inr t'"
  shows "(case read_to_string fs path of
      Inl _ \<Rightarrow> optional \<and> t' = t
    | Inr input \<Rightarrow> \<exists>es. parse_document toml_from_str url_parse input (''catalog '' @ quoted path) True = Inr es
        \<and> (\<forall>k. map_of t' k = (case find (\<lambda>e. canonical_reference e = k) (rev es) of
              Some e \<Rightarrow> Some e | None \<Rightarrow> map_of t k)))"
  using assms
  by (auto simp: merge_catalog_file_def and_then_Inr_iff fold_insert_last split: sum.splits if_splits)


text \<open>A document of one image, a URL parser that accepts every text, and a host without user catalogs.\<close>

definition demo_url :: ParsedUrl where
  "demo_url = \<lparr>url_violation = False, url_scheme = ''https'', url_has_host = True, url_username = [],
     url_password = None, url_authority = ''h'', url_fragment = None\<rparr>"

definition demo_raw :: RawCatalogEntry where
  "demo_raw = \<lparr>rw_distro = ''ubuntu'', rw_version = ''24.04'', rw_aliases = [''noble''], rw_default = True,
     rw_firmware = CatalogRhf, rw_format = Qcow2, rw_sshd_path = SshdPath None,
     rw_arch = [(''x86_64'', \<lparr>ra_url = ''https://h/i'', ra_checksum_url = Some ''https://h/s'',
       ra_sha256 = None, ra_firmware = None, ra_checksum_alg = Sha256\<rparr>)]\<rparr>"

definition demo_entry :: CatalogEntry where
  "demo_entry = \<lparr>ce_distro = ''ubuntu'', ce_version = ''24.04'', ce_aliases = [''noble''], ce_default = True,
     ce_firmware = CatalogRhf, ce_format = Qcow2, ce_sshd_path = SshdPath None,
     ce_arch = [(''x86_64'', \<lparr>ca_url = ''https://h/i'', ca_checksum = ManifestUrl ''https://h/s'',
       ca_checksum_algorithm = Sha256, ca_firmware = None\<rparr>)]\<rparr>"

definition no_files :: CatalogFs where
  "no_files = \<lparr>read_to_string = (\<lambda>_. Inl \<lparr>io_kind = IoNotFound, io_text = ''none''\<rparr>),
     symlink_metadata = (\<lambda>_. Inl \<lparr>io_kind = IoNotFound, io_text = ''none''\<rparr>)\<rparr>"

theorem loaded_catalog_unambiguous_witness:
  "catalog_load (\<lambda>_. Inr [demo_raw]) (\<lambda>_. Some demo_url) no_files [] ''c'' []
     = Inr \<lparr>entries = [(''ubuntu:24.04'', demo_entry)]\<rparr>
   \<and> catalog_find \<lparr>entries = [(''ubuntu:24.04'', demo_entry)]\<rparr> ''ubuntu:noble'' = Some demo_entry"
proof -
  have load: "catalog_load (\<lambda>_. Inr [demo_raw]) (\<lambda>_. Some demo_url) no_files [] ''c'' []
     = Inr \<lparr>entries = [(''ubuntu:24.04'', demo_entry)]\<rparr>"
    by code_simp
  have "answers demo_entry ''ubuntu:noble''" by (simp add: answers_def demo_entry_def)
  then show ?thesis
    using load loaded_catalog_unambiguous [OF load, of "''ubuntu:noble''" demo_entry]
    by (simp add: values_of_def)
qed

end
