(* ===== verification/Oci_Reference.thy ===== *)
theory Oci_Reference
  imports Rust_Text
begin

text \<open>
  OCI image references, from \<^verbatim>\<open>firestone-core/src/oci/mod.rs\<close>: the classification that
  decides whether a user-supplied string is a container image, the parser that normalizes it
  to \<open>registry/repository:tag\<close> or \<open>registry/repository@sha256:...\<close>, and the checks on
  registry hosts, repository components, tags and digests.

  The references the parser builds satisfy \<open>oci_valid\<close> and are read back unchanged from
  their own text (an instance of the codec contract); the hand-written scanner of repository
  components is proved equal to the grammar it stands for; and no \<open>scheme://\<close> text parses.
\<close>

section \<open>Constants and data\<close>

definition OCI_SCHEME_PREFIX :: string where "OCI_SCHEME_PREFIX = ''oci://''"
definition DOCKER_SCHEME_PREFIX :: string where "DOCKER_SCHEME_PREFIX = ''docker://''"
definition DEFAULT_REGISTRY :: string where "DEFAULT_REGISTRY = ''docker.io''"
definition DEFAULT_REGISTRY_ALIAS :: string where "DEFAULT_REGISTRY_ALIAS = ''index.docker.io''"
definition DEFAULT_NAMESPACE :: string where "DEFAULT_NAMESPACE = ''library''"
definition DEFAULT_TAG :: string where "DEFAULT_TAG = ''latest''"
definition DIGEST_ALGORITHM :: string where "DIGEST_ALGORITHM = ''sha256''"
definition MAX_TAG_BYTES :: nat where "MAX_TAG_BYTES = 128"
definition MAX_REPOSITORY_BYTES :: nat where "MAX_REPOSITORY_BYTES = 255"
definition MAX_HOST_LABEL_BYTES :: nat where "MAX_HOST_LABEL_BYTES = 63"
definition DIGEST_HEX_LENGTH :: nat where "DIGEST_HEX_LENGTH = 64"

lemmas oci_constants = OCI_SCHEME_PREFIX_def DOCKER_SCHEME_PREFIX_def DEFAULT_REGISTRY_def
  DEFAULT_REGISTRY_ALIAS_def DEFAULT_NAMESPACE_def DEFAULT_TAG_def DIGEST_ALGORITHM_def

datatype OciClassification = OciScheme | OciRegistryHost

definition is_explicit :: "OciClassification \<Rightarrow> bool" where
  "is_explicit c \<longleftrightarrow> c = OciScheme"

datatype OciTagOrDigest = Tag string | Digest string

fun oci_tag :: "OciTagOrDigest \<Rightarrow> string option" where
  "oci_tag (Tag t) = Some t"
| "oci_tag (Digest d) = None"

fun oci_digest :: "OciTagOrDigest \<Rightarrow> string option" where
  "oci_digest (Tag t) = None"
| "oci_digest (Digest d) = Some d"

fun tag_or_digest_display :: "OciTagOrDigest \<Rightarrow> string" where
  "tag_or_digest_display (Tag t) = CHR '':'' # t"
| "tag_or_digest_display (Digest d) = CHR ''@'' # d"

record OciReference =
  or_registry :: string
  or_repository :: string
  or_reference :: OciTagOrDigest

definition is_digest :: "OciReference \<Rightarrow> bool" where
  "is_digest r = (case or_reference r of Digest _ \<Rightarrow> True | Tag _ \<Rightarrow> False)"

definition oci_display :: "OciReference \<Rightarrow> string" where
  "oci_display r = or_registry r @ CHR ''/'' # or_repository r @ tag_or_digest_display (or_reference r)"

section \<open>Checks\<close>

definition oci_invalid :: "string \<Rightarrow> string \<Rightarrow> string \<Rightarrow> FirestoneError" where
  "oci_invalid val detail h =
     with_hint h (error_new InvalidSpec
       (''invalid OCI image reference '' @ quoted val @ '': '' @ detail))"

definition strip_scheme :: "string \<Rightarrow> string option" where
  "strip_scheme val =
     (case strip_prefix OCI_SCHEME_PREFIX val of
        Some body \<Rightarrow> Some body
      | None \<Rightarrow> strip_prefix DOCKER_SCHEME_PREFIX val)"

definition looks_like_registry_host :: "string \<Rightarrow> bool" where
  "looks_like_registry_host component \<longleftrightarrow>
     CHR ''.'' \<in> set component \<or> CHR '':'' \<in> set component \<or> component = ''localhost''"

definition classify :: "string \<Rightarrow> OciClassification option" where
  "classify val =
     (if strip_scheme val \<noteq> None then Some OciScheme
      else (case split_once (CHR ''/'') val of
              None \<Rightarrow> None
            | Some (first, _) \<Rightarrow>
                if looks_like_registry_host first then Some OciRegistryHost else None))"

definition normalize_registry :: "string \<Rightarrow> string" where
  "normalize_registry component =
     (let lowered = map to_ascii_lowercase component
      in if lowered = DEFAULT_REGISTRY_ALIAS then DEFAULT_REGISTRY else lowered)"

definition check_host_label :: "string \<Rightarrow> (string, unit) result" where
  "check_host_label label =
     (if label = [] then Inl ''host labels must not be empty''
      else if length label > MAX_HOST_LABEL_BYTES
      then Inl (''host labels must be at most '' @ show_nat MAX_HOST_LABEL_BYTES @ '' characters'')
      else if \<not> list_all (\<lambda>b. is_ascii_alphanumeric b \<or> b = CHR ''-'') label
      then Inl (''host labels accept only ASCII letters, digits, and '' @ quoted ''-'')
      else if starts_with ''-'' label \<or> ends_with ''-'' label
      then Inl (''host labels must not start or end with '' @ quoted ''-'')
      else Inr ())"

definition check_port :: "string \<Rightarrow> (string, unit) result" where
  "check_port port =
     (if port = [] \<or> \<not> list_all is_ascii_digit port then Inl ''the port must be decimal digits''
      else (case parse_u32 port of
              Some number \<Rightarrow>
                if 1 \<le> number \<and> number \<le> 65535 then Inr ()
                else Inl ''the port must be between 1 and 65535''
            | None \<Rightarrow> Inl ''the port must be between 1 and 65535''))"

definition check_registry_host :: "string \<Rightarrow> (string, unit) result" where
  "check_registry_host val =
     (if val = [] then Inl ''the host is empty''
      else if contains_str ''://'' val then Inl ''a scheme is not allowed''
      else if CHR ''/'' \<in> set val then Inl ''a path is not allowed''
      else if CHR ''@'' \<in> set val then Inl ''credentials are not allowed''
      else
        let (host, port) = (case split_once (CHR '':'') val of
                              Some (host, port) \<Rightarrow> (host, Some port)
                            | None \<Rightarrow> (val, None))
        in and_then (case port of Some p \<Rightarrow> check_port p | None \<Rightarrow> Inr ()) (\<lambda>_.
           if host = [] then Inl ''the host is empty''
           else for_each check_host_label (split_on (CHR ''.'') host)))"

definition validate_registry_host :: "string \<Rightarrow> (FirestoneError, unit) result" where
  "validate_registry_host val =
     map_err (\<lambda>detail.
         with_hint (''write a bare '' @ quoted ''host'' @ '' or '' @ quoted ''host:port''
             @ '' entry such as '' @ quoted ''localhost:5000'')
           (error_new InvalidSpec (''invalid registry host '' @ quoted val @ '': '' @ detail)))
       (check_registry_host val)"

definition validate_registry_host_for :: "string \<Rightarrow> string \<Rightarrow> (FirestoneError, unit) result" where
  "validate_registry_host_for val registry =
     map_err (\<lambda>detail.
         oci_invalid val (''registry host '' @ quoted registry @ '' is invalid: '' @ detail)
           (''write a bare '' @ quoted ''host'' @ '' or '' @ quoted ''host:port''
             @ '' registry such as '' @ quoted ''localhost:5000''))
       (check_registry_host registry)"

definition lower_or_digit :: "char \<Rightarrow> bool" where
  "lower_or_digit b \<longleftrightarrow> is_ascii_lowercase b \<or> is_ascii_digit b"

definition separator_run_allowed :: "char \<Rightarrow> nat \<Rightarrow> bool" where
  "separator_run_allowed b run \<longleftrightarrow>
     (if b = CHR ''.'' then run = 1 else if b = CHR ''_'' then run \<le> 2 else b = CHR ''-'')"

text \<open>The scanner's outer loop: \<open>expect\<close> is \<open>expect_alphanumeric\<close>, the list the bytes from \<open>index\<close> on.\<close>

function scan_component :: "bool \<Rightarrow> string \<Rightarrow> (string, unit) result" where
  "scan_component expect [] = Inr ()"
| "scan_component expect (b # bs) =
     (if lower_or_digit b then scan_component False bs
      else if expect then Inl ''components must start and end with a letter or digit''
      else
        let run = 1 + length (takeWhile (\<lambda>x. x = b) bs);
            rest = dropWhile (\<lambda>x. x = b) bs
        in if \<not> separator_run_allowed b run
           then Inl (''separator runs must be '' @ quoted ''.'' @ '', '' @ quoted ''_'' @ '', ''
                  @ quoted ''__'' @ '', or '' @ quoted ''-'')
           else if rest = [] then Inl ''components must start and end with a letter or digit''
           else scan_component True rest)"
  by pat_completeness auto
termination
  by (relation "measure (\<lambda>(_, s). length s)") (auto simp: le_imp_less_Suc length_dropWhile_le)

definition check_repository_component :: "string \<Rightarrow> (string, unit) result" where
  "check_repository_component component =
     (if component = [] then Inl ''the component is empty''
      else if \<not> list_all (\<lambda>b. lower_or_digit b \<or> b \<in> {CHR ''.'', CHR ''_'', CHR ''-''}) component
      then Inl (''only lowercase letters, digits, '' @ quoted ''.'' @ '', '' @ quoted ''_''
             @ '', and '' @ quoted ''-'' @ '' are accepted'')
      else scan_component True component)"

definition validate_repository :: "string \<Rightarrow> string \<Rightarrow> (FirestoneError, unit) result" where
  "validate_repository val repository =
     (if length repository > MAX_REPOSITORY_BYTES
      then Inl (oci_invalid val
             (''the repository exceeds '' @ show_nat MAX_REPOSITORY_BYTES @ '' characters'')
             ''shorten the repository path'')
      else for_each (\<lambda>component.
             map_err (\<lambda>detail.
                 oci_invalid val
                   (''repository component '' @ quoted component @ '' is invalid: '' @ detail)
                   (''use lowercase repository components such as '' @ quoted ''library/nginx''))
               (check_repository_component component))
             (split_on (CHR ''/'') repository))"

definition validate_tag :: "string \<Rightarrow> string \<Rightarrow> (FirestoneError, string) result" where
  "validate_tag val tag =
     (if tag = [] then Inl (oci_invalid val ''the tag is empty''
             (''write a tag such as '' @ quoted '':latest'' @ '' or omit it''))
      else if length tag > MAX_TAG_BYTES
      then Inl (oci_invalid val (''the tag exceeds '' @ show_nat MAX_TAG_BYTES @ '' characters'')
             ''shorten the tag'')
      else if \<not> (is_ascii_alphanumeric (hd tag) \<or> hd tag = CHR ''_'')
      then Inl (oci_invalid val (''the tag must start with a letter, digit, or '' @ quoted ''_'')
             (''write a tag such as '' @ quoted '':24.04''))
      else if \<not> list_all (\<lambda>b. is_ascii_alphanumeric b \<or> b \<in> {CHR ''.'', CHR ''_'', CHR ''-''}) (tl tag)
      then Inl (oci_invalid val
             (''the tag accepts only letters, digits, '' @ quoted ''.'' @ '', '' @ quoted ''_''
               @ '', and '' @ quoted ''-'')
             (''write a tag such as '' @ quoted '':24.04''))
      else Inr tag)"

definition is_lower_hex :: "char \<Rightarrow> bool" where
  "is_lower_hex b \<longleftrightarrow> is_ascii_digit b \<or> (let v = (of_char b :: nat) in 97 \<le> v \<and> v \<le> 102)"

definition validate_digest :: "string \<Rightarrow> string \<Rightarrow> (FirestoneError, string) result" where
  "validate_digest val digest =
     (case Option.bind (strip_prefix DIGEST_ALGORITHM digest) (strip_prefix '':'') of
        None \<Rightarrow>
          Inl (oci_invalid val
            (''the digest must use the '' @ quoted (DIGEST_ALGORITHM @ '':'') @ '' algorithm prefix'')
            (''pin the image with '' @ quoted ''repository@sha256:<64 hex characters>''))
      | Some hex \<Rightarrow>
          if length hex \<noteq> DIGEST_HEX_LENGTH \<or> \<not> list_all is_lower_hex hex
          then Inl (oci_invalid val
            (''the digest must carry '' @ show_nat DIGEST_HEX_LENGTH
              @ '' lowercase hexadecimal characters'')
            (''pin the image with '' @ quoted ''repository@sha256:<64 hex characters>''))
          else Inr (DIGEST_ALGORITHM @ '':'' @ hex))"

section \<open>Parsing\<close>

definition split_reference ::
  "string \<Rightarrow> string \<Rightarrow> (FirestoneError, string \<times> OciTagOrDigest) result" where
  "split_reference val body =
     (case split_once (CHR ''@'') body of
        Some (name, digest) \<Rightarrow>
          and_then (validate_digest val digest) (\<lambda>d. Inr (name, Digest d))
      | None \<Rightarrow>
          let last_component = (case rsplit_once (CHR ''/'') body of
                                  None \<Rightarrow> 0
                                | Some (dir, _) \<Rightarrow> length dir + 1)
          in case rsplit_once (CHR '':'') (drop last_component body) of
               Some (before, tag) \<Rightarrow>
                 and_then (validate_tag val tag)
                   (\<lambda>t. Inr (take (last_component + length before) body, Tag t))
             | None \<Rightarrow> Inr (body, Tag DEFAULT_TAG))"

definition oci_parse :: "string \<Rightarrow> (FirestoneError, OciReference) result" where
  "oci_parse val =
     (let body = (case strip_scheme val of Some b \<Rightarrow> b | None \<Rightarrow> val)
      in if body = [] then Inl (oci_invalid val ''the reference is empty''
             ''write a reference such as `docker://nginx:latest`'')
      else and_then (split_reference val body) (\<lambda>(name, reference).
      if name = [] then Inl (oci_invalid val ''the repository name is empty''
             ''write a reference such as `docker://nginx:latest`'')
      else
        let (registry, repository) =
          (case split_once (CHR ''/'') name of
             Some (first, rest) \<Rightarrow>
               if looks_like_registry_host first then (normalize_registry first, rest)
               else (DEFAULT_REGISTRY, name)
           | None \<Rightarrow> (DEFAULT_REGISTRY, name))
        in and_then (validate_registry_host_for val registry) (\<lambda>_.
        let repository = (if registry = DEFAULT_REGISTRY \<and> CHR ''/'' \<notin> set repository
                          then DEFAULT_NAMESPACE @ CHR ''/'' # repository else repository)
        in and_then (validate_repository val repository) (\<lambda>_.
        Inr \<lparr>or_registry = registry, or_repository = repository, or_reference = reference\<rparr>))))"

definition oci_normalize :: "string \<Rightarrow> (FirestoneError, string) result" where
  "oci_normalize val = and_then (oci_parse val) (\<lambda>r. Inr (oci_display r))"

section \<open>Repository components are the grammar of the distribution specification\<close>

text \<open>
  \<open>alnum (separator alnum)*\<close> with \<open>alnum = [a-z0-9]+\<close> and a separator \<open>.\<close>, \<open>_\<close>, \<open>__\<close> or one or
  more dashes.
\<close>

definition alnum_word :: "string \<Rightarrow> bool" where
  "alnum_word w \<longleftrightarrow> w \<noteq> [] \<and> list_all lower_or_digit w"

definition separator :: "string \<Rightarrow> bool" where
  "separator s \<longleftrightarrow> s = ''.'' \<or> s = ''_'' \<or> s = ''__'' \<or> (\<exists>n. s = replicate (Suc n) (CHR ''-''))"

inductive path_component :: "string \<Rightarrow> bool" where
  component_word: "alnum_word w \<Longrightarrow> path_component w"
| component_more: "\<lbrakk>alnum_word w; separator s; path_component c\<rbrakk> \<Longrightarrow> path_component (w @ s @ c)"

lemma not_lower_or_digit [simp]:
  "\<not> lower_or_digit (CHR ''.'')" "\<not> lower_or_digit (CHR ''_'')" "\<not> lower_or_digit (CHR ''-'')"
  "\<not> lower_or_digit (CHR '':'')" "\<not> lower_or_digit (CHR ''/'')" "\<not> lower_or_digit (CHR ''@'')"
  by (simp_all add: lower_or_digit_def is_ascii_lowercase_def is_ascii_digit_def)

lemma path_component_hd: "path_component c \<Longrightarrow> c \<noteq> [] \<and> lower_or_digit (hd c)"
  by (induction rule: path_component.induct) (auto simp: alnum_word_def neq_Nil_conv)

lemma path_component_Cons:
  "path_component c \<Longrightarrow> lower_or_digit b \<Longrightarrow> path_component (b # c)"
proof (induction rule: path_component.induct)
  case (component_word w)
  then show ?case by (intro path_component.component_word) (simp add: alnum_word_def)
next
  case (component_more w s c)
  then show ?case
    using path_component.component_more [of "b # w" s c] by (simp add: alnum_word_def)
qed

lemma scan_word:
  "list_all lower_or_digit w \<Longrightarrow> w \<noteq> [] \<Longrightarrow> scan_component e (w @ t) = scan_component False t"
  by (induction w arbitrary: e) (auto simp: neq_Nil_conv, metis append_Nil neq_Nil_conv)

lemma separator_run:
  "separator s \<Longrightarrow> \<exists>b n. s = replicate (Suc n) b \<and> separator_run_allowed b (Suc n) \<and> \<not> lower_or_digit b"
  unfolding separator_def separator_run_allowed_def
  by (elim disjE exE) (force simp: numeral_2_eq_2 intro: exI [of _ "CHR ''.''"] exI [of _ "CHR ''_''"])+

lemma run_separator:
  assumes "separator_run_allowed b (Suc n)"
  shows "separator (replicate (Suc n) b)"
proof (cases "b = CHR ''_''")
  case True
  then have "n = 0 \<or> n = 1" using assms by (auto simp: separator_run_allowed_def)
  then show ?thesis using True by (auto simp: separator_def)
next
  case False
  then show ?thesis using assms by (auto simp: separator_def separator_run_allowed_def split: if_splits)
qed

lemma takeWhile_eq_replicate: "takeWhile (\<lambda>x. x = b) s = replicate (length (takeWhile (\<lambda>x. x = b) s)) b"
  by (induction s) auto

lemma run_decompose:
  "b # s = replicate (Suc (length (takeWhile (\<lambda>x. x = b) s))) b @ dropWhile (\<lambda>x. x = b) s"
  using takeWhile_dropWhile_id [of "\<lambda>x. x = b" s] takeWhile_eq_replicate [of b s] by simp

lemma scan_separator:
  assumes "separator s" "c \<noteq> []" "lower_or_digit (hd c)"
  shows "scan_component False (s @ c) = scan_component True c"
proof -
  obtain b n where s: "s = replicate (Suc n) b" and ok: "separator_run_allowed b (Suc n)"
    and nb: "\<not> lower_or_digit b" using separator_run [OF assms(1)] by blast
  then have "hd c \<noteq> b" using assms(3) by auto
  then have "takeWhile (\<lambda>x. x = b) (replicate n b @ c) = replicate n b
      \<and> dropWhile (\<lambda>x. x = b) (replicate n b @ c) = c"
    using assms(2) by (induction n) (auto simp: neq_Nil_conv)
  then show ?thesis using ok nb assms(2) by (simp add: s Let_def)
qed

lemma scan_complete: "path_component c \<Longrightarrow> scan_component e c = Inr ()"
proof (induction arbitrary: e rule: path_component.induct)
  case (component_word w)
  then show ?case using scan_word [of w e "[]"] by (simp add: alnum_word_def)
next
  case (component_more w s c)
  then show ?case
    using scan_word [of w e "s @ c"] scan_separator [of s c] path_component_hd [of c]
    by (simp add: alnum_word_def)
qed

lemma scan_sound:
  "scan_component e s = Inr () \<Longrightarrow>
     (if e then s = [] \<or> path_component s else \<forall>x. lower_or_digit x \<longrightarrow> path_component (x # s))"
proof (induction e s rule: scan_component.induct)
  case (1 e)
  then show ?case by (auto intro!: component_word simp: alnum_word_def)
next
  case (2 e b bs)
  show ?case
  proof (cases "lower_or_digit b")
    case True
    then have "path_component (b # bs)" using 2 by auto
    then show ?thesis by (auto intro: path_component_Cons)
  next
    case False
    define run rest where "run = Suc (length (takeWhile (\<lambda>x. x = b) bs))"
      and "rest = dropWhile (\<lambda>x. x = b) bs"
    have e: "\<not> e" and ok: "separator_run_allowed b run" and ne: "rest \<noteq> []"
      and scan: "scan_component True rest = Inr ()"
      using 2(3) False by (auto simp: Let_def run_def rest_def split: if_splits)
    have "path_component rest"
      using 2(2) [OF False e refl refl] ok ne scan unfolding run_def rest_def by auto
    moreover have "b # bs = replicate run b @ rest"
      unfolding run_def rest_def by (rule run_decompose)
    moreover have "separator (replicate run b)"
      using ok run_separator by (simp add: run_def)
    ultimately have "path_component ([x] @ (b # bs))" if "lower_or_digit x" for x
      using component_more [of "[x]" "replicate run b" rest] that by (simp add: alnum_word_def)
    then show ?thesis using e by simp
  qed
qed

lemma path_component_chars:
  "path_component c \<Longrightarrow> list_all (\<lambda>b. lower_or_digit b \<or> b \<in> {CHR ''.'', CHR ''_'', CHR ''-''}) c"
  by (induction rule: path_component.induct) (auto simp: alnum_word_def separator_def list_all_iff)

lemma component_accepts_iff: "check_repository_component c = Inr () \<longleftrightarrow> path_component c"
  using scan_complete [of c True] scan_sound [of True c] path_component_chars [of c]
    path_component_hd [of c]
  by (auto simp: check_repository_component_def)


section \<open>Normal references\<close>

definition registry_valid :: "string \<Rightarrow> bool" where
  "registry_valid reg \<longleftrightarrow>
     check_registry_host reg = Inr () \<and> looks_like_registry_host reg
     \<and> map to_ascii_lowercase reg = reg \<and> reg \<noteq> DEFAULT_REGISTRY_ALIAS"

definition repository_valid :: "string \<Rightarrow> bool" where
  "repository_valid repo \<longleftrightarrow>
     length repo \<le> MAX_REPOSITORY_BYTES \<and> list_all path_component (split_on (CHR ''/'') repo)"

fun reference_valid :: "OciTagOrDigest \<Rightarrow> bool" where
  "reference_valid (Tag t) \<longleftrightarrow> t \<noteq> [] \<and> length t \<le> MAX_TAG_BYTES
     \<and> (is_ascii_alphanumeric (hd t) \<or> hd t = CHR ''_'')
     \<and> list_all (\<lambda>b. is_ascii_alphanumeric b \<or> b \<in> {CHR ''.'', CHR ''_'', CHR ''-''}) (tl t)"
| "reference_valid (Digest d) \<longleftrightarrow>
     (\<exists>hex. d = ''sha256:'' @ hex \<and> length hex = 64 \<and> list_all is_lower_hex hex)"

definition oci_valid :: "OciReference \<Rightarrow> bool" where
  "oci_valid r \<longleftrightarrow> registry_valid (or_registry r) \<and> repository_valid (or_repository r)
     \<and> reference_valid (or_reference r)
     \<and> (or_registry r = DEFAULT_REGISTRY \<longrightarrow> CHR ''/'' \<in> set (or_repository r))"

lemma validate_tag_iff: "validate_tag val tag = Inr t \<longleftrightarrow> t = tag \<and> reference_valid (Tag tag)"
  unfolding validate_tag_def by (auto simp: not_le)

lemma validate_digest_iff:
  "validate_digest val digest = Inr d \<longleftrightarrow> d = digest \<and> reference_valid (Digest digest)"
proof (cases "Option.bind (strip_prefix DIGEST_ALGORITHM digest) (strip_prefix '':'')")
  case None
  have "\<not> (\<exists>hex. digest = ''sha256:'' @ hex)"
  proof
    assume "\<exists>hex. digest = ''sha256:'' @ hex"
    then obtain hex where "digest = DIGEST_ALGORITHM @ '':'' @ hex" by (auto simp: oci_constants)
    then show False using None by simp
  qed
  then show ?thesis using None by (auto simp: validate_digest_def)
next
  case (Some hex)
  then have "digest = ''sha256:'' @ hex"
    by (auto simp: bind_eq_Some_conv strip_prefix_Some_iff oci_constants)
  then show ?thesis
    using Some by (auto simp: validate_digest_def DIGEST_HEX_LENGTH_def oci_constants)
qed

lemma validate_repository_iff: "validate_repository val repo = Inr () \<longleftrightarrow> repository_valid repo"
  unfolding validate_repository_def repository_valid_def
  by (auto simp: for_each_Inr_iff component_accepts_iff list_all_iff)

lemma component_no_sep:
  assumes "path_component c"
  shows "CHR '':'' \<notin> set c" "CHR ''@'' \<notin> set c" "CHR ''/'' \<notin> set c"
  using path_component_chars [OF assms] not_lower_or_digit by (auto simp: list_all_iff)

lemma repository_no_sep:
  assumes "repository_valid repo"
  shows "CHR '':'' \<notin> set repo" "CHR ''@'' \<notin> set repo"
  using assms split_on_chars [of _ repo "CHR ''/''"] component_no_sep
  by (fastforce simp: repository_valid_def list_all_iff)+

lemma registry_no_sep:
  assumes "check_registry_host reg = Inr ()"
  shows "reg \<noteq> []" "CHR ''/'' \<notin> set reg" "CHR ''@'' \<notin> set reg"
  using assms by (auto simp: check_registry_host_def Let_def split: if_splits)

text \<open>A registry does not end in a colon, as the start of a URL does.\<close>

lemma registry_not_colon: "check_registry_host (reg @ '':'') \<noteq> Inr ()"
proof
  assume ok: "check_registry_host (reg @ '':'') = Inr ()"
  obtain host port where sp: "split_once (CHR '':'') (reg @ '':'') = Some (host, port)"
    by (cases "split_once (CHR '':'') (reg @ '':'')") (auto simp: split_once_None_iff)
  have "check_port port = Inr ()"
    using ok sp by (auto simp: check_registry_host_def and_then_Inr_iff split: if_splits)
  then have "port \<noteq> []" "list_all is_ascii_digit port" by (auto simp: check_port_def split: if_splits)
  moreover have "last (host @ CHR '':'' # port) = CHR '':''"
    using sp unfolding split_once_Some_iff by (metis last_snoc)
  ultimately have "is_ascii_digit (CHR '':'')" by (auto simp: list_all_iff last_in_set dest: last_in_set)
  then show False by (simp add: is_ascii_digit_def)
qed

lemma not_upper [simp]: "\<not> is_ascii_uppercase (CHR ''.'')" "\<not> is_ascii_uppercase (CHR '':'')"
  by (simp_all add: is_ascii_uppercase_def)

lemma looks_like_lower:
  assumes "looks_like_registry_host s"
  shows "looks_like_registry_host (map to_ascii_lowercase s)"
proof (cases "s = ''localhost''")
  case True
  then show ?thesis by (simp add: looks_like_registry_host_def to_ascii_lowercase_def is_ascii_uppercase_def)
next
  case False
  then show ?thesis using assms lower_keeps not_upper unfolding looks_like_registry_host_def by blast
qed

lemma default_registry_valid [simp]: "registry_valid DEFAULT_REGISTRY"
  by (simp add: registry_valid_def oci_constants check_registry_host_def looks_like_registry_host_def
      to_ascii_lowercase_def is_ascii_uppercase_def split_once_def check_host_label_def
      MAX_HOST_LABEL_BYTES_def is_ascii_alphanumeric_def is_ascii_alphabetic_def
      is_ascii_lowercase_def is_ascii_digit_def starts_with_def ends_with_def strip_suffix_def)

lemma normalize_registry_valid:
  assumes "looks_like_registry_host first" "check_registry_host (normalize_registry first) = Inr ()"
  shows "registry_valid (normalize_registry first)"
proof (cases "map to_ascii_lowercase first = DEFAULT_REGISTRY_ALIAS")
  case True
  then show ?thesis by (simp add: normalize_registry_def)
next
  case False
  then show ?thesis using assms looks_like_lower [of first]
    by (simp add: normalize_registry_def registry_valid_def)
qed

lemma normalize_registry_id: "registry_valid reg \<Longrightarrow> normalize_registry reg = reg"
  by (simp add: normalize_registry_def registry_valid_def)

lemma default_tag_valid: "reference_valid (Tag DEFAULT_TAG)"
  by (simp add: DEFAULT_TAG_def MAX_TAG_BYTES_def is_ascii_alphanumeric_def is_ascii_alphabetic_def
      is_ascii_lowercase_def)

lemma split_reference_valid: "split_reference val body = Inr (name, r) \<Longrightarrow> reference_valid r"
  unfolding split_reference_def
  by (auto simp: and_then_Inr_iff validate_digest_iff validate_tag_iff Let_def default_tag_valid
      split: option.splits simp del: reference_valid.simps)

text \<open>Parsing, once the name has been cut off: the registry and the repository of a name.\<close>

definition name_parts :: "string \<Rightarrow> string \<times> string" where
  "name_parts name =
     (case split_once (CHR ''/'') name of
        Some (first, rest) \<Rightarrow>
          if looks_like_registry_host first then (normalize_registry first, rest)
          else (DEFAULT_REGISTRY, name)
      | None \<Rightarrow> (DEFAULT_REGISTRY, name))"

definition in_namespace :: "string \<Rightarrow> string \<Rightarrow> string" where
  "in_namespace registry repository =
     (if registry = DEFAULT_REGISTRY \<and> CHR ''/'' \<notin> set repository
      then DEFAULT_NAMESPACE @ CHR ''/'' # repository else repository)"

lemma oci_parse_iff:
  "oci_parse val = Inr r \<longleftrightarrow>
     (\<exists>name reg repo.
        split_reference val (case strip_scheme val of Some b \<Rightarrow> b | None \<Rightarrow> val) = Inr (name, or_reference r)
      \<and> (case strip_scheme val of Some b \<Rightarrow> b | None \<Rightarrow> val) \<noteq> [] \<and> name \<noteq> []
      \<and> name_parts name = (reg, repo) \<and> check_registry_host reg = Inr ()
      \<and> repository_valid (in_namespace reg repo)
      \<and> r = \<lparr>or_registry = reg, or_repository = in_namespace reg repo, or_reference = or_reference r\<rparr>)"
proof -
  define body where "body = (case strip_scheme val of Some b \<Rightarrow> b | None \<Rightarrow> val)"
  show ?thesis
  proof (cases "split_reference val body")
    case (Inl e)
    then show ?thesis unfolding body_def [symmetric]
      by (simp add: oci_parse_def Let_def body_def [symmetric])
  next
    case (Inr p)
    obtain name ref where p: "p = (name, ref)" by (cases p)
    obtain reg repo where parts: "name_parts name = (reg, repo)" by (cases "name_parts name")
    have "oci_parse val = Inr r \<longleftrightarrow> body \<noteq> [] \<and> name \<noteq> [] \<and> check_registry_host reg = Inr ()
        \<and> repository_valid (in_namespace reg repo)
        \<and> \<lparr>or_registry = reg, or_repository = in_namespace reg repo, or_reference = ref\<rparr> = r"
      using Inr by (simp add: oci_parse_def Let_def body_def [symmetric] p name_parts_def [symmetric]
          parts and_then_Inr_iff validate_registry_host_for_def validate_repository_iff
          in_namespace_def [symmetric])
    then show ?thesis unfolding body_def [symmetric] Inr p by (auto simp: parts)
  qed
qed

lemma oci_parse_valid: "oci_parse val = Inr r \<Longrightarrow> oci_valid r"
  unfolding oci_parse_iff
proof (elim exE conjE)
  fix name reg repo
  assume sr: "split_reference val (case strip_scheme val of Some b \<Rightarrow> b | None \<Rightarrow> val) = Inr (name, or_reference r)"
    and parts: "name_parts name = (reg, repo)" and reg: "check_registry_host reg = Inr ()"
    and repo: "repository_valid (in_namespace reg repo)"
    and r: "r = \<lparr>or_registry = reg, or_repository = in_namespace reg repo, or_reference = or_reference r\<rparr>"
  have "registry_valid reg"
    using parts reg normalize_registry_valid
    by (auto simp: name_parts_def split: option.splits if_splits)
  moreover have "reg = DEFAULT_REGISTRY \<longrightarrow> CHR ''/'' \<in> set (in_namespace reg repo)"
    by (simp add: in_namespace_def)
  moreover have "or_registry r = reg" "or_repository r = in_namespace reg repo"
    using arg_cong [OF r, of or_registry] arg_cong [OF r, of or_repository] by simp_all
  ultimately show "oci_valid r"
    using split_reference_valid [OF sr] repo by (simp add: oci_valid_def)
qed

text \<open>The other direction: the text of a valid reference is cut where it was put together.\<close>

lemma split_reference_digest:
  assumes "CHR ''@'' \<notin> set name" "reference_valid (Digest d)"
  shows "split_reference val (name @ CHR ''@'' # d) = Inr (name, Digest d)"
proof -
  have "split_once (CHR ''@'') (name @ CHR ''@'' # d) = Some (name, d)"
    using assms by (simp add: split_once_Some_iff)
  then show ?thesis
    using assms by (simp add: split_reference_def and_then_Inr_iff validate_digest_iff
        del: reference_valid.simps)
qed

lemma tag_no_sep:
  assumes "reference_valid (Tag t)"
  shows "CHR '':'' \<notin> set t" "CHR ''@'' \<notin> set t" "CHR ''/'' \<notin> set t"
proof -
  have "list_all (\<lambda>b. is_ascii_alphanumeric b \<or> b \<in> {CHR ''.'', CHR ''_'', CHR ''-''}) t"
    using assms by (cases t) auto
  then show "CHR '':'' \<notin> set t" "CHR ''@'' \<notin> set t" "CHR ''/'' \<notin> set t"
    by (auto simp: list_all_iff is_ascii_alphanumeric_def is_ascii_alphabetic_def
        is_ascii_lowercase_def is_ascii_uppercase_def is_ascii_digit_def)
qed

lemma split_reference_tag:
  assumes at: "CHR ''@'' \<notin> set (dir @ c)" and c: "CHR ''/'' \<notin> set c" "CHR '':'' \<notin> set c"
    and t: "reference_valid (Tag t)"
  shows "split_reference val (dir @ CHR ''/'' # c @ CHR '':'' # t) = Inr (dir @ CHR ''/'' # c, Tag t)"
proof -
  let ?body = "dir @ CHR ''/'' # c @ CHR '':'' # t"
  note t' = tag_no_sep [OF t]
  have "split_once (CHR ''@'') ?body = None"
    using at t' by (auto simp: split_once_None_iff)
  moreover have "rsplit_once (CHR ''/'') ?body = Some (dir, c @ CHR '':'' # t)"
    using c t' by (auto simp: rsplit_once_Some_iff)
  moreover have "rsplit_once (CHR '':'') (c @ CHR '':'' # t) = Some (c, t)"
    using t' by (auto simp: rsplit_once_Some_iff)
  ultimately show ?thesis
    using t by (simp add: split_reference_def validate_tag_iff and_then_Inr_iff del: reference_valid.simps)
qed

lemma repository_last:
  assumes "repository_valid repo"
  shows "\<exists>dir c. reg @ CHR ''/'' # repo = dir @ CHR ''/'' # c \<and> CHR ''/'' \<notin> set c
    \<and> set dir \<subseteq> insert (CHR ''/'') (set reg \<union> set repo) \<and> set c \<subseteq> set repo"
proof (cases "rsplit_once (CHR ''/'') repo")
  case None
  then show ?thesis by (intro exI [of _ reg] exI [of _ repo]) (auto simp: rsplit_once_None_iff)
next
  case (Some p)
  then obtain a c where "repo = a @ CHR ''/'' # c" "CHR ''/'' \<notin> set c"
    by (cases p) (auto simp: rsplit_once_Some_iff)
  then show ?thesis by (intro exI [of _ "reg @ CHR ''/'' # a"] exI [of _ c]) auto
qed

lemma split_reference_display:
  assumes "oci_valid r"
  shows "split_reference val (oci_display r) = Inr (or_registry r @ CHR ''/'' # or_repository r, or_reference r)"
proof -
  let ?reg = "or_registry r" and ?repo = "or_repository r"
  have repo: "repository_valid ?repo" and ref: "reference_valid (or_reference r)"
    and at: "CHR ''@'' \<notin> set ?reg" "CHR ''@'' \<notin> set ?repo" and colon: "CHR '':'' \<notin> set ?repo"
    using assms registry_no_sep repository_no_sep by (auto simp: oci_valid_def registry_valid_def)
  show ?thesis
  proof (cases "or_reference r")
    case (Digest d)
    then show ?thesis
      using split_reference_digest [of "?reg @ CHR ''/'' # ?repo" d val] at ref
      by (simp add: oci_display_def del: reference_valid.simps)
  next
    case (Tag t)
    obtain dir c where dc: "?reg @ CHR ''/'' # ?repo = dir @ CHR ''/'' # c" "CHR ''/'' \<notin> set c"
        "set dir \<subseteq> insert (CHR ''/'') (set ?reg \<union> set ?repo)" "set c \<subseteq> set ?repo"
      using repository_last [OF repo] by blast
    have "CHR ''@'' \<notin> set (dir @ c)" "CHR '':'' \<notin> set c" using dc at colon by auto
    then have "split_reference val (dir @ CHR ''/'' # c @ CHR '':'' # t) = Inr (dir @ CHR ''/'' # c, Tag t)"
      using split_reference_tag dc ref Tag by simp
    moreover have "oci_display r = (dir @ CHR ''/'' # c) @ CHR '':'' # t"
      unfolding dc(1) [symmetric] by (simp add: oci_display_def Tag)
    ultimately show ?thesis using dc(1) Tag by simp
  qed
qed

lemma strip_scheme_url:
  assumes "strip_scheme s \<noteq> None"
  shows "\<exists>pre rest. s = (pre @ '':'') @ CHR ''/'' # rest \<and> CHR ''/'' \<notin> set pre"
proof -
  obtain t where "s = ''oci://'' @ t \<or> s = ''docker://'' @ t"
    using assms
    by (cases "strip_prefix ''oci://'' s"; cases "strip_prefix ''docker://'' s")
      (auto simp: strip_scheme_def strip_prefix_Some_iff oci_constants)
  then show ?thesis
  proof
    assume "s = ''oci://'' @ t"
    then show ?thesis by (intro exI [of _ "''oci''"] exI [of _ "CHR ''/'' # t"]) simp
  next
    assume "s = ''docker://'' @ t"
    then show ?thesis by (intro exI [of _ "''docker''"] exI [of _ "CHR ''/'' # t"]) simp
  qed
qed

lemma display_no_scheme:
  assumes "oci_valid r"
  shows "strip_scheme (oci_display r) = None"
proof (rule ccontr)
  assume "strip_scheme (oci_display r) \<noteq> None"
  then obtain pre rest where eq: "oci_display r = (pre @ '':'') @ CHR ''/'' # rest" and pre: "CHR ''/'' \<notin> set pre"
    using strip_scheme_url by blast
  have reg: "check_registry_host (or_registry r) = Inr ()"
    using assms by (simp add: oci_valid_def registry_valid_def)
  have "split_once (CHR ''/'') (oci_display r) = Some (or_registry r, or_repository r @ tag_or_digest_display (or_reference r))"
    using registry_no_sep [OF reg] by (simp add: split_once_Some_iff oci_display_def)
  moreover have "split_once (CHR ''/'') (oci_display r) = Some (pre @ '':'', rest)"
    using pre eq by (simp add: split_once_Some_iff)
  ultimately show False using reg registry_not_colon [of pre] by auto
qed

lemma oci_parse_display: "oci_valid r \<Longrightarrow> oci_parse (oci_display r) = Inr r"
  unfolding oci_parse_iff
proof (intro exI conjI)
  assume v: "oci_valid r"
  let ?name = "or_registry r @ CHR ''/'' # or_repository r"
  have reg: "registry_valid (or_registry r)" and repo: "repository_valid (or_repository r)"
    using v by (simp_all add: oci_valid_def)
  show "split_reference (oci_display r) (case strip_scheme (oci_display r) of Some b \<Rightarrow> b | None \<Rightarrow> oci_display r)
      = Inr (?name, or_reference r)"
    using split_reference_display [OF v] display_no_scheme [OF v] by simp
  show "(case strip_scheme (oci_display r) of Some b \<Rightarrow> b | None \<Rightarrow> oci_display r) \<noteq> []"
    using display_no_scheme [OF v] by (simp add: oci_display_def)
  show "?name \<noteq> []" by simp
  have "split_once (CHR ''/'') ?name = Some (or_registry r, or_repository r)"
    using reg registry_no_sep by (simp add: split_once_Some_iff registry_valid_def)
  then show "name_parts ?name = (or_registry r, or_repository r)"
    using reg normalize_registry_id by (simp add: name_parts_def registry_valid_def)
  show "check_registry_host (or_registry r) = Inr ()" using reg by (simp add: registry_valid_def)
  have ns: "in_namespace (or_registry r) (or_repository r) = or_repository r"
    using v by (auto simp: in_namespace_def oci_valid_def)
  show "repository_valid (in_namespace (or_registry r) (or_repository r))" using repo ns by simp
  show "r = \<lparr>or_registry = or_registry r, or_repository = in_namespace (or_registry r) (or_repository r),
      or_reference = or_reference r\<rparr>" using ns by simp
qed

interpretation oci: scalar_codec oci_parse oci_display oci_valid
  using oci_parse_valid oci_parse_display by unfold_locales

text \<open>
  C6. A reference that parses prints to a canonical text that parses to the same reference, and
  the parsed reference has a valid registry, repository and tag or digest.
\<close>

theorem oci_normalize_idempotent:
  assumes "oci_parse s = Inr r"
  shows "oci_valid r \<and> oci_parse (oci_display r) = Inr r
    \<and> oci_normalize (oci_display r) = Inr (oci_display r)"
  using oci.parse_valid [OF assms] oci.reparse [OF assms] by (simp add: oci_normalize_def)

theorem oci_normalize_idempotent_witness:
  "oci_parse ''docker://Index.Docker.IO/nginx''
     = Inr \<lparr>or_registry = ''docker.io'', or_repository = ''library/nginx'', or_reference = Tag ''latest''\<rparr>
   \<and> oci_normalize ''docker.io/library/nginx:latest'' = Inr ''docker.io/library/nginx:latest''"
proof -
  let ?r = "\<lparr>or_registry = ''docker.io'', or_repository = ''library/nginx'', or_reference = Tag ''latest''\<rparr>"
  have p: "oci_parse ''docker://Index.Docker.IO/nginx'' = Inr ?r" by code_simp
  have "oci_display ?r = ''docker.io/library/nginx:latest''" by (simp add: oci_display_def)
  then show ?thesis using p oci_normalize_idempotent [OF p] by simp
qed

section \<open>URLs are not references\<close>

lemma split_reference_keeps_url:
  assumes sr: "split_reference val body = Inr (name, r)" and url: "body = a @ ''://'' @ b"
  shows "\<exists>b'. name = a @ ''://'' @ b'"
proof -
  have "\<exists>t. body = name @ t \<and> CHR ''/'' \<notin> set t"
  proof (cases "split_once (CHR ''@'') body")
    case (Some q)
    then obtain n d where q: "q = (n, d)" by (cases q)
    have "n = name" "reference_valid (Digest d)"
      using sr Some q by (auto simp: split_reference_def and_then_Inr_iff validate_digest_iff
          simp del: reference_valid.simps)
    moreover from this have "CHR ''/'' \<notin> set d"
      by (auto simp: list_all_iff is_lower_hex_def is_ascii_digit_def dest!: bspec)
    ultimately show ?thesis using Some q
      by (intro exI [of _ "CHR ''@'' # d"]) (auto simp: split_once_Some_iff)
  next
    case None
    define k where "k = (case rsplit_once (CHR ''/'') body of None \<Rightarrow> 0 | Some (dir, _) \<Rightarrow> length dir + 1)"
    show ?thesis
    proof (cases "rsplit_once (CHR '':'') (drop k body)")
      case no_tag: None
      then have "name = body" using sr None by (simp add: split_reference_def k_def [symmetric] Let_def)
      then show ?thesis by simp
    next
      case (Some q)
      then obtain bef tag where q: "q = (bef, tag)" by (cases q)
      have tag: "reference_valid (Tag tag)" and name: "name = take (k + length bef) body"
        using sr None Some q by (auto simp: split_reference_def k_def [symmetric] Let_def
            and_then_Inr_iff validate_tag_iff simp del: reference_valid.simps)
      have "drop k body = bef @ CHR '':'' # tag"
        using Some q by (simp add: rsplit_once_Some_iff)
      then have "drop (k + length bef) body = CHR '':'' # tag"
        by (metis add.commute append_eq_conv_conj drop_drop)
      then have "body = name @ CHR '':'' # tag" using name by (metis append_take_drop_id)
      then show ?thesis using tag_no_sep [OF tag] by auto
    qed
  qed
  then show ?thesis using contained_in_front [of name _ a "''://''" b] url by auto
qed

lemma normalize_registry_colon: "check_registry_host (normalize_registry (a @ '':'')) \<noteq> Inr ()"
proof -
  have "map to_ascii_lowercase (a @ '':'') = map to_ascii_lowercase a @ '':''"
    by (simp add: to_ascii_lowercase_def)
  moreover have "map to_ascii_lowercase a @ '':'' \<noteq> DEFAULT_REGISTRY_ALIAS"
  proof
    assume "map to_ascii_lowercase a @ '':'' = DEFAULT_REGISTRY_ALIAS"
    then have "CHR '':'' \<in> set DEFAULT_REGISTRY_ALIAS" by (metis in_set_conv_decomp)
    then show False by (simp add: DEFAULT_REGISTRY_ALIAS_def)
  qed
  ultimately show ?thesis by (simp add: normalize_registry_def registry_not_colon)
qed

lemma url_name_refused:
  assumes parts: "name_parts (a @ ''://'' @ b) = (reg, repo)" and reg: "check_registry_host reg = Inr ()"
  shows "\<not> repository_valid (in_namespace reg repo)"
proof
  assume "repository_valid (in_namespace reg repo)"
  then have colon: "CHR '':'' \<notin> set repo"
    using repository_no_sep(1) [of "in_namespace reg repo"] by (auto simp: in_namespace_def split: if_splits)
  obtain first rest where sp: "split_once (CHR ''/'') (a @ ''://'' @ b) = Some (first, rest)"
    by (cases "split_once (CHR ''/'') (a @ ''://'' @ b)") (auto simp: split_once_None_iff)
  then have eq: "a @ CHR '':'' # CHR ''/'' # CHR ''/'' # b = first @ CHR ''/'' # rest"
    and first: "CHR ''/'' \<notin> set first" by (simp_all add: split_once_Some_iff)
  have host: "repo = rest" "reg = normalize_registry first"
    using parts sp colon by (auto simp: name_parts_def split: if_splits)
  from eq have "first = a @ '':''"
    unfolding append_eq_append_conv2 using host(1) colon first by (auto simp: Cons_eq_append_conv append_eq_Cons_conv)
  then show False using reg host(2) normalize_registry_colon by simp
qed

text \<open>
  No text with a \<open>scheme://\<close> in it parses as an OCI reference, once the explicit
  \<open>oci://\<close> or \<open>docker://\<close> prefix is off: image resolution can try the OCI branch before the URL
  branch without capturing a URL.
\<close>

lemma url_is_not_oci_reference:
  assumes "contains_str ''://'' (case strip_scheme s of Some body \<Rightarrow> body | None \<Rightarrow> s)"
  shows "oci_parse s \<noteq> Inr r"
proof
  assume "oci_parse s = Inr r"
  then obtain name reg repo where
      sr: "split_reference s (case strip_scheme s of Some b \<Rightarrow> b | None \<Rightarrow> s) = Inr (name, or_reference r)"
    and parts: "name_parts name = (reg, repo)" and reg: "check_registry_host reg = Inr ()"
    and repo: "repository_valid (in_namespace reg repo)"
    unfolding oci_parse_iff by blast
  obtain a b where "(case strip_scheme s of Some b \<Rightarrow> b | None \<Rightarrow> s) = a @ ''://'' @ b"
    using assms by (auto simp: contains_str_iff)
  then obtain b' where "name = a @ ''://'' @ b'" using split_reference_keeps_url [OF sr] by blast
  then show False using url_name_refused parts reg repo by simp
qed

text \<open>
  C36. The scanner of repository components accepts exactly the grammar of the OCI distribution
  specification: lower-case words of letters and digits joined by one dot, one or two
  underscores, or any number of dashes.
\<close>

theorem repository_component_grammar:
  "check_repository_component c = Inr () \<longleftrightarrow> path_component c"
  by (rule component_accepts_iff)

end
