(* ===== verification/Paths.thy ===== *)
theory Paths
  imports Rust_Text
begin

unbundle bit_operations_syntax

text \<open>
  The filesystem layout of \<^verbatim>\<open>firestone-core/src/paths.rs\<close>: how the base directories are chosen
  from the environment, how a user-supplied path is resolved, where every file of a machine
  lives, and the ownership and mode checks on directories.

  Paths are byte strings; \<open>components\<close>, \<open>join\<close> and \<open>starts_with\<close> are those of
  \<open>std::path\<close> on Unix. The file system is the argument of the checks that read it. The
  \<open>Debug\<close> form of a string, which escapes unprintable characters by Unicode tables, is the
  argument \<open>dbg\<close> of the functions whose error shows it.
\<close>

section \<open>Paths of the standard library\<close>

datatype PathComponent = RootDir | CurDir | ParentDir | NormalC string

definition is_absolute :: "string \<Rightarrow> bool" where
  "is_absolute p \<longleftrightarrow> p \<noteq> [] \<and> hd p = CHR ''/''"

definition piece :: "string \<Rightarrow> PathComponent list" where
  "piece s = (if s = [] \<or> s = ''.'' then [] else if s = ''..'' then [ParentDir] else [NormalC s])"

definition components :: "string \<Rightarrow> PathComponent list" where
  "components p =
     (let ps = split_on (CHR ''/'') p
      in if is_absolute p then RootDir # concat (map piece ps)
         else if hd ps = ''.'' then CurDir # concat (map piece (tl ps))
         else concat (map piece ps))"

fun component_str :: "PathComponent \<Rightarrow> string" where
  "component_str RootDir = ''/''"
| "component_str CurDir = ''.''"
| "component_str ParentDir = ''..''"
| "component_str (NormalC s) = s"

definition path_join :: "string \<Rightarrow> string \<Rightarrow> string" where
  "path_join base p =
     (if is_absolute p then p
      else if base = [] \<or> last base = CHR ''/'' then base @ p
      else base @ CHR ''/'' # p)"

definition path_eq :: "string \<Rightarrow> string \<Rightarrow> bool" where
  "path_eq p q \<longleftrightarrow> components p = components q"

definition path_starts_with :: "string \<Rightarrow> string \<Rightarrow> bool" where
  "path_starts_with p q \<longleftrightarrow> take (length (components q)) (components p) = components q"

text \<open>\<open>Path::file_name\<close>.\<close>

definition path_file_name :: "string \<Rightarrow> string option" where
  "path_file_name p =
     (case rev (components p) of NormalC s # _ \<Rightarrow> Some s | _ \<Rightarrow> None)"

text \<open>\<open>char::is_control\<close> on the UTF-8 bytes of a string: C0, DEL and C1.\<close>

fun contains_control :: "string \<Rightarrow> bool" where
  "contains_control [] = False"
| "contains_control (c # cs) =
     ((let v = (of_char c :: nat) in v < 32 \<or> v = 127)
      \<or> (of_char c = (0xC2 :: nat)
         \<and> (case cs of [] \<Rightarrow> False | d # _ \<Rightarrow> let w = (of_char d :: nat) in 0x80 \<le> w \<and> w \<le> 0x9F))
      \<or> contains_control cs)"

section \<open>Base directories\<close>

record PathInputs =
  pi_current_dir :: string
  pi_home_dir :: "string option"
  pi_firestone_home :: "string option"
  pi_firestone_config_dir :: "string option"
  pi_firestone_data_dir :: "string option"
  pi_firestone_runtime_dir :: "string option"
  pi_xdg_config_home :: "string option"
  pi_xdg_data_home :: "string option"
  pi_xdg_runtime_dir :: "string option"
  pi_uid :: u32

datatype RuntimeProvenance =
    ProvenanceFirestoneHome | ProvenanceFirestoneRuntimeDir
  | ProvenanceXdgRuntimeDir string | ProvenanceFallback

record Paths =
  p_config_dir :: string
  p_data_dir :: string
  p_runtime_dir :: string
  p_home_dir :: "string option"
  p_runtime_uid :: u32
  p_runtime_provenance :: RuntimeProvenance

definition selected_override :: "string option \<Rightarrow> string \<Rightarrow> (FirestoneError, string option) result" where
  "selected_override path variable =
     (case path of
        Some [] \<Rightarrow> Inl (with_hint (''set '' @ variable @ '' to a directory or unset it'')
               (error_new InvalidSpec (variable @ '' is set to an empty path'')))
      | selected \<Rightarrow> Inr selected)"

definition selected_xdg :: "string option \<Rightarrow> string option" where
  "selected_xdg path =
     (case path of Some p \<Rightarrow> if p \<noteq> [] \<and> is_absolute p then Some p else None | None \<Rightarrow> None)"

definition absolute_path :: "string \<Rightarrow> string \<Rightarrow> string" where
  "absolute_path path current_dir = (if is_absolute path then path else path_join current_dir path)"

function trim_trailing_separators :: "string \<Rightarrow> string" where
  "trim_trailing_separators path =
     (if length path > 1 \<and> last path = CHR ''/'' then trim_trailing_separators (butlast path) else path)"
  by pat_completeness auto
termination by (relation "measure length") auto

declare trim_trailing_separators.simps [simp del]

definition to_ascii_uppercase :: "char \<Rightarrow> char" where
  "to_ascii_uppercase c = (if is_ascii_lowercase c then char_of (of_char c - 32 :: nat) else c)"

definition home_default :: "string option \<Rightarrow> string \<Rightarrow> string \<Rightarrow> (FirestoneError, string) result" where
  "home_default home_dir relative_base purpose =
     and_then
       (ok_or
         (with_hint (''set FIRESTONE_HOME, FIRESTONE_'' @ map to_ascii_uppercase purpose @ ''_DIR, or HOME'')
           (error_new Dependency
             (''cannot resolve the '' @ purpose @ '' directory because HOME is not set'')))
         home_dir)
       (\<lambda>home. Inr (path_join (path_join home relative_base) ''firestone''))"

definition choose_dir ::
  "PathInputs \<Rightarrow> string option \<Rightarrow> string \<Rightarrow> string option \<Rightarrow> string option \<Rightarrow> string \<Rightarrow> string
   \<Rightarrow> (FirestoneError, string) result" where
  "choose_dir inputs ov variable xdg home_dir relative_base purpose =
     and_then (selected_override ov variable) (\<lambda>sel.
       case sel of
         Some path \<Rightarrow> Inr (absolute_path path (pi_current_dir inputs))
       | None \<Rightarrow>
           (case selected_xdg xdg of
              Some path \<Rightarrow> Inr (path_join path ''firestone'')
            | None \<Rightarrow> home_default home_dir relative_base purpose))"

definition choose_runtime_dir :: "PathInputs \<Rightarrow> (FirestoneError, string \<times> RuntimeProvenance) result" where
  "choose_runtime_dir inputs =
     and_then (selected_override (pi_firestone_runtime_dir inputs) ''FIRESTONE_RUNTIME_DIR'') (\<lambda>sel.
       case sel of
         Some path \<Rightarrow>
           Inr (trim_trailing_separators (absolute_path path (pi_current_dir inputs)),
                ProvenanceFirestoneRuntimeDir)
       | None \<Rightarrow>
           (case selected_xdg (pi_xdg_runtime_dir inputs) of
              Some path \<Rightarrow>
                (let base = trim_trailing_separators path
                 in Inr (path_join base ''firestone'', ProvenanceXdgRuntimeDir base))
            | None \<Rightarrow> Inr (''/tmp/firestone-'' @ show_nat (unat (pi_uid inputs)), ProvenanceFallback)))"

definition paths_from_inputs :: "PathInputs \<Rightarrow> (FirestoneError, Paths) result" where
  "paths_from_inputs inputs =
     (if \<not> is_absolute (pi_current_dir inputs)
      then Inl (with_hint ''supply an absolute current directory''
             (error_new InvalidSpec (''path resolution current directory is not absolute: ''
               @ quoted (pi_current_dir inputs))))
      else
        let home_dir = (case pi_home_dir inputs of
              Some p \<Rightarrow> if p \<noteq> [] then Some (absolute_path p (pi_current_dir inputs)) else None
            | None \<Rightarrow> None)
        in and_then (selected_override (pi_firestone_home inputs) ''FIRESTONE_HOME'') (\<lambda>sel.
          case sel of
            Some h \<Rightarrow>
              (let home = absolute_path h (pi_current_dir inputs)
               in Inr \<lparr>p_config_dir = path_join home ''config'', p_data_dir = path_join home ''data'',
                       p_runtime_dir = path_join home ''run'', p_home_dir = home_dir,
                       p_runtime_uid = pi_uid inputs,
                       p_runtime_provenance = ProvenanceFirestoneHome\<rparr>)
          | None \<Rightarrow>
              and_then (choose_dir inputs (pi_firestone_config_dir inputs) ''FIRESTONE_CONFIG_DIR''
                  (pi_xdg_config_home inputs) home_dir ''.config'' ''config'') (\<lambda>config_dir.
              and_then (choose_dir inputs (pi_firestone_data_dir inputs) ''FIRESTONE_DATA_DIR''
                  (pi_xdg_data_home inputs) home_dir ''.local/share'' ''data'') (\<lambda>data_dir.
              and_then (choose_runtime_dir inputs) (\<lambda>(runtime_dir, provenance).
              Inr \<lparr>p_config_dir = config_dir, p_data_dir = data_dir, p_runtime_dir = runtime_dir,
                   p_home_dir = home_dir, p_runtime_uid = pi_uid inputs,
                   p_runtime_provenance = provenance\<rparr>)))))"

definition uses_runtime_fallback :: "Paths \<Rightarrow> bool" where
  "uses_runtime_fallback paths \<longleftrightarrow> p_runtime_provenance paths = ProvenanceFallback"

section \<open>User-supplied paths\<close>

definition invalid_input_path :: "string \<Rightarrow> string \<Rightarrow> string \<Rightarrow> FirestoneError" where
  "invalid_input_path key msg h =
     with_hint h (error_new InvalidSpec (''invalid '' @ quoted key @ '': '' @ msg))"

definition expand_input_path :: "Paths \<Rightarrow> string \<Rightarrow> string \<Rightarrow> (FirestoneError, string) result" where
  "expand_input_path paths path key =
     (case components path of
        NormalC val # rest \<Rightarrow>
          if val = ''~''
          then and_then
            (ok_or (invalid_input_path key
                (''cannot expand '' @ quoted ''~'' @ '' because the home directory is unavailable'')
                ''use an absolute path or set HOME'') (p_home_dir paths))
            (\<lambda>home. Inr (foldl path_join home (map component_str rest)))
          else if val \<noteq> [] \<and> hd val = CHR ''~''
          then Inl (invalid_input_path key
                 (''user-home syntax is not supported in '' @ quoted path)
                 (''use '' @ quoted ''~/'' @ '' for the current user or an absolute path''))
          else Inr path
      | _ \<Rightarrow> Inr path)"

definition resolve_input_path ::
  "Paths \<Rightarrow> string \<Rightarrow> string \<Rightarrow> string \<Rightarrow> (FirestoneError, string) result" where
  "resolve_input_path paths path base_dir key =
     (if path = []
      then Inl (invalid_input_path key ''path is empty''
             ''set a non-empty absolute path or a path relative to the input file'')
      else and_then (expand_input_path paths path key) (\<lambda>expanded.
        Inr (if is_absolute expanded then expanded else path_join base_dir expanded)))"

section \<open>The layout\<close>

definition checked_join ::
  "(string \<Rightarrow> string) \<Rightarrow> string \<Rightarrow> string \<Rightarrow> string \<Rightarrow> (FirestoneError, string) result" where
  "checked_join dbg base label val =
     (let valid = (case components val of [NormalC _] \<Rightarrow> True | _ \<Rightarrow> False)
              \<and> CHR ''/'' \<notin> set val \<and> \<not> contains_control val
      in if valid then Inr (path_join base val)
         else Inl (with_hint (''remove path separators, '' @ quoted ''.''
                     @ '' components, and control characters'')
                (error_new InvalidSpec
                  (label @ '' must be one non-empty path component: '' @ dbg val))))"

definition config_file :: "Paths \<Rightarrow> string" where
  "config_file paths = path_join (p_config_dir paths) ''config.toml''"

definition catalog_file :: "Paths \<Rightarrow> string" where
  "catalog_file paths = path_join (p_config_dir paths) ''catalog.toml''"

definition machines_dir :: "Paths \<Rightarrow> string" where
  "machines_dir paths = path_join (p_data_dir paths) ''machines''"

definition images_dir :: "Paths \<Rightarrow> string" where
  "images_dir paths = path_join (p_data_dir paths) ''images''"

definition bin_dir :: "Paths \<Rightarrow> string" where
  "bin_dir paths = path_join (p_data_dir paths) ''bin''"

definition apparmor_staging_dir :: "Paths \<Rightarrow> string" where
  "apparmor_staging_dir paths = path_join (p_data_dir paths) ''apparmor''"

definition apparmor_passt_staged_profile :: "Paths \<Rightarrow> string" where
  "apparmor_passt_staged_profile paths = path_join (apparmor_staging_dir paths) ''firestone-passt-2025_02_17.a1e48a0''"

definition ssh_dir :: "Paths \<Rightarrow> string" where
  "ssh_dir paths = path_join (p_data_dir paths) ''ssh''"

definition ssh_private_key :: "Paths \<Rightarrow> string" where
  "ssh_private_key paths = path_join (ssh_dir paths) ''id_ed25519''"

definition ssh_public_key :: "Paths \<Rightarrow> string" where
  "ssh_public_key paths = path_join (ssh_dir paths) ''id_ed25519.pub''"

definition ssh_identity_lock :: "Paths \<Rightarrow> string" where
  "ssh_identity_lock paths = path_join (p_data_dir paths) ''.ssh-identity.lock''"

definition ssh_generation_marker :: "Paths \<Rightarrow> string" where
  "ssh_generation_marker paths = path_join (ssh_dir paths) ''.generating''"

definition serve_socket :: "Paths \<Rightarrow> string" where
  "serve_socket paths = path_join (p_runtime_dir paths) ''serve.sock''"

definition serve_lock :: "Paths \<Rightarrow> string" where
  "serve_lock paths = path_join (p_runtime_dir paths) ''.serve.lock''"

definition docker_config_file :: "Paths \<Rightarrow> string option" where
  "docker_config_file paths =
     map_option (\<lambda>home. path_join (path_join home ''.docker'') ''config.json'') (p_home_dir paths)"

definition apparmor_passt_executable :: string where
  "apparmor_passt_executable = ''/usr/libexec/firestone/passt-2025_02_17.a1e48a0''"

definition apparmor_passt_profile :: string where
  "apparmor_passt_profile = ''/etc/apparmor.d/firestone-passt-2025_02_17.a1e48a0''"

definition apparmor_loaded_profiles :: string where
  "apparmor_loaded_profiles = ''/sys/kernel/security/apparmor/profiles''"

definition binary_file :: "(string \<Rightarrow> string) \<Rightarrow> Paths \<Rightarrow> string \<Rightarrow> (FirestoneError, string) result" where
  "binary_file dbg paths file_name =
     checked_join dbg (bin_dir paths) ''binary file name'' file_name"

definition image_file :: "(string \<Rightarrow> string) \<Rightarrow> Paths \<Rightarrow> string \<Rightarrow> (FirestoneError, string) result" where
  "image_file dbg paths file_name =
     checked_join dbg (images_dir paths) ''image file name'' file_name"

definition image_store_lock :: "(string \<Rightarrow> string) \<Rightarrow> Paths \<Rightarrow> (FirestoneError, string) result" where
  "image_store_lock dbg paths =
     image_file dbg paths ''.lock''"

definition image_base :: "(string \<Rightarrow> string) \<Rightarrow> Paths \<Rightarrow> string \<Rightarrow> (FirestoneError, string) result" where
  "image_base dbg paths ident =
     image_file dbg paths (ident @ ''.qcow2'')"

definition image_metadata :: "(string \<Rightarrow> string) \<Rightarrow> Paths \<Rightarrow> string \<Rightarrow> (FirestoneError, string) result" where
  "image_metadata dbg paths ident =
     image_file dbg paths (ident @ ''.json'')"

definition image_base_removal :: "(string \<Rightarrow> string) \<Rightarrow> Paths \<Rightarrow> string \<Rightarrow> (FirestoneError, string) result" where
  "image_base_removal dbg paths ident =
     image_file dbg paths (ident @ ''.qcow2.removing'')"

definition image_metadata_removal :: "(string \<Rightarrow> string) \<Rightarrow> Paths \<Rightarrow> string \<Rightarrow> (FirestoneError, string) result" where
  "image_metadata_removal dbg paths ident =
     image_file dbg paths (ident @ ''.json.removing'')"

definition image_source_partial :: "(string \<Rightarrow> string) \<Rightarrow> Paths \<Rightarrow> string \<Rightarrow> (FirestoneError, string) result" where
  "image_source_partial dbg paths operation =
     image_file dbg paths (''.pull-'' @ operation @ ''.source.partial'')"

definition image_stored_partial :: "(string \<Rightarrow> string) \<Rightarrow> Paths \<Rightarrow> string \<Rightarrow> (FirestoneError, string) result" where
  "image_stored_partial dbg paths operation =
     image_file dbg paths (''.pull-'' @ operation @ ''.stored.partial'')"

definition image_rootfs_tar_partial :: "(string \<Rightarrow> string) \<Rightarrow> Paths \<Rightarrow> string \<Rightarrow> (FirestoneError, string) result" where
  "image_rootfs_tar_partial dbg paths operation =
     image_file dbg paths (''.pull-'' @ operation @ ''.tar.partial'')"

definition image_layer_partial :: "(string \<Rightarrow> string) \<Rightarrow> Paths \<Rightarrow> string \<Rightarrow> nat \<Rightarrow> (FirestoneError, string) result" where
  "image_layer_partial dbg paths operation index =
     image_file dbg paths (''.pull-'' @ operation @ ''.layer'' @ show_nat index @ ''.partial'')"

definition machine_dir :: "(string \<Rightarrow> string) \<Rightarrow> Paths \<Rightarrow> string \<Rightarrow> (FirestoneError, string) result" where
  "machine_dir dbg paths name =
     checked_join dbg (machines_dir paths) ''machine name'' name"

definition machine_removal_dir :: "(string \<Rightarrow> string) \<Rightarrow> Paths \<Rightarrow> string \<Rightarrow> (FirestoneError, string) result" where
  "machine_removal_dir dbg paths name =
     checked_join dbg (machines_dir paths) ''machine removal name'' (''.removing-'' @ name)"

definition machine_runtime_dir :: "(string \<Rightarrow> string) \<Rightarrow> Paths \<Rightarrow> string \<Rightarrow> (FirestoneError, string) result" where
  "machine_runtime_dir dbg paths name =
     checked_join dbg (p_runtime_dir paths) ''machine name'' name"

definition in_dir :: "(FirestoneError, string) result \<Rightarrow> string \<Rightarrow> (FirestoneError, string) result" where
  "in_dir dir file_name = and_then dir (\<lambda>d. Inr (path_join d file_name))"

definition machine_spec :: "(string \<Rightarrow> string) \<Rightarrow> Paths \<Rightarrow> string \<Rightarrow> (FirestoneError, string) result" where
  "machine_spec dbg paths name =
     in_dir (machine_dir dbg paths name) ''firestone.toml''"

definition machine_state :: "(string \<Rightarrow> string) \<Rightarrow> Paths \<Rightarrow> string \<Rightarrow> (FirestoneError, string) result" where
  "machine_state dbg paths name =
     in_dir (machine_dir dbg paths name) ''state.json''"

definition machine_lock :: "(string \<Rightarrow> string) \<Rightarrow> Paths \<Rightarrow> string \<Rightarrow> (FirestoneError, string) result" where
  "machine_lock dbg paths name =
     in_dir (machine_dir dbg paths name) ''lock''"

definition machine_disk :: "(string \<Rightarrow> string) \<Rightarrow> Paths \<Rightarrow> string \<Rightarrow> (FirestoneError, string) result" where
  "machine_disk dbg paths name =
     in_dir (machine_dir dbg paths name) ''disk.qcow2''"

definition machine_disk_partial :: "(string \<Rightarrow> string) \<Rightarrow> Paths \<Rightarrow> string \<Rightarrow> (FirestoneError, string) result" where
  "machine_disk_partial dbg paths name =
     in_dir (machine_dir dbg paths name) ''disk.qcow2.partial''"

definition machine_seed_image :: "(string \<Rightarrow> string) \<Rightarrow> Paths \<Rightarrow> string \<Rightarrow> (FirestoneError, string) result" where
  "machine_seed_image dbg paths name =
     in_dir (machine_dir dbg paths name) ''seed.img''"

definition machine_vmconfig :: "(string \<Rightarrow> string) \<Rightarrow> Paths \<Rightarrow> string \<Rightarrow> (FirestoneError, string) result" where
  "machine_vmconfig dbg paths name =
     in_dir (machine_dir dbg paths name) ''vmconfig.json''"

definition machine_vmm_executable :: "(string \<Rightarrow> string) \<Rightarrow> Paths \<Rightarrow> string \<Rightarrow> (FirestoneError, string) result" where
  "machine_vmm_executable dbg paths name =
     in_dir (machine_dir dbg paths name) ''vmm.bin''"

definition machine_seed_dir :: "(string \<Rightarrow> string) \<Rightarrow> Paths \<Rightarrow> string \<Rightarrow> (FirestoneError, string) result" where
  "machine_seed_dir dbg paths name =
     in_dir (machine_dir dbg paths name) ''seed''"

definition machine_config_image :: "(string \<Rightarrow> string) \<Rightarrow> Paths \<Rightarrow> string \<Rightarrow> (FirestoneError, string) result" where
  "machine_config_image dbg paths name =
     in_dir (machine_dir dbg paths name) ''config.img''"

definition machine_config_dir :: "(string \<Rightarrow> string) \<Rightarrow> Paths \<Rightarrow> string \<Rightarrow> (FirestoneError, string) result" where
  "machine_config_dir dbg paths name =
     in_dir (machine_dir dbg paths name) ''config''"

definition machine_user_data :: "(string \<Rightarrow> string) \<Rightarrow> Paths \<Rightarrow> string \<Rightarrow> (FirestoneError, string) result" where
  "machine_user_data dbg paths name =
     in_dir (machine_dir dbg paths name) ''user-data.yaml''"

definition machine_known_hosts :: "(string \<Rightarrow> string) \<Rightarrow> Paths \<Rightarrow> string \<Rightarrow> (FirestoneError, string) result" where
  "machine_known_hosts dbg paths name =
     in_dir (machine_dir dbg paths name) ''known_hosts''"

definition machine_console_log :: "(string \<Rightarrow> string) \<Rightarrow> Paths \<Rightarrow> string \<Rightarrow> (FirestoneError, string) result" where
  "machine_console_log dbg paths name =
     in_dir (machine_dir dbg paths name) ''console.log''"

definition machine_console_previous_log :: "(string \<Rightarrow> string) \<Rightarrow> Paths \<Rightarrow> string \<Rightarrow> (FirestoneError, string) result" where
  "machine_console_previous_log dbg paths name =
     in_dir (machine_dir dbg paths name) ''console.log.previous''"

definition machine_vmm_log :: "(string \<Rightarrow> string) \<Rightarrow> Paths \<Rightarrow> string \<Rightarrow> (FirestoneError, string) result" where
  "machine_vmm_log dbg paths name =
     in_dir (machine_dir dbg paths name) ''vmm.log''"

definition machine_shim_log :: "(string \<Rightarrow> string) \<Rightarrow> Paths \<Rightarrow> string \<Rightarrow> (FirestoneError, string) result" where
  "machine_shim_log dbg paths name =
     in_dir (machine_dir dbg paths name) ''shim.log''"

definition machine_passt_log :: "(string \<Rightarrow> string) \<Rightarrow> Paths \<Rightarrow> string \<Rightarrow> (FirestoneError, string) result" where
  "machine_passt_log dbg paths name =
     in_dir (machine_dir dbg paths name) ''passt.log''"

definition machine_snapshots_dir :: "(string \<Rightarrow> string) \<Rightarrow> Paths \<Rightarrow> string \<Rightarrow> (FirestoneError, string) result" where
  "machine_snapshots_dir dbg paths name =
     in_dir (machine_dir dbg paths name) ''snapshots''"

definition machine_restore_request :: "(string \<Rightarrow> string) \<Rightarrow> Paths \<Rightarrow> string \<Rightarrow> (FirestoneError, string) result" where
  "machine_restore_request dbg paths name =
     in_dir (machine_dir dbg paths name) ''restore-request.json''"

definition machine_seed_file :: "(string \<Rightarrow> string) \<Rightarrow> Paths \<Rightarrow> string \<Rightarrow> string \<Rightarrow> (FirestoneError, string) result" where
  "machine_seed_file dbg paths name file_name =
     and_then (machine_seed_dir dbg paths name) (\<lambda>dir. checked_join dbg dir ''seed file name'' file_name)"

definition machine_config_file :: "(string \<Rightarrow> string) \<Rightarrow> Paths \<Rightarrow> string \<Rightarrow> string \<Rightarrow> (FirestoneError, string) result" where
  "machine_config_file dbg paths name file_name =
     and_then (machine_config_dir dbg paths name) (\<lambda>dir. checked_join dbg dir ''config file name'' file_name)"

definition machine_virtiofsd_log :: "(string \<Rightarrow> string) \<Rightarrow> Paths \<Rightarrow> string \<Rightarrow> nat \<Rightarrow> (FirestoneError, string) result" where
  "machine_virtiofsd_log dbg paths name index =
     in_dir (machine_dir dbg paths name) (''virtiofsd-'' @ show_nat index @ ''.log'')"

definition machine_snapshot_dir :: "(string \<Rightarrow> string) \<Rightarrow> Paths \<Rightarrow> string \<Rightarrow> string \<Rightarrow> (FirestoneError, string) result" where
  "machine_snapshot_dir dbg paths name snapshot =
     and_then (machine_snapshots_dir dbg paths name) (\<lambda>dir. checked_join dbg dir ''snapshot name'' snapshot)"

definition machine_snapshot_partial_dir :: "(string \<Rightarrow> string) \<Rightarrow> Paths \<Rightarrow> string \<Rightarrow> string \<Rightarrow> (FirestoneError, string) result" where
  "machine_snapshot_partial_dir dbg paths name snapshot =
     and_then (machine_snapshots_dir dbg paths name) (\<lambda>dir. checked_join dbg dir ''snapshot partial name'' (''.partial-'' @ snapshot))"

definition machine_snapshot_removal_dir :: "(string \<Rightarrow> string) \<Rightarrow> Paths \<Rightarrow> string \<Rightarrow> string \<Rightarrow> (FirestoneError, string) result" where
  "machine_snapshot_removal_dir dbg paths name snapshot =
     and_then (machine_snapshots_dir dbg paths name) (\<lambda>dir. checked_join dbg dir ''snapshot removal name'' (''.removing-'' @ snapshot))"

definition machine_snapshot_lock :: "(string \<Rightarrow> string) \<Rightarrow> Paths \<Rightarrow> string \<Rightarrow> (FirestoneError, string) result" where
  "machine_snapshot_lock dbg paths name =
     in_dir (machine_snapshots_dir dbg paths name) ''.lock''"

definition snapshot_metadata :: "string \<Rightarrow> string" where
  "snapshot_metadata dir = path_join dir ''metadata.json''"

definition snapshot_disk :: "string \<Rightarrow> string" where
  "snapshot_disk dir = path_join dir ''disk.qcow2''"

definition snapshot_disk_partial :: "string \<Rightarrow> string" where
  "snapshot_disk_partial dir = path_join dir ''disk.qcow2.partial''"

definition snapshot_spec :: "string \<Rightarrow> string" where
  "snapshot_spec dir = path_join dir ''spec.toml''"

definition snapshot_vmconfig :: "string \<Rightarrow> string" where
  "snapshot_vmconfig dir = path_join dir ''vmconfig.json''"

definition snapshot_vmstate_dir :: "string \<Rightarrow> string" where
  "snapshot_vmstate_dir dir = path_join dir ''vmstate''"

definition machine_shim_socket :: "(string \<Rightarrow> string) \<Rightarrow> Paths \<Rightarrow> string \<Rightarrow> (FirestoneError, string) result" where
  "machine_shim_socket dbg paths name =
     in_dir (machine_runtime_dir dbg paths name) ''shim.sock''"

definition machine_api_socket :: "(string \<Rightarrow> string) \<Rightarrow> Paths \<Rightarrow> string \<Rightarrow> (FirestoneError, string) result" where
  "machine_api_socket dbg paths name =
     in_dir (machine_runtime_dir dbg paths name) ''api.sock''"

definition machine_vsock_socket :: "(string \<Rightarrow> string) \<Rightarrow> Paths \<Rightarrow> string \<Rightarrow> (FirestoneError, string) result" where
  "machine_vsock_socket dbg paths name =
     in_dir (machine_runtime_dir dbg paths name) ''vsock.sock''"

definition machine_console_socket :: "(string \<Rightarrow> string) \<Rightarrow> Paths \<Rightarrow> string \<Rightarrow> (FirestoneError, string) result" where
  "machine_console_socket dbg paths name =
     in_dir (machine_runtime_dir dbg paths name) ''console.sock''"

definition machine_console_pty_log :: "(string \<Rightarrow> string) \<Rightarrow> Paths \<Rightarrow> string \<Rightarrow> (FirestoneError, string) result" where
  "machine_console_pty_log dbg paths name =
     in_dir (machine_runtime_dir dbg paths name) ''console.pty.log''"

definition machine_net_socket :: "(string \<Rightarrow> string) \<Rightarrow> Paths \<Rightarrow> string \<Rightarrow> (FirestoneError, string) result" where
  "machine_net_socket dbg paths name =
     in_dir (machine_runtime_dir dbg paths name) ''net.sock''"

definition machine_shim_pid :: "(string \<Rightarrow> string) \<Rightarrow> Paths \<Rightarrow> string \<Rightarrow> (FirestoneError, string) result" where
  "machine_shim_pid dbg paths name =
     in_dir (machine_runtime_dir dbg paths name) ''shim.pid''"

definition machine_shim_plan :: "(string \<Rightarrow> string) \<Rightarrow> Paths \<Rightarrow> string \<Rightarrow> (FirestoneError, string) result" where
  "machine_shim_plan dbg paths name =
     in_dir (machine_runtime_dir dbg paths name) ''launch.json''"

definition machine_process_identity :: "(string \<Rightarrow> string) \<Rightarrow> Paths \<Rightarrow> string \<Rightarrow> (FirestoneError, string) result" where
  "machine_process_identity dbg paths name =
     in_dir (machine_runtime_dir dbg paths name) ''identity.json''"

definition machine_fs_socket :: "(string \<Rightarrow> string) \<Rightarrow> Paths \<Rightarrow> string \<Rightarrow> nat \<Rightarrow> (FirestoneError, string) result" where
  "machine_fs_socket dbg paths name index =
     in_dir (machine_runtime_dir dbg paths name) (''fs'' @ show_nat index @ ''.sock'')"

definition machine_fs_pid_file :: "(string \<Rightarrow> string) \<Rightarrow> Paths \<Rightarrow> string \<Rightarrow> nat \<Rightarrow> (FirestoneError, string) result" where
  "machine_fs_pid_file dbg paths name index =
     in_dir (machine_runtime_dir dbg paths name) (''fs'' @ show_nat index @ ''.sock.pid'')"

section \<open>Directory checks\<close>

datatype FileKind = FileRegular | FileDirectory | FileSymlink | FileSocket | FileSpecial

record Metadata =
  md_kind :: FileKind
  md_uid :: u32
  md_mode :: u32

text \<open>\<open>symlink_metadata\<close>: the file system as the checks see it.\<close>

type_synonym stat_fn = "string \<Rightarrow> (IoError, Metadata) result"

text \<open>\<open>{:04o}\<close>\<close>

definition show_octal4 :: "u32 \<Rightarrow> string" where
  "show_octal4 m = (let s = show_radix 8 (unat m) in replicate (4 - length s) (CHR ''0'') @ s)"

text \<open>\<open>metadata.mode() & 0o7777\<close>\<close>

definition permissions :: "Metadata \<Rightarrow> u32" where
  "permissions metadata = md_mode metadata AND 0xFFF"

definition directory_io_error :: "string \<Rightarrow> string \<Rightarrow> string \<Rightarrow> IoError \<Rightarrow> FirestoneError" where
  "directory_io_error operation label path source =
     with_hint (''check the parent directory permissions and run '' @ quoted ''firestone doctor --fix'')
       (error_new Dependency
         (''cannot '' @ operation @ '' '' @ label @ '' '' @ quoted path @ '': '' @ io_text source))"

definition runtime_io_error :: "string \<Rightarrow> string \<Rightarrow> IoError \<Rightarrow> FirestoneError" where
  "runtime_io_error operation path source = directory_io_error operation ''runtime directory'' path source"

definition validate_directory_type :: "string \<Rightarrow> string \<Rightarrow> Metadata \<Rightarrow> (FirestoneError, unit) result" where
  "validate_directory_type path label metadata =
     (if md_kind metadata = FileSymlink
      then Inl (with_hint ''replace it with a directory owned by the Firestone user''
             (error_new Dependency (label @ '' '' @ quoted path @ '' is a symbolic link'')))
      else if md_kind metadata = FileDirectory then Inr ()
      else Inl (with_hint (''move the existing path and run '' @ quoted ''firestone doctor --fix'')
             (error_new Dependency (label @ '' '' @ quoted path @ '' is not a directory''))))"

definition found_uid_mode :: "Metadata \<Rightarrow> string" where
  "found_uid_mode metadata =
     ''found uid '' @ show_nat (unat (md_uid metadata)) @ '' and mode '' @ show_octal4 (permissions metadata)"

definition trusted_ancestor :: "Paths \<Rightarrow> Metadata \<Rightarrow> bool" where
  "trusted_ancestor paths metadata \<longleftrightarrow>
     (let actual_uid = md_uid metadata;
          actual_mode = permissions metadata;
          trusted_owner = (actual_uid = p_runtime_uid paths \<or> actual_uid = 0);
          writable_by_other_users = (actual_mode AND 0x12 \<noteq> 0);
          safe_sticky_root = (actual_uid = 0 \<and> actual_mode AND 0x200 \<noteq> 0)
      in trusted_owner \<and> (\<not> writable_by_other_users \<or> safe_sticky_root))"

definition validate_trusted_ancestor_metadata ::
  "Paths \<Rightarrow> string \<Rightarrow> string \<Rightarrow> Metadata \<Rightarrow> (FirestoneError, unit) result" where
  "validate_trusted_ancestor_metadata paths path label metadata =
     ensure (trusted_ancestor paths metadata)
       (with_hint ''move the directory below private user-owned ancestry or a root-owned protected directory''
         (error_new Dependency
           (label @ '' '' @ quoted path @ '' has insecure ancestry: expected uid ''
             @ show_nat (unat (p_runtime_uid paths)) @ '' or root with protected rename permissions, ''
             @ found_uid_mode metadata)))"

definition owned_directory :: "Paths \<Rightarrow> Metadata \<Rightarrow> bool" where
  "owned_directory paths metadata \<longleftrightarrow>
     md_uid metadata = p_runtime_uid paths \<and> permissions metadata AND 0x12 = 0"

definition validate_owned_directory_metadata ::
  "Paths \<Rightarrow> string \<Rightarrow> string \<Rightarrow> Metadata \<Rightarrow> (FirestoneError, unit) result" where
  "validate_owned_directory_metadata paths path label metadata =
     ensure (owned_directory paths metadata)
       (with_hint ''move the existing directory aside or restrict it to its owning user''
         (error_new Dependency
           (label @ '' '' @ quoted path @ '' is insecure: expected uid ''
             @ show_nat (unat (p_runtime_uid paths)) @ '' without group/world write access, ''
             @ found_uid_mode metadata)))"

text \<open>The loop of \<open>validate_directory_path\<close> over the components that are left.\<close>

fun check_directories ::
  "stat_fn \<Rightarrow> Paths \<Rightarrow> string \<Rightarrow> bool \<Rightarrow> bool \<Rightarrow> string \<Rightarrow> PathComponent list \<Rightarrow> (FirestoneError, unit) result" where
  "check_directories stat paths label allow_missing owned_final current [] = Inr ()"
| "check_directories stat paths label allow_missing owned_final current (c # cs) =
     (let current = path_join current (component_str c);
          is_final = (cs = [])
      in case stat current of
           Inl source \<Rightarrow>
             if allow_missing \<and> io_kind source = IoNotFound
             then check_directories stat paths label allow_missing owned_final current cs
             else Inl (directory_io_error ''inspect'' label current source)
         | Inr metadata \<Rightarrow>
             and_then (validate_directory_type current label metadata) (\<lambda>_.
             and_then
               (if owned_final \<and> is_final
                then validate_owned_directory_metadata paths current label metadata
                else validate_trusted_ancestor_metadata paths current label metadata) (\<lambda>_.
             check_directories stat paths label allow_missing owned_final current cs)))"

definition validate_directory_path ::
  "stat_fn \<Rightarrow> Paths \<Rightarrow> string \<Rightarrow> string \<Rightarrow> bool \<Rightarrow> bool \<Rightarrow> (FirestoneError, unit) result" where
  "validate_directory_path stat paths path label allow_missing owned_final =
     (if \<not> is_absolute path
      then Inl (with_hint ''use an absolute Firestone data directory''
             (error_new Dependency (label @ '' '' @ quoted path @ '' is not absolute'')))
      else check_directories stat paths label allow_missing owned_final [] (components path))"

definition validate_owned_data_directory ::
  "stat_fn \<Rightarrow> Paths \<Rightarrow> string \<Rightarrow> string \<Rightarrow> bool \<Rightarrow> (FirestoneError, unit) result" where
  "validate_owned_data_directory stat paths path label allow_missing =
     validate_directory_path stat paths path label allow_missing True"

text \<open>
  \<open>Path::parent\<close>, rebuilt from the components: the callers only walk the components of the
  result.
\<close>

definition path_parent :: "string \<Rightarrow> string option" where
  "path_parent p =
     (case components p of
        [] \<Rightarrow> None
      | [RootDir] \<Rightarrow> None
      | cs \<Rightarrow> Some (foldl path_join [] (map component_str (butlast cs))))"

definition validate_owned_data_file ::
  "stat_fn \<Rightarrow> Paths \<Rightarrow> string \<Rightarrow> string \<Rightarrow> u32 \<Rightarrow> bool \<Rightarrow> (FirestoneError, unit) result" where
  "validate_owned_data_file stat paths path label expected_mode allow_missing =
     and_then
       (ok_or (with_hint ''use a file below the Firestone data directory''
           (error_new Dependency (label @ '' '' @ quoted path @ '' has no parent directory'')))
         (path_parent path)) (\<lambda>parent.
     and_then (validate_owned_data_directory stat paths parent (label @ '' parent'') False) (\<lambda>_.
     case stat path of
       Inl source \<Rightarrow>
         if allow_missing \<and> io_kind source = IoNotFound then Inr ()
         else Inl (directory_io_error ''inspect'' label path source)
     | Inr metadata \<Rightarrow>
         if md_kind metadata \<noteq> FileRegular
         then Inl (with_hint ''replace the symlink or special file with a regular Firestone-owned file''
                (error_new Dependency (label @ '' '' @ quoted path @ '' is not a regular owned file'')))
         else if md_uid metadata \<noteq> p_runtime_uid paths \<or> permissions metadata \<noteq> expected_mode
         then Inl (with_hint ''replace the file with one owned and protected by the Firestone user''
                (error_new Dependency
                  (label @ '' '' @ quoted path @ '' is insecure: expected uid ''
                    @ show_nat (unat (p_runtime_uid paths)) @ '' and mode '' @ show_octal4 expected_mode
                    @ '', '' @ found_uid_mode metadata)))
         else Inr ()))"

definition validate_machine_data_directory ::
  "(string \<Rightarrow> string) \<Rightarrow> stat_fn \<Rightarrow> Paths \<Rightarrow> string \<Rightarrow> (FirestoneError, string) result" where
  "validate_machine_data_directory dbg stat paths name =
     and_then (validate_owned_data_directory stat paths (p_data_dir paths) ''data directory'' False) (\<lambda>_.
     and_then (validate_owned_data_directory stat paths (machines_dir paths) ''machines directory'' False) (\<lambda>_.
     and_then (machine_dir dbg paths name) (\<lambda>dir.
     and_then (validate_owned_data_directory stat paths dir ''machine directory'' False) (\<lambda>_.
     Inr dir))))"

definition validate_owned_data_subdirectory ::
  "stat_fn \<Rightarrow> Paths \<Rightarrow> string \<Rightarrow> string \<Rightarrow> (FirestoneError, unit) result" where
  "validate_owned_data_subdirectory stat paths path label =
     and_then (validate_owned_data_directory stat paths (p_data_dir paths) ''data directory'' False) (\<lambda>_.
     validate_owned_data_directory stat paths path label False)"

definition validate_ssh_data_directory :: "stat_fn \<Rightarrow> Paths \<Rightarrow> (FirestoneError, unit) result" where
  "validate_ssh_data_directory stat paths =
     validate_owned_data_subdirectory stat paths (ssh_dir paths) ''SSH directory''"

definition validate_bin_data_directory :: "stat_fn \<Rightarrow> Paths \<Rightarrow> (FirestoneError, unit) result" where
  "validate_bin_data_directory stat paths =
     validate_owned_data_subdirectory stat paths (bin_dir paths) ''binary directory''"

section \<open>The runtime directory\<close>

definition insecure_runtime_ancestry_error :: "string \<Rightarrow> string \<Rightarrow> FirestoneError" where
  "insecure_runtime_ancestry_error path msg =
     with_hint (''move the runtime directory below private user-owned ancestry or a ''
         @ ''root-owned protected directory'')
       (error_new Dependency (msg @ '': '' @ quoted path))"

definition private_directory :: "Paths \<Rightarrow> Metadata \<Rightarrow> bool" where
  "private_directory paths metadata \<longleftrightarrow>
     md_uid metadata = p_runtime_uid paths \<and> permissions metadata = 0x1C0"

definition validate_runtime_ancestry :: "stat_fn \<Rightarrow> Paths \<Rightarrow> string \<Rightarrow> (FirestoneError, unit) result" where
  "validate_runtime_ancestry stat paths parent =
     validate_directory_path stat paths parent ''runtime directory ancestor'' False False"

definition validate_xdg_runtime_base :: "stat_fn \<Rightarrow> Paths \<Rightarrow> string \<Rightarrow> (FirestoneError, unit) result" where
  "validate_xdg_runtime_base stat paths base =
     and_then (map_err (runtime_io_error ''inspect XDG_RUNTIME_DIR'' base) (stat base)) (\<lambda>metadata.
     and_then (validate_directory_type base ''XDG_RUNTIME_DIR'' metadata) (\<lambda>_.
     ensure (private_directory paths metadata)
       (with_hint ''set XDG_RUNTIME_DIR to the private runtime directory created for this uid''
         (error_new Dependency
           (''XDG_RUNTIME_DIR '' @ quoted base @ '' is insecure: expected uid ''
             @ show_nat (unat (p_runtime_uid paths)) @ '' and mode 0700, '' @ found_uid_mode metadata)))))"

definition validate_runtime_prerequisites :: "stat_fn \<Rightarrow> Paths \<Rightarrow> (FirestoneError, unit) result" where
  "validate_runtime_prerequisites stat paths =
     (case p_runtime_provenance paths of
        ProvenanceXdgRuntimeDir base \<Rightarrow>
          and_then (ok_or (insecure_runtime_ancestry_error base ''XDG_RUNTIME_DIR has no parent directory'')
              (path_parent base)) (\<lambda>parent.
          and_then (validate_runtime_ancestry stat paths parent) (\<lambda>_.
          validate_xdg_runtime_base stat paths base))
      | _ \<Rightarrow>
          and_then (ok_or (insecure_runtime_ancestry_error (p_runtime_dir paths)
                ''runtime directory has no parent directory'')
              (path_parent (p_runtime_dir paths))) (\<lambda>parent.
          validate_runtime_ancestry stat paths parent))"

definition validate_runtime_metadata :: "Paths \<Rightarrow> Metadata \<Rightarrow> (FirestoneError, unit) result" where
  "validate_runtime_metadata paths metadata =
     and_then (validate_directory_type (p_runtime_dir paths) ''runtime directory'' metadata) (\<lambda>_.
     ensure (private_directory paths metadata)
       (with_hint (''check the directory contents, remove '' @ quoted (p_runtime_dir paths)
           @ '', then run '' @ quoted ''firestone doctor --fix'')
         (error_new Dependency
           (''runtime directory '' @ quoted (p_runtime_dir paths) @ '' is insecure: expected uid ''
             @ show_nat (unat (p_runtime_uid paths)) @ '' and mode 0700, '' @ found_uid_mode metadata))))"

definition inspect_runtime_dir :: "stat_fn \<Rightarrow> Paths \<Rightarrow> (FirestoneError, unit) result" where
  "inspect_runtime_dir stat paths =
     and_then (map_err (runtime_io_error ''inspect'' (p_runtime_dir paths)) (stat (p_runtime_dir paths)))
       (validate_runtime_metadata paths)"

definition validate_runtime_dir :: "stat_fn \<Rightarrow> Paths \<Rightarrow> (FirestoneError, unit) result" where
  "validate_runtime_dir stat paths =
     and_then (validate_runtime_prerequisites stat paths) (\<lambda>_. inspect_runtime_dir stat paths)"

definition validate_private_runtime_directory ::
  "Paths \<Rightarrow> string \<Rightarrow> Metadata \<Rightarrow> (FirestoneError, unit) result" where
  "validate_private_runtime_directory paths path metadata =
     and_then (validate_directory_type path ''machine runtime directory'' metadata) (\<lambda>_.
     ensure (private_directory paths metadata)
       (with_hint ''remove the stale runtime directory and retry''
         (error_new Dependency
           (''machine runtime directory '' @ quoted path @ '' is insecure: expected uid ''
             @ show_nat (unat (p_runtime_uid paths)) @ '' and mode 0700, '' @ found_uid_mode metadata))))"

definition validate_machine_runtime_dir ::
  "(string \<Rightarrow> string) \<Rightarrow> stat_fn \<Rightarrow> Paths \<Rightarrow> string \<Rightarrow> (FirestoneError, string) result" where
  "validate_machine_runtime_dir dbg stat paths name =
     and_then (validate_runtime_dir stat paths) (\<lambda>_.
     and_then (machine_runtime_dir dbg paths name) (\<lambda>path.
     and_then (map_err (runtime_io_error ''inspect'' path) (stat path)) (\<lambda>metadata.
     and_then (validate_private_runtime_directory paths path metadata) (\<lambda>_.
     Inr path))))"

section \<open>Joining appends a component\<close>

lemma split_on_sep: "split_on c (a @ c # b) = split_on c a @ split_on c b"
proof (induction a)
  case (Cons x a)
  have "split_on c a \<noteq> []" by simp
  then show ?case using Cons by (cases "split_on c a") (auto split: list.splits)
qed simp

definition plain_name :: "string \<Rightarrow> bool" where
  "plain_name s \<longleftrightarrow> s \<notin> {[], ''.'', ''..''} \<and> CHR ''/'' \<notin> set s"

lemma plain_name_relative [simp]: "plain_name s \<Longrightarrow> \<not> is_absolute s"
  by (auto simp: plain_name_def is_absolute_def dest: hd_in_set)

lemma piece_plain [simp]: "plain_name s \<Longrightarrow> piece s = [NormalC s]"
  by (simp add: plain_name_def piece_def)

lemma split_on_plain [simp]: "plain_name s \<Longrightarrow> split_on (CHR ''/'') s = [s]"
  by (simp add: plain_name_def split_on_single)

lemma components_plain: "plain_name s \<Longrightarrow> components s = [NormalC s]"
  by (auto simp: components_def Let_def plain_name_def split_on_single piece_def is_absolute_def dest: hd_in_set)

lemma components_append:
  assumes "plain_name s"
  shows "components (a @ CHR ''/'' # s) = components (a @ ''/'') @ [NormalC s]"
proof -
  have "split_on (CHR ''/'') (a @ CHR ''/'' # s) = split_on (CHR ''/'') a @ [s]"
    using split_on_sep [of "CHR ''/''" a s] assms by simp
  moreover have "split_on (CHR ''/'') (a @ ''/'') = split_on (CHR ''/'') a @ [[]]"
    using split_on_sep [of "CHR ''/''" a "[]"] by simp
  moreover have "is_absolute (a @ CHR ''/'' # s) = is_absolute (a @ ''/'')"
    by (cases a) (auto simp: is_absolute_def)
  moreover have "split_on (CHR ''/'') a \<noteq> []" by simp
  ultimately show ?thesis
    using assms by (cases "split_on (CHR ''/'') a") (auto simp: components_def piece_def [of "[]"] Let_def)
qed

lemma components_trailing: "a \<noteq> [] \<Longrightarrow> components (a @ ''/'') = components a"
proof -
  assume "a \<noteq> []"
  have "split_on (CHR ''/'') (a @ ''/'') = split_on (CHR ''/'') a @ [[]]"
    using split_on_sep [of "CHR ''/''" a "[]"] by simp
  moreover have "is_absolute (a @ ''/'') = is_absolute a" using \<open>a \<noteq> []\<close> by (simp add: is_absolute_def)
  moreover have "split_on (CHR ''/'') a \<noteq> []" by simp
  ultimately show ?thesis
    by (cases "split_on (CHR ''/'') a") (auto simp: components_def piece_def [of "[]"] Let_def)
qed

lemma components_join:
  assumes "plain_name s"
  shows "components (path_join base s) = components base @ [NormalC s]"
proof (cases "base = [] \<or> last base = CHR ''/''")
  case True
  show ?thesis
  proof (cases "base = []")
    case True
    then show ?thesis
      using components_plain [OF assms] assms
      by (simp add: path_join_def components_def [of "[]"] is_absolute_def [of "[]"] piece_def)
  next
    case False
    then obtain a where a: "base = a @ ''/''" using True by (metis append_butlast_last_id)
    then have "path_join base s = a @ CHR ''/'' # s" using assms by (simp add: path_join_def)
    then show ?thesis using components_append [OF assms, of a] a by simp
  qed
next
  case False
  then have "path_join base s = base @ CHR ''/'' # s" using assms by (simp add: path_join_def)
  then show ?thesis using components_append [OF assms, of base] components_trailing [of base] False by simp
qed

lemma is_absolute_join: "is_absolute base \<Longrightarrow> is_absolute (path_join base p)"
  by (auto simp: is_absolute_def path_join_def)

lemma components_single:
  assumes "components s = [NormalC t]" "CHR ''/'' \<notin> set s"
  shows "plain_name s \<and> t = s"
proof -
  have sp: "split_on (CHR ''/'') s = [s]" using assms(2) by (rule split_on_single)
  have "\<not> is_absolute s" using assms(1) by (auto simp: components_def Let_def)
  then show ?thesis
    using assms sp by (auto simp: components_def piece_def plain_name_def Let_def split: if_splits)
qed

lemma checked_join_iff:
  "checked_join dbg base label val = Inr p \<longleftrightarrow>
     plain_name val \<and> \<not> contains_control val \<and> p = path_join base val"
proof (cases "\<exists>t. components val = [NormalC t]")
  case True
  then show ?thesis
    using components_single [of val] by (auto simp: checked_join_def plain_name_def)
next
  case False
  then have "\<not> plain_name val" using components_plain by blast
  moreover have "\<not> (case components val of [NormalC _] \<Rightarrow> True | _ \<Rightarrow> False)"
    using False by (auto split: list.splits PathComponent.splits)
  ultimately show ?thesis by (simp add: checked_join_def)
qed

text \<open>
  C3. Joining a machine, image or snapshot name never leaves the directory it is joined to: a
  name is accepted exactly when it is a single path component other than \<open>.\<close> and \<open>..\<close> without
  separators or control characters, and the result is the base directory with exactly that
  component appended.
\<close>

theorem checked_join_contained:
  "(case checked_join dbg base label val of
      Inr p \<Rightarrow> components p = components base @ [NormalC val] \<and> path_starts_with p base
        \<and> val \<notin> {[], ''.'', ''..''} \<and> CHR ''/'' \<notin> set val \<and> \<not> contains_control val
    | Inl e \<Rightarrow> kind e = InvalidSpec
        \<and> (val \<in> {[], ''.'', ''..''} \<or> CHR ''/'' \<in> set val \<or> contains_control val))"
proof (cases "checked_join dbg base label val")
  case (Inr p)
  then have v: "plain_name val" "\<not> contains_control val" "p = path_join base val"
    by (simp_all add: checked_join_iff)
  then show ?thesis
    using components_join [of val base] unfolding Inr by (simp add: path_starts_with_def plain_name_def)
next
  case (Inl e)
  have "kind e = InvalidSpec" using Inl by (auto simp: checked_join_def Let_def split: if_splits)
  moreover have "\<not> (plain_name val \<and> \<not> contains_control val)"
    using Inl checked_join_iff [of dbg base label val "path_join base val"] by auto
  ultimately show ?thesis using Inl by (auto simp: plain_name_def)
qed

lemma machine_dir_iff:
  "machine_dir dbg paths n = Inr p \<longleftrightarrow>
     plain_name n \<and> \<not> contains_control n \<and> p = path_join (machines_dir paths) n"
  by (simp add: machine_dir_def checked_join_iff)

text \<open>
  The directories of two machines with different names are disjoint: neither lies in the
  other.
\<close>

lemma machine_dirs_disjoint:
  assumes "machine_dir dbg paths n = Inr p" and "machine_dir dbg paths m = Inr q" and "n \<noteq> m"
  shows "\<not> path_starts_with p q \<and> \<not> path_starts_with q p"
  using assms components_join [of n "machines_dir paths"] components_join [of m "machines_dir paths"]
  by (auto simp: machine_dir_iff path_starts_with_def)



section \<open>Resolved paths are absolute\<close>

lemma is_absolute_slash [simp]: "is_absolute (CHR ''/'' # p)"
  by (simp add: is_absolute_def)

lemma trim_trailing_absolute: "is_absolute p \<Longrightarrow> is_absolute (trim_trailing_separators p)"
proof (induction p rule: trim_trailing_separators.induct)
  case (1 p)
  show ?case
  proof (cases "length p > 1 \<and> last p = CHR ''/''")
    case True
    then have "is_absolute (butlast p)" using 1(2) by (cases p) (auto simp: is_absolute_def)
    then show ?thesis using True 1 by (subst trim_trailing_separators.simps) simp
  next
    case False
    then show ?thesis using 1(2) by (subst trim_trailing_separators.simps) auto
  qed
qed

lemma absolute_path_absolute [simp]: "is_absolute cwd \<Longrightarrow> is_absolute (absolute_path p cwd)"
  by (auto simp: absolute_path_def intro: is_absolute_join)

definition home_ok :: "string option \<Rightarrow> bool" where
  "home_ok h \<longleftrightarrow> (case h of Some p \<Rightarrow> is_absolute p | None \<Rightarrow> True)"

lemma choose_dir_absolute:
  "choose_dir inputs ov var xdg home rel purpose = Inr p \<Longrightarrow> is_absolute (pi_current_dir inputs)
     \<Longrightarrow> home_ok home \<Longrightarrow> is_absolute p"
  by (auto simp: choose_dir_def and_then_Inr_iff selected_xdg_def home_default_def home_ok_def
      split: option.splits if_splits intro!: is_absolute_join)

lemma choose_runtime_dir_absolute:
  "choose_runtime_dir inputs = Inr (p, prov) \<Longrightarrow> is_absolute (pi_current_dir inputs) \<Longrightarrow> is_absolute p"
  by (auto simp: choose_runtime_dir_def and_then_Inr_iff selected_xdg_def Let_def
      split: option.splits if_splits intro: is_absolute_join trim_trailing_absolute)

text \<open>
  Whatever the environment says, the directories Firestone settles on are absolute, and so
  is every user path resolved against an absolute directory: no later operation depends on the
  process's working directory.
\<close>

lemma resolved_paths_absolute:
  assumes "paths_from_inputs inputs = Inr paths"
  shows "is_absolute (p_config_dir paths) \<and> is_absolute (p_data_dir paths) \<and> is_absolute (p_runtime_dir paths)
    \<and> (is_absolute base \<longrightarrow> resolve_input_path paths path base key = Inr q \<longrightarrow> is_absolute q)"
proof -
  have cwd: "is_absolute (pi_current_dir inputs)"
    using assms by (auto simp: paths_from_inputs_def split: if_splits)
  define home where "home = (case pi_home_dir inputs of
      Some p \<Rightarrow> if p \<noteq> [] then Some (absolute_path p (pi_current_dir inputs)) else None | None \<Rightarrow> None)"
  have home: "home_ok home"
    using cwd by (auto simp: home_ok_def home_def split: option.splits)
  have dirs: "is_absolute (p_config_dir paths) \<and> is_absolute (p_data_dir paths) \<and> is_absolute (p_runtime_dir paths)
      \<and> p_home_dir paths = home"
    using assms cwd choose_dir_absolute [OF _ cwd home] choose_runtime_dir_absolute [OF _ cwd]
    unfolding paths_from_inputs_def home_def [symmetric]
    by (auto simp: and_then_Inr_iff Let_def split: option.splits intro!: is_absolute_join)
  have "is_absolute q" if "is_absolute base" "resolve_input_path paths path base key = Inr q"
    using that is_absolute_join [of base]
    by (cases "expand_input_path paths path key")
      (auto simp: resolve_input_path_def and_then_Inr_iff split: if_splits dest: sym)
  then show ?thesis using dirs by blast
qed

section \<open>What the directory walk guarantees\<close>

fun dir_prefixes :: "string \<Rightarrow> PathComponent list \<Rightarrow> string list" where
  "dir_prefixes current [] = []"
| "dir_prefixes current (c # cs) =
     (let d = path_join current (component_str c) in d # dir_prefixes d cs)"

definition is_directory :: "stat_fn \<Rightarrow> (Metadata \<Rightarrow> bool) \<Rightarrow> string \<Rightarrow> bool" where
  "is_directory stat P d \<longleftrightarrow> (\<exists>md. stat d = Inr md \<and> md_kind md = FileDirectory \<and> P md)"

lemma check_directories_owned:
  assumes "cs \<noteq> []"
  shows "check_directories stat paths label False True current cs = Inr () \<longleftrightarrow>
     (\<forall>d \<in> set (butlast (dir_prefixes current cs)). is_directory stat (trusted_ancestor paths) d)
     \<and> is_directory stat (owned_directory paths) (last (dir_prefixes current cs))"
  using assms
proof (induction cs arbitrary: current)
  case (Cons c cs)
  let ?d = "path_join current (component_str c)"
  show ?case
  proof (cases cs)
    case Nil
    then show ?thesis
      by (cases "stat ?d") (auto simp: is_directory_def Let_def and_then_Inr_iff validate_directory_type_def
          validate_owned_directory_metadata_def)
  next
    case (Cons c' cs')
    then have ne: "cs \<noteq> []" "dir_prefixes ?d cs \<noteq> []" by (simp_all add: Let_def)
    show ?thesis
      using ne Cons.IH [OF ne(1), of ?d]
      by (cases "stat ?d") (auto simp: is_directory_def Let_def and_then_Inr_iff validate_directory_type_def
          validate_trusted_ancestor_metadata_def)
  qed
qed simp

lemma permission_masks:
  "(m :: u32) AND 0xFFF AND 0x12 = m AND 0x12" "(m :: u32) AND 0xFFF AND 0x200 = m AND 0x200"
  "((m :: u32) AND 0xFFF) AND 0x12 = m AND 0x12" "((m :: u32) AND 0xFFF) AND 0x200 = m AND 0x200"
  by (simp_all add: and.assoc)

lemma owned_data_directory_accepts:
  "validate_owned_data_directory stat paths path label False = Inr () \<longleftrightarrow>
     is_absolute path
     \<and> (\<forall>d \<in> set (butlast (dir_prefixes [] (components path))). \<exists>md. stat d = Inr md
          \<and> md_kind md = FileDirectory \<and> (md_uid md = p_runtime_uid paths \<or> md_uid md = 0)
          \<and> (md_mode md AND 0x12 = 0 \<or> md_uid md = 0 \<and> md_mode md AND 0x200 \<noteq> 0))
     \<and> (\<exists>md. stat (last (dir_prefixes [] (components path))) = Inr md \<and> md_kind md = FileDirectory
          \<and> md_uid md = p_runtime_uid paths \<and> md_mode md AND 0x12 = 0)"
proof (cases "is_absolute path")
  case True
  then have "components path \<noteq> []" by (simp add: components_def Let_def)
  then show ?thesis
    using True check_directories_owned [of "components path" stat paths label "[]"]
    unfolding validate_owned_data_directory_def validate_directory_path_def is_directory_def
      trusted_ancestor_def owned_directory_def permissions_def Let_def permission_masks
    by simp
next
  case False
  then show ?thesis by (simp add: validate_owned_data_directory_def validate_directory_path_def)
qed

text \<open>
  C34. A data directory passes exactly when its path is absolute, every directory on the way to
  it exists, is not a symbolic link and cannot be renamed away by another user, and the
  directory itself belongs to the user and is not writable by others.
\<close>

theorem owned_data_directory_iff:
  "validate_owned_data_directory stat paths path label False = Inr () \<longleftrightarrow>
     is_absolute path
     \<and> (\<forall>d \<in> set (butlast (dir_prefixes [] (components path))). \<exists>md. stat d = Inr md
          \<and> md_kind md = FileDirectory \<and> (md_uid md = p_runtime_uid paths \<or> md_uid md = 0)
          \<and> (md_mode md AND 0x12 = 0 \<or> md_uid md = 0 \<and> md_mode md AND 0x200 \<noteq> 0))
     \<and> (\<exists>md. stat (last (dir_prefixes [] (components path))) = Inr md \<and> md_kind md = FileDirectory
          \<and> md_uid md = p_runtime_uid paths \<and> md_mode md AND 0x12 = 0)"
  by (rule owned_data_directory_accepts)

theorem owned_data_directory_iff_witness:
  "(let paths = \<lparr>p_config_dir = ''/c'', p_data_dir = ''/d'', p_runtime_dir = ''/r'', p_home_dir = None,
        p_runtime_uid = 7, p_runtime_provenance = ProvenanceFallback\<rparr>;
        stat = (\<lambda>p. if p = ''/'' then Inr \<lparr>md_kind = FileDirectory, md_uid = 0, md_mode = 0x3FF\<rparr>
                    else Inr \<lparr>md_kind = FileDirectory, md_uid = 7, md_mode = 0x1C0\<rparr>)
    in validate_owned_data_directory stat paths ''/d'' ''data directory'' False = Inr ())"
  by (simp add: owned_data_directory_iff is_absolute_def components_def piece_def path_join_def Let_def)

text \<open>The parent rebuilt from the components has exactly the other components.\<close>

lemma components_join_parent: "components (path_join base ''..'') = components base @ [ParentDir]"
proof -
  have app: "components (a @ CHR ''/'' # ''..'') = components (a @ ''/'') @ [ParentDir]" for a
  proof -
    have "split_on (CHR ''/'') (a @ CHR ''/'' # ''..'') = split_on (CHR ''/'') a @ [''..'']"
      using split_on_sep [of "CHR ''/''" a "''..''"] by simp
    moreover have "split_on (CHR ''/'') (a @ ''/'') = split_on (CHR ''/'') a @ [[]]"
      using split_on_sep [of "CHR ''/''" a "[]"] by simp
    moreover have "is_absolute (a @ CHR ''/'' # ''..'') = is_absolute (a @ ''/'')"
      by (cases a) (auto simp: is_absolute_def)
    moreover have "split_on (CHR ''/'') a \<noteq> []" by simp
    ultimately show ?thesis
      by (cases "split_on (CHR ''/'') a") (auto simp: components_def piece_def [of "[]"] piece_def [of "''..''"] Let_def)
  qed
  consider "base = []" | a where "base = a @ ''/''" | "base \<noteq> []" "last base \<noteq> CHR ''/''"
    by (metis append_butlast_last_id)
  then show ?thesis
  proof cases
    case 1
    then show ?thesis by (simp add: path_join_def components_def is_absolute_def piece_def)
  next
    case 2
    then show ?thesis using app [of a] by (simp add: path_join_def is_absolute_def [of "''..''"])
  next
    case 3
    then show ?thesis
      using app [of base] components_trailing [of base] by (simp add: path_join_def is_absolute_def [of "''..''"])
  qed
qed

definition rebuildable :: "PathComponent \<Rightarrow> bool" where
  "rebuildable c \<longleftrightarrow> c = ParentDir \<or> (\<exists>s. c = NormalC s \<and> plain_name s)"

lemma components_rebuild:
  "list_all rebuildable cs \<Longrightarrow> components (foldl path_join base (map component_str cs)) = components base @ cs"
  by (induction cs arbitrary: base) (auto simp: rebuildable_def components_join components_join_parent)

lemma absolute_components:
  assumes "is_absolute p"
  obtains cs where "components p = RootDir # cs" "list_all rebuildable cs"
proof
  show "components p = RootDir # concat (map piece (split_on (CHR ''/'') p))"
    using assms by (simp add: components_def Let_def)
  have "list_all rebuildable (piece s)" if "s \<in> set (split_on (CHR ''/'') p)" for s
    using split_on_pieces [OF that] by (auto simp: piece_def rebuildable_def plain_name_def)
  then show "list_all rebuildable (concat (map piece (split_on (CHR ''/'') p)))"
    by (auto simp: list_all_iff)
qed

lemma absolute_iff_root: "is_absolute p \<longleftrightarrow> (\<exists>cs. components p = RootDir # cs)"
proof
  assume "\<exists>cs. components p = RootDir # cs"
  then have root: "hd (components p) = RootDir" "components p \<noteq> []" by auto
  show "is_absolute p"
  proof (rule ccontr)
    assume rel: "\<not> is_absolute p"
    have "RootDir \<notin> set (concat (map piece ps))" for ps by (auto simp: piece_def)
    then have "RootDir \<notin> set (components p)" using rel by (simp add: components_def Let_def)
    then show False using root by (metis hd_in_set)
  qed
qed (simp add: components_def Let_def)

lemma path_parent_join:
  assumes "is_absolute dir" "plain_name s"
  obtains parent where "path_parent (path_join dir s) = Some parent" "components parent = components dir" "is_absolute parent"
proof -
  obtain cs where cs: "components dir = RootDir # cs" "list_all rebuildable cs" by (rule absolute_components [OF assms(1)])
  define parent where "parent = foldl path_join [] (map component_str (components dir))"
  have root: "components (path_join [] ''/'') = [RootDir]"
    by (simp add: path_join_def components_def is_absolute_def piece_def)
  have comps: "components parent = components dir"
    using components_rebuild [OF cs(2), of "path_join [] ''/''"] root by (simp add: parent_def cs(1))
  have "path_parent (path_join dir s) = Some parent"
    unfolding path_parent_def components_join [OF assms(2)] cs(1) by (cases cs) (simp_all add: parent_def cs(1))
  then show ?thesis using that comps absolute_iff_root [of parent] cs(1) by simp
qed

lemma owned_data_directory_cong:
  assumes "is_absolute p = is_absolute q" "components p = components q"
  shows "validate_owned_data_directory stat paths p l False = Inr () \<longleftrightarrow> validate_owned_data_directory stat paths q l' False = Inr ()"
  by (simp only: owned_data_directory_accepts assms)

lemma owned_parent:
  assumes "validate_owned_data_directory stat paths dir l False = Inr ()" "plain_name s"
  obtains parent where "path_parent (path_join dir s) = Some parent"
    "\<And>l'. validate_owned_data_directory stat paths parent l' False = Inr ()"
proof -
  have abs: "is_absolute dir" using assms(1) by (simp add: owned_data_directory_accepts)
  obtain parent where "path_parent (path_join dir s) = Some parent" "components parent = components dir" "is_absolute parent"
    by (rule path_parent_join [OF abs assms(2)])
  then show ?thesis using that owned_data_directory_cong [of parent dir stat paths] abs assms(1) by blast
qed

end
