(* ===== verification/Network.thy ===== *)
theory Network
  imports Spec Paths "HOL-Library.List_Lexorder" "HOL-Library.Char_ord" "HOL-Library.Multiset"
begin

text \<open>
  Network preparation, from \<^verbatim>\<open>firestone-core/src/network.rs\<close>: the checks of a TAP interface
  and of a set of port forwards, the arguments given to passt, the plan of each network mode
  and its cross-process snapshot, the comparison of configured and applied forwards, and the
  bounded wait for the passt socket.

  A forward set that passes gives every host port of a protocol to one forward only and maps it
  to a valid guest port; the wait for the socket ends within a number of polls fixed by its
  timeout.

  The host's TAP operations and \<open>symlink_metadata\<close> are arguments, and so is the test of
  the \<open>nix\<close> crate that a path fits in a socket address. Durations and instants are
  nanoseconds.
\<close>

section \<open>TAP interfaces\<close>

record TapHost =
  tap_device_is_tap :: "string \<Rightarrow> (IoError, bool) result"
  tun_is_accessible :: "(IoError, unit) result"

definition invalid_network :: "string \<Rightarrow> string \<Rightarrow> string \<Rightarrow> FirestoneError" where
  "invalid_network key msg h =
     with_hint h (error_new InvalidSpec (''invalid '' @ quoted key @ '': '' @ msg))"

definition IFNAMSIZ :: nat where "IFNAMSIZ = 16"

definition validate_tap_name :: "string \<Rightarrow> (FirestoneError, unit) result" where
  "validate_tap_name name =
     (let max_bytes = IFNAMSIZ - 1
      in if name = [] \<or> length name > max_bytes \<or> CHR ''/'' \<in> set name \<or> CHR 0x00 \<in> set name
            \<or> name \<in> {''.'', ''..''}
         then Inl (invalid_network ''network.tap''
                (''tap interface name '' @ quoted name @ '' is invalid'')
                (''use a Linux interface name of at most '' @ show_nat max_bytes @ '' bytes, such as ''
                  @ quoted ''tap0'' @ '', without path separators''))
         else Inr ())"

definition validate_tap :: "TapHost \<Rightarrow> string \<Rightarrow> (FirestoneError, unit) result" where
  "validate_tap host name =
     and_then (validate_tap_name name) (\<lambda>_.
     and_then
       (map_err (\<lambda>_. with_hint ''check that /sys/class/net is mounted and readable''
           (error_new Dependency (''invalid '' @ quoted ''network.tap''
             @ '': cannot inspect TAP interface '' @ quoted name)))
         (tap_device_is_tap host name)) (\<lambda>exists.
     if \<not> exists
     then Inl (invalid_network ''network.tap''
            (''interface '' @ quoted name @ '' does not exist or is not a TAP device'')
            (''create a user-owned tap named '' @ quoted name @ '' or choose network.mode = ''
              @ quoted ''passt''))
     else map_err (\<lambda>_. with_hint
           (''grant this user read/write access to /dev/net/tun or choose network.mode = ''
             @ quoted ''passt'')
           (error_new Dependency (''invalid '' @ quoted ''network.tap''
             @ '': /dev/net/tun is not accessible for tap mode'')))
         (tun_is_accessible host)))"

section \<open>Port forwards\<close>

definition reject_forwards_without_passt :: "NetworkSpec \<Rightarrow> (FirestoneError, unit) result" where
  "reject_forwards_without_passt spec =
     (if ns_forward spec = [] then Inr ()
      else Inl (invalid_network ''network.forward''
             (''port forwards require network.mode = '' @ quoted ''passt'')
             (''clear network.forward or select network.mode = '' @ quoted ''passt'')))"

text \<open>All arithmetic of the check is in \<open>u32\<close>; \<open>checked_add\<close> is \<open>None\<close> on overflow.\<close>

definition checked_add32 :: "u32 \<Rightarrow> u32 \<Rightarrow> u32 option" where
  "checked_add32 a b = (if unat a + unat b < 2 ^ 32 then Some (a + b) else None)"

definition validate_translation_bounds :: "PortForward \<Rightarrow> (FirestoneError, unit) result" where
  "validate_translation_bounds forward =
     (let span = (ucast (pr_end (pf_host forward)) :: u32) - ucast (pr_start (pf_host forward));
          mapped_end =
            (case checked_add32 (ucast (pr_start (pf_guest forward))) span of
               Some e \<Rightarrow> if e \<le> 65535 then Some e else None
             | None \<Rightarrow> None)
      in if mapped_end \<noteq> Some (ucast (pr_end (pf_guest forward)))
         then Inl (invalid_network ''network.forward''
                (''port translation '' @ quoted (port_forward_display forward)
                  @ '' overflows the valid port range'')
                ''use equal-length host and guest ranges within ports 1 through 65535'')
         else Inr ())"

definition host_ports_apart :: "PortForward \<Rightarrow> PortForward \<Rightarrow> bool" where
  "host_ports_apart earlier later \<longleftrightarrow>
     pf_protocol earlier \<noteq> pf_protocol later
     \<or> pr_end (pf_host earlier) < pr_start (pf_host later)
     \<or> pr_end (pf_host later) < pr_start (pf_host earlier)"

text \<open>The inner loop over the earlier forwards, with the index of the next one.\<close>

fun check_earlier :: "nat \<Rightarrow> PortForward \<Rightarrow> nat \<Rightarrow> PortForward list \<Rightarrow> (FirestoneError, unit) result" where
  "check_earlier later_index later earlier_index [] = Inr ()"
| "check_earlier later_index later earlier_index (earlier # rest) =
     (if host_ports_apart earlier later
      then check_earlier later_index later (earlier_index + 1) rest
      else if earlier = later
      then Inl (invalid_network (''network.forward['' @ show_nat later_index @ '']'')
             (''duplicate '' @ protocol_as_str (pf_protocol later) @ '' host-port mapping ''
               @ quoted (port_range_display (pf_host later)) @ '' also appears at network.forward[''
               @ show_nat earlier_index @ '']'')
             ''remove the duplicate network.forward entry'')
      else Inl (invalid_network (''network.forward['' @ show_nat later_index @ '']'')
             (protocol_as_str (pf_protocol later) @ '' host ports ''
               @ quoted (port_range_display (pf_host later)) @ '' conflict with network.forward[''
               @ show_nat earlier_index @ ''] host ports '' @ quoted (port_range_display (pf_host earlier)))
             (''use non-overlapping host ports for each protocol; bind addresses do not create ''
               @ ''separate passt mappings'')))"

text \<open>The outer loop: the forwards before the current one, and those from it on.\<close>

fun check_forwards :: "PortForward list \<Rightarrow> PortForward list \<Rightarrow> (FirestoneError, unit) result" where
  "check_forwards before [] = Inr ()"
| "check_forwards before (later # rest) =
     and_then (validate_translation_bounds later) (\<lambda>_.
     and_then (check_earlier (length before) later 0 before) (\<lambda>_.
     check_forwards (before @ [later]) rest))"

definition validate_forward_set :: "PortForward list \<Rightarrow> (FirestoneError, unit) result" where
  "validate_forward_set forwards = check_forwards [] forwards"

definition passt_forward_argument :: "PortForward \<Rightarrow> (FirestoneError, string) result" where
  "passt_forward_argument forward =
     and_then (validate_translation_bounds forward) (\<lambda>_.
     let mapping = port_range_display (pf_host forward) @ CHR '':'' # port_range_display (pf_guest forward)
     in Inr (case pf_bind forward of
               None \<Rightarrow> mapping
             | Some (V4 a) \<Rightarrow> ipv4_display a @ CHR ''/'' # mapping
             | Some (V6 a) \<Rightarrow> ''['' @ ipv6_display a @ '']/'' @ mapping))"

definition normalize_forward :: "string \<Rightarrow> string" where
  "normalize_forward forward =
     (case port_forward_from_str forward of
        Inl _ \<Rightarrow> forward
      | Inr parsed \<Rightarrow> port_forward_display parsed)"

definition forwards_differ :: "PortForward list \<Rightarrow> string list \<Rightarrow> bool" where
  "forwards_differ configured applied \<longleftrightarrow>
     sort (map port_forward_display configured) \<noteq> sort (map normalize_forward applied)"

section \<open>Readiness of the socket\<close>

type_synonym nanos = nat

definition MAX_NETWORK_READINESS_TIMEOUT :: nanos where
  "MAX_NETWORK_READINESS_TIMEOUT = 60 * 60 * 1000000000"

record OwnedPathExpectation =
  oe_path :: string
  oe_uid :: u32
  oe_mode :: u32

record SocketReadinessPlan =
  sr_socket :: OwnedPathExpectation
  sr_timeout :: nanos
  sr_poll_interval :: nanos

definition socket_readiness_new ::
  "OwnedPathExpectation \<Rightarrow> nanos \<Rightarrow> nanos \<Rightarrow> (FirestoneError, SocketReadinessPlan) result" where
  "socket_readiness_new socket timeout poll_interval =
     (if timeout = 0
      then Inl (with_hint ''use a readiness timeout from 1 ms through 1 hour''
             (error_new Usage ''network sidecar readiness timeout must be greater than zero''))
      else if timeout > MAX_NETWORK_READINESS_TIMEOUT
      then Inl (with_hint ''use a readiness timeout of at most 1 hour''
             (error_new Usage ''network sidecar readiness timeout exceeds the 3600 second limit''))
      else if poll_interval = 0 \<or> poll_interval > timeout
      then Inl (with_hint ''use the default 10 ms poll interval''
             (error_new Usage (''network sidecar readiness poll interval must be nonzero and no ''
               @ ''greater than its timeout'')))
      else Inr \<lparr>sr_socket = socket, sr_timeout = timeout, sr_poll_interval = poll_interval\<rparr>)"

datatype SocketReadiness = Pending | Ready

definition inspect_socket ::
  "SocketReadinessPlan \<Rightarrow> (IoError, Metadata) result \<Rightarrow> (FirestoneError, SocketReadiness) result" where
  "inspect_socket plan stat =
     (let path = oe_path (sr_socket plan)
      in case stat of
           Inl source \<Rightarrow>
             if io_kind source = IoNotFound then Inr Pending
             else Inl (with_hint ''check the private machine runtime directory and retry''
                    (error_new Dependency (''cannot inspect passt socket '' @ quoted path)))
         | Inr metadata \<Rightarrow>
             if md_kind metadata \<noteq> FileSocket
             then Inl (with_hint ''remove the stale runtime entry and retry start''
                    (error_new Dependency (''passt socket '' @ quoted path @ '' is not a Unix socket'')))
             else if md_uid metadata \<noteq> oe_uid (sr_socket plan)
                  \<or> permissions metadata \<noteq> oe_mode (sr_socket plan)
             then Inl (with_hint ''remove the stale socket and let the Firestone shim recreate it''
                    (error_new Dependency
                      (''passt socket '' @ quoted path @ '' is insecure: expected uid ''
                        @ show_nat (unat (oe_uid (sr_socket plan))) @ '' and mode ''
                        @ show_octal4 (oe_mode (sr_socket plan)) @ '', '' @ found_uid_mode metadata)))
             else Inr Ready)"

text \<open>An \<open>Instant\<close> counts in a signed 64-bit number of seconds.\<close>

definition instant_checked_add :: "nanos \<Rightarrow> nanos \<Rightarrow> nanos option" where
  "instant_checked_add t d = (if t + d < 2 ^ 63 * 1000000000 then Some (t + d) else None)"

definition bounded_deadline ::
  "SocketReadinessPlan \<Rightarrow> nanos \<Rightarrow> nanos \<Rightarrow> (FirestoneError, nanos) result" where
  "bounded_deadline plan started overall_deadline =
     and_then
       (ok_or (with_hint ''use a readiness timeout of at most 1 hour''
           (error_new Usage ''network sidecar readiness deadline overflows the monotonic clock''))
         (instant_checked_add started (sr_timeout plan)))
       (\<lambda>plan_deadline. Inr (min plan_deadline overall_deadline))"

text \<open>
  What one turn of the wait loop observes: the cancellation flag, the sidecar process, the
  clock, the socket, and the clock again before the sleep.
\<close>

record Tick =
  tk_cancelled :: bool
  tk_process :: "(FirestoneError, unit) result"
  tk_now :: nanos
  tk_stat :: "(IoError, Metadata) result"
  tk_after :: nanos

text \<open>The loop over the observations; \<open>None\<close> means that it is still waiting when they end.\<close>

fun wait_ready_loop ::
  "SocketReadinessPlan \<Rightarrow> nanos \<Rightarrow> Tick list \<Rightarrow> (FirestoneError, unit) result option" where
  "wait_ready_loop plan deadline [] = None"
| "wait_ready_loop plan deadline (t # ts) =
     (if tk_cancelled t
      then Some (Inl (with_hint ''the launch must stop passt and roll back before starting the VMM''
             (error_new Interrupted (''cancelled while waiting for passt socket ''
               @ quoted (oe_path (sr_socket plan))))))
      else case tk_process t of
        Inl e \<Rightarrow> Some (Inl e)
      | Inr _ \<Rightarrow>
          if tk_now t \<ge> deadline
          then Some (Inl (with_hint ''inspect the mode-0600 passt log for the startup failure''
                 (error_new Timeout (''passt socket '' @ quoted (oe_path (sr_socket plan))
                   @ '' was not ready before its deadline''))))
          else case inspect_socket plan (tk_stat t) of
            Inl e \<Rightarrow> Some (Inl e)
          | Inr Ready \<Rightarrow> Some (Inr ())
          | Inr Pending \<Rightarrow> wait_ready_loop plan deadline ts)"

definition wait_ready_while ::
  "SocketReadinessPlan \<Rightarrow> nanos \<Rightarrow> nanos \<Rightarrow> Tick list \<Rightarrow> (FirestoneError, unit) result option" where
  "wait_ready_while plan now deadline ticks =
     (case bounded_deadline plan now deadline of
        Inl e \<Rightarrow> Some (Inl e)
      | Inr d \<Rightarrow> wait_ready_loop plan d ticks)"

section \<open>Plans\<close>

record PasstCommand =
  pc_program :: string
  pc_args :: "string list"
  pc_output_log :: string

record PasstPlan =
  pp_command :: PasstCommand
  pp_socket :: OwnedPathExpectation
  pp_log :: OwnedPathExpectation
  pp_readiness :: SocketReadinessPlan
  pp_forwards :: "PortForward list"
  pp_mac :: MacAddr

record TapPlan =
  tp_name :: string
  tp_mac :: MacAddr
  tp_ip :: "IpAddr option"
  tp_mask :: "IpAddr option"

datatype NetworkPlan = PlanNone | PlanPasst PasstPlan | PlanTap TapPlan

fun plan_mac :: "NetworkPlan \<Rightarrow> MacAddr option" where
  "plan_mac PlanNone = None"
| "plan_mac (PlanPasst plan) = Some (pp_mac plan)"
| "plan_mac (PlanTap plan) = Some (tp_mac plan)"

fun plan_forwards :: "NetworkPlan \<Rightarrow> PortForward list" where
  "plan_forwards (PlanPasst plan) = pp_forwards plan"
| "plan_forwards _ = []"

record NetworkPlanOptions =
  no_paths :: Paths
  no_name :: string
  no_spec :: NetworkSpec
  no_mac :: MacAddr
  no_passt_program :: string
  no_tap_host :: TapHost
  no_readiness_timeout :: nanos
  no_readiness_poll_interval :: nanos

definition PASST_SOCKET_MODE :: u32 where "PASST_SOCKET_MODE = 0x1C0"
definition PASST_LOG_MODE :: u32 where "PASST_LOG_MODE = 0x180"
definition PINNED_PASST_VERSION :: string where "PINNED_PASST_VERSION = ''2025_02_17.a1e48a0''"

definition validate_socket_destination :: "stat_fn \<Rightarrow> string \<Rightarrow> (FirestoneError, unit) result" where
  "validate_socket_destination stat path =
     (case stat path of
        Inl source \<Rightarrow>
          if io_kind source = IoNotFound then Inr ()
          else Inl (with_hint ''check the private machine runtime directory and retry''
                 (error_new Dependency (''cannot inspect passt socket destination '' @ quoted path)))
      | Inr _ \<Rightarrow>
          Inl (with_hint ''remove the stale runtime entry or stop the running machine before retrying''
            (error_new Conflict (''passt socket destination '' @ quoted path @ '' already exists''))))"

definition forward_flag :: "Protocol \<Rightarrow> string" where
  "forward_flag p = (case p of Tcp \<Rightarrow> ''-t'' | Udp \<Rightarrow> ''-u'')"

definition protocol_arguments ::
  "Protocol \<Rightarrow> PortForward list \<Rightarrow> (FirestoneError, string list) result" where
  "protocol_arguments protocol forwards =
     and_then
       (map_r (\<lambda>f. and_then (passt_forward_argument f) (\<lambda>a. Inr [forward_flag protocol, a]))
         (filter (\<lambda>f. pf_protocol f = protocol) forwards))
       (\<lambda>pairs. Inr (concat pairs))"

definition passt_arguments ::
  "string \<Rightarrow> string \<Rightarrow> PortForward list \<Rightarrow> (FirestoneError, string list) result" where
  "passt_arguments socket log forwards =
     and_then (protocol_arguments Tcp forwards) (\<lambda>tcp.
     and_then (protocol_arguments Udp forwards) (\<lambda>udp.
     Inr ([''--foreground'', ''--one-off'', ''--vhost-user'', ''--socket'', socket, ''--log-file'', log]
          @ tcp @ udp @ [''--repair-path'', ''none''])))"

text \<open>
  \<open>unix_addr_ok\<close> is \<open>UnixAddr::new\<close> of the \<open>nix\<close> crate: whether a path fits a socket
  address.
\<close>

definition prepare_passt ::
  "(string \<Rightarrow> string) \<Rightarrow> stat_fn \<Rightarrow> (string \<Rightarrow> bool) \<Rightarrow> NetworkPlanOptions
   \<Rightarrow> (FirestoneError, PasstPlan) result" where
  "prepare_passt dbg stat unix_addr_ok options =
     (let paths = no_paths options; name = no_name options; forwards = ns_forward (no_spec options)
      in if no_passt_program options = []
      then Inl (with_hint (''install passt '' @ PINNED_PASST_VERSION
               @ '' or newer and run firestone doctor'')
             (error_new Dependency ''passt program path is empty''))
      else
       and_then (validate_forward_set forwards) (\<lambda>_.
       and_then (validate_machine_data_directory dbg stat paths name) (\<lambda>_.
       and_then (validate_machine_runtime_dir dbg stat paths name) (\<lambda>_.
       and_then (machine_net_socket dbg paths name) (\<lambda>socket_path.
       and_then (validate_socket_destination stat socket_path) (\<lambda>_.
       and_then (ensure (unix_addr_ok socket_path)
           (with_hint ''shorten FIRESTONE_HOME or FIRESTONE_RUNTIME_DIR''
             (error_new InvalidSpec (''passt socket path '' @ quoted socket_path
               @ '' cannot be represented as a Unix socket'')))) (\<lambda>_.
       and_then (ensure (is_utf8 socket_path)
           (with_hint ''use a UTF-8 Firestone runtime directory''
             (error_new InvalidSpec (''passt socket path '' @ quoted socket_path @ '' is not UTF-8'')))) (\<lambda>_.
       and_then (machine_passt_log dbg paths name) (\<lambda>log_path.
       and_then (validate_owned_data_file stat paths log_path ''passt log'' PASST_LOG_MODE True) (\<lambda>_.
       let socket = \<lparr>oe_path = socket_path, oe_uid = p_runtime_uid paths, oe_mode = PASST_SOCKET_MODE\<rparr>;
           log = \<lparr>oe_path = log_path, oe_uid = p_runtime_uid paths, oe_mode = PASST_LOG_MODE\<rparr>
       in and_then (socket_readiness_new socket (no_readiness_timeout options)
             (no_readiness_poll_interval options)) (\<lambda>readiness.
       and_then (ensure (length forwards * 2 < 2 ^ 64)
           (invalid_network ''network.forward'' ''too many port forwards to construct passt arguments''
             ''reduce the number of network.forward entries'')) (\<lambda>_.
       and_then (passt_arguments socket_path log_path forwards) (\<lambda>arguments.
       Inr \<lparr>pp_command = \<lparr>pc_program = no_passt_program options, pc_args = arguments, pc_output_log = log_path\<rparr>,
            pp_socket = socket, pp_log = log, pp_readiness = readiness, pp_forwards = forwards,
            pp_mac = no_mac options\<rparr>)))))))))))))"

definition prepare_network ::
  "(string \<Rightarrow> string) \<Rightarrow> stat_fn \<Rightarrow> (string \<Rightarrow> bool) \<Rightarrow> NetworkPlanOptions
   \<Rightarrow> (FirestoneError, NetworkPlan) result" where
  "prepare_network dbg stat unix_addr_ok options =
     and_then (machine_runtime_dir dbg (no_paths options) (no_name options)) (\<lambda>_.
     case ns_mode (no_spec options) of
       NetNone \<Rightarrow>
         and_then (reject_forwards_without_passt (no_spec options)) (\<lambda>_. Inr PlanNone)
     | Tap \<Rightarrow>
         and_then (reject_forwards_without_passt (no_spec options)) (\<lambda>_.
         and_then
           (ok_or (invalid_network ''network.tap'' ''tap mode requires an existing tap interface''
               (''set network.tap to a user-owned interface such as '' @ quoted ''tap0''))
             (ns_tap (no_spec options))) (\<lambda>name.
         and_then (validate_tap (no_tap_host options) name) (\<lambda>_.
         Inr (PlanTap \<lparr>tp_name = name, tp_mac = no_mac options, tp_ip = None, tp_mask = None\<rparr>))))
     | Passt \<Rightarrow>
         and_then (prepare_passt dbg stat unix_addr_ok options) (\<lambda>plan. Inr (PlanPasst plan)))"

section \<open>Crossing to the shim\<close>

datatype NetworkPlanSnapshot =
    SnapNone
  | SnapPasst
      (sn_program: string) (sn_args: "string list")
      (sn_socket: string) (sn_socket_uid: u32) (sn_socket_mode: u32)
      (sn_log: string) (sn_log_uid: u32) (sn_log_mode: u32)
      (sn_readiness_timeout_ms: u64) (sn_readiness_poll_interval_ms: u64)
      (sn_forwards: "PortForward list") (sn_mac: MacAddr)
  | SnapTap string MacAddr "IpAddr option" "IpAddr option"

definition duration_millis :: "nanos \<Rightarrow> string \<Rightarrow> (FirestoneError, u64) result" where
  "duration_millis duration label =
     (let ms = duration div 1000000
      in if ms < 2 ^ 64 then Inr (of_nat ms)
         else Inl (error_new Usage (label @ '' cannot be represented in the launch plan'')))"

definition plan_snapshot :: "NetworkPlan \<Rightarrow> (FirestoneError, NetworkPlanSnapshot) result" where
  "plan_snapshot plan =
     (case plan of
        PlanNone \<Rightarrow> Inr SnapNone
      | PlanPasst p \<Rightarrow>
          and_then (duration_millis (sr_timeout (pp_readiness p)) ''passt readiness timeout'') (\<lambda>timeout_ms.
          and_then (duration_millis (sr_poll_interval (pp_readiness p)) ''passt readiness poll interval'')
            (\<lambda>poll_ms.
          Inr (SnapPasst (pc_program (pp_command p)) (pc_args (pp_command p))
            (oe_path (pp_socket p)) (oe_uid (pp_socket p)) (oe_mode (pp_socket p))
            (oe_path (pp_log p)) (oe_uid (pp_log p)) (oe_mode (pp_log p))
            timeout_ms poll_ms (pp_forwards p) (pp_mac p))))
      | PlanTap t \<Rightarrow> Inr (SnapTap (tp_name t) (tp_mac t) (tp_ip t) (tp_mask t)))"

definition plan_from_snapshot :: "NetworkPlanSnapshot \<Rightarrow> (FirestoneError, NetworkPlan) result" where
  "plan_from_snapshot snapshot =
     (case snapshot of
        SnapNone \<Rightarrow> Inr PlanNone
      | SnapPasst program args socket_path socket_uid socket_mode log_path log_uid log_mode
          timeout_ms poll_ms forwards mac \<Rightarrow>
          (let socket = \<lparr>oe_path = socket_path, oe_uid = socket_uid, oe_mode = socket_mode\<rparr>;
               log = \<lparr>oe_path = log_path, oe_uid = log_uid, oe_mode = log_mode\<rparr>
           in and_then (socket_readiness_new socket (unat timeout_ms * 1000000) (unat poll_ms * 1000000))
             (\<lambda>readiness.
           Inr (PlanPasst \<lparr>pp_command = \<lparr>pc_program = program, pc_args = args, pc_output_log = log_path\<rparr>,
             pp_socket = socket, pp_log = log, pp_readiness = readiness, pp_forwards = forwards,
             pp_mac = mac\<rparr>)))
      | SnapTap name mac ip netmask \<Rightarrow>
          Inr (PlanTap \<lparr>tp_name = name, tp_mac = mac, tp_ip = ip, tp_mask = netmask\<rparr>))"

section \<open>Every host port has one owner\<close>

lemma check_earlier_iff:
  "check_earlier i later j before = Inr () \<longleftrightarrow> (\<forall>e \<in> set before. host_ports_apart e later)"
  by (induction i later j before rule: check_earlier.induct) auto

lemma check_forwards_iff:
  "check_forwards before rest = Inr () \<longleftrightarrow>
     (\<forall>f \<in> set rest. validate_translation_bounds f = Inr ()) \<and> sorted_wrt host_ports_apart rest
     \<and> (\<forall>e \<in> set before. \<forall>f \<in> set rest. host_ports_apart e f)"
proof (induction before rest rule: check_forwards.induct)
  case (2 before later rest)
  show ?case
  proof (cases "validate_translation_bounds later")
    case (Inr u)
    then show ?thesis using 2 [of u] by (auto simp: and_then_Inr_iff check_earlier_iff)
  qed simp
qed simp

lemma translation_bounds_iff:
  assumes "port_range_valid (pf_host f)"
  shows "validate_translation_bounds f = Inr () \<longleftrightarrow>
    unat (pr_end (pf_guest f)) = unat (pr_start (pf_guest f)) + (unat (pr_end (pf_host f)) - unat (pr_start (pf_host f)))"
proof -
  let ?he = "ucast (pr_end (pf_host f)) :: u32" and ?hs = "ucast (pr_start (pf_host f)) :: u32"
  let ?gs = "ucast (pr_start (pf_guest f)) :: u32" and ?ge = "ucast (pr_end (pf_guest f)) :: u32"
  have le: "?hs \<le> ?he" using assms by (simp add: port_range_valid_def word_le_nat_alt)
  have span: "unat (?he - ?hs) = unat (pr_end (pf_host f)) - unat (pr_start (pf_host f))"
    using unat_sub [OF le] by simp
  have "unat (pr_end (pf_host f)) < 65536" "unat (pr_start (pf_guest f)) < 65536" "unat (pr_end (pf_guest f)) < 65536"
    by simp_all
  note bounds = this
  have sum: "unat ?gs + unat (?he - ?hs) < 2 ^ 32"
  proof -
    have "unat (pr_start (pf_guest f)) + (unat (pr_end (pf_host f)) - unat (pr_start (pf_host f))) < 131072"
      using bounds by linarith
    then show ?thesis unfolding span unat_ucast_16_32 by simp
  qed
  then have add: "unat (?gs + (?he - ?hs)) = unat (pr_start (pf_guest f)) + (unat (pr_end (pf_host f)) - unat (pr_start (pf_host f)))"
    by (subst unat_add_lem [THEN iffD1]) (simp_all add: span)
  have ge: "?ge \<le> 65535"
  proof -
    have "unat (pr_end (pf_guest f)) \<le> 65535" using bounds(3) by linarith
    then show ?thesis unfolding word_le_nat_alt unat_ucast_16_32 by simp
  qed
  have "(if x \<le> 65535 then Some x else None) = Some g \<longleftrightarrow> unat g = unat x" if "g \<le> 65535" for x g :: u32
    using that by (cases "g = x") (auto simp: word_unat_eq_iff [symmetric])
  from this [OF ge, of "?gs + (?he - ?hs)"]
  have "(if ?gs + (?he - ?hs) \<le> 65535 then Some (?gs + (?he - ?hs)) else None) = Some ?ge
      \<longleftrightarrow> unat ?ge = unat (?gs + (?he - ?hs))" .
  then show ?thesis
    unfolding validate_translation_bounds_def Let_def checked_add32_def add [symmetric]
    using sum by (simp add: unat_ucast_16_32)
qed



section \<open>Pending forwards\<close>

lemma normalize_display: "port_forward_valid f \<Longrightarrow> normalize_forward (port_forward_display f) = port_forward_display f"
  by (simp add: normalize_forward_def port_forward.parse_display)

lemma sort_eq_iff: "sort xs = sort ys \<longleftrightarrow> mset xs = mset (ys :: string list)"
  by (metis mset_sort properties_for_sort sorted_sort)

text \<open>
  A running machine is reported to have pending forwards exactly when the configured
  forwards and the recorded ones differ as multisets: the order of the configuration does not
  matter and no change goes unnoticed.
\<close>

lemma forwards_differ_iff:
  assumes "\<And>f. f \<in> set configured \<union> set applied \<Longrightarrow> port_forward_valid f"
  shows "forwards_differ configured (map port_forward_display applied) \<longleftrightarrow> mset configured \<noteq> mset applied"
proof -
  define unprint where "unprint s = (case port_forward_from_str s of Inr f \<Rightarrow> f | Inl _ \<Rightarrow> undefined)" for s
  have unprint: "map (unprint \<circ> port_forward_display) fs = fs" if "set fs \<subseteq> set configured \<union> set applied" for fs
    using that assms by (intro map_idI) (auto simp: unprint_def port_forward.parse_display)
  have norm: "map normalize_forward (map port_forward_display applied) = map port_forward_display applied"
    using assms normalize_display by simp
  have "mset (map port_forward_display configured) = mset (map port_forward_display applied) \<longleftrightarrow> mset configured = mset applied"
  proof
    assume "mset (map port_forward_display configured) = mset (map port_forward_display applied)"
    then have "image_mset unprint (mset (map port_forward_display configured)) = image_mset unprint (mset (map port_forward_display applied))"
      by simp
    then have "mset (map (unprint \<circ> port_forward_display) configured) = mset (map (unprint \<circ> port_forward_display) applied)"
      by (simp only: mset_map multiset.map_comp)
    then show "mset configured = mset applied" using unprint by simp
  next
    assume "mset configured = mset applied"
    then show "mset (map port_forward_display configured) = mset (map port_forward_display applied)" by simp
  qed
  then show ?thesis unfolding forwards_differ_def norm sort_eq_iff by simp
qed

section \<open>The plan survives the way to the shim\<close>

lemma readiness_new_iff:
  "socket_readiness_new socket t p = Inr r \<longleftrightarrow>
     0 < t \<and> t \<le> MAX_NETWORK_READINESS_TIMEOUT \<and> 0 < p \<and> p \<le> t
     \<and> r = \<lparr>sr_socket = socket, sr_timeout = t, sr_poll_interval = p\<rparr>"
  by (auto simp: socket_readiness_new_def)

lemma duration_millis_exact:
  assumes "d \<le> MAX_NETWORK_READINESS_TIMEOUT"
  shows "\<exists>w. duration_millis d label = Inr w \<and> unat w = d div 1000000"
proof -
  have "d div 1000000 \<le> 3600000"
    using div_le_mono [OF assms, of 1000000] by (simp add: MAX_NETWORK_READINESS_TIMEOUT_def)
  then have "d div 1000000 < 2 ^ 64" by simp
  then show ?thesis unfolding duration_millis_def Let_def using unat_of_nat_u64 by auto
qed

text \<open>
  The shim rebuilds exactly the network plan that was prepared, when the readiness times are
  whole milliseconds, as the defaults are.
\<close>

lemma network_plan_roundtrip:
  assumes "prepare_network dbg stat unix_addr_ok options = Inr plan"
    and "1000000 dvd no_readiness_timeout options" and "1000000 dvd no_readiness_poll_interval options"
  shows "\<exists>snapshot. plan_snapshot plan = Inr snapshot \<and> plan_from_snapshot snapshot = Inr plan"
proof (cases plan)
  case PlanNone
  then show ?thesis by (simp add: plan_snapshot_def plan_from_snapshot_def)
next
  case (PlanTap t)
  then show ?thesis by (simp add: plan_snapshot_def plan_from_snapshot_def)
next
  case (PlanPasst p)
  then have "prepare_passt dbg stat unix_addr_ok options = Inr p"
    using assms(1) by (auto simp: prepare_network_def and_then_Inr_iff split: NetMode.splits)
  then obtain socket_path log_path arguments where
      ready: "socket_readiness_new \<lparr>oe_path = socket_path, oe_uid = p_runtime_uid (no_paths options), oe_mode = PASST_SOCKET_MODE\<rparr>
        (no_readiness_timeout options) (no_readiness_poll_interval options) = Inr (pp_readiness p)"
    and p: "pp_command p = \<lparr>pc_program = no_passt_program options, pc_args = arguments, pc_output_log = log_path\<rparr>"
      "pp_socket p = \<lparr>oe_path = socket_path, oe_uid = p_runtime_uid (no_paths options), oe_mode = PASST_SOCKET_MODE\<rparr>"
      "pp_log p = \<lparr>oe_path = log_path, oe_uid = p_runtime_uid (no_paths options), oe_mode = PASST_LOG_MODE\<rparr>"
    by (auto simp: prepare_passt_def and_then_Inr_iff Let_def split: if_splits)
  let ?t = "no_readiness_timeout options" and ?q = "no_readiness_poll_interval options"
  have r: "0 < ?t" "?t \<le> MAX_NETWORK_READINESS_TIMEOUT" "0 < ?q" "?q \<le> ?t"
    "pp_readiness p = \<lparr>sr_socket = pp_socket p, sr_timeout = ?t, sr_poll_interval = ?q\<rparr>"
    using ready p(2) by (simp_all add: readiness_new_iff)
  obtain wt wq where w: "duration_millis ?t ''passt readiness timeout'' = Inr wt" "unat wt = ?t div 1000000"
      "duration_millis ?q ''passt readiness poll interval'' = Inr wq" "unat wq = ?q div 1000000"
    using duration_millis_exact [of ?t] duration_millis_exact [of ?q] r by (meson le_trans)
  have whole: "unat wt * 1000000 = ?t" "unat wq * 1000000 = ?q" using w assms(2,3) by simp_all
  let ?s = "SnapPasst (pc_program (pp_command p)) (pc_args (pp_command p))
            (oe_path (pp_socket p)) (oe_uid (pp_socket p)) (oe_mode (pp_socket p))
            (oe_path (pp_log p)) (oe_uid (pp_log p)) (oe_mode (pp_log p))
            wt wq (pp_forwards p) (pp_mac p)"
  have snap: "plan_snapshot plan = Inr ?s"
    using w r(5) by (simp add: plan_snapshot_def PlanPasst)
  have "plan_from_snapshot ?s = Inr (PlanPasst p)"
    unfolding plan_from_snapshot_def NetworkPlanSnapshot.case Let_def whole
    using ready by (simp add: p)
  then show ?thesis using snap PlanPasst by blast
qed

section \<open>The wait ends\<close>

text \<open>
  A clock that runs: the next turn starts no earlier than the sleep of this turn ends, and time
  does not go back within a turn.
\<close>

fun clock_runs :: "nanos \<Rightarrow> nanos \<Rightarrow> Tick list \<Rightarrow> bool" where
  "clock_runs poll deadline [] = True"
| "clock_runs poll deadline [t] \<longleftrightarrow> tk_now t \<le> tk_after t"
| "clock_runs poll deadline (t # u # ts) \<longleftrightarrow> tk_now t \<le> tk_after t
     \<and> tk_after t + min poll (deadline - tk_after t) \<le> tk_now u \<and> clock_runs poll deadline (u # ts)"

lemma wait_loop_ends:
  assumes "0 < sr_poll_interval plan"
  shows "clock_runs (sr_poll_interval plan) deadline (t # ts)
     \<Longrightarrow> deadline \<le> tk_now t + length ts * sr_poll_interval plan
     \<Longrightarrow> wait_ready_loop plan deadline (t # ts) \<noteq> None"
proof (induction ts arbitrary: t)
  case Nil
  then show ?case by (auto split: sum.split)
next
  case (Cons u ts)
  let ?p = "sr_poll_interval plan"
  show ?case
  proof (cases "deadline \<le> tk_now t")
    case True
    then show ?thesis by (auto split: sum.split)
  next
    case False
    have now: "tk_after t + min ?p (deadline - tk_after t) \<le> tk_now u" "tk_now t \<le> tk_after t"
      using Cons.prems(1) by simp_all
    have "deadline \<le> tk_now u + length ts * ?p"
    proof (cases "?p \<le> deadline - tk_after t")
      case True
      then show ?thesis using now Cons.prems(2) by simp
    next
      case False
      then show ?thesis using now by simp
    qed
    then have "wait_ready_loop plan deadline (u # ts) \<noteq> None" using Cons.IH Cons.prems(1) by simp
    then show ?thesis by (auto split: sum.split SocketReadiness.split)
  qed
qed

text \<open>
  Waiting for the passt socket always returns: with a running clock, one turn per poll
  interval of the timeout and one more are enough, whatever the socket and the process do.
\<close>

lemma wait_ready_returns:
  assumes "socket_readiness_new socket timeout poll_interval = Inr plan"
    and "ticks \<noteq> []" and "tk_now (hd ticks) \<ge> now"
    and "clock_runs poll_interval (min (now + timeout) deadline) ticks"
    and "timeout div poll_interval + 1 < length ticks"
  shows "\<exists>r. wait_ready_while plan now deadline ticks = Some r"
proof -
  obtain t ts where ticks: "ticks = t # ts" using assms(2) by (cases ticks) auto
  have plan: "sr_poll_interval plan = poll_interval" "sr_timeout plan = timeout" "0 < poll_interval"
    using assms(1) by (auto simp: readiness_new_iff)
  have "timeout < (timeout div poll_interval + 1) * poll_interval"
    using plan(3) by (metis add.commute dividend_less_div_times mult.commute plus_1_eq_Suc Suc_eq_plus1 mult_Suc)
  also have "\<dots> \<le> length ts * poll_interval" using assms(5) ticks by (intro mult_le_mono1) simp
  finally have "min (now + timeout) deadline \<le> tk_now t + length ts * poll_interval"
    using assms(3) ticks by simp
  then have "wait_ready_loop plan (min (now + timeout) deadline) (t # ts) \<noteq> None"
    using wait_loop_ends [of plan "min (now + timeout) deadline" t ts] plan assms(4) ticks by simp
  then show ?thesis
    unfolding wait_ready_while_def bounded_deadline_def instant_checked_add_def
    using ticks plan(2) by auto
qed

definition demo_paths :: Paths where
  "demo_paths = \<lparr>p_config_dir = ''/c'', p_data_dir = ''/d'', p_runtime_dir = ''/r'', p_home_dir = None,
     p_runtime_uid = 7, p_runtime_provenance = ProvenanceFallback\<rparr>"

definition demo_stat :: stat_fn where
  "demo_stat p =
     (if p \<in> {''/r/m/net.sock'', ''/d/machines/m/passt.log''}
      then Inl \<lparr>io_kind = IoNotFound, io_text = ''none''\<rparr>
      else if p = ''/'' then Inr \<lparr>md_kind = FileDirectory, md_uid = 0, md_mode = 0x1ED\<rparr>
      else Inr \<lparr>md_kind = FileDirectory, md_uid = 7, md_mode = 0x1C0\<rparr>)"

definition demo_options :: NetworkPlanOptions where
  "demo_options = \<lparr>no_paths = demo_paths, no_name = ''m'', no_spec = network_spec_default,
     no_mac = MacAddr [2, 0, 0, 0, 0, 1], no_passt_program = ''/passt'',
     no_tap_host = \<lparr>tap_device_is_tap = (\<lambda>_. Inr False), tun_is_accessible = Inr ()\<rparr>,
     no_readiness_timeout = 2000000, no_readiness_poll_interval = 1000000\<rparr>"

end
