(* ===== verification/Mounts.thy ===== *)
theory Mounts
  imports Spec Paths
begin

text \<open>
  The layout checks of directory mounts, from \<^verbatim>\<open>firestone-core/src/virtiofs.rs\<close>: tags, the
  spelling of host and guest paths, and the overlap tests that keep one virtio-fs device from
  reaching into another. A layout that passes has distinct tags and pairwise disjoint host
  and guest directories.
\<close>

section \<open>Checks of one mount\<close>

definition MAX_VIRTIOFS_MOUNTS :: nat where "MAX_VIRTIOFS_MOUNTS = 16"
definition VIRTIOFS_TAG_MAX_BYTES :: nat where "VIRTIOFS_TAG_MAX_BYTES = 36"
definition VIRTIOFS_PATH_MAX_BYTES :: nat where "VIRTIOFS_PATH_MAX_BYTES = 4095"
definition VIRTIOFS_COMPONENT_MAX_BYTES :: nat where "VIRTIOFS_COMPONENT_MAX_BYTES = 255"

datatype VirtiofsSandbox = SandboxNamespace | SandboxNone

definition for_user_namespaces :: "bool \<Rightarrow> VirtiofsSandbox" where
  "for_user_namespaces available = (if available then SandboxNamespace else SandboxNone)"

fun sandbox_as_str :: "VirtiofsSandbox \<Rightarrow> string" where
  "sandbox_as_str SandboxNamespace = ''namespace''"
| "sandbox_as_str SandboxNone = ''none''"

definition mount_error :: "nat \<Rightarrow> string \<Rightarrow> string \<Rightarrow> string \<Rightarrow> FirestoneError" where
  "mount_error index fld msg h =
     with_hint h (error_new InvalidSpec
       (quoted (''mount['' @ show_nat index @ ''].'' @ fld) @ '': '' @ msg))"

definition noncanonical_path_error :: "nat \<Rightarrow> string \<Rightarrow> string \<Rightarrow> FirestoneError" where
  "noncanonical_path_error index fld path =
     mount_error index fld (fld @ '' path '' @ quoted path @ '' is not canonical'')
       (''remove '' @ quoted ''.'' @ '', '' @ quoted ''..''
         @ '', duplicate separators, and trailing separators from mount.'' @ fld)"

definition tag_char :: "char \<Rightarrow> bool" where
  "tag_char b \<longleftrightarrow> is_ascii_alphanumeric b \<or> b \<in> {CHR ''.'', CHR ''_'', CHR ''-''}"

definition validate_mount_tag :: "string \<Rightarrow> nat \<Rightarrow> (FirestoneError, unit) result" where
  "validate_mount_tag tag index =
     (let valid = tag \<noteq> [] \<and> length tag \<le> VIRTIOFS_TAG_MAX_BYTES \<and> is_ascii_alphanumeric (hd tag)
              \<and> list_all tag_char tag
      in if valid then Inr ()
         else Inl (mount_error index ''tag''
                (''tag '' @ quoted tag @ '' must be 1 to '' @ show_nat VIRTIOFS_TAG_MAX_BYTES
                  @ '' ASCII bytes and contain only letters, digits, '' @ quoted ''.'' @ '', ''
                  @ quoted ''_'' @ '', or '' @ quoted ''-'')
                (''use a tag such as '' @ quoted ''source''
                  @ '' or omit it to use share0, share1, and so on'')))"

fun check_component_lengths ::
  "nat \<Rightarrow> string \<Rightarrow> PathComponent list \<Rightarrow> (FirestoneError, unit) result" where
  "check_component_lengths index fld [] = Inr ()"
| "check_component_lengths index fld (NormalC val # cs) =
     (if length val > VIRTIOFS_COMPONENT_MAX_BYTES
      then Inl (mount_error index fld
             (fld @ '' path component is '' @ show_nat (length val) @ '' bytes; Linux permits at most ''
               @ show_nat VIRTIOFS_COMPONENT_MAX_BYTES)
             (''shorten the mount '' @ fld @ '' path component''))
      else check_component_lengths index fld cs)"
| "check_component_lengths index fld (c # cs) = check_component_lengths index fld cs"

definition validate_path_bytes :: "string \<Rightarrow> nat \<Rightarrow> string \<Rightarrow> (FirestoneError, unit) result" where
  "validate_path_bytes path index fld =
     (if \<not> is_utf8 path
      then Inl (mount_error index fld (fld @ '' path '' @ quoted path @ '' is not UTF-8'')
             (''use a UTF-8 mount '' @ fld @ '' path''))
      else if length path > VIRTIOFS_PATH_MAX_BYTES
      then Inl (mount_error index fld
             (fld @ '' path is '' @ show_nat (length path) @ '' bytes; Linux permits at most ''
               @ show_nat VIRTIOFS_PATH_MAX_BYTES)
             (''use a shorter mount '' @ fld @ '' path''))
      else if CHR 0x00 \<in> set path
      then Inl (mount_error index fld (fld @ '' path contains a NUL byte'')
             (''remove the NUL byte from the mount '' @ fld @ '' path''))
      else check_component_lengths index fld (components path))"

definition validate_canonical_spelling :: "string \<Rightarrow> nat \<Rightarrow> string \<Rightarrow> (FirestoneError, unit) result" where
  "validate_canonical_spelling path index fld =
     (if length path > 1 \<and> (ends_with ''/'' path \<or> contains_str ''//'' path)
      then Inl (noncanonical_path_error index fld path)
      else if list_ex (\<lambda>c. c \<in> {''.'', ''..''}) (split_on (CHR ''/'') path)
      then Inl (noncanonical_path_error index fld path)
      else Inr ())"

definition validate_host_spelling :: "string \<Rightarrow> nat \<Rightarrow> (FirestoneError, unit) result" where
  "validate_host_spelling path index =
     (if \<not> is_absolute path
      then Inl (mount_error index ''host'' (''host path '' @ quoted path @ '' is not absolute'')
             ''resolve the host path through Paths before preparing virtiofsd'')
      else and_then (validate_path_bytes path index ''host'') (\<lambda>_.
           validate_canonical_spelling path index ''host''))"

definition is_ascii_control :: "char \<Rightarrow> bool" where
  "is_ascii_control c \<longleftrightarrow> (let v = (of_char c :: nat) in v < 32 \<or> v = 127)"

fun check_control_bytes :: "string \<Rightarrow> nat \<Rightarrow> PathComponent list \<Rightarrow> (FirestoneError, unit) result" where
  "check_control_bytes path index [] = Inr ()"
| "check_control_bytes path index (NormalC val # cs) =
     (if list_ex is_ascii_control val
      then Inl (mount_error index ''guest'' (''guest path '' @ quoted path @ '' contains a control byte'')
             ''remove control bytes from the guest mount point'')
      else check_control_bytes path index cs)"
| "check_control_bytes path index (c # cs) = check_control_bytes path index cs"

definition validate_guest_path :: "string \<Rightarrow> nat \<Rightarrow> (FirestoneError, string) result" where
  "validate_guest_path path index =
     (if \<not> is_absolute path
      then Inl (mount_error index ''guest'' (''guest path '' @ quoted path @ '' is not absolute'')
             (''use an absolute guest path such as '' @ quoted ''/work''))
      else if path_eq path ''/''
      then Inl (mount_error index ''guest''
             (''guest path '' @ quoted ''/'' @ '' would replace the guest root filesystem'')
             (''use a dedicated mount point such as '' @ quoted ''/work''))
      else and_then (validate_path_bytes path index ''guest'') (\<lambda>_.
           and_then (validate_canonical_spelling path index ''guest'') (\<lambda>_.
           and_then (check_control_bytes path index (components path)) (\<lambda>_.
           Inr path))))"

definition paths_overlap :: "string \<Rightarrow> string \<Rightarrow> bool" where
  "paths_overlap l r \<longleftrightarrow> path_eq l r \<or> path_starts_with l r \<or> path_starts_with r l"

section \<open>The layout\<close>

record MountShape =
  sh_tag :: string
  sh_guest :: string

text \<open>The two inner loops: the first earlier path that overlaps, with its index.\<close>

fun first_overlap :: "nat \<Rightarrow> string list \<Rightarrow> string \<Rightarrow> (nat \<times> string) option" where
  "first_overlap i [] path = None"
| "first_overlap i (previous # rest) path =
     (if paths_overlap previous path then Some (i, previous) else first_overlap (i + 1) rest path)"

definition refuse_overlap ::
  "nat \<Rightarrow> string \<Rightarrow> string list \<Rightarrow> string \<Rightarrow> string \<Rightarrow> (FirestoneError, unit) result" where
  "refuse_overlap index fld earlier path h =
     (case first_overlap 0 earlier path of
        None \<Rightarrow> Inr ()
      | Some (previous_index, previous) \<Rightarrow>
          Inl (mount_error index fld
            (fld @ '' path '' @ quoted path @ '' overlaps mount['' @ show_nat previous_index @ ''].''
              @ fld @ '' '' @ quoted previous) h))"

text \<open>
  The loop over the mounts. \<open>before\<close> are the mounts before the current one; \<open>tags\<close> is the
  \<open>HashMap\<close> from tag to index and \<open>shapes\<close> the result so far.
\<close>

fun mount_shapes_loop ::
  "MountSpec list \<Rightarrow> (string \<Rightarrow> nat option) \<Rightarrow> MountShape list \<Rightarrow> MountSpec list
   \<Rightarrow> (FirestoneError, MountShape list) result" where
  "mount_shapes_loop before tags shapes [] = Inr shapes"
| "mount_shapes_loop before tags shapes (mount # rest) =
     (let index = length before;
          tag = effective_tag mount index
      in and_then (validate_mount_tag tag index) (\<lambda>_.
      case tags tag of
        Some previous \<Rightarrow>
          Inl (mount_error index ''tag''
            (''tag '' @ quoted tag @ '' conflicts with mount['' @ show_nat previous @ ''].tag'')
            ''set a unique tag or omit tags to use share0, share1, and so on'')
      | None \<Rightarrow>
          and_then (validate_host_spelling (mt_host mount) index) (\<lambda>_.
          and_then (refuse_overlap index ''host'' (map mt_host before) (mt_host mount)
              ''use disjoint host directories for separate virtio-fs devices'') (\<lambda>_.
          and_then (validate_guest_path (mt_guest mount) index) (\<lambda>guest.
          and_then (refuse_overlap index ''guest'' (map sh_guest shapes) guest
              ''use disjoint absolute guest mount points'') (\<lambda>_.
          mount_shapes_loop (before @ [mount]) (tags(tag \<mapsto> index))
            (shapes @ [\<lparr>sh_tag = tag, sh_guest = guest\<rparr>]) rest))))))"

definition mount_shapes :: "MountSpec list \<Rightarrow> (FirestoneError, MountShape list) result" where
  "mount_shapes mounts =
     (if length mounts > MAX_VIRTIOFS_MOUNTS
      then Inl (with_hint ''remove mounts until no more than 16 virtiofsd sidecars are required''
             (error_new InvalidSpec (quoted ''mount'' @ '': has '' @ show_nat (length mounts)
               @ '' entries; at most '' @ show_nat MAX_VIRTIOFS_MOUNTS @ '' are supported'')))
      else mount_shapes_loop [] (\<lambda>_. None) [] mounts)"

definition validate_mount_spec_layout :: "MountSpec list \<Rightarrow> (FirestoneError, unit) result" where
  "validate_mount_spec_layout mounts = and_then (mount_shapes mounts) (\<lambda>_. Inr ())"

section \<open>A layout that passes is disjoint\<close>

lemma first_overlap_None: "first_overlap i ps p = None \<longleftrightarrow> (\<forall>q \<in> set ps. \<not> paths_overlap q p)"
  by (induction i ps p rule: first_overlap.induct) auto

lemma refuse_overlap_ok:
  "refuse_overlap index fld earlier path h = Inr () \<longleftrightarrow> (\<forall>q \<in> set earlier. \<not> paths_overlap q path)"
  using first_overlap_None [of 0 earlier path]
  by (cases "first_overlap 0 earlier path") (auto simp: refuse_overlap_def)

lemma guest_path_ok:
  "validate_guest_path p i = Inr g \<Longrightarrow> g = p \<and> is_absolute p \<and> \<not> path_eq p ''/''"
  by (auto simp: validate_guest_path_def and_then_Inr_iff split: if_splits)

lemma tag_ok: "validate_mount_tag tag i = Inr () \<Longrightarrow> tag \<noteq> [] \<and> length tag \<le> 36 \<and> list_all tag_char tag"
  by (auto simp: validate_mount_tag_def VIRTIOFS_TAG_MAX_BYTES_def Let_def split: if_splits)

lemma host_spelling_ok: "validate_host_spelling p i = Inr () \<Longrightarrow> is_absolute p"
  by (auto simp: validate_host_spelling_def split: if_splits)

definition apart :: "string \<Rightarrow> string \<Rightarrow> bool" where
  "apart p q \<longleftrightarrow> \<not> path_starts_with p q \<and> \<not> path_starts_with q p"

lemma not_overlap_apart: "\<not> paths_overlap p q \<Longrightarrow> apart p q"
  by (simp add: paths_overlap_def apart_def)

text \<open>What the loop keeps: the shapes follow the mounts, and what has been seen is disjoint.\<close>

definition layout_inv :: "MountSpec list \<Rightarrow> (string \<Rightarrow> nat option) \<Rightarrow> MountShape list \<Rightarrow> bool" where
  "layout_inv before tags shapes \<longleftrightarrow>
     length shapes = length before
     \<and> (\<forall>i < length before. shapes ! i = \<lparr>sh_tag = effective_tag (before ! i) i, sh_guest = mt_guest (before ! i)\<rparr>
          \<and> is_absolute (mt_host (before ! i)) \<and> is_absolute (mt_guest (before ! i))
          \<and> \<not> path_eq (mt_guest (before ! i)) ''/'')
     \<and> dom tags = sh_tag ` set shapes
     \<and> distinct (map sh_tag shapes)
     \<and> sorted_wrt apart (map mt_host before)
     \<and> sorted_wrt apart (map mt_guest before)"

lemma layout_inv_guests: "layout_inv before tags shapes \<Longrightarrow> map sh_guest shapes = map mt_guest before"
  unfolding layout_inv_def by (auto intro!: nth_equalityI)

lemma layout_inv_step:
  assumes inv: "layout_inv before tags shapes"
    and tag: "tags (effective_tag m (length before)) = None"
    and host: "is_absolute (mt_host m)" "\<forall>q \<in> set (map mt_host before). \<not> paths_overlap q (mt_host m)"
    and guest: "is_absolute (mt_guest m)" "\<not> path_eq (mt_guest m) ''/''"
      "\<forall>q \<in> set (map sh_guest shapes). \<not> paths_overlap q (mt_guest m)"
  shows "layout_inv (before @ [m]) (tags(effective_tag m (length before) \<mapsto> i))
    (shapes @ [\<lparr>sh_tag = effective_tag m (length before), sh_guest = mt_guest m\<rparr>])"
proof -
  have len: "length shapes = length before" using inv by (simp add: layout_inv_def)
  have "effective_tag m (length before) \<notin> sh_tag ` set shapes"
    using tag inv by (auto simp: layout_inv_def domIff)
  moreover have "\<forall>q \<in> set (map mt_guest before). apart q (mt_guest m)"
    using guest(3) not_overlap_apart unfolding layout_inv_guests [OF inv] by blast
  moreover have "\<forall>q \<in> set (map mt_host before). apart q (mt_host m)"
    using host(2) not_overlap_apart by blast
  ultimately show ?thesis
    using inv host(1) guest(1,2)
    by (auto simp: layout_inv_def sorted_wrt_append nth_append less_Suc_eq len)
qed

lemma mount_shapes_loop_inv:
  "mount_shapes_loop before tags shapes rest = Inr r \<Longrightarrow> layout_inv before tags shapes
     \<Longrightarrow> \<exists>tags'. layout_inv (before @ rest) tags' r"
proof (induction before tags shapes rest rule: mount_shapes_loop.induct)
  case (1 before tags shapes)
  then show ?case by auto
next
  case (2 before tags shapes m rest)
  let ?tag = "effective_tag m (length before)"
  obtain g where none: "tags ?tag = None"
    and steps: "validate_mount_tag ?tag (length before) = Inr ()"
      "validate_host_spelling (mt_host m) (length before) = Inr ()"
      "refuse_overlap (length before) ''host'' (map mt_host before) (mt_host m)
         ''use disjoint host directories for separate virtio-fs devices'' = Inr ()"
      "validate_guest_path (mt_guest m) (length before) = Inr g"
      "refuse_overlap (length before) ''guest'' (map sh_guest shapes) g
         ''use disjoint absolute guest mount points'' = Inr ()"
    and rest: "mount_shapes_loop (before @ [m]) (tags(?tag \<mapsto> length before))
        (shapes @ [\<lparr>sh_tag = ?tag, sh_guest = g\<rparr>]) rest = Inr r"
    using 2(2) by (auto simp: Let_def and_then_Inr_iff split: option.splits)
  have g: "g = mt_guest m" "is_absolute (mt_guest m)" "\<not> path_eq (mt_guest m) ''/''"
    using guest_path_ok [OF steps(4)] by simp_all
  have "layout_inv (before @ [m]) (tags(?tag \<mapsto> length before)) (shapes @ [\<lparr>sh_tag = ?tag, sh_guest = g\<rparr>])"
    unfolding g(1)
    by (rule layout_inv_step [OF 2(3) none])
      (use host_spelling_ok [OF steps(2)] steps(3,5) g in \<open>simp_all add: refuse_overlap_ok\<close>)
  from 2(1) [OF refl refl steps(1) none steps(2,3,4,5) rest this] show ?case by simp
qed

lemma mount_shapes_inv:
  assumes "mount_shapes mounts = Inr shapes"
  shows "\<exists>tags. layout_inv mounts tags shapes"
proof -
  have "mount_shapes_loop [] (\<lambda>_. None) [] mounts = Inr shapes"
    using assms by (auto simp: mount_shapes_def split: if_splits)
  from mount_shapes_loop_inv [OF this] show ?thesis by (simp add: layout_inv_def)
qed

text \<open>
  C5. A mount layout that passes has at most sixteen mounts with pairwise distinct tags; the
  host directories are absolute and pairwise disjoint, and so are the guest directories, none
  of which is the guest's root.
\<close>

theorem mount_layout_disjoint:
  assumes "mount_shapes mounts = Inr shapes"
  shows "length mounts \<le> 16 \<and> map sh_guest shapes = map mt_guest mounts
    \<and> distinct (map sh_tag shapes)
    \<and> (\<forall>i j. i < j \<and> j < length mounts \<longrightarrow>
         apart (mt_host (mounts ! i)) (mt_host (mounts ! j))
         \<and> apart (mt_guest (mounts ! i)) (mt_guest (mounts ! j)))
    \<and> (\<forall>m \<in> set mounts. is_absolute (mt_host m) \<and> is_absolute (mt_guest m) \<and> components (mt_guest m) \<noteq> [RootDir])"
proof -
  have len: "length mounts \<le> 16"
    using assms by (auto simp: mount_shapes_def MAX_VIRTIOFS_MOUNTS_def split: if_splits)
  obtain tags where inv: "layout_inv mounts tags shapes" using mount_shapes_inv [OF assms] by blast
  have root: "components ''/'' = [RootDir]" by (simp add: components_def is_absolute_def piece_def)
  have "apart (mt_host (mounts ! i)) (mt_host (mounts ! j)) \<and> apart (mt_guest (mounts ! i)) (mt_guest (mounts ! j))"
    if "i < j" "j < length mounts" for i j
    using inv that sorted_wrt_nth_less [of apart "map mt_host mounts" i j]
      sorted_wrt_nth_less [of apart "map mt_guest mounts" i j]
    by (simp add: layout_inv_def)
  moreover have "\<forall>m \<in> set mounts. is_absolute (mt_host m) \<and> is_absolute (mt_guest m) \<and> components (mt_guest m) \<noteq> [RootDir]"
    using inv root by (auto simp: layout_inv_def path_eq_def in_set_conv_nth)
  ultimately show ?thesis
    using len layout_inv_guests [OF inv] inv by (simp add: layout_inv_def)
qed

theorem mount_layout_disjoint_witness:
  "(let m = \<lambda>h g. \<lparr>mt_host = h, mt_guest = g, mt_readonly = False, mt_tag = None\<rparr>
    in is_ok (mount_shapes [m ''/a'' ''/x'', m ''/ab'' ''/y'']) \<and> apart ''/a'' ''/ab'')"
proof -
  let ?m = "\<lambda>h g. \<lparr>mt_host = h, mt_guest = g, mt_readonly = False, mt_tag = None\<rparr>"
  have "is_ok (mount_shapes [?m ''/a'' ''/x'', ?m ''/ab'' ''/y''])" by code_simp
  moreover from this obtain shapes where "mount_shapes [?m ''/a'' ''/x'', ?m ''/ab'' ''/y''] = Inr shapes"
    by (auto simp: is_ok_iff)
  from mount_layout_disjoint [OF this] have "apart ''/a'' ''/ab''" by force
  ultimately show ?thesis by (simp only: Let_def simp_thms)
qed

end
