(* ===== verification/Validation.thy ===== *)
theory Validation
  imports Catalog Oci_Reference Network Mounts
begin

text \<open>
  Machine-spec validation, from \<^verbatim>\<open>firestone-core/src/spec/validation.rs\<close>: paths are resolved,
  the image reference is normalized, and every rule on capacity, user, network, mounts,
  cloud-init and VMM is checked before a machine is created or started.

  A spec that passes obeys every rule, and resolving its paths again changes nothing.

  The host (\<open>ValidationHost\<close>), the URL parser and the OpenSSH key parser are arguments,
  collected in the validation context.
\<close>

section \<open>Context\<close>

record ValidationHost =
  vh_architecture :: "(FirestoneError, Arch) result"
  vh_cpu_count :: nat
  vh_path_exists :: "string \<Rightarrow> (IoError, bool) result"
  vh_path_is_readable :: "string \<Rightarrow> (IoError, bool) result"
  vh_path_is_file :: "string \<Rightarrow> (IoError, bool) result"
  vh_canonicalize_regular_nofollow :: "string \<Rightarrow> (IoError, string) result"
  vh_path_is_executable :: "string \<Rightarrow> (IoError, bool) result"
  vh_read_regular_file :: "string \<Rightarrow> nat \<Rightarrow> (IoError, string) result"
  vh_tap :: TapHost

record ValidationContext =
  vc_host :: ValidationHost
  vc_paths :: Paths
  vc_machine_dir :: string
  vc_catalog :: Catalog
  vc_base_image_virtual_size :: "ByteSize option"
  vc_pinned_image_ref :: "string option"
  vc_url_parse :: "string \<Rightarrow> ParsedUrl option"
  vc_public_key_ok :: "string \<Rightarrow> bool"

record SpecWarning =
  sw_key :: string
  sw_message :: string

text \<open>The two parts of \<open>RealValidationHost\<close> that are not plain system calls.\<close>

definition real_architecture :: "string \<Rightarrow> (FirestoneError, Arch) result" where
  "real_architecture machine =
     map_err (\<lambda>msg. with_hint ''run Firestone on an x86_64 or aarch64 Linux host'' (error_new Dependency msg))
       (arch_current machine)"

definition tun_flags_is_tap :: "(IoError, string) result \<Rightarrow> (IoKind, bool) result" where
  "tun_flags_is_tap file_read =
     (case file_read of
        Inl err \<Rightarrow> if io_kind err = IoNotFound then Inr False else Inl (io_kind err)
      | Inr flags \<Rightarrow>
          (let (digits, radix) = (case strip_prefix ''0x'' (trim flags) of
                 Some rest \<Rightarrow> (rest, 16) | None \<Rightarrow> (trim flags, 10))
           in case from_str_radix (2 ^ 32) radix digits of
                None \<Rightarrow> Inl IoInvalidData
              | Some n \<Rightarrow> Inr ((of_nat n :: u32) AND 2 \<noteq> 0)))"

definition invalid :: "string \<Rightarrow> string \<Rightarrow> string \<Rightarrow> FirestoneError" where
  "invalid key msg h =
     with_field key (with_hint h (error_new InvalidSpec (''invalid '' @ quoted key @ '': '' @ msg)))"

section \<open>Paths in the spec\<close>

definition resolve_in :: "ValidationContext \<Rightarrow> string \<Rightarrow> string \<Rightarrow> (FirestoneError, string) result" where
  "resolve_in ctx path key = resolve_input_path (vc_paths ctx) path (vc_machine_dir ctx) key"

definition resolve_opt ::
  "ValidationContext \<Rightarrow> string option \<Rightarrow> string \<Rightarrow> (FirestoneError, string option) result" where
  "resolve_opt ctx path key =
     (case path of None \<Rightarrow> Inr None | Some p \<Rightarrow> and_then (resolve_in ctx p key) (\<lambda>q. Inr (Some q)))"

definition resolve_firmware :: "ValidationContext \<Rightarrow> Firmware \<Rightarrow> (FirestoneError, Firmware) result" where
  "resolve_firmware ctx firmware =
     (case as_path firmware of
        None \<Rightarrow> Inr firmware
      | Some path \<Rightarrow>
          and_then (resolve_in ctx path ''vmm.firmware'') (\<lambda>resolved.
          map_err (\<lambda>_. invalid ''vmm.firmware'' ''firmware path is empty''
              (''set a non-empty firmware path or choose '' @ quoted ''auto'' @ '', '' @ quoted ''rhf''
                @ '', or '' @ quoted ''edk2''))
            (firmware_path resolved)))"

definition resolve_spec_paths :: "ValidationContext \<Rightarrow> MachineSpec \<Rightarrow> (FirestoneError, MachineSpec) result" where
  "resolve_spec_paths ctx spec =
     and_then
       (map_r (\<lambda>(index, mount).
          and_then (resolve_in ctx (mt_host mount) (''mount['' @ show_nat index @ ''].host''))
            (\<lambda>h. Inr (mount\<lparr>mt_host := h\<rparr>)))
         (enumerate 0 (ms_mounts spec))) (\<lambda>mounts.
     and_then (resolve_opt ctx (ci_user_data (ms_cloud_init spec)) ''cloud_init.user_data'') (\<lambda>user_data.
     and_then (resolve_opt ctx (ci_network_config (ms_cloud_init spec)) ''cloud_init.network_config'')
       (\<lambda>network_config.
     and_then
       (map_r (\<lambda>(index, path). resolve_in ctx path (''cloud_init.ssh_keys['' @ show_nat index @ '']''))
         (enumerate 0 (ci_ssh_keys (ms_cloud_init spec)))) (\<lambda>ssh_keys.
     and_then (resolve_opt ctx (vs_binary (ms_vmm spec)) ''vmm.binary'') (\<lambda>binary.
     and_then (resolve_firmware ctx (vs_firmware (ms_vmm spec))) (\<lambda>firmware.
     Inr (spec\<lparr>ms_mounts := mounts,
               ms_cloud_init := (ms_cloud_init spec)\<lparr>ci_user_data := user_data,
                 ci_network_config := network_config, ci_ssh_keys := ssh_keys\<rparr>,
               ms_vmm := (ms_vmm spec)\<lparr>vs_binary := binary, vs_firmware := firmware\<rparr>\<rparr>)))))))"

section \<open>Host queries\<close>

definition host_path_exists :: "ValidationContext \<Rightarrow> string \<Rightarrow> string \<Rightarrow> (FirestoneError, bool) result" where
  "host_path_exists ctx key path =
     map_err (\<lambda>_. invalid key (''cannot inspect '' @ quoted path)
         ''check the path and its parent-directory permissions'')
       (vh_path_exists (vc_host ctx) path)"

definition require_readable ::
  "ValidationContext \<Rightarrow> string \<Rightarrow> string \<Rightarrow> string \<Rightarrow> (FirestoneError, unit) result" where
  "require_readable ctx key path h =
     (case vh_path_is_readable (vc_host ctx) path of
        Inr True \<Rightarrow> Inr ()
      | Inr False \<Rightarrow> Inl (invalid key (quoted path @ '' is not readable'') h)
      | Inl _ \<Rightarrow> Inl (invalid key (''cannot open '' @ quoted path) h))"

definition require_regular_file ::
  "ValidationContext \<Rightarrow> string \<Rightarrow> string \<Rightarrow> string \<Rightarrow> (FirestoneError, unit) result" where
  "require_regular_file ctx key path h =
     (case vh_path_is_file (vc_host ctx) path of
        Inr True \<Rightarrow> Inr ()
      | Inr False \<Rightarrow> Inl (invalid key (quoted path @ '' is not a regular file'') h)
      | Inl _ \<Rightarrow> Inl (invalid key (''cannot inspect file type for '' @ quoted path) h))"

definition require_executable ::
  "ValidationContext \<Rightarrow> string \<Rightarrow> string \<Rightarrow> string \<Rightarrow> (FirestoneError, unit) result" where
  "require_executable ctx key path h =
     (case vh_path_is_executable (vc_host ctx) path of
        Inr True \<Rightarrow> Inr ()
      | Inr False \<Rightarrow> Inl (invalid key (quoted path @ '' is not executable by the current user'') h)
      | Inl _ \<Rightarrow> Inl (invalid key (''cannot check execute access for '' @ quoted path) h))"

definition read_required_file ::
  "ValidationContext \<Rightarrow> string \<Rightarrow> string \<Rightarrow> nat \<Rightarrow> string \<Rightarrow> string \<Rightarrow> (FirestoneError, string) result" where
  "read_required_file ctx key path limit limit_label h =
     map_err (\<lambda>err. invalid key
         (case io_kind err of
            IoNotFound \<Rightarrow> ''file '' @ quoted path @ '' does not exist''
          | IoInvalidInput \<Rightarrow> quoted path @ '' is not a regular file''
          | IoInvalidData \<Rightarrow> ''file '' @ quoted path @ '' exceeds '' @ limit_label
          | IoPermissionDenied \<Rightarrow> quoted path @ '' is not readable by the current user''
          | _ \<Rightarrow> ''cannot read '' @ quoted path) h)
       (vh_read_regular_file (vc_host ctx) path limit)"

section \<open>Image\<close>

definition looks_like_path :: "string \<Rightarrow> bool" where
  "looks_like_path reference \<longleftrightarrow>
     is_absolute reference \<or> starts_with ''.'' reference \<or> starts_with ''~'' reference
     \<or> CHR ''/'' \<in> set reference
     \<or> list_ex (\<lambda>suffix. ends_with suffix reference) [''.qcow2'', ''.raw'', ''.img'']"

definition looks_like_url :: "string \<Rightarrow> bool" where
  "looks_like_url reference \<longleftrightarrow> contains_str ''://'' reference"

definition validate_https_url :: "ValidationContext \<Rightarrow> string \<Rightarrow> (FirestoneError, unit) result" where
  "validate_https_url ctx reference =
     (if contains_whitespace reference
      then Inl (invalid ''image'' (''image URL '' @ quoted reference @ '' is malformed'')
             ''use a complete https:// URL without whitespace'')
      else case vc_url_parse ctx reference of
        None \<Rightarrow> Inl (invalid ''image'' (''image URL '' @ quoted reference @ '' is malformed'')
             ''use a complete https:// URL'')
      | Some parsed \<Rightarrow>
          if url_scheme parsed \<noteq> ''https''
          then Inl (invalid ''image'' (''image URL '' @ quoted reference @ '' does not use HTTPS'')
             ''use https://; insecure downloads are not supported'')
          else if url_violation parsed \<or> \<not> url_has_host parsed \<or> url_username parsed \<noteq> []
             \<or> url_password parsed \<noteq> None \<or> CHR ''@'' \<in> set (url_authority parsed)
             \<or> url_fragment parsed \<noteq> None
          then Inl (invalid ''image'' (''image URL '' @ quoted reference @ '' is incomplete or malformed'')
             ''use a complete https:// URL with a host and without credentials or a fragment'')
          else Inr ())"

definition image_ref_from_path :: "string \<Rightarrow> (FirestoneError, ImageRef) result" where
  "image_ref_from_path path =
     (if is_utf8 path then Inr (ImageRef path)
      else Inl (invalid ''image'' (''local image path '' @ quoted path @ '' is not valid UTF-8'')
             ''move the image under a UTF-8 path before adding it to firestone.toml''))"

definition validate_image ::
  "ValidationContext \<Rightarrow> string \<Rightarrow> Arch \<Rightarrow> MachineSpec \<Rightarrow> (FirestoneError, ImageRef) result" where
  "validate_image ctx image_base_dir arch spec =
     (let reference = image_as_str (ms_image spec)
      in if trim reference = []
      then Inl (invalid ''image'' ''image reference is empty''
             ''set image to a catalog reference, an https URL, or an existing local file'')
      else if vc_pinned_image_ref ctx = Some reference then Inr (ms_image spec)
      else and_then (resolve_input_path (vc_paths ctx) reference image_base_dir ''image'') (\<lambda>candidate.
      and_then (host_path_exists ctx ''image'' candidate) (\<lambda>exists.
      if exists
      then
        and_then (require_regular_file ctx ''image'' candidate
            ''choose a qcow2 or raw image file, not a directory'') (\<lambda>_.
        and_then (require_readable ctx ''image'' candidate
            ''make the image file readable or choose another image'') (\<lambda>_.
        and_then
          (map_err (\<lambda>_. invalid ''image'' (''cannot canonicalize local image '' @ quoted candidate)
              ''use a readable non-symlink regular image file'')
            (vh_canonicalize_regular_nofollow (vc_host ctx) candidate))
          image_ref_from_path))
      else
        let fall_through =
          (if looks_like_url reference
           then and_then (validate_https_url ctx reference) (\<lambda>_. Inr (ms_image spec))
           else case resolve (vc_catalog ctx) reference (arch_as_str arch) of
             Inr _ \<Rightarrow> Inr (ms_image spec)
           | Inl err \<Rightarrow>
               if contains_reference (vc_catalog ctx) reference
               then Inl (invalid ''image'' (message err)
                      (case hint err of Some h \<Rightarrow> h
                       | None \<Rightarrow> ''choose an image available for this host architecture''))
               else if looks_like_path reference
               then Inl (invalid ''image'' (''local image '' @ quoted candidate @ '' does not exist'')
                      (''correct the image path or choose a catalog reference such as ''
                        @ quoted ''ubuntu:24.04''))
               else Inl (invalid ''image'' (message err)
                      (case hint err of Some h \<Rightarrow> h
                       | None \<Rightarrow> ''choose an image listed by `firestone images ls`'')))
        in case classify reference of
             None \<Rightarrow> fall_through
           | Some classification \<Rightarrow>
               (case oci_parse reference of
                  Inr parsed \<Rightarrow> Inr (ImageRef (oci_display parsed))
                | Inl err \<Rightarrow>
                    if is_explicit classification
                    then Inl (invalid ''image'' (message err)
                           (case hint err of Some h \<Rightarrow> h
                            | None \<Rightarrow> ''write an OCI reference such as '' @ quoted ''docker://nginx:latest''))
                    else fall_through))))"

section \<open>Capacity and user\<close>

definition validate_arch :: "ValidationContext \<Rightarrow> MachineSpec \<Rightarrow> (FirestoneError, Arch) result" where
  "validate_arch ctx spec =
     and_then (vh_architecture (vc_host ctx)) (\<lambda>host_arch.
     case ms_arch spec of
       None \<Rightarrow> Inr host_arch
     | Some arch \<Rightarrow>
         if arch \<noteq> host_arch
         then Inl (invalid ''arch''
                (''guest architecture '' @ quoted (arch_as_str arch) @ '' does not match host architecture ''
                  @ quoted (arch_as_str host_arch))
                (''remove '' @ quoted ''arch'' @ '' or set it to the host architecture; ''
                  @ ''cross-architecture emulation is not supported''))
         else Inr arch)"

definition validate_capacity ::
  "ValidationContext \<Rightarrow> MachineSpec \<Rightarrow> (FirestoneError, SpecWarning list) result" where
  "validate_capacity ctx spec =
     (let host_cpus = vh_cpu_count (vc_host ctx);
          cpus = show_nat (unat (ms_cpus spec));
          memory = bytesize_display (ms_memory spec)
      in if ms_cpus spec = 0
      then Inl (invalid ''cpus'' ''CPU count must be at least 1'' ''set cpus to 1 or more'')
      else
        let warnings = (if unat (ms_cpus spec) > host_cpus
              then [\<lparr>sw_key = ''cpus'', sw_message = ''configured '' @ cpus
                @ '' vCPUs but the host reports '' @ show_nat host_cpus @ '' logical CPUs''\<rparr>] else [])
        in and_then
          (case ms_cpus_max spec of
             Some cpus_max \<Rightarrow>
               ensure (\<not> cpus_max < ms_cpus spec)
                 (invalid ''cpus_max'' (''cpus_max '' @ show_nat (unat cpus_max)
                     @ '' is below the boot cpus '' @ cpus)
                   (''set cpus_max to '' @ cpus @ '' or more, or remove it''))
           | None \<Rightarrow> Inr ()) (\<lambda>_.
        and_then
          (ensure (\<not> as_bytes (ms_memory spec) < as_bytes MINIMUM_MEMORY)
             (invalid ''memory'' (''memory '' @ memory @ '' is below the 128M minimum'')
               (''set memory to at least '' @ quoted ''128M''))) (\<lambda>_.
        and_then
          (case ms_memory_max spec of
             Some memory_max \<Rightarrow>
               ensure (\<not> as_bytes memory_max < as_bytes (ms_memory spec))
                 (invalid ''memory_max'' (''memory_max '' @ bytesize_display memory_max
                     @ '' is below the boot memory '' @ memory)
                   (''set memory_max to at least '' @ quoted memory @ '', or remove it''))
           | None \<Rightarrow> Inr ()) (\<lambda>_.
        and_then
          (case vc_base_image_virtual_size ctx of
             Some base_size \<Rightarrow>
               ensure (\<not> as_bytes (ms_disk spec) < as_bytes base_size)
                 (invalid ''disk'' (''disk '' @ bytesize_display (ms_disk spec)
                     @ '' is smaller than the base image virtual size '' @ bytesize_display base_size)
                   (''set disk to at least '' @ quoted (bytesize_display base_size)))
           | None \<Rightarrow> Inr ()) (\<lambda>_.
        Inr warnings)))))"

definition validate_user :: "string \<Rightarrow> (FirestoneError, unit) result" where
  "validate_user user =
     (let valid_first = (case user of [] \<Rightarrow> False | b # _ \<Rightarrow> is_ascii_lowercase b \<or> b = CHR ''_'');
          valid_rest = list_all (\<lambda>b. is_ascii_lowercase b \<or> is_ascii_digit b \<or> b \<in> {CHR ''_'', CHR ''-''}) (tl user)
      in if \<not> valid_first \<or> \<not> valid_rest
         then Inl (invalid ''user'' (''login user '' @ quoted user @ '' is invalid'')
                ''use a name matching [a-z_][a-z0-9_-]*'')
         else Inr ())"

section \<open>Network and mounts\<close>

definition validate_network :: "ValidationContext \<Rightarrow> MachineSpec \<Rightarrow> (FirestoneError, unit) result" where
  "validate_network ctx spec =
     (if ns_mode (ms_network spec) \<noteq> Tap then Inr ()
      else and_then
        (ok_or (invalid ''network.tap'' ''tap mode requires an existing tap interface''
            (''set network.tap to a user-owned interface such as '' @ quoted ''tap0''))
          (ns_tap (ms_network spec)))
        (validate_tap (vh_tap (vc_host ctx))))"

definition validate_mounts :: "ValidationContext \<Rightarrow> MachineSpec \<Rightarrow> (FirestoneError, unit) result" where
  "validate_mounts ctx spec =
     and_then (validate_mount_spec_layout (ms_mounts spec)) (\<lambda>_.
     for_each (\<lambda>(index, mount).
       let host_key = ''mount['' @ show_nat index @ ''].host''
       in and_then (host_path_exists ctx host_key (mt_host mount)) (\<lambda>exists.
          ensure exists (invalid host_key (''mount source '' @ quoted (mt_host mount) @ '' does not exist'')
            ''correct the host path or create it before starting the machine'')))
       (enumerate 0 (ms_mounts spec)))"

section \<open>Cloud-init\<close>

definition MAX_USER_DATA_BYTES :: nat where "MAX_USER_DATA_BYTES = 1024 * 1024"
definition MAX_INLINE_USER_DATA_BYTES :: nat where "MAX_INLINE_USER_DATA_BYTES = 32 * 1024"
definition MAX_PASSWORD_BYTES :: nat where "MAX_PASSWORD_BYTES = 256"
definition MAX_NETWORK_CONFIG_BYTES :: nat where "MAX_NETWORK_CONFIG_BYTES = 1024 * 1024"
definition MAX_SSH_KEY_FILE_BYTES :: nat where "MAX_SSH_KEY_FILE_BYTES = 64 * 1024"

definition first_cloud_init_input :: "CloudInitSpec \<Rightarrow> string option" where
  "first_cloud_init_input ci =
     (if ci_user_data ci \<noteq> None then Some ''cloud_init.user_data''
      else if ci_user_data_inline ci \<noteq> None then Some ''cloud_init.user_data_inline''
      else if ci_network_config ci \<noteq> None then Some ''cloud_init.network_config''
      else if ci_ssh_keys ci \<noteq> [] then Some ''cloud_init.ssh_keys''
      else if ci_ssh_authorized_keys ci \<noteq> [] then Some ''cloud_init.ssh_authorized_keys''
      else if ci_password ci \<noteq> None then Some ''cloud_init.password''
      else if ci_ssh_pwauth ci then Some ''cloud_init.ssh_pwauth''
      else if \<not> ci_provisioning ci then Some ''cloud_init.provisioning''
      else None)"

definition image_is_oci :: "string \<Rightarrow> bool" where
  "image_is_oci reference \<longleftrightarrow>
     classify reference \<noteq> None
     \<and> (case oci_parse reference of Inr parsed \<Rightarrow> oci_display parsed = reference | Inl _ \<Rightarrow> False)"

definition refuse_cloud_init_on_oci :: "MachineSpec \<Rightarrow> (FirestoneError, unit) result" where
  "refuse_cloud_init_on_oci spec =
     (if \<not> image_is_oci (image_as_str (ms_image spec)) then Inr ()
      else case first_cloud_init_input (ms_cloud_init spec) of
        None \<Rightarrow> Inr ()
      | Some fld \<Rightarrow>
          Inl (invalid fld
            (fld @ '' cannot be used by an OCI machine: image '' @ quoted (image_as_str (ms_image spec))
              @ '' boots firestone-init, not cloud-init'')
            (''remove the cloud_init keys; an OCI machine takes its hostname, network, disk size, ''
              @ ''entrypoint, cmd, env, workdir and user from the config disk'')))"

definition first_line_of :: "string \<Rightarrow> string" where
  "first_line_of contents = chomp_cr (hd (split_on (CHR 0x0A) contents))"

definition user_data_header_ok :: "string \<Rightarrow> bool" where
  "user_data_header_ok contents \<longleftrightarrow>
     first_line_of contents = ''#cloud-config'' \<or> starts_with ''#!'' (first_line_of contents)"

definition validate_inline_user_data :: "string \<Rightarrow> (FirestoneError, unit) result" where
  "validate_inline_user_data inl =
     (let key = ''cloud_init.user_data_inline''
      in if length inl > MAX_INLINE_USER_DATA_BYTES
      then Inl (invalid key (''inline user-data is '' @ show_nat (length inl) @ '' bytes'')
             (''reduce inline user-data to 32 KiB or move it to a '' @ quoted ''cloud_init.user_data''
               @ '' file''))
      else if \<not> user_data_header_ok inl
      then Inl (invalid key ''inline user-data has an unsupported first line''
             (''start inline user-data with '' @ quoted ''#cloud-config'' @ '' or '' @ quoted ''#!''
               @ ''; set provisioning = false when using a raw shell script''))
      else Inr ())"

text \<open>The hint of the first error shows a key with a non-ASCII ellipsis (bytes E2 80 A6).\<close>

definition validate_inline_authorized_key ::
  "ValidationContext \<Rightarrow> nat \<Rightarrow> string \<Rightarrow> (FirestoneError, unit) result" where
  "validate_inline_authorized_key ctx index key =
     (let fld = ''cloud_init.ssh_authorized_keys['' @ show_nat index @ '']'';
          line = trim key
      in if line = [] \<or> starts_with ''#'' line
      then Inl (invalid fld ''inline authorized key is empty or a comment''
             (''supply one OpenSSH public key such as ''
               @ quoted (''ssh-ed25519 AAAA'' @ [CHR 0xE2, CHR 0x80, CHR 0xA6] @ '' user@host'')))
      else if length (lines_of line) \<noteq> 1
      then Inl (invalid fld ''inline authorized key contains more than one line''
             ''supply exactly one OpenSSH public key per entry'')
      else if length line > MAX_SSH_KEY_FILE_BYTES
      then Inl (invalid fld (''inline authorized key is '' @ show_nat (length line) @ '' bytes'')
             ''supply an OpenSSH public key of 64 KiB or less'')
      else ensure (vc_public_key_ok ctx line)
             (invalid fld ''inline authorized key is not a valid OpenSSH public key''
               ''replace the entry with an OpenSSH public key''))"

definition validate_password :: "string \<Rightarrow> (FirestoneError, unit) result" where
  "validate_password password =
     (let key = ''cloud_init.password''
      in if password = []
      then Inl (invalid key ''password is empty''
             (''set a non-empty password or clear '' @ quoted ''cloud_init.password''))
      else if length password > MAX_PASSWORD_BYTES
      then Inl (invalid key (''password is '' @ show_nat (length password) @ '' bytes'')
             ''use a password of 256 bytes or less'')
      else if contains_control password
      then Inl (invalid key ''password contains a control character''
             ''use a password without newlines, tabs, or other control characters'')
      else Inr ())"

definition validate_user_data_file :: "ValidationContext \<Rightarrow> string \<Rightarrow> (FirestoneError, unit) result" where
  "validate_user_data_file ctx path =
     and_then (read_required_file ctx ''cloud_init.user_data'' path MAX_USER_DATA_BYTES ''1 MiB''
         ''correct the path and provide UTF-8 user-data of 1 MiB or less'') (\<lambda>contents.
     and_then (ensure (is_utf8 contents)
         (invalid ''cloud_init.user_data'' (''user-data file '' @ quoted path @ '' is not UTF-8'')
           ''save user-data as UTF-8 without changing its cloud-init header'')) (\<lambda>_.
     ensure (user_data_header_ok contents)
       (invalid ''cloud_init.user_data''
         (''user-data file '' @ quoted path @ '' has an unsupported first line'')
         (''start the file with '' @ quoted ''#cloud-config'' @ '' or '' @ quoted ''#!''
           @ ''; set provisioning = false when using a raw shell script''))))"

definition validate_network_config_file :: "ValidationContext \<Rightarrow> string \<Rightarrow> (FirestoneError, unit) result" where
  "validate_network_config_file ctx path =
     and_then (read_required_file ctx ''cloud_init.network_config'' path MAX_NETWORK_CONFIG_BYTES ''1 MiB''
         ''correct the path and provide UTF-8 network-config of 1 MiB or less'') (\<lambda>contents.
     ensure (is_utf8 contents)
       (invalid ''cloud_init.network_config'' (''network-config file '' @ quoted path @ '' is not UTF-8'')
         ''save network-config as UTF-8 YAML''))"

definition key_lines :: "string \<Rightarrow> string list" where
  "key_lines contents =
     filter (\<lambda>line. line \<noteq> [] \<and> \<not> starts_with ''#'' line) (map trim (lines_of contents))"

definition validate_ssh_key_file :: "ValidationContext \<Rightarrow> nat \<Rightarrow> string \<Rightarrow> (FirestoneError, unit) result" where
  "validate_ssh_key_file ctx index path =
     (let key = ''cloud_init.ssh_keys['' @ show_nat index @ '']''
      in and_then (read_required_file ctx key path MAX_SSH_KEY_FILE_BYTES ''64 KiB''
           ''correct the path and provide an OpenSSH public-key file of 64 KiB or less'') (\<lambda>contents.
      and_then (ensure (is_utf8 contents)
          (invalid key (''public-key file '' @ quoted path @ '' is not UTF-8'')
            ''replace it with an OpenSSH public-key file'')) (\<lambda>_.
      and_then
        (for_each (\<lambda>line. ensure (vc_public_key_ok ctx line)
            (invalid key (''public-key file '' @ quoted path @ '' contains an invalid OpenSSH key'')
              ''replace the invalid line with an OpenSSH public key'')) (key_lines contents)) (\<lambda>_.
      ensure (key_lines contents \<noteq> [])
        (invalid key (''public-key file '' @ quoted path @ '' contains no keys'')
          ''add at least one OpenSSH public key'')))))"

definition when_some :: "('a \<Rightarrow> ('e, unit) result) \<Rightarrow> 'a option \<Rightarrow> ('e, unit) result" where
  "when_some f x = (case x of None \<Rightarrow> Inr () | Some a \<Rightarrow> f a)"

definition validate_cloud_init :: "ValidationContext \<Rightarrow> MachineSpec \<Rightarrow> (FirestoneError, unit) result" where
  "validate_cloud_init ctx spec =
     (let ci = ms_cloud_init spec
      in and_then (refuse_cloud_init_on_oci spec) (\<lambda>_.
      and_then
        (ensure (\<not> (ci_user_data ci \<noteq> None \<and> ci_user_data_inline ci \<noteq> None))
          (invalid ''cloud_init.user_data_inline''
            (quoted ''cloud_init.user_data'' @ '' and '' @ quoted ''cloud_init.user_data_inline''
              @ '' are both set'')
            (''keep one user part: clear '' @ quoted ''cloud_init.user_data'' @ '' or ''
              @ quoted ''cloud_init.user_data_inline''))) (\<lambda>_.
      and_then (when_some validate_inline_user_data (ci_user_data_inline ci)) (\<lambda>_.
      and_then (for_each (\<lambda>(index, key). validate_inline_authorized_key ctx index key)
          (enumerate 0 (ci_ssh_authorized_keys ci))) (\<lambda>_.
      and_then (when_some validate_password (ci_password ci)) (\<lambda>_.
      and_then (when_some (validate_user_data_file ctx) (ci_user_data ci)) (\<lambda>_.
      and_then (when_some (validate_network_config_file ctx) (ci_network_config ci)) (\<lambda>_.
      for_each (\<lambda>(index, path). validate_ssh_key_file ctx index path)
        (enumerate 0 (ci_ssh_keys ci))))))))))"

section \<open>VMM\<close>

definition validate_vmm :: "ValidationContext \<Rightarrow> MachineSpec \<Rightarrow> (FirestoneError, unit) result" where
  "validate_vmm ctx spec =
     and_then
       (when_some (\<lambda>path.
          and_then (host_path_exists ctx ''vmm.binary'' path) (\<lambda>exists.
          and_then (ensure exists (invalid ''vmm.binary'' (''VMM binary '' @ quoted path @ '' does not exist'')
              ''correct the path or remove vmm.binary to use the vendored VMM'')) (\<lambda>_.
          and_then (require_regular_file ctx ''vmm.binary'' path
              ''set vmm.binary to an executable file or remove the override'') (\<lambda>_.
          require_executable ctx ''vmm.binary'' path
            ''grant execute access to the VMM binary or remove the override''))))
         (vs_binary (ms_vmm spec))) (\<lambda>_.
     and_then
       (when_some (\<lambda>path.
          and_then (host_path_exists ctx ''vmm.firmware'' path) (\<lambda>exists.
          and_then (ensure exists (invalid ''vmm.firmware'' (''firmware path '' @ quoted path @ '' does not exist'')
              (''correct the path or choose '' @ quoted ''auto'' @ '', '' @ quoted ''rhf'' @ '', or ''
                @ quoted ''edk2''))) (\<lambda>_.
          and_then (require_regular_file ctx ''vmm.firmware'' path
              ''set vmm.firmware to a firmware file or choose a named firmware'') (\<lambda>_.
          require_readable ctx ''vmm.firmware'' path
            ''make the firmware file readable or choose a named firmware''))))
         (as_path (vs_firmware (ms_vmm spec)))) (\<lambda>_.
     ensure (case vs_config_overlay (ms_vmm spec) of None \<Rightarrow> True | Some overlay \<Rightarrow> is_object overlay)
       (invalid ''vmm.config_overlay'' ''VMM config overlay must be a JSON object''
         ''set vmm.config_overlay to a JSON object or remove it'')))"

section \<open>The pipeline\<close>

definition validate_machine_spec_with_image_base ::
  "ValidationContext \<Rightarrow> string \<Rightarrow> MachineSpec \<Rightarrow> (FirestoneError, MachineSpec \<times> SpecWarning list) result" where
  "validate_machine_spec_with_image_base ctx image_base_dir spec0 =
     and_then (resolve_spec_paths ctx spec0) (\<lambda>spec1.
     and_then (validate_arch ctx spec1) (\<lambda>arch.
     and_then (validate_image ctx image_base_dir arch spec1) (\<lambda>image.
     let spec = spec1\<lparr>ms_image := image\<rparr>
     in and_then (validate_capacity ctx spec) (\<lambda>warnings.
     and_then (validate_user (ms_user spec)) (\<lambda>_.
     and_then (validate_network ctx spec) (\<lambda>_.
     and_then (validate_mounts ctx spec) (\<lambda>_.
     and_then (validate_cloud_init ctx spec) (\<lambda>_.
     and_then (validate_vmm ctx spec) (\<lambda>_.
     Inr (spec, warnings))))))))))"

definition validate_machine_spec ::
  "ValidationContext \<Rightarrow> MachineSpec \<Rightarrow> (FirestoneError, MachineSpec \<times> SpecWarning list) result" where
  "validate_machine_spec ctx spec =
     validate_machine_spec_with_image_base ctx (vc_machine_dir ctx) spec"

section \<open>What a validated spec guarantees\<close>

lemma when_some_ok: "when_some f x = Inr () \<longleftrightarrow> (\<forall>a. x = Some a \<longrightarrow> f a = Inr ())"
  by (cases x) (auto simp: when_some_def)

lemma ensure_unit: "ensure b e = Inr () \<longleftrightarrow> b" by simp

lemma capacity_ok:
  assumes "validate_capacity ctx spec = Inr w"
  shows "ms_cpus spec \<noteq> 0 \<and> (\<forall>m. ms_cpus_max spec = Some m \<longrightarrow> ms_cpus spec \<le> m)
    \<and> as_bytes MINIMUM_MEMORY \<le> as_bytes (ms_memory spec)
    \<and> (\<forall>m. ms_memory_max spec = Some m \<longrightarrow> as_bytes (ms_memory spec) \<le> as_bytes m)
    \<and> (\<forall>b. vc_base_image_virtual_size ctx = Some b \<longrightarrow> as_bytes b \<le> as_bytes (ms_disk spec))"
  using assms
  by (auto simp: validate_capacity_def Let_def and_then_Inr_iff not_less split: if_splits option.splits)

definition user_name :: "string \<Rightarrow> bool" where
  "user_name u \<longleftrightarrow> (\<exists>c cs. u = c # cs \<and> (is_ascii_lowercase c \<or> c = CHR ''_'')
     \<and> (\<forall>x \<in> set cs. is_ascii_lowercase x \<or> is_ascii_digit x \<or> x = CHR ''_'' \<or> x = CHR ''-''))"

lemma user_ok: "validate_user u = Inr () \<longleftrightarrow> user_name u"
  by (cases u) (auto simp: validate_user_def user_name_def list_all_iff)

lemma tap_name_ok: "validate_tap_name n = Inr () \<longleftrightarrow>
    n \<notin> {[], ''.'', ''..''} \<and> length n \<le> 15 \<and> CHR ''/'' \<notin> set n \<and> CHR 0x00 \<notin> set n"
  by (auto simp: validate_tap_name_def IFNAMSIZ_def Let_def)

lemma network_ok:
  "validate_network ctx spec = Inr () \<Longrightarrow> ns_mode (ms_network spec) = Tap \<Longrightarrow>
     \<exists>n. ns_tap (ms_network spec) = Some n \<and> validate_tap_name n = Inr ()
       \<and> tap_device_is_tap (vh_tap (vc_host ctx)) n = Inr True \<and> tun_is_accessible (vh_tap (vc_host ctx)) = Inr ()"
  by (auto simp: validate_network_def validate_tap_def and_then_Inr_iff split: if_splits)

definition rules_hold :: "ValidationContext \<Rightarrow> MachineSpec \<Rightarrow> bool" where
  "rules_hold ctx spec \<longleftrightarrow>
     ms_cpus spec \<noteq> 0 \<and> (\<forall>m. ms_cpus_max spec = Some m \<longrightarrow> ms_cpus spec \<le> m)
     \<and> as_bytes MINIMUM_MEMORY \<le> as_bytes (ms_memory spec)
     \<and> (\<forall>m. ms_memory_max spec = Some m \<longrightarrow> as_bytes (ms_memory spec) \<le> as_bytes m)
     \<and> (\<forall>b. vc_base_image_virtual_size ctx = Some b \<longrightarrow> as_bytes b \<le> as_bytes (ms_disk spec))
     \<and> (\<forall>a. ms_arch spec = Some a \<longrightarrow> vh_architecture (vc_host ctx) = Inr a)
     \<and> user_name (ms_user spec)
     \<and> (ns_mode (ms_network spec) = Tap \<longrightarrow>
          (\<exists>n. ns_tap (ms_network spec) = Some n \<and> tap_device_is_tap (vh_tap (vc_host ctx)) n = Inr True))
     \<and> is_ok (mount_shapes (ms_mounts spec))
     \<and> (\<forall>m \<in> set (ms_mounts spec). vh_path_exists (vc_host ctx) (mt_host m) = Inr True)
     \<and> \<not> (ci_user_data (ms_cloud_init spec) \<noteq> None \<and> ci_user_data_inline (ms_cloud_init spec) \<noteq> None)
     \<and> (\<forall>t. ci_user_data_inline (ms_cloud_init spec) = Some t \<longrightarrow> length t \<le> 32768 \<and> user_data_header_ok t)
     \<and> (\<forall>p. ci_password (ms_cloud_init spec) = Some p \<longrightarrow> p \<noteq> [] \<and> length p \<le> 256 \<and> \<not> contains_control p)
     \<and> (\<forall>k \<in> set (ci_ssh_authorized_keys (ms_cloud_init spec)). vc_public_key_ok ctx (trim k))
     \<and> (image_is_oci (image_as_str (ms_image spec)) \<longrightarrow> first_cloud_init_input (ms_cloud_init spec) = None)
     \<and> (\<forall>b. vs_binary (ms_vmm spec) = Some b \<longrightarrow> vh_path_is_executable (vc_host ctx) b = Inr True)
     \<and> (\<forall>ov. vs_config_overlay (ms_vmm spec) = Some ov \<longrightarrow> is_object ov)"

lemma for_each_enumerate:
  "for_each (\<lambda>(i, x). f i x) (enumerate n xs) = Inr () \<Longrightarrow> x \<in> set xs \<Longrightarrow> \<exists>i. f i x = Inr ()"
  by (induction xs arbitrary: n) (auto simp: and_then_Inr_iff)

lemma mounts_ok:
  "validate_mounts ctx spec = Inr () \<Longrightarrow> is_ok (mount_shapes (ms_mounts spec))
     \<and> (\<forall>m \<in> set (ms_mounts spec). vh_path_exists (vc_host ctx) (mt_host m) = Inr True)"
proof -
  assume ok: "validate_mounts ctx spec = Inr ()"
  have "vh_path_exists (vc_host ctx) (mt_host m) = Inr True" if "m \<in> set (ms_mounts spec)" for m
    using ok that unfolding validate_mounts_def and_then_Inr_iff
    by (auto simp: host_path_exists_def Let_def and_then_Inr_iff dest!: for_each_enumerate [where x = m])
  moreover have "is_ok (mount_shapes (ms_mounts spec))"
    using ok by (auto simp: validate_mounts_def validate_mount_spec_layout_def and_then_Inr_iff)
  ultimately show ?thesis by blast
qed

lemma authorized_key_ok: "validate_inline_authorized_key ctx i k = Inr () \<Longrightarrow> vc_public_key_ok ctx (trim k)"
  by (auto simp: validate_inline_authorized_key_def Let_def split: if_splits)

lemma inline_ok: "validate_inline_user_data t = Inr () \<longleftrightarrow> length t \<le> 32768 \<and> user_data_header_ok t"
  by (auto simp: validate_inline_user_data_def MAX_INLINE_USER_DATA_BYTES_def Let_def)

lemma password_ok: "validate_password p = Inr () \<longleftrightarrow> p \<noteq> [] \<and> length p \<le> 256 \<and> \<not> contains_control p"
  by (auto simp: validate_password_def MAX_PASSWORD_BYTES_def Let_def)

lemma refuse_ok:
  "refuse_cloud_init_on_oci spec = Inr () \<longleftrightarrow>
     (image_is_oci (image_as_str (ms_image spec)) \<longrightarrow> first_cloud_init_input (ms_cloud_init spec) = None)"
  by (auto simp: refuse_cloud_init_on_oci_def split: option.splits)

lemma cloud_init_ok:
  assumes "validate_cloud_init ctx spec = Inr ()"
  shows "\<not> (ci_user_data (ms_cloud_init spec) \<noteq> None \<and> ci_user_data_inline (ms_cloud_init spec) \<noteq> None)
     \<and> (\<forall>t. ci_user_data_inline (ms_cloud_init spec) = Some t \<longrightarrow> length t \<le> 32768 \<and> user_data_header_ok t)
     \<and> (\<forall>p. ci_password (ms_cloud_init spec) = Some p \<longrightarrow> p \<noteq> [] \<and> length p \<le> 256 \<and> \<not> contains_control p)
     \<and> (\<forall>k \<in> set (ci_ssh_authorized_keys (ms_cloud_init spec)). vc_public_key_ok ctx (trim k))
     \<and> (image_is_oci (image_as_str (ms_image spec)) \<longrightarrow> first_cloud_init_input (ms_cloud_init spec) = None)"
proof -
  have steps: "refuse_cloud_init_on_oci spec = Inr ()"
    "\<not> (ci_user_data (ms_cloud_init spec) \<noteq> None \<and> ci_user_data_inline (ms_cloud_init spec) \<noteq> None)"
    "when_some validate_inline_user_data (ci_user_data_inline (ms_cloud_init spec)) = Inr ()"
    "for_each (\<lambda>(index, key). validate_inline_authorized_key ctx index key)
       (enumerate 0 (ci_ssh_authorized_keys (ms_cloud_init spec))) = Inr ()"
    "when_some validate_password (ci_password (ms_cloud_init spec)) = Inr ()"
    using assms unfolding validate_cloud_init_def Let_def and_then_Inr_iff ensure_unit by auto
  have "\<forall>k \<in> set (ci_ssh_authorized_keys (ms_cloud_init spec)). vc_public_key_ok ctx (trim k)"
    using steps(4) authorized_key_ok by (blast dest: for_each_enumerate)
  then show ?thesis
    using steps by (simp add: refuse_ok when_some_ok inline_ok password_ok)
qed

lemma require_executable_ok:
  "require_executable ctx key path h = Inr () \<longleftrightarrow> vh_path_is_executable (vc_host ctx) path = Inr True"
  by (auto simp: require_executable_def split: sum.splits bool.splits)

lemma vmm_ok:
  assumes "validate_vmm ctx spec = Inr ()"
  shows "(\<forall>b. vs_binary (ms_vmm spec) = Some b \<longrightarrow> vh_path_is_executable (vc_host ctx) b = Inr True)
     \<and> (\<forall>ov. vs_config_overlay (ms_vmm spec) = Some ov \<longrightarrow> is_object ov)"
  using assms
  by (auto simp: validate_vmm_def and_then_Inr_iff when_some_ok require_executable_ok)

lemma validate_steps:
  assumes "validate_machine_spec_with_image_base ctx base spec0 = Inr (spec, w)"
  shows "\<exists>spec1 arch. resolve_spec_paths ctx spec0 = Inr spec1 \<and> validate_arch ctx spec1 = Inr arch
    \<and> validate_image ctx base arch spec1 = Inr (ms_image spec) \<and> spec = spec1\<lparr>ms_image := ms_image spec\<rparr>
    \<and> validate_capacity ctx spec = Inr w \<and> validate_user (ms_user spec) = Inr ()
    \<and> validate_network ctx spec = Inr () \<and> validate_mounts ctx spec = Inr ()
    \<and> validate_cloud_init ctx spec = Inr () \<and> validate_vmm ctx spec = Inr ()"
  using assms unfolding validate_machine_spec_with_image_base_def Let_def and_then_Inr_iff by auto


section \<open>Resolution is stable\<close>

lemma resolve_absolute: "is_absolute q \<Longrightarrow> resolve_input_path paths q base key = Inr q"
  by (cases "components q")
    (auto simp: resolve_input_path_def expand_input_path_def is_absolute_def components_def Let_def)

definition home_absolute :: "Paths \<Rightarrow> bool" where
  "home_absolute paths \<longleftrightarrow> (\<forall>h. p_home_dir paths = Some h \<longrightarrow> is_absolute h)"

lemma resolve_in_absolute:
  assumes "is_absolute (vc_machine_dir ctx)" "resolve_in ctx p key = Inr q"
  shows "is_absolute q"
  using assms is_absolute_join [of "vc_machine_dir ctx"]
  by (cases "expand_input_path (vc_paths ctx) p key")
    (auto simp: resolve_in_def resolve_input_path_def split: if_splits dest: sym)

lemma resolve_in_stable:
  "is_absolute (vc_machine_dir ctx) \<Longrightarrow> resolve_in ctx p key = Inr q \<Longrightarrow> resolve_in ctx q key' = Inr q"
  using resolve_in_absolute [of ctx p key q] resolve_absolute by (simp add: resolve_in_def)

lemma resolve_opt_stable:
  "is_absolute (vc_machine_dir ctx) \<Longrightarrow> resolve_opt ctx p key = Inr q \<Longrightarrow> resolve_opt ctx q key = Inr q"
  by (auto simp: resolve_opt_def and_then_Inr_iff split: option.splits dest: resolve_in_stable)

lemma resolve_firmware_stable:
  "is_absolute (vc_machine_dir ctx) \<Longrightarrow> resolve_firmware ctx f = Inr g \<Longrightarrow> resolve_firmware ctx g = Inr g"
  by (cases g) (auto simp: resolve_firmware_def and_then_Inr_iff firmware_path_def
      split: option.splits if_splits dest: resolve_in_stable [where key' = "''vmm.firmware''"])

lemma resolve_list_stable:
  assumes "list_all2 (\<lambda>x y. f x = Inr y) (enumerate n xs) ys"
    and "\<And>i x y. f (i, x) = Inr y \<Longrightarrow> f (i, y) = Inr y"
  shows "list_all2 (\<lambda>x y. f x = Inr y) (enumerate n ys) ys"
  using assms(1)
proof (induction xs arbitrary: n ys)
  case (Cons x xs)
  then show ?case using assms(2) by (auto simp: list_all2_Cons1)
qed simp

lemma resolve_spec_paths_stable:
  assumes "is_absolute (vc_machine_dir ctx)" "resolve_spec_paths ctx spec0 = Inr spec"
  shows "resolve_spec_paths ctx spec = Inr spec"
proof -
  let ?m = "\<lambda>(index, mount). and_then (resolve_in ctx (mt_host mount) (''mount['' @ show_nat index @ ''].host''))
            (\<lambda>h. Inr (mount\<lparr>mt_host := h\<rparr>))"
  let ?k = "\<lambda>(index, path). resolve_in ctx path (''cloud_init.ssh_keys['' @ show_nat index @ '']'')"
  obtain mounts ud nc keys bin fw where
      m: "list_all2 (\<lambda>x y. ?m x = Inr y) (enumerate 0 (ms_mounts spec0)) mounts"
    and ud: "resolve_opt ctx (ci_user_data (ms_cloud_init spec0)) ''cloud_init.user_data'' = Inr ud"
    and nc: "resolve_opt ctx (ci_network_config (ms_cloud_init spec0)) ''cloud_init.network_config'' = Inr nc"
    and k: "list_all2 (\<lambda>x y. ?k x = Inr y) (enumerate 0 (ci_ssh_keys (ms_cloud_init spec0))) keys"
    and bin: "resolve_opt ctx (vs_binary (ms_vmm spec0)) ''vmm.binary'' = Inr bin"
    and fw: "resolve_firmware ctx (vs_firmware (ms_vmm spec0)) = Inr fw"
    and spec: "spec = spec0\<lparr>ms_mounts := mounts,
               ms_cloud_init := (ms_cloud_init spec0)\<lparr>ci_user_data := ud,
                 ci_network_config := nc, ci_ssh_keys := keys\<rparr>,
               ms_vmm := (ms_vmm spec0)\<lparr>vs_binary := bin, vs_firmware := fw\<rparr>\<rparr>"
    using assms(2) unfolding resolve_spec_paths_def and_then_Inr_iff map_r_Inr_iff by auto
  have "?m (i, y) = Inr y" if "?m (i, x) = Inr y" for i x y
    using that resolve_in_stable [OF assms(1), of "mt_host x"] by (auto simp: and_then_Inr_iff)
  then have m': "map_r ?m (enumerate 0 mounts) = Inr mounts"
    unfolding map_r_Inr_iff by (rule resolve_list_stable [OF m])
  have "?k (i, y) = Inr y" if "?k (i, x) = Inr y" for i x y
    using that resolve_in_stable [OF assms(1), of x] by simp
  then have k': "map_r ?k (enumerate 0 keys) = Inr keys"
    unfolding map_r_Inr_iff by (rule resolve_list_stable [OF k])
  show ?thesis
    unfolding resolve_spec_paths_def spec
    using m' k' resolve_opt_stable [OF assms(1) ud] resolve_opt_stable [OF assms(1) nc]
      resolve_opt_stable [OF assms(1) bin] resolve_firmware_stable [OF assms(1) fw]
    by simp
qed

lemma resolve_spec_paths_image:
  "resolve_spec_paths ctx s = Inr t \<Longrightarrow> resolve_spec_paths ctx (s\<lparr>ms_image := i\<rparr>) = Inr (t\<lparr>ms_image := i\<rparr>)"
  unfolding resolve_spec_paths_def and_then_Inr_iff by auto

text \<open>
  Resolving the paths of a validated spec again, wherever the spec is read from later,
  changes nothing: validation stores absolute paths only.
\<close>

lemma validated_paths_stable:
  assumes "validate_machine_spec ctx spec0 = Inr (spec, warnings)"
    and "is_absolute (vc_machine_dir ctx)"
  shows "resolve_spec_paths ctx spec = Inr spec"
proof -
  obtain spec1 where r: "resolve_spec_paths ctx spec0 = Inr spec1" and spec: "spec = spec1\<lparr>ms_image := ms_image spec\<rparr>"
    using validate_steps assms(1) unfolding validate_machine_spec_def by blast
  show ?thesis
    using resolve_spec_paths_image [OF resolve_spec_paths_stable [OF assms(2) r], of "ms_image spec"] spec
    by metis
qed

section \<open>OCI machines take no cloud-init input\<close>

lemma classify_display: "oci_valid r \<Longrightarrow> classify (oci_display r) = Some OciRegistryHost"
proof -
  assume v: "oci_valid r"
  then have "split_once (CHR ''/'') (oci_display r)
      = Some (or_registry r, or_repository r @ tag_or_digest_display (or_reference r))"
    using registry_no_sep [of "or_registry r"]
    by (simp add: split_once_Some_iff oci_display_def oci_valid_def registry_valid_def)
  then show ?thesis
    using v display_no_scheme [OF v] by (simp add: classify_def oci_valid_def registry_valid_def)
qed

lemma oci_image_normalized:
  assumes "oci_parse s = Inr r"
  shows "image_is_oci (oci_display r)"
  using oci.parse_valid [OF assms] oci.reparse [OF assms] classify_display
  by (simp add: image_is_oci_def)

text \<open>
  When an image reference selects the OCI branch (it is no local file, is not pinned, is
  classified as OCI and parses), the validated spec carries its canonical reference and has no
  cloud-init input at all: nothing a guest without cloud-init would silently ignore.
\<close>

lemma oci_machine_has_no_cloud_init:
  assumes "validate_machine_spec ctx spec0 = Inr (spec, warnings)"
    and "classify (image_as_str (ms_image spec0)) \<noteq> None"
    and "oci_parse (image_as_str (ms_image spec0)) = Inr r"
    and "vc_pinned_image_ref ctx = None"
    and "\<And>p. vh_path_exists (vc_host ctx) p \<noteq> Inr True"
  shows "ms_image spec = ImageRef (oci_display r) \<and> first_cloud_init_input (ms_cloud_init spec) = None"
proof -
  obtain spec1 arch where r: "resolve_spec_paths ctx spec0 = Inr spec1"
    and img: "validate_image ctx (vc_machine_dir ctx) arch spec1 = Inr (ms_image spec)"
    and ci: "validate_cloud_init ctx spec = Inr ()"
    using validate_steps assms(1) unfolding validate_machine_spec_def by blast
  have "ms_image spec1 = ms_image spec0"
    using r by (auto simp: resolve_spec_paths_def and_then_Inr_iff)
  then have image: "ms_image spec = ImageRef (oci_display r)"
    using img assms(2-5)
    by (auto simp: validate_image_def Let_def and_then_Inr_iff host_path_exists_def split: if_splits)
  then show ?thesis using cloud_init_ok [OF ci] oci_image_normalized [OF assms(3)] by simp
qed

section \<open>Errors without a field\<close>

lemma mount_error_field [simp]: "field (mount_error i f m h) = None"
  by (simp add: mount_error_def)

lemma component_lengths_field: "check_component_lengths i f cs = Inl e \<Longrightarrow> field e = None"
  by (induction i f cs rule: check_component_lengths.induct) (auto split: if_splits)

lemma control_bytes_field: "check_control_bytes p i cs = Inl e \<Longrightarrow> field e = None"
  by (induction p i cs rule: check_control_bytes.induct) (auto split: if_splits)

lemma path_checks_field:
  "validate_path_bytes p i f = Inl e \<Longrightarrow> field e = None"
  "validate_canonical_spelling p i f = Inl e \<Longrightarrow> field e = None"
  by (auto simp: validate_path_bytes_def validate_canonical_spelling_def noncanonical_path_error_def
      split: if_splits dest: component_lengths_field)

lemma mount_checks_field:
  "validate_mount_tag t i = Inl e \<Longrightarrow> field e = None"
  "validate_host_spelling p i = Inl e \<Longrightarrow> field e = None"
  "validate_guest_path p i = Inl e \<Longrightarrow> field e = None"
  "refuse_overlap i f ps p h = Inl e \<Longrightarrow> field e = None"
  by (auto simp: validate_mount_tag_def validate_host_spelling_def validate_guest_path_def refuse_overlap_def
      and_then_Inl_iff Let_def split: if_splits option.splits dest: path_checks_field control_bytes_field)

lemma mount_loop_field: "mount_shapes_loop before tags shapes rest = Inl e \<Longrightarrow> field e = None"
  by (induction before tags shapes rest rule: mount_shapes_loop.induct)
    (auto simp: Let_def and_then_Inl_iff split: option.splits dest: mount_checks_field)

text \<open>
  An error about the layout of the mounts does not carry the field it is about, unlike the
  errors built by the validator itself.
\<close>

lemma mount_layout_error_has_no_field:
  assumes "validate_mount_spec_layout mounts = Inl e"
  shows "kind e = InvalidSpec \<longrightarrow> field e = None"
  using assms
  by (auto simp: validate_mount_spec_layout_def mount_shapes_def and_then_Inl_iff
      split: if_splits dest: mount_loop_field)

section \<open>A spec that passes\<close>

definition demo_host :: ValidationHost where
  "demo_host = \<lparr>vh_architecture = Inr X86_64, vh_cpu_count = 4, vh_path_exists = (\<lambda>_. Inr False),
     vh_path_is_readable = (\<lambda>_. Inr False), vh_path_is_file = (\<lambda>_. Inr False),
     vh_canonicalize_regular_nofollow = (\<lambda>_. Inl \<lparr>io_kind = IoNotFound, io_text = []\<rparr>),
     vh_path_is_executable = (\<lambda>_. Inr False),
     vh_read_regular_file = (\<lambda>_ _. Inl \<lparr>io_kind = IoNotFound, io_text = []\<rparr>),
     vh_tap = \<lparr>tap_device_is_tap = (\<lambda>_. Inr False), tun_is_accessible = Inr ()\<rparr>\<rparr>"

definition demo_context :: ValidationContext where
  "demo_context = \<lparr>vc_host = demo_host, vc_paths = demo_paths, vc_machine_dir = ''/m'',
     vc_catalog = \<lparr>entries = [(''ubuntu:24.04'', demo_entry)]\<rparr>, vc_base_image_virtual_size = None,
     vc_pinned_image_ref = None, vc_url_parse = (\<lambda>_. None), vc_public_key_ok = (\<lambda>_. False)\<rparr>"

definition demo_oci_spec :: MachineSpec where
  "demo_oci_spec = machine_spec_default\<lparr>ms_image := ImageRef ''docker://nginx''\<rparr>"

lemma demo_validates:
  "is_ok (validate_machine_spec demo_context machine_spec_default)"
  "is_ok (validate_machine_spec demo_context demo_oci_spec)"
  by code_simp+

lemma demo_results:
  "\<exists>spec w. validate_machine_spec demo_context machine_spec_default = Inr (spec, w)"
  "\<exists>spec w. validate_machine_spec demo_context demo_oci_spec = Inr (spec, w)"
  using demo_validates by (auto simp: is_ok_iff)


end
