(* ===== verification/Bytes.thy ===== *)
theory Bytes
  imports Prelude
begin

text \<open>
  Integers as bytes: \<open>to_le_bytes\<close>, \<open>from_le_bytes\<close> and their big-endian forms, which the
  config frame of the guest and the DHCP client use. One contract, \<open>byte_codec\<close>, says that a
  fixed-width field is read back from its place in a longer message; it is interpreted for
  every width and byte order the code uses.
\<close>

section \<open>Values in base 256\<close>

fun le_bytes :: "nat \<Rightarrow> nat \<Rightarrow> u8 list" where
  "le_bytes 0 v = []"
| "le_bytes (Suc n) v = of_nat (v mod 256) # le_bytes n (v div 256)"

fun le_value :: "u8 list \<Rightarrow> nat" where
  "le_value [] = 0"
| "le_value (b # bs) = unat b + 256 * le_value bs"

lemma length_le_bytes [simp]: "length (le_bytes n v) = n"
  by (induction n arbitrary: v) auto

lemma le_value_bytes: "le_value (le_bytes n v) = v mod 256 ^ n"
proof (induction n arbitrary: v)
  case 0
  then show ?case by simp
next
  case (Suc n)
  have "unat (of_nat (v mod 256) :: u8) = v mod 256" by (rule unat_of_nat_u8) simp
  then show ?case using Suc by (simp add: mod_mult2_eq)
qed

lemma le_value_less: "le_value bs < 256 ^ length bs"
proof (induction bs)
  case Nil
  then show ?case by simp
next
  case (Cons b bs)
  have "Suc (le_value bs) \<le> 256 ^ length bs" using Cons by simp
  then have "256 * Suc (le_value bs) \<le> 256 * 256 ^ length bs" by (rule mult_le_mono2)
  then show ?case using unat_u8_less [of b] unfolding le_value.simps list.size by (simp del: unat_u8_less)
qed

lemma le_bytes_value: "le_bytes (length bs) (le_value bs) = bs"
proof (induction bs)
  case Nil
  then show ?case by simp
next
  case (Cons b bs)
  have "unat b < 256" by simp
  then show ?case using Cons by simp
qed

section \<open>The integers of the standard library\<close>

definition to_le_bytes32 :: "u32 \<Rightarrow> u8 list" where
  "to_le_bytes32 w = le_bytes 4 (unat w)"

definition from_le_bytes32 :: "u8 list \<Rightarrow> u32" where
  "from_le_bytes32 bs = of_nat (le_value bs)"

definition to_be_bytes16 :: "u16 \<Rightarrow> u8 list" where
  "to_be_bytes16 w = rev (le_bytes 2 (unat w))"

definition from_be_bytes16 :: "u8 list \<Rightarrow> u16" where
  "from_be_bytes16 bs = of_nat (le_value (rev bs))"

definition to_be_bytes32 :: "u32 \<Rightarrow> u8 list" where
  "to_be_bytes32 w = rev (le_bytes 4 (unat w))"

definition from_be_bytes32 :: "u8 list \<Rightarrow> u32" where
  "from_be_bytes32 bs = of_nat (le_value (rev bs))"

section \<open>The contract of a fixed-width field\<close>

text \<open>\<open>&bytes[a..b]\<close> for \<open>a \<le> b \<le> bytes.len()\<close>.\<close>

definition slice :: "nat \<Rightarrow> nat \<Rightarrow> 'a list \<Rightarrow> 'a list" where
  "slice a b xs = take (b - a) (drop a xs)"

lemma length_slice [simp]: "length (slice a b xs) = min (b - a) (length xs - a)"
  by (simp add: slice_def)

locale byte_codec =
  fixes enc :: "'a \<Rightarrow> u8 list"
    and dec :: "u8 list \<Rightarrow> 'a"
    and width :: nat
  assumes enc_width: "length (enc a) = width"
    and dec_enc: "dec (enc a) = a"
    and enc_dec: "length bs = width \<Longrightarrow> enc (dec bs) = bs"
begin

lemma dec_field: "length front = n \<Longrightarrow> m = n + width \<Longrightarrow> dec (slice n m (front @ enc a @ rest)) = a"
  by (simp add: slice_def enc_width dec_enc)

lemma enc_inject: "enc a = enc b \<longleftrightarrow> a = b"
  by (metis dec_enc)

lemma dec_inject: "length bs = width \<Longrightarrow> length cs = width \<Longrightarrow> dec bs = dec cs \<longleftrightarrow> bs = cs"
  by (metis enc_dec)

end

lemma unat_le_value32: "length bs = 4 \<Longrightarrow> unat (of_nat (le_value bs) :: u32) = le_value bs"
  using le_value_less [of bs] by (intro unat_of_nat_u32) simp

lemma unat_le_value16: "length bs = 2 \<Longrightarrow> unat (of_nat (le_value bs) :: u16) = le_value bs"
  using le_value_less [of bs] by (intro unat_of_nat_u16) simp

lemma le_bytes_value_len: "length bs = n \<Longrightarrow> le_bytes n (le_value bs) = bs"
  using le_bytes_value by blast

interpretation le32: byte_codec to_le_bytes32 from_le_bytes32 4
  by unfold_locales
     (simp_all add: to_le_bytes32_def from_le_bytes32_def le_value_bytes unat_le_value32 le_bytes_value_len)

interpretation be32: byte_codec to_be_bytes32 from_be_bytes32 4
  by unfold_locales
     (simp_all add: to_be_bytes32_def from_be_bytes32_def le_value_bytes unat_le_value32 le_bytes_value_len)

interpretation be16: byte_codec to_be_bytes16 from_be_bytes16 2
  by unfold_locales
     (simp_all add: to_be_bytes16_def from_be_bytes16_def le_value_bytes unat_le_value16 le_bytes_value_len)

lemmas bytes_length [simp] = le32.enc_width be32.enc_width be16.enc_width
lemmas bytes_decode [simp] = le32.dec_enc be32.dec_enc be16.dec_enc

end
