(* ===== verification/Init_Proto.thy ===== *)
theory Init_Proto
  imports Bytes Spec
begin

text \<open>
  The config document of OCI guests and its container:
  \<^verbatim>\<open>firestone-initproto/src/lib.rs\<close> (frame and environment merge), the host's writer in
  \<^verbatim>\<open>firestone-core/src/initconfig.rs\<close> and the guest's reader in
  \<^verbatim>\<open>firestone-init/src/config.rs\<close>. The two programs share one frame; the theorem below is
  that the guest reads the document the host wrote. \<open>serde_json\<close> and the SHA-256 digest are
  arguments.
\<close>

section \<open>The document\<close>

datatype InitNetwork = InitDhcp | InitNone

fun init_network_as_str :: "InitNetwork \<Rightarrow> string" where
  "init_network_as_str InitDhcp = ''dhcp''"
| "init_network_as_str InitNone = ''none''"

record InitConfig =
  ic_hostname :: string
  ic_entrypoint :: "string list"
  ic_cmd :: "string list"
  ic_env :: "string list"
  ic_workdir :: "string option"
  ic_user :: "string option"
  ic_network :: InitNetwork
  ic_disk_size_bytes :: u64

definition CONFIG_MAGIC :: "u8 list" where
  "CONFIG_MAGIC = [0x46, 0x53, 0x54, 0x4E, 0x49, 0x4E, 0x49, 0x54]"

definition CONFIG_FORMAT_VERSION :: u32 where "CONFIG_FORMAT_VERSION = 1"
definition CONFIG_HEADER_LEN :: nat where "CONFIG_HEADER_LEN = 16"
definition MAX_CONFIG_JSON_BYTES :: u32 where "MAX_CONFIG_JSON_BYTES = 65536"
definition CONFIG_DISK_ALIGNMENT :: nat where "CONFIG_DISK_ALIGNMENT = 4096"

datatype FrameError =
    TooShort nat
  | BadMagic
  | UnsupportedVersion u32
  | LengthTooLarge u32
  | Truncated u32 nat
  | FrameJson string

datatype EncodeError = TooLarge nat | EncodeJson string

definition magic_str :: string where
  "magic_str = map (\<lambda>b. char_of (unat b)) CONFIG_MAGIC"

fun frame_error_display :: "FrameError \<Rightarrow> string" where
  "frame_error_display (TooShort available) =
     ''config disk holds '' @ show_nat available @ '' bytes; a frame header needs ''
       @ show_nat CONFIG_HEADER_LEN"
| "frame_error_display BadMagic =
     ''config disk does not start with the '' @ magic_str @ '' magic''"
| "frame_error_display (UnsupportedVersion found) =
     ''config disk declares format version '' @ show_nat (unat found)
       @ ''; this build reads version '' @ show_nat (unat CONFIG_FORMAT_VERSION)"
| "frame_error_display (LengthTooLarge declared) =
     ''config disk declares '' @ show_nat (unat declared) @ '' JSON bytes; the limit is ''
       @ show_nat (unat MAX_CONFIG_JSON_BYTES)"
| "frame_error_display (Truncated declared available) =
     ''config disk declares '' @ show_nat (unat declared) @ '' JSON bytes but holds ''
       @ show_nat available"
| "frame_error_display (FrameJson source) = ''config document is invalid: '' @ source"

fun encode_error_display :: "EncodeError \<Rightarrow> string" where
  "encode_error_display (TooLarge len) =
     ''config document is '' @ show_nat len @ '' bytes; the limit is ''
       @ show_nat (unat MAX_CONFIG_JSON_BYTES)"
| "encode_error_display (EncodeJson source) = ''cannot serialize config document: '' @ source"

section \<open>The frame\<close>

definition encode_frame ::
  "(InitConfig \<Rightarrow> (string, u8 list) result) \<Rightarrow> InitConfig \<Rightarrow> (EncodeError, u8 list) result" where
  "encode_frame to_vec config =
     and_then (map_err EncodeJson (to_vec config)) (\<lambda>json.
       if length json \<ge> 2 ^ 32 then Inl (TooLarge (length json))
       else
         let len = (of_nat (length json) :: u32)
         in if len > MAX_CONFIG_JSON_BYTES then Inl (TooLarge (length json))
            else Inr (CONFIG_MAGIC @ to_le_bytes32 CONFIG_FORMAT_VERSION @ to_le_bytes32 len @ json))"

definition read_u32_le :: "u8 list \<Rightarrow> u32" where
  "read_u32_le bytes =
     (let len = min 4 (length bytes)
      in from_le_bytes32 (take len bytes @ replicate (4 - len) 0))"

definition decode_frame ::
  "(u8 list \<Rightarrow> (string, InitConfig) result) \<Rightarrow> u8 list \<Rightarrow> (FrameError, InitConfig) result" where
  "decode_frame from_slice bytes =
     (if length bytes < CONFIG_HEADER_LEN then Inl (TooShort (length bytes))
      else
        let header = take CONFIG_HEADER_LEN bytes; body = drop CONFIG_HEADER_LEN bytes
        in if slice 0 8 header \<noteq> CONFIG_MAGIC then Inl BadMagic
        else
          let version = read_u32_le (slice 8 12 header)
          in if version \<noteq> CONFIG_FORMAT_VERSION then Inl (UnsupportedVersion version)
          else
            let declared = read_u32_le (slice 12 16 header)
            in if declared > MAX_CONFIG_JSON_BYTES then Inl (LengthTooLarge declared)
            else if length body < unat declared then Inl (Truncated declared (length body))
            else map_err FrameJson (from_slice (take (unat declared) body)))"

section \<open>Environment\<close>

definition env_key :: "string \<Rightarrow> string" where
  "env_key entry = (case split_once (CHR ''='') entry of Some (key, _) \<Rightarrow> key | None \<Rightarrow> entry)"

fun replace_env :: "string list \<Rightarrow> string \<Rightarrow> string list" where
  "replace_env [] entry = [entry]"
| "replace_env (existing # rest) entry =
     (if env_key existing = env_key entry then entry # rest else existing # replace_env rest entry)"

definition merge_env :: "string list \<Rightarrow> string list \<Rightarrow> string list" where
  "merge_env base overrides = fold (\<lambda>entry merged. replace_env merged entry) (base @ overrides) []"

section \<open>The host's writer (initconfig.rs)\<close>

record OciImageConfig =
  oi_env :: "string list"
  oi_entrypoint :: "string list"
  oi_cmd :: "string list"
  oi_working_dir :: "string option"
  oi_user :: "string option"

definition render_init_config ::
  "string \<Rightarrow> MachineSpec \<Rightarrow> OciImageConfig \<Rightarrow> string list \<Rightarrow> InitConfig" where
  "render_init_config name spec img env_overrides =
     \<lparr>ic_hostname = name,
      ic_entrypoint = oi_entrypoint img,
      ic_cmd = oi_cmd img,
      ic_env = merge_env (oi_env img) env_overrides,
      ic_workdir = oi_working_dir img,
      ic_user = oi_user img,
      ic_network = (case ns_mode (ms_network spec) of NetNone \<Rightarrow> InitNone | Passt \<Rightarrow> InitDhcp | Tap \<Rightarrow> InitDhcp),
      ic_disk_size_bytes = as_bytes (ms_disk spec)\<rparr>"

text \<open>\<open>usize::div_ceil\<close> and \<open>Vec::resize\<close>.\<close>

definition div_ceil :: "nat \<Rightarrow> nat \<Rightarrow> nat" where
  "div_ceil n m = (n + m - 1) div m"

definition vec_resize :: "'a list \<Rightarrow> nat \<Rightarrow> 'a \<Rightarrow> 'a list" where
  "vec_resize xs n x = (if n \<le> length xs then take n xs else xs @ replicate (n - length xs) x)"

definition build_config_disk ::
  "(InitConfig \<Rightarrow> (string, u8 list) result) \<Rightarrow> InitConfig \<Rightarrow> (FirestoneError, u8 list) result" where
  "build_config_disk to_vec config =
     and_then
       (map_err
         (\<lambda>source. with_hint ''reduce the image entrypoint, cmd and environment''
            (error_new InvalidSpec
              (''cannot build the firestone-init config disk: '' @ encode_error_display source)))
         (encode_frame to_vec config)) (\<lambda>bytes.
       let alignment = CONFIG_DISK_ALIGNMENT;
           padded = div_ceil (length bytes) alignment * alignment
       in Inr (vec_resize bytes (max padded alignment) 0))"

definition hex_digit :: "nat \<Rightarrow> char" where
  "hex_digit n = ''0123456789abcdef'' ! n"

definition to_be_bytes64 :: "u64 \<Rightarrow> u8 list" where
  "to_be_bytes64 w = rev (le_bytes 8 (unat w))"

definition config_disk_identity :: "(u8 list \<Rightarrow> u8 list) \<Rightarrow> string \<Rightarrow> u8 list \<Rightarrow> string" where
  "config_disk_identity sha256 name framed =
     (let digest = sha256 (map (\<lambda>c. of_nat (of_char c)) ''firestone-init-config-v1'' @ [0]
                 @ to_be_bytes64 (of_nat (length framed)) @ framed);
          prefix = concat (map (\<lambda>b. [hex_digit (unat b div 16), hex_digit (unat b mod 16)]) (take 6 digest))
      in ''iid-'' @ name @ ''-'' @ prefix)"

definition inspection_document ::
  "(InitConfig \<Rightarrow> (string, u8 list) result) \<Rightarrow> InitConfig \<Rightarrow> (FirestoneError, u8 list) result" where
  "inspection_document to_vec_pretty config =
     and_then
       (map_err
         (\<lambda>_. with_hint ''use UTF-8 values in the image runtime configuration''
            (error_new InvalidSpec ''cannot render the firestone-init config document''))
         (to_vec_pretty config)) (\<lambda>document. Inr (document @ [0x0A]))"

section \<open>The guest's reader (config.rs)\<close>

datatype ConfigError = ConfigIo string string | ConfigFrame FrameError

fun config_error_display :: "ConfigError \<Rightarrow> string" where
  "config_error_display (ConfigIo path source) = ''cannot read '' @ path @ '': '' @ source"
| "config_error_display (ConfigFrame source) = frame_error_display source"

text \<open>\<open>device\<close> is what opening and reading the device yields: an I/O error or its bytes.\<close>

definition read_config ::
  "(u8 list \<Rightarrow> (string, InitConfig) result) \<Rightarrow> string \<Rightarrow> (IoError, u8 list) result
   \<Rightarrow> (ConfigError, InitConfig) result" where
  "read_config from_slice path device =
     (let limit = CONFIG_HEADER_LEN + unat MAX_CONFIG_JSON_BYTES
      in and_then (map_err (\<lambda>source. ConfigIo path (io_text source)) device) (\<lambda>contents.
           map_err ConfigFrame (decode_frame from_slice (take limit contents))))"

section \<open>Laws of the frame\<close>

lemma read_u32_le_bytes: "length bs = 4 \<Longrightarrow> read_u32_le bs = from_le_bytes32 bs"
  by (simp add: read_u32_le_def)

lemma encode_frame_Inr_iff:
  "encode_frame to_vec config = Inr framed \<longleftrightarrow>
     (\<exists>json. to_vec config = Inr json \<and> length json \<le> 65536 \<and>
        framed = CONFIG_MAGIC @ to_le_bytes32 1 @ to_le_bytes32 (of_nat (length json)) @ json)"
proof (cases "to_vec config")
  case (Inr json)
  show ?thesis
  proof (cases "length json < 2 ^ 32")
    case True
    then have "(of_nat (length json) :: u32) > 65536 \<longleftrightarrow> length json > 65536"
      by (simp add: word_less_nat_alt unat_of_nat_u32)
    with Inr True show ?thesis
      by (auto simp: encode_frame_def Let_def MAX_CONFIG_JSON_BYTES_def CONFIG_FORMAT_VERSION_def)
  next
    case False
    with Inr show ?thesis by (auto simp: encode_frame_def)
  qed
qed (simp add: encode_frame_def)

lemma length_CONFIG_MAGIC [simp]: "length CONFIG_MAGIC = 8"
  by (simp add: CONFIG_MAGIC_def)

lemma frame_slices:
  assumes "length v = 4" and "length n = 4"
  shows "slice 0 8 (CONFIG_MAGIC @ v @ n) = CONFIG_MAGIC"
    and "slice 8 12 (CONFIG_MAGIC @ v @ n) = v"
    and "slice 12 16 (CONFIG_MAGIC @ v @ n) = n"
    and "take 16 (CONFIG_MAGIC @ v @ n @ rest) = CONFIG_MAGIC @ v @ n"
    and "drop 16 (CONFIG_MAGIC @ v @ n @ rest) = rest"
  using assms by (simp_all add: slice_def)

text \<open>What the decoder makes of a well-formed header, branch by branch.\<close>

lemma decode_frame_parts:
  "decode_frame from_slice (CONFIG_MAGIC @ to_le_bytes32 v @ to_le_bytes32 n @ rest) =
     (if v \<noteq> 1 then Inl (UnsupportedVersion v)
      else if n > 65536 then Inl (LengthTooLarge n)
      else if length rest < unat n then Inl (Truncated n (length rest))
      else map_err FrameJson (from_slice (take (unat n) rest)))"
  by (simp only: decode_frame_def CONFIG_HEADER_LEN_def frame_slices bytes_length Let_def)
     (simp add: CONFIG_FORMAT_VERSION_def MAX_CONFIG_JSON_BYTES_def read_u32_le_bytes)

text \<open>Whatever follows the document on the device is ignored.\<close>

lemma decode_encode:
  assumes "encode_frame to_vec config = Inr framed"
    and "\<And>json. to_vec config = Inr json \<Longrightarrow> from_slice json = Inr config"
  shows "decode_frame from_slice (framed @ padding) = Inr config"
proof -
  obtain json where json: "to_vec config = Inr json" "length json \<le> 65536"
    and framed: "framed = CONFIG_MAGIC @ to_le_bytes32 1 @ to_le_bytes32 (of_nat (length json)) @ json"
    using assms(1) by (auto simp: encode_frame_Inr_iff)
  have n: "unat (of_nat (length json) :: u32) = length json"
    using json(2) by (intro unat_of_nat_u32) simp
  then have "\<not> (of_nat (length json) :: u32) > 65536" using json(2) by (simp add: word_less_nat_alt)
  then show ?thesis
    using assms(2) [OF json(1)] decode_frame_parts [of from_slice 1 "of_nat (length json)" "json @ padding"]
    by (simp add: framed n)
qed

lemma encode_frame_length:
  assumes "encode_frame to_vec config = Inr framed"
  shows "16 \<le> length framed" and "length framed \<le> 65552"
  using assms by (auto simp: encode_frame_Inr_iff)

lemma div_ceil_mult:
  assumes "0 < m"
  shows "n \<le> div_ceil n m * m" and "div_ceil n m * m < n + m"
proof -
  have "n + m - 1 = div_ceil n m * m + (n + m - 1) mod m"
    by (simp add: div_ceil_def)
  moreover have "(n + m - 1) mod m < m" using assms by simp
  ultimately show "n \<le> div_ceil n m * m" "div_ceil n m * m < n + m" using assms by linarith+
qed

lemma build_config_disk_Inr:
  assumes "build_config_disk to_vec config = Inr disk"
  shows "\<exists>framed padding. encode_frame to_vec config = Inr framed \<and> disk = framed @ padding
           \<and> set padding \<subseteq> {0} \<and> 4096 dvd length disk \<and> length padding < 4096"
proof -
  obtain framed where f: "encode_frame to_vec config = Inr framed"
    and disk: "disk = vec_resize framed (max (div_ceil (length framed) 4096 * 4096) 4096) 0"
    using assms by (auto simp: build_config_disk_def CONFIG_DISK_ALIGNMENT_def Let_def and_then_Inr_iff)
  have l: "0 < length framed" using encode_frame_length(1) [OF f] by linarith
  note d = div_ceil_mult [of 4096 "length framed", simplified]
  have m: "max (div_ceil (length framed) 4096 * 4096) 4096 = div_ceil (length framed) 4096 * 4096"
    using l d(1) by (cases "div_ceil (length framed) 4096") auto
  let ?pad = "replicate (div_ceil (length framed) 4096 * 4096 - length framed) (0 :: u8)"
  have "disk = framed @ ?pad" using d(1) by (auto simp: disk m vec_resize_def)
  moreover have "length (framed @ ?pad) = div_ceil (length framed) 4096 * 4096" using d(1) by simp
  ultimately show ?thesis using f d(2) by (intro exI [of _ framed] exI [of _ ?pad]) auto
qed

lemma read_config_disk:
  assumes "build_config_disk to_vec config = Inr disk"
    and "\<And>json. to_vec config = Inr json \<Longrightarrow> from_slice json = Inr config"
  shows "read_config from_slice path (Inr disk) = Inr config"
proof -
  obtain framed padding where f: "encode_frame to_vec config = Inr framed" and disk: "disk = framed @ padding"
    using build_config_disk_Inr [OF assms(1)] by blast
  have "take 65552 disk = framed @ take (65552 - length framed) padding"
    using encode_frame_length(2) [OF f] by (simp add: disk)
  then show ?thesis
    by (simp add: read_config_def CONFIG_HEADER_LEN_def MAX_CONFIG_JSON_BYTES_def
        decode_encode [OF f assms(2)])
qed

text \<open>
  C8. The guest reads what the host wrote: if the host builds a config disk for a document, the
  disk is a whole number of 4 KiB blocks, and the guest, reading at most the header and 64 KiB
  from the device, decodes exactly that document, whatever padding follows it. The one fact
  used of the JSON library is that it reads back what it wrote for this document.
\<close>

theorem guest_reads_host_config:
  assumes "build_config_disk to_vec config = Inr disk"
    and "\<And>json. to_vec config = Inr json \<Longrightarrow> from_slice json = Inr config"
  shows "read_config from_slice path (Inr disk) = Inr config
     \<and> 4096 dvd length disk \<and> length disk \<le> 69632"
proof -
  obtain framed padding where f: "encode_frame to_vec config = Inr framed"
    and disk: "disk = framed @ padding" and pad: "4096 dvd length disk" "length padding < 4096"
    using build_config_disk_Inr [OF assms(1)] by blast
  have small: "length disk < 69649" using encode_frame_length(2) [OF f] pad(2) disk by simp
  obtain k where k: "length disk = 4096 * k" using pad(1) by (elim dvdE)
  have "k \<le> 17" using small unfolding k by linarith
  then have "length disk \<le> 69632" by (simp add: k)
  with read_config_disk [OF assms] show ?thesis using pad(1) by simp
qed

definition demo_config :: InitConfig where
  "demo_config = \<lparr>ic_hostname = ''app'', ic_entrypoint = [], ic_cmd = [''sh''], ic_env = [],
     ic_workdir = None, ic_user = None, ic_network = InitDhcp, ic_disk_size_bytes = 1048576\<rparr>"

theorem guest_reads_host_config_witness:
  "\<exists>disk. build_config_disk (\<lambda>_. Inr [123, 125]) demo_config = Inr disk \<and>
     read_config (\<lambda>_. Inr demo_config) ''/dev/vdb'' (Inr disk) = Inr demo_config"
proof -
  have "is_ok (build_config_disk (\<lambda>_. Inr [123, 125]) demo_config)"
    by (simp add: build_config_disk_def encode_frame_def Let_def MAX_CONFIG_JSON_BYTES_def)
  then obtain disk where "build_config_disk (\<lambda>_. Inr [123, 125]) demo_config = Inr disk"
    by (auto simp: is_ok_iff)
  with guest_reads_host_config [OF this, of "\<lambda>_. Inr demo_config" "''/dev/vdb''"]
  show ?thesis by blast
qed

section \<open>Laws of the environment merge\<close>

lemma replace_env_append:
  "env_key e \<notin> set (map env_key es) \<Longrightarrow> replace_env es e = es @ [e]"
  by (induction es) auto

lemma replace_env_map:
  assumes "distinct ks" and "env_key e \<in> set ks" and "\<forall>k \<in> set ks. env_key (g k) = k"
  shows "replace_env (map g ks) e = map (g(env_key e := e)) ks"
  using assms by (induction ks) auto

text \<open>The keys of a list in the order of their first appearance.\<close>

definition keys_in_order :: "string list \<Rightarrow> string list" where
  "keys_in_order es = rev (remdups (rev (map env_key es)))"

definition last_with_key :: "string list \<Rightarrow> string \<Rightarrow> string" where
  "last_with_key es k = last (filter (\<lambda>e. env_key e = k) es)"

lemma keys_in_order_snoc:
  "keys_in_order (es @ [e]) =
     (if env_key e \<in> set (map env_key es) then keys_in_order es else keys_in_order es @ [env_key e])"
  by (simp add: keys_in_order_def)

lemma set_keys_in_order [simp]: "set (keys_in_order es) = env_key ` set es"
  by (simp add: keys_in_order_def)

lemma last_with_key_snoc:
  "last_with_key (es @ [e]) k = (if env_key e = k then e else last_with_key es k)"
  by (simp add: last_with_key_def)

lemma last_with_key_key: "k \<in> env_key ` set es \<Longrightarrow> env_key (last_with_key es k) = k"
proof -
  assume "k \<in> env_key ` set es"
  then have "filter (\<lambda>e. env_key e = k) es \<noteq> []" by (auto simp: filter_empty_conv)
  then show ?thesis unfolding last_with_key_def using last_in_set by fastforce
qed

lemma merge_env_map:
  "merge_env base overrides =
     map (last_with_key (base @ overrides)) (keys_in_order (base @ overrides))"
proof -
  have main: "fold (\<lambda>entry merged. replace_env merged entry) es [] =
        map (last_with_key es) (keys_in_order es)" for es
  proof (induction es rule: rev_induct)
    case Nil
    then show ?case by (simp add: keys_in_order_def)
  next
    case (snoc e es)
    have d: "distinct (keys_in_order es)" by (simp add: keys_in_order_def)
    have upd: "last_with_key (es @ [e]) = (last_with_key es)(env_key e := e)"
      by (auto simp: last_with_key_snoc)
    show ?case
    proof (cases "env_key e \<in> env_key ` set es")
      case True
      then show ?thesis
        using snoc replace_env_map [OF d, of e "last_with_key es"] last_with_key_key
        by (simp add: keys_in_order_snoc upd)
    next
      case False
      have "env_key e \<notin> set (map env_key (map (last_with_key es) (keys_in_order es)))"
        using False last_with_key_key by auto
      then have "replace_env (map (last_with_key es) (keys_in_order es)) e =
          map (last_with_key es) (keys_in_order es) @ [e]"
        by (rule replace_env_append)
      moreover have "map (last_with_key (es @ [e])) (keys_in_order es) = map (last_with_key es) (keys_in_order es)"
        using False by (auto simp: last_with_key_snoc)
      ultimately show ?thesis using False snoc
        by (auto simp: keys_in_order_snoc last_with_key_snoc)
    qed
  qed
  show ?thesis by (simp only: merge_env_def main)
qed

text \<open>
  The merged environment has one entry per variable, in the order in which the variables
  first appear in the image's list followed by the overrides, and each entry is the last one
  given for its variable: an override replaces a value in place and new variables are appended.
\<close>

lemma merge_env_spec:
  "merge_env base overrides =
     map (last_with_key (base @ overrides)) (keys_in_order (base @ overrides))
   \<and> distinct (map env_key (merge_env base overrides))"
proof -
  have "map env_key (merge_env base overrides) = keys_in_order (base @ overrides)"
    using last_with_key_key [of _ "base @ overrides"] unfolding merge_env_map map_map
    by (intro map_idI) (auto simp: image_iff)
  moreover have "distinct (keys_in_order (base @ overrides))" by (simp add: keys_in_order_def)
  ultimately show ?thesis by (simp add: merge_env_map)
qed

end
