(* ===== verification/Dhcp.thy ===== *)
theory Dhcp
  imports Bytes Rust_Text
begin

unbundle bit_operations_syntax

text \<open>
  The one-shot DHCP codec of the guest's PID 1, \<^verbatim>\<open>firestone-init/src/dhcp.rs\<close>: requests,
  replies, and the IPv4 and UDP headers around them, as byte lists. An address \<open>[u8; 4]\<close> is a
  list of four bytes.
\<close>

section \<open>Constants and types\<close>

definition FIXED_LEN :: nat where "FIXED_LEN = 240"
definition MIN_PACKET_LEN :: nat where "MIN_PACKET_LEN = 300"
definition MAGIC_COOKIE :: "u8 list" where "MAGIC_COOKIE = [99, 130, 83, 99]"
definition OP_REQUEST :: u8 where "OP_REQUEST = 1"
definition OP_REPLY :: u8 where "OP_REPLY = 2"
definition HTYPE_ETHERNET :: u8 where "HTYPE_ETHERNET = 1"
definition HLEN_ETHERNET :: u8 where "HLEN_ETHERNET = 6"
definition FLAG_BROADCAST :: u16 where "FLAG_BROADCAST = 0x8000"
definition OPTION_PAD :: u8 where "OPTION_PAD = 0"
definition OPTION_SUBNET_MASK :: u8 where "OPTION_SUBNET_MASK = 1"
definition OPTION_ROUTER :: u8 where "OPTION_ROUTER = 3"
definition OPTION_DNS :: u8 where "OPTION_DNS = 6"
definition OPTION_REQUESTED_IP :: u8 where "OPTION_REQUESTED_IP = 50"
definition OPTION_LEASE_TIME :: u8 where "OPTION_LEASE_TIME = 51"
definition OPTION_MESSAGE_TYPE :: u8 where "OPTION_MESSAGE_TYPE = 53"
definition OPTION_SERVER_ID :: u8 where "OPTION_SERVER_ID = 54"
definition OPTION_PARAMETER_LIST :: u8 where "OPTION_PARAMETER_LIST = 55"
definition OPTION_END :: u8 where "OPTION_END = 255"
definition DHCP_DISCOVER :: u8 where "DHCP_DISCOVER = 1"
definition DHCP_OFFER :: u8 where "DHCP_OFFER = 2"
definition DHCP_REQUEST :: u8 where "DHCP_REQUEST = 3"
definition DHCP_ACK :: u8 where "DHCP_ACK = 5"
definition DHCP_NAK :: u8 where "DHCP_NAK = 6"
definition CLIENT_PORT :: u16 where "CLIENT_PORT = 68"
definition SERVER_PORT :: u16 where "SERVER_PORT = 67"
definition PROTO_UDP :: u8 where "PROTO_UDP = 17"
definition IPV4_HEADER_LEN :: nat where "IPV4_HEADER_LEN = 20"
definition UDP_HEADER_LEN :: nat where "UDP_HEADER_LEN = 8"

lemmas dhcp_consts =
  FIXED_LEN_def MIN_PACKET_LEN_def MAGIC_COOKIE_def OP_REQUEST_def OP_REPLY_def HTYPE_ETHERNET_def
  HLEN_ETHERNET_def FLAG_BROADCAST_def OPTION_PAD_def OPTION_SUBNET_MASK_def OPTION_ROUTER_def
  OPTION_DNS_def OPTION_REQUESTED_IP_def OPTION_LEASE_TIME_def OPTION_MESSAGE_TYPE_def
  OPTION_SERVER_ID_def OPTION_PARAMETER_LIST_def OPTION_END_def DHCP_DISCOVER_def DHCP_OFFER_def
  DHCP_REQUEST_def DHCP_ACK_def DHCP_NAK_def CLIENT_PORT_def SERVER_PORT_def PROTO_UDP_def
  IPV4_HEADER_LEN_def UDP_HEADER_LEN_def

record DhcpReply =
  dr_message_type :: u8
  dr_xid :: u32
  dr_address :: "u8 list"
  dr_subnet_mask :: "u8 list option"
  dr_routers :: "u8 list list"
  dr_resolvers :: "u8 list list"
  dr_server_id :: "u8 list option"
  dr_lease_seconds :: "u32 option"

datatype DhcpError = DhcpTooShort | NotAReply | BadCookie | NoMessageType

fun dhcp_error_display :: "DhcpError \<Rightarrow> string" where
  "dhcp_error_display DhcpTooShort = ''DHCP packet is shorter than the BOOTP fixed area''"
| "dhcp_error_display NotAReply = ''DHCP packet is not a BOOTP reply''"
| "dhcp_error_display BadCookie = ''DHCP packet has no magic cookie''"
| "dhcp_error_display NoMessageType = ''DHCP packet carries no message-type option''"

section \<open>Requests\<close>

text \<open>\<open>packet[i..i + bytes.len()].copy_from_slice(&bytes)\<close>, in range.\<close>

definition copy_at :: "nat \<Rightarrow> 'a list \<Rightarrow> 'a list \<Rightarrow> 'a list" where
  "copy_at i bytes packet = take i packet @ bytes @ drop (i + length bytes) packet"

definition bootp_header :: "u32 \<Rightarrow> u8 list \<Rightarrow> u8 list" where
  "bootp_header xid mac =
     (let packet = replicate FIXED_LEN 0;
          packet = packet[0 := OP_REQUEST, 1 := HTYPE_ETHERNET, 2 := HLEN_ETHERNET];
          packet = copy_at 4 (to_be_bytes32 xid) packet;
          packet = copy_at 10 (to_be_bytes16 FLAG_BROADCAST) packet;
          packet = copy_at 28 mac packet
      in copy_at 236 MAGIC_COOKIE packet)"

definition finish :: "u8 list \<Rightarrow> u8 list" where
  "finish packet =
     (let packet = packet @ [OPTION_END]
      in if length packet < MIN_PACKET_LEN
         then packet @ replicate (MIN_PACKET_LEN - length packet) OPTION_PAD else packet)"

definition encode_discover :: "u32 \<Rightarrow> u8 list \<Rightarrow> u8 list" where
  "encode_discover xid mac =
     finish (bootp_header xid mac @ [OPTION_MESSAGE_TYPE, 1, DHCP_DISCOVER]
       @ [OPTION_PARAMETER_LIST, 3, OPTION_SUBNET_MASK, OPTION_ROUTER, OPTION_DNS])"

definition encode_request :: "u32 \<Rightarrow> u8 list \<Rightarrow> u8 list \<Rightarrow> u8 list \<Rightarrow> u8 list" where
  "encode_request xid mac requested server_id =
     finish (bootp_header xid mac @ [OPTION_MESSAGE_TYPE, 1, DHCP_REQUEST]
       @ [OPTION_SERVER_ID, 4] @ server_id @ [OPTION_REQUESTED_IP, 4] @ requested
       @ [OPTION_PARAMETER_LIST, 3, OPTION_SUBNET_MASK, OPTION_ROUTER, OPTION_DNS])"

section \<open>Replies\<close>

definition ipv4 :: "u8 list \<Rightarrow> u8 list option" where
  "ipv4 val = (if length val < 4 then None else Some (take 4 val))"

fun ipv4_list :: "u8 list \<Rightarrow> u8 list list" where
  "ipv4_list (a # b # c # d # rest) = [a, b, c, d] # ipv4_list rest"
| "ipv4_list _ = []"

text \<open>The body of the \<open>match\<close> on one option, on the reply and the message type seen so far.\<close>

definition apply_option :: "u8 \<Rightarrow> u8 list \<Rightarrow> u8 option \<times> DhcpReply \<Rightarrow> u8 option \<times> DhcpReply" where
  "apply_option code val state =
     (case state of (message_type, reply) \<Rightarrow>
        if code = OPTION_MESSAGE_TYPE then (if val = [] then None else Some (hd val), reply)
        else if code = OPTION_SUBNET_MASK then (message_type, reply\<lparr>dr_subnet_mask := ipv4 val\<rparr>)
        else if code = OPTION_ROUTER then (message_type, reply\<lparr>dr_routers := ipv4_list val\<rparr>)
        else if code = OPTION_DNS then (message_type, reply\<lparr>dr_resolvers := ipv4_list val\<rparr>)
        else if code = OPTION_SERVER_ID then (message_type, reply\<lparr>dr_server_id := ipv4 val\<rparr>)
        else if code = OPTION_LEASE_TIME then
          (message_type, reply\<lparr>dr_lease_seconds :=
             (if length val < 4 then None else Some (from_be_bytes32 (take 4 val)))\<rparr>)
        else state)"

text \<open>The loop over the options, on what is left of the packet.\<close>

function parse_options :: "u8 list \<Rightarrow> u8 option \<times> DhcpReply \<Rightarrow> u8 option \<times> DhcpReply" where
  "parse_options [] state = state"
| "parse_options (code # rest) state =
     (if code = OPTION_PAD then parse_options rest state
      else if code = OPTION_END then state
      else case rest of
             [] \<Rightarrow> state
           | len # body \<Rightarrow>
               if length body < unat len then state
               else parse_options (drop (unat len) body) (apply_option code (take (unat len) body) state))"
  by pat_completeness auto
termination by (relation "measure (length \<circ> fst)") auto

definition parse_reply :: "u8 list \<Rightarrow> (DhcpError, DhcpReply) result" where
  "parse_reply packet =
     (if length packet < FIXED_LEN then Inl DhcpTooShort
      else if packet ! 0 \<noteq> OP_REPLY then Inl NotAReply
      else if slice 236 240 packet \<noteq> MAGIC_COOKIE then Inl BadCookie
      else
        let reply = \<lparr>dr_message_type = 0, dr_xid = from_be_bytes32 (slice 4 8 packet),
              dr_address = slice 16 20 packet, dr_subnet_mask = None, dr_routers = [],
              dr_resolvers = [], dr_server_id = None, dr_lease_seconds = None\<rparr>
        in case parse_options (drop FIXED_LEN packet) (None, reply) of
             (None, _) \<Rightarrow> Inl NoMessageType
           | (Some message_type, reply) \<Rightarrow> Inr (reply\<lparr>dr_message_type := message_type\<rparr>))"

section \<open>IPv4 and UDP\<close>

fun chunk_sum :: "u32 \<Rightarrow> u8 list \<Rightarrow> u32" where
  "chunk_sum acc (a # b # rest) = chunk_sum (acc + ucast (from_be_bytes16 [a, b])) rest"
| "chunk_sum acc [a] = acc + ucast (from_be_bytes16 [a, 0])"
| "chunk_sum acc [] = acc"

function fold_carries :: "u32 \<Rightarrow> u32" where
  "fold_carries acc =
     (if drop_bit 16 acc \<noteq> 0 then fold_carries ((acc AND 0xFFFF) + drop_bit 16 acc) else acc)"
  by pat_completeness auto

lemma unat_carry_parts:
  "unat (drop_bit 16 (w :: u32)) = unat w div 65536"
  "unat (w AND 0xFFFF) = unat w mod 65536"
proof -
  show "unat (drop_bit 16 w) = unat w div 65536"
    by (simp add: drop_bit_eq_div unat_div)
  have "w AND 0xFFFF = take_bit 16 w"
    by (simp add: take_bit_eq_mask mask_eq_exp_minus_1)
  then show "unat (w AND 0xFFFF) = unat w mod 65536"
    by (simp add: take_bit_eq_mod unat_mod)
qed

lemma unat_carry_step:
  "unat ((w AND 0xFFFF) + drop_bit 16 (w :: u32)) = unat w mod 65536 + unat w div 65536"
proof -
  have "unat w div 65536 < 65536" using unat_u32_less [of w] by (simp add: div_less_iff_less_mult)
  then show ?thesis
    by (simp add: unat_word_ariths unat_carry_parts)
qed

termination fold_carries
proof (relation "measure unat")
  fix w :: u32
  assume "drop_bit 16 w \<noteq> 0"
  then have "unat (drop_bit 16 w) \<noteq> 0" by (simp add: unat_eq_0)
  then have "0 < unat w div 65536" by (simp add: unat_carry_parts)
  moreover have "unat w = unat w div 65536 * 65536 + unat w mod 65536" by (simp only: div_mult_mod_eq)
  ultimately have "unat w mod 65536 + unat w div 65536 < unat w" by linarith
  then show "((w AND 0xFFFF) + drop_bit 16 w, w) \<in> measure unat" by (simp add: unat_carry_step)
qed simp

declare fold_carries.simps [simp del]

definition ones_complement_checksum :: "u8 list \<Rightarrow> u16" where
  "ones_complement_checksum bytes = NOT (ucast (fold_carries (chunk_sum 0 bytes)))"

definition ipv4_udp_datagram ::
  "u8 list \<Rightarrow> u8 list \<Rightarrow> u16 \<Rightarrow> u16 \<Rightarrow> u16 \<Rightarrow> u8 list \<Rightarrow> u8 list" where
  "ipv4_udp_datagram source destination source_port destination_port identification payload =
     (let total_length = IPV4_HEADER_LEN + UDP_HEADER_LEN + length payload;
          datagram = [0x45, 0x00] @ to_be_bytes16 (of_nat total_length) @ to_be_bytes16 identification
            @ to_be_bytes16 0 @ [64, PROTO_UDP] @ to_be_bytes16 0 @ source @ destination;
          checksum = ones_complement_checksum (take IPV4_HEADER_LEN datagram);
          datagram = copy_at 10 (to_be_bytes16 checksum) datagram
      in datagram @ to_be_bytes16 source_port @ to_be_bytes16 destination_port
           @ to_be_bytes16 (of_nat (UDP_HEADER_LEN + length payload)) @ to_be_bytes16 0 @ payload)"

record UdpDatagram =
  ud_source :: "u8 list"
  ud_destination_port :: u16
  ud_payload :: "u8 list"

text \<open>\<open>bytes.get(a..b)\<close>.\<close>

definition get_range :: "nat \<Rightarrow> nat \<Rightarrow> 'a list \<Rightarrow> 'a list option" where
  "get_range a b xs = (if a \<le> b \<and> b \<le> length xs then Some (slice a b xs) else None)"

definition parse_ipv4_udp :: "u8 list \<Rightarrow> UdpDatagram option" where
  "parse_ipv4_udp bytes =
     (if length bytes < IPV4_HEADER_LEN \<or> drop_bit 4 (bytes ! 0) \<noteq> 4 then None
      else
        let header_len = unat (bytes ! 0 AND 0x0F) * 4
        in if header_len < IPV4_HEADER_LEN \<or> length bytes < header_len + UDP_HEADER_LEN then None
        else if bytes ! 9 \<noteq> PROTO_UDP then None
        else if from_be_bytes16 (slice 6 8 bytes) AND 0x1FFF \<noteq> 0 then None
        else
          let total_len = unat (from_be_bytes16 (slice 2 4 bytes));
              available = min total_len (length bytes)
          in case get_range header_len available bytes of
               None \<Rightarrow> None
             | Some udp \<Rightarrow>
                 if length udp < UDP_HEADER_LEN then None
                 else
                   let udp_len = max (unat (from_be_bytes16 (slice 4 6 udp))) UDP_HEADER_LEN
                   in (case get_range UDP_HEADER_LEN (min udp_len (length udp)) udp of
                         None \<Rightarrow> None
                       | Some payload \<Rightarrow>
                           Some \<lparr>ud_source = slice 12 16 bytes,
                                 ud_destination_port = from_be_bytes16 (slice 2 4 udp),
                                 ud_payload = payload\<rparr>))"

section \<open>Text\<close>

fun mac_fields :: "u8 list \<Rightarrow> string list \<Rightarrow> u8 list option" where
  "mac_fields mac [] = (if length mac = 6 then Some mac else None)"
| "mac_fields mac (part # parts) =
     (if length mac = 6 then None
      else case parse_u8_hex part of None \<Rightarrow> None | Some b \<Rightarrow> mac_fields (mac @ [b]) parts)"

definition parse_mac :: "string \<Rightarrow> u8 list option" where
  "parse_mac val = mac_fields [] (split_on (CHR '':'') (trim val))"

definition format_ipv4 :: "u8 list \<Rightarrow> string" where
  "format_ipv4 address =
     show_nat (unat (address ! 0)) @ ''.'' @ show_nat (unat (address ! 1)) @ ''.''
       @ show_nat (unat (address ! 2)) @ ''.'' @ show_nat (unat (address ! 3))"

section \<open>Laws of the checksum\<close>

text \<open>The sum of a message as a natural number, 16 bits at a time.\<close>

fun words_sum :: "u8 list \<Rightarrow> nat" where
  "words_sum (a # b # rest) = unat (from_be_bytes16 [a, b]) + words_sum rest"
| "words_sum [a] = unat (from_be_bytes16 [a, 0])"
| "words_sum [] = 0"

lemma words_sum_le: "words_sum bs \<le> (length bs + 1) div 2 * 65535"
proof (induction bs rule: words_sum.induct)
  case (1 a b rest)
  have "unat (from_be_bytes16 [a, b]) \<le> 65535" using unat_u16_less [of "from_be_bytes16 [a, b]"] by linarith
  with 1 show ?case by simp
next
  case (2 a)
  have "unat (from_be_bytes16 [a, 0]) \<le> 65535" using unat_u16_less [of "from_be_bytes16 [a, 0]"] by linarith
  then show ?case by simp
qed simp

lemma chunk_sum_unat:
  "unat acc + words_sum bs < 2 ^ 32 \<Longrightarrow> unat (chunk_sum acc bs) = unat acc + words_sum bs"
  by (induction acc bs rule: chunk_sum.induct) (simp_all add: unat_word_ariths)

lemma words_sum_append: "even (length a) \<Longrightarrow> words_sum (a @ b) = words_sum a + words_sum b"
  by (induction a rule: words_sum.induct) auto

lemma words_sum_be16 [simp]: "words_sum (to_be_bytes16 w) = unat w"
proof -
  obtain a b where ab: "to_be_bytes16 w = [a, b]"
    using be16.enc_width [of w] by (auto simp: length_Suc_conv numeral_2_eq_2 simp del: be16.enc_width bytes_length)
  then have "from_be_bytes16 [a, b] = w" using be16.dec_enc [of w] by simp
  with ab show ?thesis by simp
qed

lemma fold_carries_spec:
  "unat (fold_carries w) < 65536 \<and> unat (fold_carries w) mod 65535 = unat w mod 65535
   \<and> (unat w \<noteq> 0 \<longrightarrow> unat (fold_carries w) \<noteq> 0)"
proof (induction w rule: fold_carries.induct)
  case (1 w)
  show ?case
  proof (cases "drop_bit 16 w = 0")
    case True
    then have "unat w div 65536 = 0" by (metis unat_0 unat_carry_parts(1))
    then show ?thesis using True by (simp add: fold_carries.simps [of w] div_eq_0_iff)
  next
    case False
    let ?n = "(w AND 0xFFFF) + drop_bit 16 w"
    have n: "unat ?n = unat w mod 65536 + unat w div 65536" by (rule unat_carry_step)
    have "unat w = unat w mod 65536 + (unat w div 65536 + unat w div 65536 * 65535)" by simp
    then have m: "unat w mod 65535 = unat ?n mod 65535" unfolding n
      by (metis add.assoc mod_mult_self1)
    have "unat w div 65536 \<noteq> 0" using False unat_eq_0 unat_carry_parts(1) by metis
    then have "unat ?n \<noteq> 0" unfolding n by simp
    with m 1 [OF False] False show ?thesis by (simp add: fold_carries.simps [of w])
  qed
qed

lemma unat_not16: "unat (NOT (w :: u16)) = 65535 - unat w"
proof -
  have "NOT w = - 1 - w" by (simp add: not_eq_complement)
  moreover have "unat (- 1 - w) = unat (- 1 :: u16) - unat w" by (rule unat_sub) simp
  moreover have "unat (- 1 :: u16) = 65535" by (simp add: unsigned_minus_1_eq_mask mask_eq_exp_minus_1)
  ultimately show ?thesis by simp
qed

lemma unat_checksum:
  assumes "words_sum bs < 2 ^ 32"
  shows "unat (ones_complement_checksum bs) = 65535 - unat (fold_carries (chunk_sum 0 bs))"
    and "unat (fold_carries (chunk_sum 0 bs)) mod 65535 = words_sum bs mod 65535"
    and "words_sum bs \<noteq> 0 \<Longrightarrow> unat (fold_carries (chunk_sum 0 bs)) \<noteq> 0"
proof -
  have u: "unat (chunk_sum 0 bs) = words_sum bs" using chunk_sum_unat [of 0 bs] assms by simp
  note f = fold_carries_spec [of "chunk_sum 0 bs"]
  then show "unat (ones_complement_checksum bs) = 65535 - unat (fold_carries (chunk_sum 0 bs))"
    unfolding ones_complement_checksum_def unat_not16 by (simp add: unat_ucast_32_16)
  show "unat (fold_carries (chunk_sum 0 bs)) mod 65535 = words_sum bs mod 65535" using f u by simp
  show "words_sum bs \<noteq> 0 \<Longrightarrow> unat (fold_carries (chunk_sum 0 bs)) \<noteq> 0" using f u by simp
qed

text \<open>Filling in the checksum makes the whole sum check to zero.\<close>

lemma checksum_closes:
  assumes "words_sum bs \<noteq> 0" and "words_sum bs < 2 ^ 31"
    and "words_sum cs = words_sum bs + unat (ones_complement_checksum bs)"
  shows "ones_complement_checksum cs = 0"
proof -
  let ?f = "unat (fold_carries (chunk_sum 0 bs))" and ?g = "unat (fold_carries (chunk_sum 0 cs))"
  have f: "?f < 65536" using fold_carries_spec by blast
  note b = unat_checksum [of bs]
  have cs: "words_sum cs = words_sum bs + (65535 - ?f)" using assms b(1) by simp
  then have small: "words_sum cs < 2 ^ 32" using assms(2) by simp
  note c = unat_checksum [OF small]
  have "words_sum bs mod 65535 = ?f mod 65535" using b(2) assms(2) by simp
  then have "words_sum cs mod 65535 = (?f + (65535 - ?f)) mod 65535"
    unfolding cs by (rule mod_add_cong) (rule refl)
  also have "\<dots> = 0" using f by simp
  finally have "?g mod 65535 = 0" using c(2) by simp
  moreover have "?g \<noteq> 0" using c(3) cs assms(1) by simp
  moreover have "?g < 65536" using fold_carries_spec by blast
  ultimately have "?g = 65535" by auto
  then have "unat (ones_complement_checksum cs) = 0" using c(1) by simp
  then show ?thesis by (simp add: unat_eq_0)
qed

unbundle bit_operations_syntax

section \<open>Laws of the datagram\<close>

definition ipv4_header :: "u16 \<Rightarrow> u16 \<Rightarrow> u16 \<Rightarrow> u8 list \<Rightarrow> u8 list \<Rightarrow> u8 list" where
  "ipv4_header total_length identification checksum source destination =
     [0x45, 0x00] @ to_be_bytes16 total_length @ to_be_bytes16 identification @ to_be_bytes16 0
       @ [64, PROTO_UDP] @ to_be_bytes16 checksum @ source @ destination"

lemma datagram_parts:
  assumes "length source = 4" and "length destination = 4"
  shows "ipv4_udp_datagram source destination sp dp ident payload =
    (let t = of_nat (28 + length payload)
     in ipv4_header t ident (ones_complement_checksum (ipv4_header t ident 0 source destination))
          source destination
        @ to_be_bytes16 sp @ to_be_bytes16 dp @ to_be_bytes16 (of_nat (8 + length payload))
        @ to_be_bytes16 0 @ payload)"
  using assms
  by (simp add: ipv4_udp_datagram_def ipv4_header_def copy_at_def Let_def
      IPV4_HEADER_LEN_def UDP_HEADER_LEN_def numeral_eq_Suc)

lemma words_sum_header:
  "words_sum (ipv4_header t i c s d) = words_sum (ipv4_header t i 0 s d) + unat c"
  unfolding ipv4_header_def by (simp add: words_sum_append)

lemma words_sum_header_bounds:
  assumes "length s = 4" and "length d = 4"
  shows "words_sum (ipv4_header t i c s d) \<noteq> 0" and "words_sum (ipv4_header t i c s d) < 2 ^ 31"
proof -
  have "from_be_bytes16 [0x45, 0] \<noteq> 0" by (simp add: from_be_bytes16_def)
  then show "words_sum (ipv4_header t i c s d) \<noteq> 0" by (simp add: ipv4_header_def unat_eq_0)
  have "words_sum (ipv4_header t i c s d) \<le> (20 + 1) div 2 * 65535"
    using words_sum_le [of "ipv4_header t i c s d"] assms by (simp add: ipv4_header_def)
  then show "words_sum (ipv4_header t i c s d) < 2 ^ 31" by simp
qed

lemma header_fields:
  assumes "length source = 4" and "length destination = 4"
    and "h = ipv4_header t i c source destination"
  shows "length h = 20" and "h ! 0 = 0x45" and "h ! 9 = PROTO_UDP"
    and "slice 2 4 (h @ rest) = to_be_bytes16 t" and "slice 6 8 (h @ rest) = to_be_bytes16 0"
    and "slice 12 16 (h @ rest) = source"
  using assms by (simp_all add: ipv4_header_def slice_def nth_append)

lemma parse_datagram:
  assumes "length source = 4" and "length destination = 4" and "length payload \<le> 65507"
  shows "parse_ipv4_udp (ipv4_udp_datagram source destination sp dp ident payload) =
    Some \<lparr>ud_source = source, ud_destination_port = dp, ud_payload = payload\<rparr>"
proof -
  define tl where "tl = (of_nat (28 + length payload) :: u16)"
  define ul where "ul = (of_nat (8 + length payload) :: u16)"
  define udp where "udp = to_be_bytes16 sp @ to_be_bytes16 dp @ to_be_bytes16 ul @ to_be_bytes16 0 @ payload"
  define h where "h = ipv4_header tl ident
      (ones_complement_checksum (ipv4_header tl ident 0 source destination)) source destination"
  have d: "ipv4_udp_datagram source destination sp dp ident payload = h @ udp"
    by (simp add: datagram_parts [OF assms(1,2)] h_def udp_def Let_def tl_def ul_def)
  have t: "unat tl = 28 + length payload" and u: "unat ul = 8 + length payload"
    unfolding tl_def ul_def using assms(3) by (intro unat_of_nat_u16; simp)+
  note hf = header_fields [OF assms(1,2) h_def]
  have lu: "length udp = 8 + length payload" by (simp add: udp_def)
  have n: "(h @ udp) ! 0 = 0x45" "(h @ udp) ! 9 = PROTO_UDP" using hf by (simp_all add: nth_append)
  have b: "drop_bit 4 (0x45 :: u8) = 4" "unat ((0x45 :: u8) AND 0x0F) = 5" by (simp_all add: drop_bit_eq_div)
  have s: "slice 20 (28 + length payload) (h @ udp) = udp" using hf lu by (simp add: slice_def)
  have us: "slice 4 6 udp = to_be_bytes16 ul" "slice 2 4 udp = to_be_bytes16 dp"
    "slice 8 (8 + length payload) udp = payload"
    by (simp_all add: udp_def slice_def)
  show ?thesis
    unfolding d parse_ipv4_udp_def IPV4_HEADER_LEN_def UDP_HEADER_LEN_def n b hf(4,5,6) bytes_decode
    using hf(1) lu us
    by (simp add: t u get_range_def s Let_def)
qed



section \<open>Laws of the options\<close>

text \<open>
  The option area of RFC 2132, as a server writes it: pad bytes and options of a code, a length
  byte and that many bytes.
\<close>

datatype dhcp_item = Pad | Opt u8 "u8 list"

fun encode_item :: "dhcp_item \<Rightarrow> u8 list" where
  "encode_item Pad = [OPTION_PAD]"
| "encode_item (Opt code val) = code # of_nat (length val) # val"

fun item_ok :: "dhcp_item \<Rightarrow> bool" where
  "item_ok Pad = True"
| "item_ok (Opt code val) = (code \<noteq> OPTION_PAD \<and> code \<noteq> OPTION_END \<and> length val < 256)"

fun apply_item :: "dhcp_item \<Rightarrow> u8 option \<times> DhcpReply \<Rightarrow> u8 option \<times> DhcpReply" where
  "apply_item Pad state = state"
| "apply_item (Opt code val) state = apply_option code val state"

lemma parse_options_item:
  assumes "item_ok item"
  shows "parse_options (encode_item item @ rest) state = parse_options rest (apply_item item state)"
proof (cases item)
  case (Opt code val)
  then have "unat (of_nat (length val) :: u8) = length val" using assms by (intro unat_of_nat_u8) simp
  then show ?thesis using Opt assms by simp
qed simp

lemma parse_options_items:
  assumes "\<forall>item \<in> set items. item_ok item"
  shows "parse_options (concat (map encode_item items) @ rest) state =
           parse_options rest (fold apply_item items state)"
  using assms by (induction items arbitrary: state) (simp_all add: parse_options_item)

lemma parse_options_end [simp]: "parse_options (OPTION_END # rest) state = state"
  by (simp add: dhcp_consts)

text \<open>
  A reply whose option area follows the standard is read option by option in order, the last
  option of a kind winning, up to the end marker and no further; the transaction id and the
  offered address come from their places in the fixed area. A reply without a message type is
  refused.
\<close>

lemma reply_options_read:
  assumes "length fixed = 236" and "hd fixed = OP_REPLY" and "\<forall>item \<in> set items. item_ok item"
  shows "parse_reply (fixed @ MAGIC_COOKIE @ concat (map encode_item items) @ OPTION_END # junk) =
    (case fold apply_item items (None, \<lparr>dr_message_type = 0, dr_xid = from_be_bytes32 (slice 4 8 fixed),
            dr_address = slice 16 20 fixed, dr_subnet_mask = None, dr_routers = [], dr_resolvers = [],
            dr_server_id = None, dr_lease_seconds = None\<rparr>) of
       (None, _) \<Rightarrow> Inl NoMessageType
     | (Some message_type, reply) \<Rightarrow> Inr (reply\<lparr>dr_message_type := message_type\<rparr>))"
proof -
  let ?opts = "concat (map encode_item items) @ OPTION_END # junk"
  let ?p = "fixed @ MAGIC_COOKIE @ ?opts"
  have ne: "fixed \<noteq> []" using assms(1) by auto
  have m: "length MAGIC_COOKIE = 4" by (simp add: MAGIC_COOKIE_def)
  have "\<not> length ?p < 240" "?p ! 0 = OP_REPLY" "slice 236 240 ?p = MAGIC_COOKIE"
    "slice 4 8 ?p = slice 4 8 fixed" "slice 16 20 ?p = slice 16 20 fixed" "drop 240 ?p = ?opts"
    using assms(1,2) m ne hd_conv_nth [OF ne] by (auto simp: slice_def nth_append)
  then show ?thesis
    unfolding parse_reply_def FIXED_LEN_def
    using parse_options_items [OF assms(3)] by (simp only: Let_def if_False not_False_eq_True parse_options_end simp_thms if_True)
qed

section \<open>Laws of the requests\<close>

lemma length_copy_at [simp]: "i + length bs \<le> length xs \<Longrightarrow> length (copy_at i bs xs) = length xs"
  by (simp add: copy_at_def)

lemma slice_copy_at_same: "i + length bs = j \<Longrightarrow> j \<le> length xs \<Longrightarrow> slice i j (copy_at i bs xs) = bs"
  by (auto simp: copy_at_def slice_def)

lemma slice_copy_at_other:
  assumes "b \<le> i \<or> i + length bs \<le> a" and "i + length bs \<le> length xs"
  shows "slice a b (copy_at i bs xs) = slice a b xs"
  using assms(1)
proof
  assume "b \<le> i"
  then have "take b (copy_at i bs xs) = take b xs" using assms(2) by (simp add: copy_at_def min_def)
  then show ?thesis by (simp add: slice_def drop_take [symmetric])
next
  assume "i + length bs \<le> a"
  then have "drop a (copy_at i bs xs) = drop a xs" using assms(2) by (simp add: copy_at_def)
  then show ?thesis by (simp add: slice_def)
qed

lemma bootp_header_fields:
  assumes "length mac = 6"
  shows "length (bootp_header xid mac) = 240"
    and "slice 4 8 (bootp_header xid mac) = to_be_bytes32 xid"
    and "slice 28 34 (bootp_header xid mac) = mac"
    and "slice 236 240 (bootp_header xid mac) = MAGIC_COOKIE"
  using assms
  by (simp_all add: bootp_header_def Let_def FIXED_LEN_def MAGIC_COOKIE_def
      slice_copy_at_same slice_copy_at_other)

definition request_items :: "u8 list \<Rightarrow> u8 list \<Rightarrow> dhcp_item list" where
  "request_items requested server_id =
     [Opt OPTION_MESSAGE_TYPE [DHCP_REQUEST], Opt OPTION_SERVER_ID server_id,
      Opt OPTION_REQUESTED_IP requested,
      Opt OPTION_PARAMETER_LIST [OPTION_SUBNET_MASK, OPTION_ROUTER, OPTION_DNS]]"

text \<open>
  The request that accepts an offer is a padded BOOTP message of exactly 300 bytes with the
  transaction id, the hardware address and the cookie in their places, followed by exactly
  the message type, the server's identifier, the requested address and the parameter list as
  standard options, the end marker and padding.
\<close>

lemma encode_request_format:
  assumes "length mac = 6" and "length requested = 4" and "length server_id = 4"
  shows "\<exists>pad. encode_request xid mac requested server_id =
           bootp_header xid mac @ concat (map encode_item (request_items requested server_id))
             @ OPTION_END # replicate pad OPTION_PAD
       \<and> length (encode_request xid mac requested server_id) = 300
       \<and> slice 4 8 (encode_request xid mac requested server_id) = to_be_bytes32 xid
       \<and> slice 28 34 (encode_request xid mac requested server_id) = mac
       \<and> slice 236 240 (encode_request xid mac requested server_id) = MAGIC_COOKIE"
proof -
  have eq: "encode_request xid mac requested server_id =
      bootp_header xid mac @ concat (map encode_item (request_items requested server_id))
        @ OPTION_END # replicate 39 OPTION_PAD"
    using assms
    by (simp add: encode_request_def finish_def request_items_def bootp_header_fields
        MIN_PACKET_LEN_def Let_def)
  have front: "slice a b (bootp_header xid mac @ ys) = slice a b (bootp_header xid mac)"
    if "b \<le> 240" for a b ys
    using that bootp_header_fields(1) [OF assms(1)] by (simp add: slice_def)
  show ?thesis unfolding eq
    using assms by (intro exI [of _ 39]) (simp add: front bootp_header_fields request_items_def)
qed

end
