(* ===== verification/Guest_Init.thy ===== *)
theory Guest_Init
  imports Init_Proto Dhcp
begin

unbundle bit_operations_syntax

text \<open>
  The guest's PID 1, \<^verbatim>\<open>firestone-init\<close>: account lookup (\<^verbatim>\<open>users.rs\<close>), the child to run
  (\<^verbatim>\<open>exec.rs\<close>), growing the root file system (\<^verbatim>\<open>resize.rs\<close>), the DHCP exchange
  (\<^verbatim>\<open>net.rs\<close>) and the boot sequence with its supervision loop (\<^verbatim>\<open>runtime.rs\<close>). System
  calls are arguments: what they returned is read from a record or from a list with one element
  per turn of a loop, and what the program does to the machine is a list of effects.
\<close>

section \<open>Accounts (users.rs)\<close>

record ResolvedUser =
  ru_uid :: u32
  ru_gid :: u32
  ru_home :: "string option"

definition user_root :: ResolvedUser where
  "user_root = \<lparr>ru_uid = 0, ru_gid = 0, ru_home = None\<rparr>"

datatype UserError = Malformed string | UnknownUser string | UnknownGroup string

fun user_error_display :: "UserError \<Rightarrow> string" where
  "user_error_display (Malformed val) = ''image user '' @ quoted val @ '' is not '' @ quoted ''user[:group]''"
| "user_error_display (UnknownUser name) =
     ''image user '' @ quoted name @ '' is not in /etc/passwd and is not a numeric uid''"
| "user_error_display (UnknownGroup name) =
     ''image group '' @ quoted name @ '' is not in /etc/group and is not a numeric gid''"

record PasswdEntry =
  pe_name :: string
  pe_uid :: u32
  pe_gid :: u32
  pe_home :: "string option"

definition significant_lines :: "string \<Rightarrow> string list" where
  "significant_lines contents =
     filter (\<lambda>line. line \<noteq> [] \<and> \<not> starts_with ''#'' line) (map trim_end (lines_of contents))"

definition passwd_line :: "string \<Rightarrow> PasswdEntry option" where
  "passwd_line line =
     (let parts = split_on (CHR '':'') line
      in if length parts < 6 then None
         else case (parse_u32 (parts ! 2), parse_u32 (parts ! 3)) of
                (Some uid, Some gid) \<Rightarrow>
                  Some \<lparr>pe_name = parts ! 0, pe_uid = uid, pe_gid = gid,
                        pe_home = (if parts ! 5 = [] then None else Some (parts ! 5))\<rparr>
              | _ \<Rightarrow> None)"

definition parse_passwd :: "string \<Rightarrow> PasswdEntry list" where
  "parse_passwd passwd = List.map_filter passwd_line (significant_lines passwd)"

definition entry_user :: "PasswdEntry \<Rightarrow> ResolvedUser" where
  "entry_user entry = \<lparr>ru_uid = pe_uid entry, ru_gid = pe_gid entry, ru_home = pe_home entry\<rparr>"

definition resolve_user_part :: "string \<Rightarrow> PasswdEntry list \<Rightarrow> (UserError, ResolvedUser) result" where
  "resolve_user_part val entries =
     (case find (\<lambda>entry. pe_name entry = val) entries of
        Some entry \<Rightarrow> Inr (entry_user entry)
      | None \<Rightarrow>
          (case parse_u32 val of
             Some uid \<Rightarrow>
               (case find (\<lambda>entry. pe_uid entry = uid) entries of
                  None \<Rightarrow> Inr \<lparr>ru_uid = uid, ru_gid = uid, ru_home = None\<rparr>
                | Some entry \<Rightarrow> Inr (entry_user entry))
           | None \<Rightarrow> if val = ''root'' then Inr user_root else Inl (UnknownUser val)))"

fun find_group :: "string \<Rightarrow> string list \<Rightarrow> u32 option" where
  "find_group val [] = None"
| "find_group val (line # rest) =
     (case split_on (CHR '':'') line of
        name # _ # gid # _ \<Rightarrow>
          (if name = val then
             (case parse_u32 gid of Some g \<Rightarrow> Some g | None \<Rightarrow> find_group val rest)
           else find_group val rest)
      | _ \<Rightarrow> find_group val rest)"

definition resolve_group_part :: "string \<Rightarrow> string \<Rightarrow> (UserError, u32) result" where
  "resolve_group_part val group_file =
     (case parse_u32 val of
        Some gid \<Rightarrow> Inr gid
      | None \<Rightarrow>
          (case find_group val (significant_lines group_file) of
             Some gid \<Rightarrow> Inr gid
           | None \<Rightarrow> if val = ''root'' then Inr 0 else Inl (UnknownGroup val)))"

definition resolve_user :: "string \<Rightarrow> string \<Rightarrow> string \<Rightarrow> (UserError, ResolvedUser) result" where
  "resolve_user val passwd group_file =
     (let trimmed = trim val
      in if trimmed = [] then Inr user_root
         else and_then
           (case split_once (CHR '':'') trimmed of
              Some (user, rest) \<Rightarrow>
                if CHR '':'' \<in> set rest \<or> user = [] \<or> rest = [] then Inl (Malformed trimmed)
                else Inr (user, Some rest)
            | None \<Rightarrow> Inr (trimmed, None)) (\<lambda>(user_part, group_part).
         and_then (resolve_user_part user_part (parse_passwd passwd)) (\<lambda>resolved.
           case group_part of
             None \<Rightarrow> Inr resolved
           | Some g \<Rightarrow> and_then (resolve_group_part g group_file) (\<lambda>gid. Inr (resolved\<lparr>ru_gid := gid\<rparr>)))))"

section \<open>The child (exec.rs)\<close>

record ChildPlan =
  cp_program :: string
  cp_args :: "string list"
  cp_env :: "(string \<times> string) list"
  cp_workdir :: "string option"

datatype PlanError = NoCommand | EmptyProgram

fun plan_error_display :: "PlanError \<Rightarrow> string" where
  "plan_error_display NoCommand =
     ''image config has an empty entrypoint and an empty cmd; nothing to run''"
| "plan_error_display EmptyProgram = ''image config starts with an empty program name''"

definition child_argv :: "string list \<Rightarrow> string list \<Rightarrow> (PlanError, string list) result" where
  "child_argv entrypoint cmd =
     (case entrypoint @ cmd of
        [] \<Rightarrow> Inl NoCommand
      | program # _ \<Rightarrow> if program = [] then Inl EmptyProgram else Inr (entrypoint @ cmd))"

fun set_pair :: "(string \<times> string) list \<Rightarrow> string \<Rightarrow> string \<Rightarrow> (string \<times> string) list" where
  "set_pair [] key val = [(key, val)]"
| "set_pair ((existing, old) # rest) key val =
     (if existing = key then (existing, val) # rest else (existing, old) # set_pair rest key val)"

definition env_value :: "string \<Rightarrow> string" where
  "env_value entry = (case split_once (CHR ''='') entry of None \<Rightarrow> [] | Some (_, val) \<Rightarrow> val)"

definition child_env :: "string list \<Rightarrow> (string \<times> string) list" where
  "child_env env = fold (\<lambda>entry pairs. set_pair pairs (env_key entry) (env_value entry)) env []"

definition plan_child :: "InitConfig \<Rightarrow> (PlanError, ChildPlan) result" where
  "plan_child config =
     and_then (child_argv (ic_entrypoint config) (ic_cmd config)) (\<lambda>argv.
       Inr \<lparr>cp_program = hd argv, cp_args = tl argv, cp_env = child_env (ic_env config),
            cp_workdir = (case ic_workdir config of
                            Some w \<Rightarrow> if w = [] then None else Some w | None \<Rightarrow> None)\<rparr>)"

section \<open>The root file system (resize.rs)\<close>

definition resize_target_blocks :: "u64 \<Rightarrow> u64 \<Rightarrow> u64 \<Rightarrow> u64 \<Rightarrow> u64 option" where
  "resize_target_blocks requested_bytes device_bytes block_size current_blocks =
     (if block_size = 0 then None
      else
        let capped = min requested_bytes device_bytes;
            target = capped div block_size
        in if target > current_blocks then Some target else None)"

section \<open>The network (net.rs)\<close>

definition INTERFACE :: string where "INTERFACE = ''eth0''"
definition DHCP_BUDGET_SECS :: nat where "DHCP_BUDGET_SECS = 5"
definition MAX_DATAGRAM :: nat where "MAX_DATAGRAM = 2048"

record Lease =
  le_address :: "u8 list"
  le_netmask :: "u8 list"
  le_gateway :: "u8 list option"
  le_resolvers :: "u8 list list"

datatype Errno = EAGAIN | EINTR | EBUSY | EINVAL | Errno string

datatype NetError =
    Syscall string Errno
  | NetTimeout
  | NetRefused
  | NetIo string string

text \<open>One turn of the receive loop: the clock at its head and what \<open>recv\<close> returned.\<close>

record RecvTurn =
  rt_now :: nat
  rt_recv :: "(Errno, u8 list) result"

definition transaction_id :: "u32 \<Rightarrow> u8 list \<Rightarrow> u32" where
  "transaction_id seed mac =
     seed XOR word_rotl 7 (from_be_bytes32 (slice 2 6 mac)) XOR 0x4653544E"

text \<open>The reply a received datagram carries for this client and transaction.\<close>

definition matching_reply :: "u32 \<Rightarrow> u8 list \<Rightarrow> DhcpReply option" where
  "matching_reply xid bytes =
     (case parse_ipv4_udp (take MAX_DATAGRAM bytes) of
        None \<Rightarrow> None
      | Some datagram \<Rightarrow>
          if ud_destination_port datagram \<noteq> CLIENT_PORT then None
          else (case parse_reply (ud_payload datagram) of
                  Inl _ \<Rightarrow> None
                | Inr reply \<Rightarrow> if dr_xid reply \<noteq> xid then None else Some reply))"

fun wait_for ::
  "u32 \<Rightarrow> nat \<Rightarrow> u8 \<Rightarrow> RecvTurn list \<Rightarrow> ((NetError, DhcpReply) result \<times> RecvTurn list) option" where
  "wait_for xid deadline expected [] = None"
| "wait_for xid deadline expected (t # ts) =
     (if \<not> rt_now t < deadline then Some (Inl NetTimeout, ts)
      else case rt_recv t of
             Inl errno \<Rightarrow>
               if errno = EAGAIN \<or> errno = EINTR then wait_for xid deadline expected ts
               else Some (Inl (Syscall ''receive a DHCP packet'' errno), ts)
           | Inr bytes \<Rightarrow>
               (case matching_reply xid bytes of
                  None \<Rightarrow> wait_for xid deadline expected ts
                | Some reply \<Rightarrow>
                    if dr_message_type reply = DHCP_NAK then Some (Inl NetRefused, ts)
                    else if dr_message_type reply = expected then Some (Inr reply, ts)
                    else wait_for xid deadline expected ts))"

text \<open>What the system calls that set up the exchange returned, \<open>None\<close> for success.\<close>

record NetHost =
  nh_control_socket :: "Errno option"
  nh_bring_up :: "Errno option"
  nh_index :: "Errno option"
  nh_packet_socket :: "Errno option"
  nh_bind :: "Errno option"
  nh_receive_timeout :: "Errno option"
  nh_send :: "u8 list \<Rightarrow> Errno option"
  nh_seed :: u32

definition syscall :: "string \<Rightarrow> Errno option \<Rightarrow> (NetError, unit) result" where
  "syscall operation r = (case r of None \<Rightarrow> Inr () | Some e \<Rightarrow> Inl (Syscall operation e))"

definition dhcp_datagram :: "u8 list \<Rightarrow> u8 list" where
  "dhcp_datagram payload =
     ipv4_udp_datagram [0, 0, 0, 0] [255, 255, 255, 255] CLIENT_PORT SERVER_PORT 0 payload"

definition send_dhcp :: "NetHost \<Rightarrow> u8 list \<Rightarrow> (NetError, unit) result" where
  "send_dhcp host payload = syscall ''send a DHCP packet'' (nh_send host (dhcp_datagram payload))"

definition make_lease :: "DhcpReply \<Rightarrow> DhcpReply \<Rightarrow> Lease" where
  "make_lease offer ack =
     \<lparr>le_address = dr_address ack,
      le_netmask = (case dr_subnet_mask ack of
                      Some m \<Rightarrow> m
                    | None \<Rightarrow> (case dr_subnet_mask offer of Some m \<Rightarrow> m | None \<Rightarrow> [255, 255, 255, 0])),
      le_gateway = (case dr_routers ack of
                      r # _ \<Rightarrow> Some r
                    | [] \<Rightarrow> (case dr_routers offer of r # _ \<Rightarrow> Some r | [] \<Rightarrow> None)),
      le_resolvers = (if dr_resolvers ack = [] then dr_resolvers offer else dr_resolvers ack)\<rparr>"

text \<open>\<open>None\<close> when the receive turns run out before the exchange ends.\<close>

definition acquire_lease ::
  "NetHost \<Rightarrow> u8 list \<Rightarrow> nat \<Rightarrow> nat \<Rightarrow> RecvTurn list \<Rightarrow> (NetError, Lease) result option" where
  "acquire_lease host mac start budget turns =
     (let deadline = start + budget
      in case and_then (syscall ''open an AF_INET control socket'' (nh_control_socket host)) (\<lambda>_.
              and_then (syscall ''bring eth0 up'' (nh_bring_up host)) (\<lambda>_.
              and_then (syscall ''read the eth0 index'' (nh_index host)) (\<lambda>_.
              and_then (syscall ''open an AF_PACKET socket'' (nh_packet_socket host)) (\<lambda>_.
              and_then (syscall ''bind the AF_PACKET socket to eth0'' (nh_bind host)) (\<lambda>_.
              and_then (syscall ''set the DHCP receive timeout'' (nh_receive_timeout host)) (\<lambda>_.
                send_dhcp host (encode_discover (transaction_id (nh_seed host) mac) mac))))))) of
           Inl e \<Rightarrow> Some (Inl e)
         | Inr _ \<Rightarrow>
             let xid = transaction_id (nh_seed host) mac
             in (case wait_for xid deadline DHCP_OFFER turns of
                   None \<Rightarrow> None
                 | Some (Inl e, _) \<Rightarrow> Some (Inl e)
                 | Some (Inr offer, rest) \<Rightarrow>
                     let server = (case dr_server_id offer of Some s \<Rightarrow> s | None \<Rightarrow> dr_address offer)
                     in (case send_dhcp host (encode_request xid mac (dr_address offer) server) of
                           Inl e \<Rightarrow> Some (Inl e)
                         | Inr _ \<Rightarrow>
                             (case wait_for xid deadline DHCP_ACK rest of
                                None \<Rightarrow> None
                              | Some (Inl e, _) \<Rightarrow> Some (Inl e)
                              | Some (Inr ack, _) \<Rightarrow> Some (Inr (make_lease offer ack))))))"

definition render_resolv_conf :: "u8 list list \<Rightarrow> string" where
  "render_resolv_conf resolvers =
     concat (map (\<lambda>r. ''nameserver '' @ format_ipv4 r @ [CHR 0x0A]) resolvers)"

definition render_hosts :: "u8 list \<Rightarrow> string \<Rightarrow> string" where
  "render_hosts address hostname =
     ''127.0.0.1'' @ [CHR 0x09] @ ''localhost'' @ [CHR 0x0A]
     @ (if address \<noteq> [127, 0, 0, 1] then format_ipv4 address @ [CHR 0x09] @ hostname @ [CHR 0x0A]
        else ''127.0.1.1'' @ [CHR 0x09] @ hostname @ [CHR 0x0A])
     @ ''::1'' @ [CHR 0x09] @ ''localhost ip6-localhost ip6-loopback'' @ [CHR 0x0A]"

section \<open>Supervision (runtime.rs)\<close>

datatype Signal = SIGTERM | SIGINT | SIGCHLD | OtherSignal

datatype WaitStatus =
    Exited int int
  | Signaled int string
  | StillAlive
  | OtherStatus "int option" string

fun status_pid :: "WaitStatus \<Rightarrow> int option" where
  "status_pid (Exited pid _) = Some pid"
| "status_pid (Signaled pid _) = Some pid"
| "status_pid StillAlive = None"
| "status_pid (OtherStatus pid _) = pid"

record SpawnCommand =
  sc_program :: string
  sc_args :: "string list"
  sc_env :: "(string \<times> string) list"
  sc_uid :: u32
  sc_gid :: u32
  sc_current_dir :: "string option"

record PseudoMount =
  pm_source :: string
  pm_target :: string
  pm_filesystem :: string
  pm_flags :: "string list"
  pm_data :: "string option"

datatype Effect =
    Say string
  | Warn string
  | Mount PseudoMount
  | SetHostname string
  | ResizeRoot u64
  | SetAddress "u8 list" "u8 list"
  | AddRoute "u8 list"
  | WriteFile string string
  | ExitProcess
  | Spawn SpawnCommand
  | Kill int Signal
  | PowerOff

definition spawn_command :: "ChildPlan \<Rightarrow> ResolvedUser \<Rightarrow> SpawnCommand" where
  "spawn_command plan user =
     \<lparr>sc_program = cp_program plan, sc_args = cp_args plan,
      sc_env = (case ru_home user of
                  Some home \<Rightarrow>
                    if ''HOME'' \<in> fst ` set (cp_env plan) then cp_env plan
                    else cp_env plan @ [(''HOME'', home)]
                | None \<Rightarrow> cp_env plan),
      sc_uid = ru_uid user, sc_gid = ru_gid user, sc_current_dir = cp_workdir plan\<rparr>"

definition resolve_account ::
  "string option \<Rightarrow> string option \<Rightarrow> string option \<Rightarrow> (string, ResolvedUser) result" where
  "resolve_account user passwd_file group_file =
     (case map_option trim user of
        None \<Rightarrow> Inr user_root
      | Some u \<Rightarrow>
          if u = [] then Inr user_root
          else map_err user_error_display
            (resolve_user u (case passwd_file of Some c \<Rightarrow> c | None \<Rightarrow> [])
               (case group_file of Some c \<Rightarrow> c | None \<Rightarrow> [])))"

text \<open>
  The loop of \<open>reap\<close> over what \<open>waitpid\<close> returned, call by call. The list ends where the
  kernel has nothing more to report, which the code sees as \<open>StillAlive\<close> or an error.
\<close>

fun reap_loop :: "int \<Rightarrow> WaitStatus option \<Rightarrow> (Errno, WaitStatus) result list \<Rightarrow> WaitStatus option" where
  "reap_loop child finished [] = finished"
| "reap_loop child finished (Inl errno # rest) =
     (if errno = EINTR then reap_loop child finished rest else finished)"
| "reap_loop child finished (Inr status # rest) =
     (if status = StillAlive then finished
      else reap_loop child (if status_pid status = Some child then Some status else finished) rest)"

definition reap :: "int \<Rightarrow> (Errno, WaitStatus) result list \<Rightarrow> WaitStatus option" where
  "reap child waits = reap_loop child None waits"

fun report_exit :: "WaitStatus \<Rightarrow> Effect" where
  "report_exit (Exited _ code) = Say (''entrypoint exited with status '' @ show_int code)"
| "report_exit (Signaled _ signal) = Say (''entrypoint was killed by '' @ signal)"
| "report_exit StillAlive = Say ''entrypoint finished: StillAlive''"
| "report_exit (OtherStatus _ shown) = Say (''entrypoint finished: '' @ shown)"

text \<open>One read of the signal descriptor; a \<open>SIGCHLD\<close> comes with what \<open>waitpid\<close> will return.\<close>

datatype SignalRead =
    Received Signal "(Errno, WaitStatus) result list"
  | NoSignal
  | ReadFailed Errno string

fun supervise_loop :: "int \<Rightarrow> SignalRead list \<Rightarrow> Effect list" where
  "supervise_loop child [] = []"
| "supervise_loop child (Received SIGCHLD waits # events) =
     (case reap child waits of
        Some status \<Rightarrow> [report_exit status, PowerOff]
      | None \<Rightarrow> supervise_loop child events)"
| "supervise_loop child (Received SIGTERM _ # events) = Kill (- child) SIGTERM # supervise_loop child events"
| "supervise_loop child (Received SIGINT _ # events) = Kill (- child) SIGINT # supervise_loop child events"
| "supervise_loop child (Received OtherSignal _ # events) = supervise_loop child events"
| "supervise_loop child (NoSignal # events) = supervise_loop child events"
| "supervise_loop child (ReadFailed errno shown # events) =
     (if errno = EINTR then supervise_loop child events
      else Warn (''supervision read failed: '' @ shown) # supervise_loop child events)"

record SuperviseHost =
  sh_passwd :: "string option"
  sh_group :: "string option"
  sh_block_signals :: "string option"
  sh_signalfd :: "string option"
  sh_spawn :: "SpawnCommand \<Rightarrow> (string, int) result"

definition supervise :: "SuperviseHost \<Rightarrow> InitConfig \<Rightarrow> SignalRead list \<Rightarrow> Effect list" where
  "supervise host config events =
     (case plan_child config of
        Inl err \<Rightarrow> [Say (plan_error_display err), PowerOff]
      | Inr plan \<Rightarrow>
     (case resolve_account (ic_user config) (sh_passwd host) (sh_group host) of
        Inl msg \<Rightarrow> [Say msg, PowerOff]
      | Inr user \<Rightarrow>
        (case sh_block_signals host of
           Some shown \<Rightarrow> [Warn (''cannot block supervision signals: '' @ shown)] | None \<Rightarrow> [])
        @ (case sh_signalfd host of
             Some shown \<Rightarrow> [Say (''cannot open the supervision signalfd: '' @ shown), PowerOff]
           | None \<Rightarrow>
               Spawn (spawn_command plan user)
               # (case sh_spawn host (spawn_command plan user) of
                    Inl shown \<Rightarrow> [Say (''cannot start `'' @ cp_program plan @ ''`: '' @ shown), PowerOff]
                  | Inr child \<Rightarrow>
                      Say (''started `'' @ cp_program plan @ ''` as pid '' @ show_int child)
                      # supervise_loop child events))))"

section \<open>Boot (runtime.rs, net.rs)\<close>

definition PSEUDO_MOUNTS :: "PseudoMount list" where
  "PSEUDO_MOUNTS =
     [\<lparr>pm_source = ''proc'', pm_target = ''/proc'', pm_filesystem = ''proc'',
       pm_flags = [''MS_NOSUID'', ''MS_NODEV'', ''MS_NOEXEC''], pm_data = None\<rparr>,
      \<lparr>pm_source = ''sysfs'', pm_target = ''/sys'', pm_filesystem = ''sysfs'',
       pm_flags = [''MS_NOSUID'', ''MS_NODEV'', ''MS_NOEXEC''], pm_data = None\<rparr>,
      \<lparr>pm_source = ''devtmpfs'', pm_target = ''/dev'', pm_filesystem = ''devtmpfs'',
       pm_flags = [''MS_NOSUID''], pm_data = Some ''mode=0755''\<rparr>,
      \<lparr>pm_source = ''devpts'', pm_target = ''/dev/pts'', pm_filesystem = ''devpts'',
       pm_flags = [''MS_NOSUID'', ''MS_NOEXEC''], pm_data = Some ''gid=5,mode=620,ptmxmode=666''\<rparr>,
      \<lparr>pm_source = ''tmpfs'', pm_target = ''/run'', pm_filesystem = ''tmpfs'',
       pm_flags = [''MS_NOSUID'', ''MS_NODEV''], pm_data = Some ''mode=0755''\<rparr>,
      \<lparr>pm_source = ''tmpfs'', pm_target = ''/tmp'', pm_filesystem = ''tmpfs'',
       pm_flags = [''MS_NOSUID'', ''MS_NODEV''], pm_data = Some ''mode=1777''\<rparr>,
      \<lparr>pm_source = ''tmpfs'', pm_target = ''/dev/shm'', pm_filesystem = ''tmpfs'',
       pm_flags = [''MS_NOSUID'', ''MS_NODEV''], pm_data = Some ''mode=1777''\<rparr>]"

text \<open>The text of an error number is an argument, \<open>shown\<close>.\<close>

definition mount_pseudo_filesystems :: "(Errno \<Rightarrow> string) \<Rightarrow> (PseudoMount \<Rightarrow> Errno option) \<Rightarrow> Effect list" where
  "mount_pseudo_filesystems shown mount =
     concat (map (\<lambda>entry. Mount entry # (case mount entry of
         None \<Rightarrow> []
       | Some errno \<Rightarrow>
           if errno = EBUSY then []
           else [Warn (''cannot mount '' @ pm_filesystem entry @ '' on '' @ pm_target entry @ '': ''
                   @ shown errno)])) PSEUDO_MOUNTS)"

definition net_error_display :: "(Errno \<Rightarrow> string) \<Rightarrow> NetError \<Rightarrow> string" where
  "net_error_display shown err =
     (case err of
        Syscall operation errno \<Rightarrow> operation @ '' failed: '' @ shown errno
      | NetTimeout \<Rightarrow> ''no DHCP reply on '' @ INTERFACE @ '' within '' @ show_nat DHCP_BUDGET_SECS @ '' seconds''
      | NetRefused \<Rightarrow> ''the DHCP server refused the lease (NAK)''
      | NetIo path io_shown \<Rightarrow> ''cannot write '' @ path @ '': '' @ io_shown)"

record BootHost =
  bh_is_pid1 :: bool
  bh_shown :: "Errno \<Rightarrow> string"
  bh_mount :: "PseudoMount \<Rightarrow> Errno option"
  bh_device :: "(IoError, u8 list) result"
  bh_loopback :: "(NetError, unit) result"
  bh_statvfs :: "(string, u64 \<times> u64) result"
  bh_open_disk :: "string option"
  bh_disk_size :: "(string, u64) result"
  bh_open_root :: "string option"
  bh_resize :: "u64 \<Rightarrow> string option"
  bh_sethostname :: "string \<Rightarrow> string option"
  bh_mac_file :: "(string, string) result"
  bh_net :: NetHost
  bh_boot_clock :: nat
  bh_turns :: "RecvTurn list"
  bh_control_socket :: "Errno option"
  bh_set_address :: "Errno option"
  bh_add_route :: "Errno option"
  bh_exists :: "string \<Rightarrow> bool"
  bh_write :: "string \<Rightarrow> string option"

definition grow_root_filesystem :: "BootHost \<Rightarrow> u64 \<Rightarrow> Effect list" where
  "grow_root_filesystem host requested_bytes =
     (case bh_statvfs host of
        Inl shown \<Rightarrow> [Warn (''cannot inspect the root filesystem: '' @ shown)]
      | Inr (block_size, current_blocks) \<Rightarrow>
     (case bh_open_disk host of
        Some shown \<Rightarrow> [Warn (''cannot open /dev/vda: '' @ shown)]
      | None \<Rightarrow>
     (case bh_disk_size host of
        Inl shown \<Rightarrow> [Warn (''cannot read the size of /dev/vda: '' @ shown)]
      | Inr device_bytes \<Rightarrow>
     (case resize_target_blocks requested_bytes device_bytes block_size current_blocks of
        None \<Rightarrow> []
      | Some target \<Rightarrow>
     (case bh_open_root host of
        Some shown \<Rightarrow> [Warn (''cannot open the root directory: '' @ shown)]
      | None \<Rightarrow>
          ResizeRoot target
          # (case bh_resize host target of
               None \<Rightarrow> [Say (''root filesystem grown to '' @ show_nat (unat target) @ '' blocks of ''
                          @ show_nat (unat block_size) @ '' bytes'')]
             | Some shown \<Rightarrow> [Warn (''cannot grow the root filesystem: '' @ shown)]))))))"

definition interface_mac :: "(string, string) result \<Rightarrow> (NetError, u8 list) result" where
  "interface_mac file_read =
     (case file_read of
        Inl shown \<Rightarrow> Inl (NetIo (''/sys/class/net/'' @ INTERFACE @ ''/address'') shown)
      | Inr contents \<Rightarrow> ok_or (Syscall ''parse the eth0 hardware address'' EINVAL) (parse_mac contents))"

text \<open>A step that may write: the effects it had and whether it succeeded.\<close>

type_synonym step_result = "Effect list \<times> (NetError, unit) result"

definition write_if_absent :: "BootHost \<Rightarrow> string \<Rightarrow> string \<Rightarrow> step_result" where
  "write_if_absent host path contents =
     (if bh_exists host path then ([], Inr ())
      else ([WriteFile path contents],
            case bh_write host path of None \<Rightarrow> Inr () | Some shown \<Rightarrow> Inl (NetIo path shown)))"

definition then_step :: "step_result \<Rightarrow> step_result \<Rightarrow> step_result" where
  "then_step a b = (if is_ok (snd a) then (fst a @ fst b, snd b) else a)"

definition apply_lease :: "BootHost \<Rightarrow> Lease \<Rightarrow> string \<Rightarrow> step_result" where
  "apply_lease host lease hostname =
     then_step ([], syscall ''open an AF_INET control socket'' (bh_control_socket host))
     (then_step ([SetAddress (le_address lease) (le_netmask lease)],
                 syscall ''assign the eth0 address'' (bh_set_address host))
     (then_step (case le_gateway lease of
                   None \<Rightarrow> ([], Inr ())
                 | Some gateway \<Rightarrow> ([AddRoute gateway], syscall ''add the default route'' (bh_add_route host)))
     (then_step (write_if_absent host ''/etc/resolv.conf'' (render_resolv_conf (le_resolvers lease)))
                (write_if_absent host ''/etc/hosts'' (render_hosts (le_address lease) hostname)))))"

definition write_static_hosts :: "BootHost \<Rightarrow> string \<Rightarrow> step_result" where
  "write_static_hosts host hostname =
     write_if_absent host ''/etc/hosts'' (render_hosts [127, 0, 0, 1] hostname)"

definition warn_on_error :: "BootHost \<Rightarrow> step_result \<Rightarrow> Effect list" where
  "warn_on_error host r =
     fst r @ (case snd r of Inl err \<Rightarrow> [Warn (net_error_display (bh_shown host) err)] | Inr _ \<Rightarrow> [])"

definition DHCP_BUDGET :: nat where "DHCP_BUDGET = DHCP_BUDGET_SECS * 1000000000"

definition configure_network :: "BootHost \<Rightarrow> InitConfig \<Rightarrow> Effect list option" where
  "configure_network host config =
     (if ic_network config = InitNone then Some (warn_on_error host (write_static_hosts host (ic_hostname config)))
      else
        (case interface_mac (bh_mac_file host) of
           Inl err \<Rightarrow> Some [Warn (net_error_display (bh_shown host) err)]
         | Inr mac \<Rightarrow>
             (case acquire_lease (bh_net host) mac (bh_boot_clock host) DHCP_BUDGET (bh_turns host) of
                None \<Rightarrow> None
              | Some (Inr lease) \<Rightarrow>
                  let r = apply_lease host lease (ic_hostname config)
                  in Some (if is_ok (snd r)
                           then fst r @ [Say (INTERFACE @ '' configured with '' @ format_ipv4 (le_address lease))]
                           else warn_on_error host r)
              | Some (Inl err) \<Rightarrow>
                  Some (Warn (net_error_display (bh_shown host) err)
                    # warn_on_error host (write_static_hosts host (ic_hostname config))))))"

definition CONFIG_DEVICE :: string where "CONFIG_DEVICE = ''/dev/vdb''"

text \<open>\<open>None\<close> only when the receive turns of the DHCP exchange run out.\<close>

definition run_init ::
  "(u8 list \<Rightarrow> (string, InitConfig) result) \<Rightarrow> BootHost \<Rightarrow> SuperviseHost \<Rightarrow> SignalRead list
   \<Rightarrow> Effect list option" where
  "run_init from_slice host shost events =
     (if \<not> bh_is_pid1 host
      then Some [Say ''firestone-init runs as PID 1 inside a Firestone OCI machine only'', ExitProcess]
      else
        let mounts = mount_pseudo_filesystems (bh_shown host) (bh_mount host)
        in (case read_config from_slice CONFIG_DEVICE (bh_device host) of
              Inl err \<Rightarrow> Some (mounts @ [Say (config_error_display err), PowerOff])
            | Inr config \<Rightarrow>
                (case configure_network host config of
                   None \<Rightarrow> None
                 | Some network \<Rightarrow>
                     Some (mounts @ warn_on_error host ([], bh_loopback host)
                       @ grow_root_filesystem host (ic_disk_size_bytes config)
                       @ SetHostname (ic_hostname config)
                       # (case bh_sethostname host (ic_hostname config) of
                            None \<Rightarrow> [] | Some shown \<Rightarrow> [Warn (''cannot set the hostname: '' @ shown)])
                       @ network @ supervise shost config events))))"

section \<open>Laws of the child's environment\<close>

lemma set_pair_append: "k \<notin> fst ` set ps \<Longrightarrow> set_pair ps k v = ps @ [(k, v)]"
  by (induction ps k v rule: set_pair.induct) auto

lemma set_pair_map:
  assumes "distinct ks" and "k \<in> set ks"
  shows "set_pair (map (\<lambda>x. (x, g x)) ks) k v = map (\<lambda>x. (x, (g(k := v)) x)) ks"
  using assms by (induction ks) auto

lemma child_env_spec:
  "child_env es = map (\<lambda>k. (k, env_value (last_with_key es k))) (keys_in_order es)"
proof (induction es rule: rev_induct)
  case Nil
  then show ?case by (simp add: child_env_def keys_in_order_def)
next
  case (snoc e es)
  have step: "child_env (es @ [e]) = set_pair (child_env es) (env_key e) (env_value e)"
    by (simp add: child_env_def)
  have d: "distinct (keys_in_order es)" by (simp add: keys_in_order_def)
  show ?case
  proof (cases "env_key e \<in> env_key ` set es")
    case True
    then show ?thesis unfolding step snoc
      using set_pair_map [OF d, of "env_key e" "\<lambda>k. env_value (last_with_key es k)" "env_value e"]
      by (auto simp: keys_in_order_snoc last_with_key_snoc)
  next
    case False
    then have "env_key e \<notin> fst ` set (map (\<lambda>k. (k, env_value (last_with_key es k))) (keys_in_order es))"
      by (auto simp: image_image)
    then show ?thesis unfolding step snoc set_pair_append [OF \<open>env_key e \<notin> fst ` set _\<close>]
      using False by (auto simp: keys_in_order_snoc last_with_key_snoc)
  qed
qed

lemma map_of_child_env:
  "map_of (child_env es) k =
     (if k \<in> env_key ` set es then Some (env_value (last_with_key es k)) else None)"
  by (auto simp: child_env_spec map_of_map_restrict restrict_map_def)

lemma last_with_key_merge:
  assumes "k \<in> env_key ` set (base @ overrides)"
  shows "last_with_key (merge_env base overrides) k = last_with_key (base @ overrides) k"
proof -
  let ?es = "base @ overrides"
  have m: "merge_env base overrides = map (last_with_key ?es) (keys_in_order ?es)"
    by (rule merge_env_map)
  have "filter (\<lambda>e. env_key e = k) (map (last_with_key ?es) (keys_in_order ?es)) =
      map (last_with_key ?es) (filter (\<lambda>x. env_key (last_with_key ?es x) = k) (keys_in_order ?es))"
    by (simp add: filter_map comp_def)
  also have "filter (\<lambda>x. env_key (last_with_key ?es x) = k) (keys_in_order ?es) =
      filter (\<lambda>x. x = k) (keys_in_order ?es)"
    using last_with_key_key [of _ ?es] by (intro filter_cong) auto
  also have "filter (\<lambda>x. x = k) (keys_in_order ?es) = [k]"
    using assms by (intro filter_eq_distinct) (simp_all only: set_keys_in_order, simp add: keys_in_order_def)
  finally have "filter (\<lambda>e. env_key e = k) (merge_env base overrides) = [last_with_key ?es k]"
    unfolding m by simp
  then show ?thesis unfolding last_with_key_def [of "merge_env base overrides"] by simp
qed

lemma child_env_merge: "map_of (child_env (merge_env base overrides)) = map_of (child_env (base @ overrides))"
proof
  fix k
  have "env_key ` set (merge_env base overrides) = env_key ` set (base @ overrides)"
    using last_with_key_key [of _ "base @ overrides"] by (force simp: merge_env_map image_iff)
  then show "map_of (child_env (merge_env base overrides)) k = map_of (child_env (base @ overrides)) k"
    by (simp add: map_of_child_env last_with_key_merge del: set_append)
qed

section \<open>Laws of the DHCP exchange\<close>

lemma wait_for_returns:
  assumes "turns \<noteq> []" and "deadline \<le> rt_now (last turns)"
  shows "\<exists>r rest. wait_for xid deadline expected turns = Some (r, rest)
           \<and> (is_ok r \<longrightarrow> rest \<noteq> [] \<and> last rest = last turns)"
  using assms
proof (induction turns)
  case (Cons t ts)
  show ?case
  proof (cases "rt_now t < deadline")
    case True
    with Cons.prems have ne: "ts \<noteq> []" by auto
    with Cons show ?thesis
      by (auto split: sum.split option.split)
  qed simp
qed simp

lemma wait_for_Inr:
  assumes "wait_for xid deadline expected turns = Some (Inr reply, rest)"
  shows "(\<exists>t \<in> set turns. rt_now t < deadline \<and> (\<exists>bytes. rt_recv t = Inr bytes
           \<and> matching_reply xid bytes = Some reply)) \<and> dr_message_type reply = expected
         \<and> set rest \<subseteq> set turns"
  using assms
  by (induction turns) (auto split: if_splits sum.splits option.splits)

text \<open>
  The DHCP exchange is bounded: once the receive loop has seen the clock reach the end of the
  budget, it has returned, whatever arrived in between. A lease is only ever taken from an
  acknowledgement that arrived within the budget, in a UDP datagram for the client's port, with
  this boot's transaction id.
\<close>

lemma lease_from_timely_ack:
  assumes "turns \<noteq> []" and "start + budget \<le> rt_now (last turns)"
  shows "\<exists>r. acquire_lease host mac start budget turns = Some r \<and>
     (\<forall>lease. r = Inr lease \<longrightarrow>
        (\<exists>t \<in> set turns. \<exists>bytes ack. rt_now t < start + budget \<and> rt_recv t = Inr bytes
           \<and> matching_reply (transaction_id (nh_seed host) mac) bytes = Some ack
           \<and> dr_message_type ack = DHCP_ACK \<and> le_address lease = dr_address ack))"
proof -
  let ?xid = "transaction_id (nh_seed host) mac" and ?d = "start + budget"
  obtain r1 rest where w1: "wait_for ?xid ?d DHCP_OFFER turns = Some (r1, rest)"
    and o1: "is_ok r1 \<longrightarrow> rest \<noteq> [] \<and> last rest = last turns"
    using wait_for_returns [OF assms] by blast
  show ?thesis
  proof (cases r1)
    case (Inl e)
    with w1 show ?thesis unfolding acquire_lease_def Let_def by (auto split: sum.split)
  next
    case (Inr offer)
    then obtain r2 rest2 where w2: "wait_for ?xid ?d DHCP_ACK rest = Some (r2, rest2)"
      using o1 assms wait_for_returns [of rest ?d ?xid DHCP_ACK] by auto
    have sub: "set rest \<subseteq> set turns" using wait_for_Inr w1 Inr by blast
    have "\<exists>t \<in> set turns. \<exists>bytes. rt_now t < ?d \<and> rt_recv t = Inr bytes
        \<and> matching_reply ?xid bytes = Some ack \<and> dr_message_type ack = DHCP_ACK"
      if "r2 = Inr ack" for ack
      using wait_for_Inr [OF w2 [unfolded that]] sub by blast
    note ack = this
    show ?thesis
    proof (cases r2)
      case (Inl e)
      then show ?thesis using w1 w2 \<open>r1 = Inr offer\<close>
        unfolding acquire_lease_def Let_def by (auto split: sum.split)
    next
      case (Inr a)
      have "acquire_lease host mac start budget turns \<in> {Some (Inr (make_lease offer a))} \<union> (Some ` Inl ` UNIV)"
        using w1 w2 Inr \<open>r1 = Inr offer\<close> unfolding acquire_lease_def Let_def by (auto split: sum.split)
      then show ?thesis using ack [OF Inr] by (auto simp: make_lease_def, blast)
    qed
  qed
qed

definition demo_net :: NetHost where
  "demo_net = \<lparr>nh_control_socket = None, nh_bring_up = None, nh_index = None, nh_packet_socket = None,
     nh_bind = None, nh_receive_timeout = None, nh_send = (\<lambda>_. None), nh_seed = 1\<rparr>"

section \<open>Laws of supervision\<close>

lemma reap_loop_Some:
  "reap_loop child finished waits = Some st \<Longrightarrow>
     finished = Some st \<or> (Inr st \<in> set waits \<and> status_pid st = Some child)"
  by (induction child finished waits rule: reap_loop.induct) (auto split: if_splits)

lemma report_exit_simps [simp]: "report_exit st \<noteq> PowerOff" "PowerOff \<noteq> report_exit st"
  "Kill p sg \<noteq> report_exit st"
  by (cases st; simp)+

lemma power_off_iff:
  "PowerOff \<in> set (supervise_loop child events) \<longleftrightarrow>
     (\<exists>waits. Received SIGCHLD waits \<in> set events \<and> reap child waits \<noteq> None)"
  by (induction child events rule: supervise_loop.induct) (auto split: option.split)

lemma power_off_last:
  "PowerOff \<in> set (supervise_loop child events) \<Longrightarrow>
     \<exists>before st. supervise_loop child events = before @ [report_exit st, PowerOff]
       \<and> PowerOff \<notin> set before \<and> status_pid st = Some child"
proof (induction child events rule: supervise_loop.induct)
  case (2 child waits events)
  show ?case
  proof (cases "reap child waits")
    case (Some st)
    then have "status_pid st = Some child" using reap_loop_Some [of child None] by (auto simp: reap_def)
    with Some show ?thesis by auto
  qed (use 2 in auto)
next
  case (3 child w events)
  then show ?case by (auto simp: append_Cons [symmetric] simp del: append_Cons)
next
  case (4 child w events)
  then show ?case by (auto simp: append_Cons [symmetric] simp del: append_Cons)
next
  case (7 child errno shown events)
  then show ?case by (auto simp: append_Cons [symmetric] simp del: append_Cons split: if_splits)
qed auto

lemma kill_own_group:
  "Kill pid sg \<in> set (supervise_loop child events) \<Longrightarrow>
     pid = - child \<and> sg \<in> {SIGTERM, SIGINT} \<and> (\<exists>w. Received sg w \<in> set events)"
  by (induction child events rule: supervise_loop.induct) (auto split: option.splits if_splits)



section \<open>From the host's spec to the guest's process\<close>

lemma plan_child_Inr:
  "plan_child config = Inr plan \<Longrightarrow>
     cp_program plan # cp_args plan = ic_entrypoint config @ ic_cmd config
     \<and> cp_program plan \<noteq> [] \<and> cp_env plan = child_env (ic_env config)"
  by (auto simp: plan_child_def child_argv_def and_then_Inr_iff split: list.splits if_splits)

lemma no_spawn_in_loop [simp]: "Spawn c \<notin> set (supervise_loop child events)"
proof (induction child events rule: supervise_loop.induct)
  case (2 child waits events)
  have "Spawn c \<noteq> report_exit st" for st by (cases st) auto
  with 2 show ?case by (auto split: option.split)
qed auto

lemma supervise_spawn:
  "Spawn c \<in> set (supervise host config events) \<Longrightarrow>
     \<exists>plan user. plan_child config = Inr plan \<and>
       resolve_account (ic_user config) (sh_passwd host) (sh_group host) = Inr user \<and>
       c = spawn_command plan user"
  unfolding supervise_def by (auto split: sum.splits option.splits)

lemma spawn_env_other:
  "k \<noteq> ''HOME'' \<Longrightarrow> map_of (sc_env (spawn_command plan user)) k = map_of (cp_env plan) k"
  by (auto simp: spawn_command_def map_add_def split: option.splits)

lemma no_spawn_in_steps [simp]:
  "Spawn c \<notin> set (warn_on_error host (write_static_hosts host h))"
  "Spawn c \<notin> set (fst (apply_lease host lease h))"
  "Spawn c \<notin> set (warn_on_error host (apply_lease host lease h))"
  "Spawn c \<notin> set (warn_on_error host ([], r))"
  by (auto simp: warn_on_error_def write_static_hosts_def write_if_absent_def apply_lease_def then_step_def
      split: sum.splits if_splits option.splits)

lemma no_spawn_mount [simp]: "Spawn c \<notin> set (mount_pseudo_filesystems shown mount)"
  by (auto simp: mount_pseudo_filesystems_def split: option.splits if_splits)

lemma no_spawn_grow [simp]: "Spawn c \<notin> set (grow_root_filesystem host n)"
  by (simp add: grow_root_filesystem_def split: sum.split option.split prod.split)

lemma no_spawn_network: "configure_network host config = Some es \<Longrightarrow> Spawn c \<notin> set es"
  by (auto simp: configure_network_def Let_def split: if_splits sum.splits option.splits)

lemma run_init_spawn:
  assumes "run_init from_slice host shost events = Some es" and "Spawn c \<in> set es"
  shows "\<exists>config. read_config from_slice CONFIG_DEVICE (bh_device host) = Inr config
           \<and> Spawn c \<in> set (supervise shost config events)"
  using assms no_spawn_network
  by (auto simp: run_init_def Let_def split: if_splits sum.splits option.splits)

text \<open>
  C7. The process an OCI guest starts is the image's: whenever the host publishes a config disk
  for a machine and the guest boots from it, the one command PID 1 starts is the image's
  entrypoint followed by its command, as the account the image names, and every variable of
  its environment except \<open>HOME\<close> has the last value given for it by the image and the overrides.
\<close>

theorem guest_runs_image_command:
  assumes "build_config_disk to_vec (render_init_config name spec img overrides) = Inr disk"
    and "\<And>json. to_vec (render_init_config name spec img overrides) = Inr json \<Longrightarrow>
           from_slice json = Inr (render_init_config name spec img overrides)"
    and "bh_device host = Inr disk"
    and "run_init from_slice host shost events = Some es" and "Spawn c \<in> set es"
  shows "sc_program c # sc_args c = oi_entrypoint img @ oi_cmd img
     \<and> (\<exists>user. resolve_account (oi_user img) (sh_passwd shost) (sh_group shost) = Inr user
           \<and> sc_uid c = ru_uid user \<and> sc_gid c = ru_gid user)
     \<and> (\<forall>k. k \<noteq> ''HOME'' \<longrightarrow> map_of (sc_env c) k =
           (if k \<in> env_key ` set (oi_env img @ overrides)
            then Some (env_value (last_with_key (oi_env img @ overrides) k)) else None))"
proof -
  let ?config = "render_init_config name spec img overrides"
  have "read_config from_slice CONFIG_DEVICE (bh_device host) = Inr ?config"
    unfolding assms(3) by (rule read_config_disk [OF assms(1,2)])
  then have "Spawn c \<in> set (supervise shost ?config events)"
    using run_init_spawn [OF assms(4,5)] by auto
  then obtain plan user where p: "plan_child ?config = Inr plan"
    and u: "resolve_account (oi_user img) (sh_passwd shost) (sh_group shost) = Inr user"
    and c: "c = spawn_command plan user"
    using supervise_spawn by (fastforce simp: render_init_config_def)
  have "cp_program plan # cp_args plan = oi_entrypoint img @ oi_cmd img"
    "cp_env plan = child_env (merge_env (oi_env img) overrides)"
    using plan_child_Inr [OF p] by (simp_all add: render_init_config_def)
  then show ?thesis
    using u spawn_env_other [of _ plan user]
    by (auto simp: c spawn_command_def child_env_merge map_of_child_env)
qed

definition demo_image :: OciImageConfig where
  "demo_image = \<lparr>oi_env = [''A=1''], oi_entrypoint = [''sh''], oi_cmd = [''-c''], oi_working_dir = None,
     oi_user = None\<rparr>"

definition demo_init :: InitConfig where
  "demo_init = render_init_config ''app''
     (machine_spec_default\<lparr>ms_network := (network_spec_default\<lparr>ns_mode := NetNone\<rparr>)\<rparr>) demo_image []"

definition demo_boot :: "u8 list \<Rightarrow> BootHost" where
  "demo_boot disk = \<lparr>bh_is_pid1 = True, bh_shown = (\<lambda>_. []), bh_mount = (\<lambda>_. None), bh_device = Inr disk,
     bh_loopback = Inr (), bh_statvfs = Inl [], bh_open_disk = None, bh_disk_size = Inr 0,
     bh_open_root = None, bh_resize = (\<lambda>_. None), bh_sethostname = (\<lambda>_. None), bh_mac_file = Inl [],
     bh_net = demo_net, bh_boot_clock = 0, bh_turns = [], bh_control_socket = None,
     bh_set_address = None, bh_add_route = None, bh_exists = (\<lambda>_. True), bh_write = (\<lambda>_. None)\<rparr>"

definition demo_supervisor :: SuperviseHost where
  "demo_supervisor = \<lparr>sh_passwd = None, sh_group = None, sh_block_signals = None, sh_signalfd = None,
     sh_spawn = (\<lambda>_. Inr 7)\<rparr>"

theorem guest_runs_image_command_witness:
  "\<exists>disk es c. build_config_disk (\<lambda>_. Inr [123, 125]) demo_init = Inr disk
     \<and> run_init (\<lambda>_. Inr demo_init) (demo_boot disk) demo_supervisor [] = Some es
     \<and> Spawn c \<in> set es \<and> sc_program c # sc_args c = [''sh'', ''-c'']"
proof -
  have "is_ok (build_config_disk (\<lambda>_. Inr [123, 125]) demo_init)"
    by (simp add: build_config_disk_def encode_frame_def Let_def MAX_CONFIG_JSON_BYTES_def)
  then obtain disk where d: "build_config_disk (\<lambda>_. Inr [123, 125]) demo_init = Inr disk"
    by (auto simp: is_ok_iff)
  have "read_config (\<lambda>_. Inr demo_init) CONFIG_DEVICE (Inr disk) = Inr demo_init"
    using read_config_disk [OF d, of "\<lambda>_. Inr demo_init"] by simp
  then obtain es c where r: "run_init (\<lambda>_. Inr demo_init) (demo_boot disk) demo_supervisor [] = Some es"
    and c: "Spawn c \<in> set es"
    by (simp add: run_init_def demo_boot_def configure_network_def demo_init_def render_init_config_def
        supervise_def plan_child_def child_argv_def demo_image_def resolve_account_def demo_supervisor_def)
  have dev: "bh_device (demo_boot disk) = Inr disk" by (simp add: demo_boot_def)
  have "sc_program c # sc_args c = [''sh'', ''-c'']"
    using guest_runs_image_command [OF d [unfolded demo_init_def] _ dev r [unfolded demo_init_def] c]
    by (simp add: demo_image_def)
  with d r c show ?thesis by blast
qed

end
