(* ===== verification/Machine_State.thy ===== *)
theory Machine_State
  imports Paths Btree
begin

text \<open>
  The persisted state of a machine, \<^verbatim>\<open>firestone-core/src/state.rs\<close>, with the bounded reader of
  \<^verbatim>\<open>bounded.rs\<close> and the reconciling reader of \<^verbatim>\<open>doctor.rs\<close>. A machine has no daemon: what
  \<open>state.json\<close> says is compared with what can be observed (does the VMM answer, is the recorded
  shim really this machine's shim, does the runtime directory exist), and a stale active state is
  rewritten under the machine's lock. The JSON library, the clock and the file system are
  arguments.
\<close>

section \<open>State\<close>

datatype MachineStatus = Created | Starting | Running | Stopping | Stopped | Failed

definition is_active :: "MachineStatus \<Rightarrow> bool" where
  "is_active s \<longleftrightarrow> s = Starting \<or> s = Running \<or> s = Stopping"

record StateImage =
  si_ref :: string
  si_id :: "string option"
  si_sha256 :: "string option"

datatype ExitReason = GuestShutdown | Stale | HostReboot | Failure string

fun exit_reason_as_str :: "ExitReason \<Rightarrow> string" where
  "exit_reason_as_str GuestShutdown = ''guest shutdown''"
| "exit_reason_as_str Stale = ''stale''"
| "exit_reason_as_str HostReboot = ''host reboot''"
| "exit_reason_as_str (Failure reason) = reason"

definition exit_reason_deserialize :: "string \<Rightarrow> (string, ExitReason) result" where
  "exit_reason_deserialize reason =
     (if reason = ''guest shutdown'' then Inr GuestShutdown
      else if reason = ''stale'' then Inr Stale
      else if reason = ''host reboot'' then Inr HostReboot
      else if reason = [] then Inl ''last exit reason cannot be empty''
      else Inr (Failure reason))"

record LastExit =
  lx_at :: string
  lx_code :: "int option"
  lx_signal :: "int option"
  lx_reason :: ExitReason

record MachineState =
  st_status :: MachineStatus
  st_image :: StateImage
  st_mac :: "string option"
  st_cid :: u32
  st_instance_id :: "string option"
  st_shim_pid :: "u32 option"
  st_vmm_pid :: "u32 option"
  st_sidecar_pids :: "(string \<times> u32) list"
  st_runtime_dir :: string
  st_started_at :: "string option"
  st_forwards :: "string list"
  st_degraded :: "string list"
  st_last_exit :: "LastExit option"

definition invalid_state :: "string \<Rightarrow> FirestoneError" where
  "invalid_state msg =
     with_hint ''do not write state until the internal invariant is restored''
       (error_new Generic (''invalid machine state: '' @ msg))"

definition validate_image :: "StateImage \<Rightarrow> (FirestoneError, unit) result" where
  "validate_image img =
     (case (si_id img, si_sha256 img) of
        (None, None) \<Rightarrow> Inr ()
      | (Some i, Some h) \<Rightarrow>
          if i \<noteq> [] \<and> h \<noteq> [] then Inr ()
          else Inl (invalid_state ''image.id and image.sha256 cannot be empty'')
      | _ \<Rightarrow> Inl (invalid_state ''image.id and image.sha256 must be absent or present together''))"

definition validate_last_exit :: "LastExit \<Rightarrow> (FirestoneError, unit) result" where
  "validate_last_exit last_exit =
     (if lx_code last_exit \<noteq> None \<and> lx_signal last_exit \<noteq> None
      then Inl (invalid_state ''last_exit cannot contain both a code and a signal'')
      else if lx_reason last_exit = Failure []
      then Inl (invalid_state ''last_exit.reason cannot be empty'')
      else Inr ())"

definition validate_state :: "MachineState \<Rightarrow> (FirestoneError, unit) result" where
  "validate_state s =
     (if si_ref (st_image s) = [] then Inl (invalid_state ''image.ref cannot be empty'')
      else and_then (validate_image (st_image s)) (\<lambda>_.
           and_then (case st_last_exit s of None \<Rightarrow> Inr () | Some x \<Rightarrow> validate_last_exit x) (\<lambda>_.
             if st_shim_pid s = Some 0 \<or> st_vmm_pid s = Some 0
                \<or> (\<exists>p \<in> set (st_sidecar_pids s). snd p = 0)
             then Inl (invalid_state ''process ids in machine state must be nonzero'')
             else Inr ())))"

section \<open>Observation\<close>

record LivenessObservation =
  lo_vmm_ping :: bool
  lo_shim_verified :: bool
  lo_runtime_dir_exists :: bool

datatype Supervision = Supervised | Unsupervised

record LiveMachineState =
  lm_state :: MachineState
  lm_supervision :: "Supervision option"

datatype ReconcileRewrite = RewriteStopped ExitReason

record ReconcileReport =
  rr_status :: MachineStatus
  rr_supervision :: "Supervision option"
  rr_rewrite :: "ReconcileRewrite option"

text \<open>\<open>read\<close> is \<open>fs::read\<close> on the process file system.\<close>

definition verify_shim_identity ::
  "(string \<Rightarrow> (IoError, string) result) \<Rightarrow> string \<Rightarrow> u32 \<Rightarrow> string \<Rightarrow> (FirestoneError, bool) result" where
  "verify_shim_identity read proc_root pid name =
     (if pid = 0 then Inr False
      else
        let cmdline_path = path_join (path_join proc_root (show_nat (unat pid))) ''cmdline''
        in case read cmdline_path of
             Inl err \<Rightarrow>
               if io_kind err = IoNotFound \<or> io_kind err = IoNotADirectory then Inr False
               else Inl (with_hint ''check /proc access for the current user''
                      (error_new Generic (''cannot verify shim pid '' @ show_nat (unat pid)
                         @ '' using '' @ cmdline_path)))
           | Inr cmdline \<Rightarrow>
               let parts = split_on (CHR 0x00) cmdline;
                   argv = (if last parts = [] then butlast parts else parts)
               in if length argv \<noteq> 3 then Inr False
                  else Inr (path_file_name (argv ! 0) = Some ''firestone''
                            \<and> argv ! 1 = ''_shim'' \<and> argv ! 2 = name))"

record LivenessHost =
  lh_read :: "string \<Rightarrow> (IoError, string) result"
  lh_exists :: "string \<Rightarrow> (IoError, bool) result"
  lh_ping :: "string \<Rightarrow> (FirestoneError, bool) result"

definition observe_liveness ::
  "LivenessHost \<Rightarrow> string \<Rightarrow> MachineState \<Rightarrow> string \<Rightarrow> string \<Rightarrow> string
   \<Rightarrow> (FirestoneError, LivenessObservation) result" where
  "observe_liveness host name state runtime_dir api_socket proc_root =
     and_then
       (map_err (\<lambda>_. with_hint ''check runtime directory permissions''
            (error_new Generic (''cannot inspect runtime directory '' @ runtime_dir)))
          (lh_exists host runtime_dir)) (\<lambda>runtime_dir_exists.
     and_then
       (case st_shim_pid state of
          Some pid \<Rightarrow> verify_shim_identity (lh_read host) proc_root pid name
        | None \<Rightarrow> Inr False) (\<lambda>shim_verified.
     and_then (if runtime_dir_exists then lh_ping host api_socket else Inr False) (\<lambda>vmm_ping.
       Inr \<lparr>lo_vmm_ping = vmm_ping, lo_shim_verified = shim_verified,
            lo_runtime_dir_exists = runtime_dir_exists\<rparr>)))"

definition reconcile :: "MachineStatus \<Rightarrow> LivenessObservation \<Rightarrow> ReconcileReport" where
  "reconcile stored_status observation =
     (if lo_vmm_ping observation then
        \<lparr>rr_status = Running,
         rr_supervision = Some (if lo_shim_verified observation then Supervised else Unsupervised),
         rr_rewrite = None\<rparr>
      else if lo_shim_verified observation then
        \<lparr>rr_status = (case stored_status of
             Stopping \<Rightarrow> Stopping | Failed \<Rightarrow> Failed
           | Created \<Rightarrow> Starting | Starting \<Rightarrow> Starting | Running \<Rightarrow> Starting | Stopped \<Rightarrow> Starting),
         rr_supervision = None, rr_rewrite = None\<rparr>
      else if is_active stored_status then
        \<lparr>rr_status = Stopped, rr_supervision = None,
         rr_rewrite = Some (RewriteStopped (if lo_runtime_dir_exists observation then Stale else HostReboot))\<rparr>
      else \<lparr>rr_status = stored_status, rr_supervision = None, rr_rewrite = None\<rparr>)"

definition reconciled_state :: "MachineState \<Rightarrow> ReconcileReport \<Rightarrow> string \<Rightarrow> MachineState option" where
  "reconciled_state state report reconciled_at =
     (case rr_rewrite report of
        Some (RewriteStopped reason) \<Rightarrow>
          Some (state\<lparr>st_status := Stopped, st_shim_pid := None, st_vmm_pid := None,
            st_sidecar_pids := [], st_started_at := None, st_degraded := [],
            st_last_exit := Some \<lparr>lx_at = reconciled_at, lx_code = None, lx_signal = None,
              lx_reason = reason\<rparr>\<rparr>)
      | None \<Rightarrow> None)"

section \<open>The state file\<close>

definition MAX_MACHINE_STATE_BYTES :: nat where "MAX_MACHINE_STATE_BYTES = 1024 * 1024"

datatype BoundedReadError = BoundedIo IoError | LimitExceeded

text \<open>\<open>bounded::read_to_end\<close> on a reader that yields these bytes or fails.\<close>

definition bounded_read_to_end :: "(IoError, u8 list) result \<Rightarrow> nat \<Rightarrow> (BoundedReadError, u8 list) result"
  where
  "bounded_read_to_end reader limit =
     (let read_limit = min (limit + 1) (2 ^ 64 - 1)
      in case map_err BoundedIo reader of
           Inl e \<Rightarrow> Inl e
         | Inr contents \<Rightarrow>
             let bytes = take read_limit contents
             in if length bytes > limit then Inl LimitExceeded else Inr bytes)"

text \<open>What opening the state file finds: its kind and a reader.\<close>

record StateFile =
  sf_open :: "(IoError, unit) result"
  sf_kind :: "(IoError, FileKind) result"
  sf_read :: "(IoError, u8 list) result"

definition read_state ::
  "(u8 list \<Rightarrow> (string, MachineState) result) \<Rightarrow> string \<Rightarrow> StateFile \<Rightarrow> (FirestoneError, MachineState) result"
  where
  "read_state from_slice path file_handle =
     and_then (map_err (\<lambda>_. with_hint
          ''check that the machine state file exists and is a readable regular file''
          (error_new Generic (''cannot read machine state '' @ path))) (sf_open file_handle)) (\<lambda>_.
     and_then (map_err (\<lambda>_. with_hint
          ''check that the machine state path is a readable regular file''
          (error_new Generic (''cannot inspect machine state '' @ path))) (sf_kind file_handle)) (\<lambda>kind.
     and_then (ensure (kind = FileRegular)
          (with_hint ''replace the machine state path with its mode-0600 state.json file''
            (error_new Generic (''machine state '' @ path @ '' is not a regular file'')))) (\<lambda>_.
     and_then (map_err (\<lambda>err. case err of
            BoundedIo _ \<Rightarrow> with_hint ''check that the machine state file is readable''
              (error_new Generic (''cannot read machine state '' @ path))
          | LimitExceeded \<Rightarrow> with_hint ''replace the oversized state.json with valid machine state''
              (error_new Generic (''machine state '' @ path @ '' exceeds the ''
                 @ show_nat MAX_MACHINE_STATE_BYTES @ '' byte limit'')))
          (bounded_read_to_end (sf_read file_handle) MAX_MACHINE_STATE_BYTES)) (\<lambda>bytes.
     and_then (map_err (\<lambda>_. with_hint ''inspect state.json for corruption or an unsupported version''
          (error_new Generic (''cannot parse machine state '' @ path))) (from_slice bytes)) (\<lambda>state.
     and_then (validate_state state) (\<lambda>_. Inr state))))))"

text \<open>
  Writing returns what the file then holds; \<open>write_json\<close> is the atomic writer, given the state
  it writes.
\<close>

definition write_from_shim ::
  "(MachineState \<Rightarrow> (FirestoneError, unit) result) \<Rightarrow> MachineState \<Rightarrow> (FirestoneError, MachineState) result"
  where
  "write_from_shim write_json state =
     and_then (validate_state state) (\<lambda>_. and_then (write_json state) (\<lambda>_. Inr state))"

definition write_from_locked_action ::
  "(MachineState \<Rightarrow> (FirestoneError, unit) result) \<Rightarrow> string \<Rightarrow> MachineState \<Rightarrow> string
   \<Rightarrow> (FirestoneError, MachineState) result" where
  "write_from_locked_action write_json path state lock_path =
     (let expected_lock = path_join (case path_parent path of Some p \<Rightarrow> p | None \<Rightarrow> ''.'') ''lock''
      in if \<not> path_eq lock_path expected_lock
         then Inl (with_hint ''acquire the lock from the same machine directory''
                (error_new Conflict (''state '' @ path @ '' requires machine lock '' @ expected_lock)))
         else and_then (validate_state state) (\<lambda>_. and_then (write_json state) (\<lambda>_. Inr state)))"

definition write_reconciliation ::
  "(MachineState \<Rightarrow> (FirestoneError, unit) result) \<Rightarrow> string \<Rightarrow> MachineState \<Rightarrow> ReconcileReport \<Rightarrow> string
   \<Rightarrow> string \<Rightarrow> (FirestoneError, MachineState option) result" where
  "write_reconciliation write_json path state report reconciled_at lock_path =
     (case reconciled_state state report reconciled_at of
        None \<Rightarrow> Inr None
      | Some reconciled \<Rightarrow>
          and_then (write_from_locked_action write_json path reconciled lock_path)
            (\<lambda>_. Inr (Some reconciled)))"

section \<open>The reconciling reader (doctor.rs)\<close>

text \<open>
  \<open>first\<close> and \<open>second\<close> are what the file and the host show at the two reads: other processes
  may act in between, while this one waits for the lock. The result is the state to report,
  the reason of a rewrite, and the state written, if any.
\<close>

record StateView =
  sv_read :: "(FirestoneError, MachineState) result"
  sv_host :: LivenessHost

definition observe_view ::
  "StateView \<Rightarrow> string \<Rightarrow> string \<Rightarrow> string \<Rightarrow> string
   \<Rightarrow> (FirestoneError, MachineState \<times> ReconcileReport) result" where
  "observe_view view name runtime_dir api_socket proc_root =
     and_then (sv_read view) (\<lambda>state.
     and_then (observe_liveness (sv_host view) name state runtime_dir api_socket proc_root) (\<lambda>observation.
       Inr (state, reconcile (st_status state) observation)))"

definition read_reconciled_machine_state_with ::
  "(string \<Rightarrow> string) \<Rightarrow> Paths \<Rightarrow> string \<Rightarrow> string \<Rightarrow> string \<Rightarrow> StateView \<Rightarrow> (FirestoneError, string) result
   \<Rightarrow> StateView \<Rightarrow> (MachineState \<Rightarrow> (FirestoneError, unit) result)
   \<Rightarrow> (FirestoneError, LiveMachineState \<times> string option \<times> MachineState option) result" where
  "read_reconciled_machine_state_with dbg paths name proc_root reconciled_at first_view lock second_view write_json =
     and_then (machine_state dbg paths name) (\<lambda>state_path.
     and_then (machine_runtime_dir dbg paths name) (\<lambda>runtime_dir.
     and_then (machine_api_socket dbg paths name) (\<lambda>api_socket.
     and_then (observe_view first_view name runtime_dir api_socket proc_root) (\<lambda>(state, report).
       if rr_rewrite report = None then
         Inr (\<lparr>lm_state = state\<lparr>st_status := rr_status report\<rparr>, lm_supervision = rr_supervision report\<rparr>,
              None, None)
       else
         and_then lock (\<lambda>lock_path.
         and_then (observe_view second_view name runtime_dir api_socket proc_root) (\<lambda>(state, report).
           let reason = map_option (\<lambda>r. case r of RewriteStopped x \<Rightarrow> exit_reason_as_str x) (rr_rewrite report)
           in case reconciled_state state report reconciled_at of
                Some effective \<Rightarrow>
                  and_then (write_reconciliation write_json state_path state report reconciled_at lock_path)
                    (\<lambda>written. Inr (\<lparr>lm_state = effective, lm_supervision = rr_supervision report\<rparr>, reason, written))
              | None \<Rightarrow>
                  Inr (\<lparr>lm_state = state\<lparr>st_status := rr_status report\<rparr>,
                        lm_supervision = rr_supervision report\<rparr>, None, None)))))))"

section \<open>Laws\<close>

text \<open>The reasons \<open>state.json\<close> can tell apart: a failure whose text is not a fixed reason.\<close>

definition exit_reason_valid :: "ExitReason \<Rightarrow> bool" where
  "exit_reason_valid r \<longleftrightarrow>
     (case r of Failure s \<Rightarrow> s \<notin> {[], ''guest shutdown'', ''stale'', ''host reboot''} | _ \<Rightarrow> True)"

interpretation exit_reason: scalar_codec exit_reason_deserialize exit_reason_as_str exit_reason_valid
proof
  fix s a
  show "exit_reason_deserialize s = Inr a \<Longrightarrow> exit_reason_valid a"
    by (auto simp: exit_reason_deserialize_def exit_reason_valid_def split: if_splits)
  show "exit_reason_valid a \<Longrightarrow> exit_reason_deserialize (exit_reason_as_str a) = Inr a"
    by (cases a) (auto simp: exit_reason_deserialize_def exit_reason_valid_def)
qed

text \<open>The rules of \<open>validate\<close> as one condition.\<close>

definition state_ok :: "MachineState \<Rightarrow> bool" where
  "state_ok s \<longleftrightarrow>
     si_ref (st_image s) \<noteq> []
     \<and> (si_id (st_image s) = None \<longleftrightarrow> si_sha256 (st_image s) = None)
     \<and> si_id (st_image s) \<noteq> Some [] \<and> si_sha256 (st_image s) \<noteq> Some []
     \<and> (\<forall>x. st_last_exit s = Some x \<longrightarrow>
          (lx_code x = None \<or> lx_signal x = None) \<and> lx_reason x \<noteq> Failure [])
     \<and> st_shim_pid s \<noteq> Some 0 \<and> st_vmm_pid s \<noteq> Some 0 \<and> (\<forall>p \<in> set (st_sidecar_pids s). snd p \<noteq> 0)"

lemma validate_state_iff: "validate_state s = Inr u \<longleftrightarrow> state_ok s"
  by (auto simp: validate_state_def validate_image_def validate_last_exit_def state_ok_def and_then_Inr_iff
      split: option.splits if_splits)

text \<open>A state that records no process: what every stopped machine should look like.\<close>

definition settled :: "MachineState \<Rightarrow> bool" where
  "settled s \<longleftrightarrow> st_shim_pid s = None \<and> st_vmm_pid s = None \<and> st_sidecar_pids s = []
     \<and> st_started_at s = None \<and> st_degraded s = []"

lemma reconcile_rewrite_iff:
  "rr_rewrite (reconcile st ob) = Some r \<longleftrightarrow>
     is_active st \<and> \<not> lo_vmm_ping ob \<and> \<not> lo_shim_verified ob
     \<and> r = RewriteStopped (if lo_runtime_dir_exists ob then Stale else HostReboot)"
  by (auto simp: reconcile_def)

lemma reconcile_running_iff: "rr_status (reconcile st ob) = Running \<longleftrightarrow> lo_vmm_ping ob"
  by (auto simp: reconcile_def is_active_def split: MachineStatus.splits)

lemma reconciled_state_None_iff:
  "reconciled_state s (reconcile (st_status s) ob) at = None \<longleftrightarrow>
     \<not> (is_active (st_status s) \<and> \<not> lo_vmm_ping ob \<and> \<not> lo_shim_verified ob)"
  by (simp add: reconciled_state_def reconcile_def)

lemma reconciled_state_Some:
  assumes "reconciled_state s (reconcile (st_status s) ob) at = Some t"
  shows "is_active (st_status s)" and "\<not> lo_vmm_ping ob" and "\<not> lo_shim_verified ob"
    and "st_status t = Stopped" and "settled t" and "state_ok s \<Longrightarrow> state_ok t"
proof -
  have a: "is_active (st_status s) \<and> \<not> lo_vmm_ping ob \<and> \<not> lo_shim_verified ob"
    using assms reconciled_state_None_iff [of s ob at] by auto
  then show "is_active (st_status s)" "\<not> lo_vmm_ping ob" "\<not> lo_shim_verified ob" by auto
  have t: "t = s\<lparr>st_status := Stopped, st_shim_pid := None, st_vmm_pid := None,
            st_sidecar_pids := [], st_started_at := None, st_degraded := [],
            st_last_exit := Some \<lparr>lx_at = at, lx_code = None, lx_signal = None,
              lx_reason = (if lo_runtime_dir_exists ob then Stale else HostReboot)\<rparr>\<rparr>"
    using assms a by (simp add: reconciled_state_def reconcile_def)
  show "st_status t = Stopped" "settled t" by (simp_all add: t settled_def)
  show "state_ok s \<Longrightarrow> state_ok t" by (auto simp: t state_ok_def)
qed

text \<open>
  C14. Reconciliation reports a machine as running exactly when its VMM answered, and changes
  the state file exactly when the file claims an active machine while neither the VMM answers
  nor the recorded process is this machine's shim; what it then writes is a stopped state that
  records no process, passes validation if the old one did, and is not rewritten again.
\<close>

theorem reconcile_sound:
  "(rr_status (reconcile (st_status s) ob) = Running \<longleftrightarrow> lo_vmm_ping ob)
   \<and> (reconciled_state s (reconcile (st_status s) ob) at \<noteq> None \<longleftrightarrow>
        is_active (st_status s) \<and> \<not> lo_vmm_ping ob \<and> \<not> lo_shim_verified ob)
   \<and> (\<forall>t. reconciled_state s (reconcile (st_status s) ob) at = Some t \<longrightarrow>
        st_status t = Stopped \<and> settled t \<and> (validate_state s = Inr () \<longrightarrow> validate_state t = Inr ())
        \<and> reconciled_state t (reconcile (st_status t) ob) at = None)"
proof -
  have again: "reconciled_state t (reconcile (st_status t) ob) at = None" if "st_status t = Stopped" for t
    unfolding reconciled_state_None_iff using that by (simp add: is_active_def)
  show ?thesis
  proof (intro conjI allI impI)
    show "rr_status (reconcile (st_status s) ob) = Running \<longleftrightarrow> lo_vmm_ping ob"
      by (rule reconcile_running_iff)
    show "reconciled_state s (reconcile (st_status s) ob) at \<noteq> None \<longleftrightarrow>
        is_active (st_status s) \<and> \<not> lo_vmm_ping ob \<and> \<not> lo_shim_verified ob"
      unfolding reconciled_state_None_iff by blast
  next
    fix t
    assume "reconciled_state s (reconcile (st_status s) ob) at = Some t"
    note t = reconciled_state_Some [OF this]
    show "st_status t = Stopped" "settled t" by (fact t)+
    show "validate_state t = Inr ()" if "validate_state s = Inr ()"
      using that t(6) by (simp add: validate_state_iff)
    show "reconciled_state t (reconcile (st_status t) ob) at = None" using t(4) by (rule again)
  qed
qed

definition demo_state :: MachineState where
  "demo_state = \<lparr>st_status = Running, st_image = \<lparr>si_ref = ''ubuntu:24.04'', si_id = None, si_sha256 = None\<rparr>,
     st_mac = None, st_cid = 3, st_instance_id = None, st_shim_pid = Some 7, st_vmm_pid = Some 8,
     st_sidecar_pids = [], st_runtime_dir = ''/r/m'', st_started_at = Some ''t'', st_forwards = [],
     st_degraded = [], st_last_exit = None\<rparr>"

theorem reconcile_sound_witness:
  "\<exists>t. reconciled_state demo_state (reconcile (st_status demo_state)
          \<lparr>lo_vmm_ping = False, lo_shim_verified = False, lo_runtime_dir_exists = True\<rparr>) ''now'' = Some t
     \<and> settled t \<and> validate_state t = Inr ()"
proof -
  let ?ob = "\<lparr>lo_vmm_ping = False, lo_shim_verified = False, lo_runtime_dir_exists = True\<rparr>"
  have "reconciled_state demo_state (reconcile (st_status demo_state) ?ob) ''now'' \<noteq> None"
    using reconcile_sound [of demo_state ?ob "''now''"] by (simp add: demo_state_def is_active_def)
  moreover have "validate_state demo_state = Inr ()" by (simp add: validate_state_iff state_ok_def demo_state_def)
  ultimately show ?thesis using reconcile_sound [of demo_state ?ob "''now''"] by blast
qed


definition demo_layout :: Paths where
  "demo_layout = \<lparr>p_config_dir = ''/c'', p_data_dir = ''/d'', p_runtime_dir = ''/r'', p_home_dir = None,
     p_runtime_uid = 7, p_runtime_provenance = ProvenanceFallback\<rparr>"

definition demo_view :: StateView where
  "demo_view = \<lparr>sv_read = Inr demo_state,
     sv_host = \<lparr>lh_read = (\<lambda>_. Inl \<lparr>io_kind = IoNotFound, io_text = []\<rparr>), lh_exists = (\<lambda>_. Inr True),
       lh_ping = (\<lambda>_. Inr False)\<rparr>\<rparr>"


end
