(* ===== verification/Lifecycle.thy ===== *)
theory Lifecycle
  imports Machine_State Catalog Port_Forward
begin

text \<open>
  The life of a machine as its state file sees it: every update of \<open>MachineState\<close> in
  \<^verbatim>\<open>firestone-core/src/shim.rs\<close> and \<^verbatim>\<open>firestone/src/store.rs\<close> that is written to disk, as a
  function, and the steps these updates make as a relation. The clock is the argument \<open>at\<close>.
\<close>

section \<open>Updates by actions that hold the machine's lock\<close>

text \<open>\<open>created_state\<close>: the canonical image reference comes from the catalog when it knows it.\<close>

definition created_state ::
  "(string \<Rightarrow> string) \<Rightarrow> Paths \<Rightarrow> Catalog \<Rightarrow> string \<Rightarrow> string \<Rightarrow> MachineSpec \<Rightarrow> (FirestoneError, MachineState) result"
  where
  "created_state dbg paths catalog machine name spec =
     and_then
       (case ms_arch spec of
          Some architecture \<Rightarrow> Inr architecture
        | None \<Rightarrow> map_err (\<lambda>msg. with_hint ''run Firestone on an x86_64 or aarch64 host''
                      (error_new Dependency msg)) (arch_current machine)) (\<lambda>architecture.
     and_then
       (if contains_reference catalog (image_as_str (ms_image spec))
        then and_then (resolve catalog (image_as_str (ms_image spec)) (arch_as_str architecture))
               (\<lambda>entry. Inr (re_canonical_reference entry))
        else Inr (image_as_str (ms_image spec))) (\<lambda>image_reference.
     and_then (machine_runtime_dir dbg paths name) (\<lambda>runtime_dir.
       Inr \<lparr>st_status = Created,
            st_image = \<lparr>si_ref = image_reference, si_id = None, si_sha256 = None\<rparr>,
            st_mac = map_option mac_display (ns_mac (ms_network spec)), st_cid = 3,
            st_instance_id = None, st_shim_pid = None, st_vmm_pid = None, st_sidecar_pids = [],
            st_runtime_dir = runtime_dir, st_started_at = None,
            st_forwards = map port_forward_display (ns_forward (ms_network spec)),
            st_degraded = [], st_last_exit = None\<rparr>)))"

definition clone_state :: "MachineState \<Rightarrow> MachineState \<Rightarrow> MachineState" where
  "clone_state created live = created\<lparr>st_image := st_image live\<rparr>"

definition ensure_startable :: "(string \<Rightarrow> string) \<Rightarrow> string \<Rightarrow> MachineState \<Rightarrow> (FirestoneError, unit) result" where
  "ensure_startable dbg name state =
     (case st_status state of
        Created \<Rightarrow> Inr () | Stopped \<Rightarrow> Inr () | Failed \<Rightarrow> Inr ()
      | _ \<Rightarrow> Inl (with_hint (''use firestone stop '' @ name @ '' before starting it again'')
               (error_new AlreadyRunning (''machine '' @ dbg name @ '' is already active''))))"

text \<open>\<open>launch\<close>: the hand-over to the shim, in two writes.\<close>

definition begin_start :: "string \<Rightarrow> MachineState \<Rightarrow> MachineState" where
  "begin_start at s =
     s\<lparr>st_status := Starting, st_shim_pid := None, st_vmm_pid := None, st_sidecar_pids := [],
       st_degraded := [], st_started_at := Some at\<rparr>"

definition record_shim :: "u32 \<Rightarrow> MachineState \<Rightarrow> MachineState" where
  "record_shim pid s = s\<lparr>st_shim_pid := Some pid\<rparr>"

definition cancel_prepared :: "MachineStatus \<Rightarrow> MachineState \<Rightarrow> MachineState" where
  "cancel_prepared previous s =
     s\<lparr>st_status := previous, st_shim_pid := None, st_vmm_pid := None, st_started_at := None,
       st_sidecar_pids := [], st_degraded := []\<rparr>"

definition rollback_before_shim :: "string \<Rightarrow> string \<Rightarrow> MachineStatus \<Rightarrow> MachineState \<Rightarrow> MachineState" where
  "rollback_before_shim at error_message previous s =
     (cancel_prepared previous s)\<lparr>st_last_exit :=
        Some \<lparr>lx_at = at, lx_code = None, lx_signal = None, lx_reason = Failure error_message\<rparr>\<rparr>"

definition terminate_unready_shim :: "string \<Rightarrow> string \<Rightarrow> MachineState \<Rightarrow> MachineState" where
  "terminate_unready_shim at error_message s =
     s\<lparr>st_status := Failed, st_shim_pid := None, st_vmm_pid := None, st_sidecar_pids := [],
       st_started_at := None, st_degraded := [],
       st_last_exit := Some \<lparr>lx_at = at, lx_code = None, lx_signal = None, lx_reason = Failure error_message\<rparr>\<rparr>"

text \<open>\<open>prepare_machine\<close> pins the image; \<open>prepare_start\<close> fills in what the launch needs.\<close>

definition pin_image :: "string \<Rightarrow> string \<Rightarrow> string \<Rightarrow> MachineState \<Rightarrow> MachineState" where
  "pin_image source_ref id_text source_sha256 s =
     s\<lparr>st_image := \<lparr>si_ref = source_ref, si_id = Some id_text, si_sha256 = Some source_sha256\<rparr>\<rparr>"

definition allocated_mac :: "(string \<Rightarrow> u8 list) \<Rightarrow> string \<Rightarrow> string \<Rightarrow> string" where
  "allocated_mac sha256 data_dir name =
     (let digest = sha256 (''firestone-machine-mac-v1'' @ [CHR 0x00] @ data_dir @ [CHR 0x00] @ name)
      in ''52:54:00:'' @ show_hex2 (unat (digest ! 0)) @ '':'' @ show_hex2 (unat (digest ! 1)) @ '':'' @ show_hex2 (unat (digest ! 2)))"

definition record_instance :: "string \<Rightarrow> MachineState \<Rightarrow> MachineState" where
  "record_instance identity s = s\<lparr>st_instance_id := Some identity\<rparr>"

definition ensure_mac :: "string \<Rightarrow> MachineState \<Rightarrow> MachineState" where
  "ensure_mac new_mac s = (if st_mac s = None then s\<lparr>st_mac := Some new_mac\<rparr> else s)"

definition prepare_state :: "string \<Rightarrow> string \<Rightarrow> string list \<Rightarrow> MachineState \<Rightarrow> MachineState" where
  "prepare_state identity new_mac forwards s =
     (ensure_mac new_mac (record_instance identity s))\<lparr>st_forwards := forwards\<rparr>"

text \<open>\<open>snapshot_restore\<close>: the state it writes after replacing the disk.\<close>

definition restore_state :: "MachineState \<Rightarrow> MachineState" where
  "restore_state s =
     s\<lparr>st_status := (if st_status s = Failed then Stopped else st_status s), st_degraded := []\<rparr>"

section \<open>Updates by the shim\<close>

text \<open>A process status has a code or a signal, never both.\<close>

datatype ExitStatus = ExitCode int | ExitSignal int | ExitOther

definition sidecar_exit_marker :: "string \<Rightarrow> ExitStatus \<Rightarrow> string" where
  "sidecar_exit_marker name status =
     (case status of
        ExitCode code \<Rightarrow> name @ '' exited (code '' @ show_int code @ '')''
      | ExitSignal signal \<Rightarrow> name @ '' exited (signal '' @ show_int signal @ '')''
      | ExitOther \<Rightarrow> name @ '' exited (unknown status)'')"

definition VMM_API_UNRESPONSIVE :: string where "VMM_API_UNRESPONSIVE = ''vmm API unresponsive''"

definition set_vmm_api_degraded :: "bool \<Rightarrow> MachineState \<Rightarrow> MachineState" where
  "set_vmm_api_degraded unresponsive s =
     s\<lparr>st_degraded := filter (\<lambda>m. m \<noteq> VMM_API_UNRESPONSIVE) (st_degraded s)
         @ (if unresponsive then [VMM_API_UNRESPONSIVE] else [])\<rparr>"

definition add_degraded :: "string \<Rightarrow> MachineState \<Rightarrow> MachineState" where
  "add_degraded marker s =
     (if marker \<in> set (st_degraded s) then s else s\<lparr>st_degraded := st_degraded s @ [marker]\<rparr>)"

definition record_sidecar :: "string \<Rightarrow> u32 \<Rightarrow> MachineState \<Rightarrow> MachineState" where
  "record_sidecar name pid s = s\<lparr>st_sidecar_pids := btree_insert name pid (st_sidecar_pids s)\<rparr>"

definition forget_sidecar :: "string \<Rightarrow> MachineState \<Rightarrow> MachineState" where
  "forget_sidecar name s =
     s\<lparr>st_sidecar_pids := (case btree_remove name (st_sidecar_pids s) of
                             None \<Rightarrow> st_sidecar_pids s | Some (_, rest) \<Rightarrow> rest)\<rparr>"

text \<open>A sidecar exited on its own: it is forgotten and the machine is marked degraded.\<close>

definition sidecar_exited :: "string \<Rightarrow> string \<Rightarrow> MachineState \<Rightarrow> MachineState" where
  "sidecar_exited name marker s = add_degraded marker (forget_sidecar name s)"

definition record_vmm :: "u32 \<Rightarrow> MachineState \<Rightarrow> MachineState" where
  "record_vmm pid s = s\<lparr>st_vmm_pid := Some pid\<rparr>"

definition publish_running :: "MachineState \<Rightarrow> MachineState" where
  "publish_running s = s\<lparr>st_status := Running\<rparr>"

definition begin_stop :: "MachineState \<Rightarrow> MachineState" where
  "begin_stop s = s\<lparr>st_status := Stopping\<rparr>"

text \<open>A replacement shim adopts a VMM that outlived its shim.\<close>

definition start_clock :: "string \<Rightarrow> MachineState \<Rightarrow> MachineState" where
  "start_clock at s = (if st_started_at s = None then s\<lparr>st_started_at := Some at\<rparr> else s)"

text \<open>
  \<open>recover_sidecar_processes\<close> on the state: for each sidecar the plan expects, the process
  found for it, if one was.
\<close>

definition recover_sidecar_pids :: "(string \<times> u32 option) list \<Rightarrow> MachineState \<Rightarrow> MachineState" where
  "recover_sidecar_pids found =
     fold (\<lambda>(name, candidate). case candidate of Some pid \<Rightarrow> record_sidecar name pid
                                             | None \<Rightarrow> forget_sidecar name) found"

definition missing_sidecars ::
  "(string \<times> u32 option) list \<Rightarrow> string list \<Rightarrow> MachineState \<Rightarrow> string list" where
  "missing_sidecars found identity_sidecars s =
     map fst (filter (\<lambda>(name, candidate). candidate = None
        \<and> (map_of (st_sidecar_pids s) name \<noteq> None \<or> name \<in> set identity_sidecars)) found)"

definition adopt_vmm ::
  "string \<Rightarrow> u32 \<Rightarrow> u32 \<Rightarrow> bool \<Rightarrow> (string \<times> u32 option) list \<Rightarrow> string list \<Rightarrow> MachineState \<Rightarrow> MachineState" where
  "adopt_vmm at pid vmm_pid api_ready found identity_sidecars s =
     (let prior_status = st_status s;
          missing = missing_sidecars found identity_sidecars s;
          s = recover_sidecar_pids found s;
          s = s\<lparr>st_shim_pid := Some pid, st_vmm_pid := Some vmm_pid\<rparr>;
          s = (if api_ready then start_clock at (set_vmm_api_degraded False (s\<lparr>st_status := Running\<rparr>))
               else if prior_status = Running then set_vmm_api_degraded True (s\<lparr>st_status := Running\<rparr>)
               else set_vmm_api_degraded False (s\<lparr>st_status := Starting\<rparr>))
      in if prior_status = Running
         then fold (\<lambda>sidecar. add_degraded (sidecar @ '' exited (status unavailable)'')) missing s
         else s)"

text \<open>\<open>stop_unsupervised\<close>: the VMM is stopped from an action, its shim being dead.\<close>

definition begin_stop_unsupervised :: "u32 \<Rightarrow> (string \<times> u32 option) list \<Rightarrow> MachineState \<Rightarrow> MachineState" where
  "begin_stop_unsupervised record_pid found s =
     (recover_sidecar_pids found (s\<lparr>st_shim_pid := None\<rparr>))\<lparr>st_vmm_pid := Some record_pid, st_status := Stopping\<rparr>"

definition api_became_ready :: "string \<Rightarrow> MachineState \<Rightarrow> MachineState" where
  "api_became_ready at s = start_clock at (set_vmm_api_degraded False (s\<lparr>st_status := Running\<rparr>))"


definition last_exit :: "string \<Rightarrow> ExitStatus option \<Rightarrow> ExitReason \<Rightarrow> LastExit" where
  "last_exit at status reason =
     \<lparr>lx_at = at,
      lx_code = (case status of Some (ExitCode c) \<Rightarrow> Some c | _ \<Rightarrow> None),
      lx_signal = (case status of Some (ExitSignal g) \<Rightarrow> Some g | _ \<Rightarrow> None),
      lx_reason = reason\<rparr>"

definition write_final_state ::
  "string \<Rightarrow> MachineStatus \<Rightarrow> ExitStatus option \<Rightarrow> ExitReason \<Rightarrow> MachineState \<Rightarrow> MachineState" where
  "write_final_state at status process_status reason s =
     s\<lparr>st_status := status, st_shim_pid := None, st_vmm_pid := None, st_sidecar_pids := [],
       st_started_at := None, st_degraded := [],
       st_last_exit := Some (last_exit at process_status reason)\<rparr>"

definition write_recoverable_failed_state :: "string \<Rightarrow> u32 \<Rightarrow> string \<Rightarrow> MachineState \<Rightarrow> MachineState" where
  "write_recoverable_failed_state at record_pid error_message s =
     s\<lparr>st_status := Failed, st_shim_pid := None, st_vmm_pid := Some record_pid, st_degraded := [],
       st_last_exit := Some \<lparr>lx_at = at, lx_code = None, lx_signal = None,
         lx_reason = Failure (error_message @ ''; VMM recovery evidence retained'')\<rparr>\<rparr>"

definition write_ambiguous_failed_state :: "string \<Rightarrow> string \<Rightarrow> MachineState \<Rightarrow> MachineState" where
  "write_ambiguous_failed_state at error_message s =
     s\<lparr>st_status := Failed, st_shim_pid := None,
       st_last_exit := Some \<lparr>lx_at = at, lx_code = None, lx_signal = None,
         lx_reason = Failure (error_message
           @ ''; process absence was not proven and runtime evidence was retained'')\<rparr>\<rparr>"

section \<open>What a status allows (store.rs)\<close>

datatype SnapshotKind = Cold | Warm

fun machine_status_word :: "MachineStatus \<Rightarrow> string" where
  "machine_status_word Created = ''created''"
| "machine_status_word Starting = ''starting''"
| "machine_status_word Running = ''running''"
| "machine_status_word Stopping = ''stopping''"
| "machine_status_word Stopped = ''stopped''"
| "machine_status_word Failed = ''failed''"

definition snapshot_kind_for :: "string \<Rightarrow> MachineStatus \<Rightarrow> (FirestoneError, SnapshotKind) result" where
  "snapshot_kind_for name status =
     (case status of
        Created \<Rightarrow> Inr Cold | Stopped \<Rightarrow> Inr Cold | Running \<Rightarrow> Inr Warm
      | _ \<Rightarrow> Inl (with_hint
               (''wait for machine '' @ name @ '' to settle, or stop it and take a cold snapshot'')
               (error_new Conflict (''machine `'' @ name @ ''` is '' @ machine_status_word status
                  @ '' and cannot be snapshotted''))))"

definition ensure_clonable :: "string \<Rightarrow> MachineStatus \<Rightarrow> (FirestoneError, unit) result" where
  "ensure_clonable name status =
     ensure (status = Created \<or> status = Stopped)
       (with_hint (''run `firestone stop '' @ name @ ''` and clone the stopped machine'')
         (error_new Conflict (''machine `'' @ name @ ''` is '' @ machine_status_word status
            @ '' and cannot be cloned'')))"

definition prune_removable_status :: "MachineStatus \<Rightarrow> bool" where
  "prune_removable_status status \<longleftrightarrow> status = Stopped \<or> status = Created \<or> status = Failed"

definition display_status :: "MachineStatus \<Rightarrow> bool \<Rightarrow> Supervision option \<Rightarrow> string" where
  "display_status status degraded supervision =
     (if status = Running then
        (let base = (if degraded then ''running!'' else ''running'')
         in if supervision = Some Unsupervised then base @ '' (unsupervised)'' else base)
      else machine_status_word status)"

definition pinned_image_reference :: "MachineState \<Rightarrow> string option" where
  "pinned_image_reference s =
     (if si_id (st_image s) \<noteq> None \<and> si_sha256 (st_image s) \<noteq> None then Some (si_ref (st_image s)) else None)"

section \<open>Steps\<close>

text \<open>
  One rule per write of the state file. The guards are those of the code: an action that holds
  the lock prepares and starts only an inactive machine, the shim updates only the state it
  owns, and a reconciliation rewrites only what \<open>reconcile\<close> asks for. A state the writer would
  refuse is never written, hence the guards on empty messages and on process ids. The flag says
  whether snapshots are restored.
\<close>

inductive lifecycle_step :: "bool \<Rightarrow> MachineState \<Rightarrow> MachineState \<Rightarrow> bool" for restores where
  pin: "\<not> is_active (st_status s) \<Longrightarrow> r \<noteq> [] \<Longrightarrow> i \<noteq> [] \<Longrightarrow> h \<noteq> [] \<Longrightarrow>
     lifecycle_step restores s (pin_image r i h s)"
| prepare: "\<not> is_active (st_status s) \<Longrightarrow> lifecycle_step restores s (prepare_state identity new_mac forwards s)"
| start: "\<not> is_active (st_status s) \<Longrightarrow> lifecycle_step restores s (begin_start at s)"
| shim: "st_status s = Starting \<Longrightarrow> pid \<noteq> 0 \<Longrightarrow> lifecycle_step restores s (record_shim pid s)"
| cancel: "\<not> is_active previous \<Longrightarrow> lifecycle_step restores s (cancel_prepared previous s)"
| rollback: "\<not> is_active previous \<Longrightarrow> msg \<noteq> [] \<Longrightarrow>
     lifecycle_step restores s (rollback_before_shim at msg previous s)"
| unready: "msg \<noteq> [] \<Longrightarrow> lifecycle_step restores s (terminate_unready_shim at msg s)"
| sidecar: "is_active (st_status s) \<Longrightarrow> pid \<noteq> 0 \<Longrightarrow> lifecycle_step restores s (record_sidecar name pid s)"
| sidecar_stop: "is_active (st_status s) \<Longrightarrow> lifecycle_step restores s (forget_sidecar name s)"
| sidecar_exit: "is_active (st_status s) \<Longrightarrow> lifecycle_step restores s (sidecar_exited name marker s)"
| vmm: "is_active (st_status s) \<Longrightarrow> pid \<noteq> 0 \<Longrightarrow> lifecycle_step restores s (record_vmm pid s)"
| running: "is_active (st_status s) \<Longrightarrow> lifecycle_step restores s (publish_running s)"
| stopping: "is_active (st_status s) \<Longrightarrow> lifecycle_step restores s (begin_stop s)"
| stop_failed: "is_active (st_status s) \<Longrightarrow> is_active before \<Longrightarrow> lifecycle_step restores s (s\<lparr>st_status := before\<rparr>)"
| unsupervised: "pid \<noteq> 0 \<Longrightarrow> (\<forall>(n, c) \<in> set found. c \<noteq> Some 0) \<Longrightarrow>
     lifecycle_step restores s (begin_stop_unsupervised pid found s)"
| adopt: "st_status s = Starting \<or> st_status s = Running \<Longrightarrow> pid \<noteq> 0 \<Longrightarrow> vmm_pid \<noteq> 0 \<Longrightarrow>
     (\<forall>(n, c) \<in> set found. c \<noteq> Some 0) \<Longrightarrow>
     lifecycle_step restores s (adopt_vmm at pid vmm_pid api_ready found identity_sidecars s)"
| ready: "is_active (st_status s) \<Longrightarrow> lifecycle_step restores s (api_became_ready at s)"
| final: "status = Stopped \<or> status = Failed \<Longrightarrow> reason \<noteq> Failure [] \<Longrightarrow>
     lifecycle_step restores s (write_final_state at status process_status reason s)"
| recoverable: "pid \<noteq> 0 \<Longrightarrow> lifecycle_step restores s (write_recoverable_failed_state at pid msg s)"
| ambiguous: "lifecycle_step restores s (write_ambiguous_failed_state at msg s)"
| paused: "is_active (st_status s) \<Longrightarrow>
     lifecycle_step restores s (add_degraded ''vmm paused after a failed snapshot resume'' s)"
| restore: "restores \<Longrightarrow> \<not> is_active (st_status s) \<Longrightarrow> lifecycle_step restores s (restore_state s)"
| reconciled: "reconciled_state s (reconcile (st_status s) ob) at = Some t \<Longrightarrow> lifecycle_step restores s t"

inductive lifecycle_reachable :: "bool \<Rightarrow> MachineState \<Rightarrow> bool" for restores where
  created: "created_state dbg paths catalog machine name spec = Inr s \<Longrightarrow> validate_state s = Inr () \<Longrightarrow>
     lifecycle_reachable restores s"
| cloned: "lifecycle_reachable restores live \<Longrightarrow> ensure_clonable source (st_status live) = Inr () \<Longrightarrow>
     created_state dbg paths catalog machine name spec = Inr s \<Longrightarrow>
     lifecycle_reachable restores (clone_state s live)"
| step: "lifecycle_reachable restores s \<Longrightarrow> lifecycle_step restores s t \<Longrightarrow> lifecycle_reachable restores t"

section \<open>Invariant\<close>

definition lifecycle_inv :: "bool \<Rightarrow> MachineState \<Rightarrow> bool" where
  "lifecycle_inv restores s \<longleftrightarrow>
     state_ok s \<and> distinct (st_degraded s) \<and> btree_wf (st_sidecar_pids s)
     \<and> (st_shim_pid s \<noteq> None \<longrightarrow> is_active (st_status s))
     \<and> (st_status s = Created \<longrightarrow> settled s)
     \<and> (st_status s = Stopped \<longrightarrow> st_degraded s = [] \<and> (restores \<or> settled s))"

lemma not_active [simp]: "\<not> is_active Created" "\<not> is_active Stopped" "\<not> is_active Failed"
  and active [simp]: "is_active Starting" "is_active Running" "is_active Stopping"
  by (simp_all add: is_active_def)

lemmas lifecycle_defs =
  pin_image_def prepare_state_def ensure_mac_def record_instance_def begin_start_def record_shim_def cancel_prepared_def rollback_before_shim_def
  terminate_unready_shim_def record_vmm_def publish_running_def begin_stop_def write_final_state_def
  write_recoverable_failed_state_def write_ambiguous_failed_state_def restore_state_def last_exit_def

text \<open>The sidecar map is ordered and its process ids are not zero.\<close>

definition pids_ok :: "(string \<times> u32) list \<Rightarrow> bool" where
  "pids_ok t \<longleftrightarrow> btree_wf t \<and> (\<forall>p \<in> set t. snd p \<noteq> 0)"

lemma pids_ok_insert: "pids_ok t \<Longrightarrow> pid \<noteq> 0 \<Longrightarrow> pids_ok (btree_insert name pid t)"
  by (auto simp: pids_ok_def dest: set_btree_insert)

lemma record_sidecar_pids:
  "pids_ok (st_sidecar_pids s) \<Longrightarrow> pid \<noteq> 0 \<Longrightarrow>
   \<exists>t. record_sidecar name pid s = s\<lparr>st_sidecar_pids := t\<rparr> \<and> pids_ok t"
  using pids_ok_insert unfolding record_sidecar_def by blast

lemma forget_sidecar_pids:
  "pids_ok (st_sidecar_pids s) \<Longrightarrow> \<exists>t. forget_sidecar name s = s\<lparr>st_sidecar_pids := t\<rparr> \<and> pids_ok t"
  unfolding forget_sidecar_def pids_ok_def
  using btree_remove_wf [of "st_sidecar_pids s" name] by (fastforce split: option.splits prod.splits)

lemma recover_sidecar_pids_only:
  assumes "\<forall>(n, c) \<in> set found. c \<noteq> Some 0" and "pids_ok (st_sidecar_pids s)"
  shows "\<exists>t. recover_sidecar_pids found s = s\<lparr>st_sidecar_pids := t\<rparr> \<and> pids_ok t"
  using assms
proof (induction found arbitrary: s)
  case Nil
  then show ?case by (intro exI [of _ "st_sidecar_pids s"]) (simp add: recover_sidecar_pids_def)
next
  case (Cons a found)
  obtain n c where a: "a = (n, c)" by (cases a)
  obtain t where t: "(case c of Some pid \<Rightarrow> record_sidecar n pid | None \<Rightarrow> forget_sidecar n) s = s\<lparr>st_sidecar_pids := t\<rparr>"
    "pids_ok t"
    using Cons.prems a record_sidecar_pids [of s _ n] forget_sidecar_pids [of s n]
    by (cases c) auto
  obtain t' where "recover_sidecar_pids found (s\<lparr>st_sidecar_pids := t\<rparr>)
      = (s\<lparr>st_sidecar_pids := t\<rparr>)\<lparr>st_sidecar_pids := t'\<rparr>" "pids_ok t'"
    using Cons.IH [of "s\<lparr>st_sidecar_pids := t\<rparr>"] Cons.prems t(2) by auto
  then show ?case using t(1) by (intro exI [of _ t']) (simp add: recover_sidecar_pids_def a)
qed

text \<open>Degraded markers are kept without duplicates.\<close>

lemma add_degraded_only:
  "distinct (st_degraded s) \<Longrightarrow> \<exists>d. add_degraded marker s = s\<lparr>st_degraded := d\<rparr> \<and> distinct d"
  by (rule exI [of _ "if marker \<in> set (st_degraded s) then st_degraded s else st_degraded s @ [marker]"])
    (simp add: add_degraded_def)

lemma fold_add_degraded_only:
  "distinct (st_degraded s) \<Longrightarrow>
   \<exists>d. fold (\<lambda>x. add_degraded (f x)) xs s = s\<lparr>st_degraded := d\<rparr> \<and> distinct d"
proof (induction xs arbitrary: s)
  case Nil
  then show ?case by (intro exI [of _ "st_degraded s"]) simp
next
  case (Cons x xs)
  obtain d where d: "add_degraded (f x) s = s\<lparr>st_degraded := d\<rparr>" "distinct d"
    using add_degraded_only [OF Cons.prems] by blast
  obtain d' where "fold (\<lambda>x. add_degraded (f x)) xs (s\<lparr>st_degraded := d\<rparr>)
      = (s\<lparr>st_degraded := d\<rparr>)\<lparr>st_degraded := d'\<rparr>" "distinct d'"
    using Cons.IH [of "s\<lparr>st_degraded := d\<rparr>"] d(2) by auto
  then show ?case using d(1) by (intro exI [of _ d']) simp
qed

lemma set_vmm_api_degraded_only:
  "distinct (st_degraded s) \<Longrightarrow> \<exists>d. set_vmm_api_degraded b s = s\<lparr>st_degraded := d\<rparr> \<and> distinct d"
  by (auto simp: set_vmm_api_degraded_def)

lemma start_clock_only: "\<exists>c. start_clock at s = s\<lparr>st_started_at := c\<rparr>"
  by (rule exI [of _ "if st_started_at s = None then Some at else st_started_at s"]) (simp add: start_clock_def)

text \<open>
  The invariant of a state with an active status needs only what the updates of a supervised
  machine keep; an adoption is one such update.
\<close>

lemma lifecycle_inv_active:
  "is_active (st_status s) \<Longrightarrow>
   lifecycle_inv restores s \<longleftrightarrow> state_ok s \<and> distinct (st_degraded s) \<and> btree_wf (st_sidecar_pids s)"
  by (auto simp: lifecycle_inv_def is_active_def)

lemma state_ok_active_update:
  assumes "state_ok s" and "pid \<noteq> Some 0" and "vmm \<noteq> Some 0" and "pids_ok t"
  shows "state_ok (s\<lparr>st_status := st, st_shim_pid := pid, st_vmm_pid := vmm, st_sidecar_pids := t,
      st_started_at := c, st_degraded := d\<rparr>)"
  using assms by (simp add: state_ok_def pids_ok_def)

lemma lifecycle_inv_active_update:
  assumes "lifecycle_inv restores s" and "is_active st" and "pid \<noteq> Some 0" and "vmm \<noteq> Some 0"
    and "pids_ok t" and "distinct d"
  shows "lifecycle_inv restores (s\<lparr>st_status := st, st_shim_pid := pid, st_vmm_pid := vmm, st_sidecar_pids := t,
      st_started_at := c, st_degraded := d\<rparr>)"
proof -
  have "state_ok s" using assms(1) by (simp add: lifecycle_inv_def)
  from state_ok_active_update [OF this assms(3,4,5)] show ?thesis
    using assms by (simp add: lifecycle_inv_active pids_ok_def)
qed

lemma lifecycle_inv_pids: "lifecycle_inv restores s \<Longrightarrow> pids_ok (st_sidecar_pids s)"
  by (simp add: lifecycle_inv_def state_ok_def pids_ok_def)

lemma lifecycle_inv_recover:
  assumes "lifecycle_inv restores s" and "\<forall>(n, c) \<in> set found. c \<noteq> Some 0"
  shows "\<exists>t. recover_sidecar_pids found s = s\<lparr>st_sidecar_pids := t\<rparr> \<and> pids_ok t"
  using assms by (intro recover_sidecar_pids_only lifecycle_inv_pids)

text \<open>What an adoption changes: nothing but the process ids, the clock, the markers and the status.\<close>

lemma adopt_vmm_update:
  assumes "\<forall>(n, c) \<in> set found. c \<noteq> Some 0" and "pids_ok (st_sidecar_pids s)" and "distinct (st_degraded s)"
  shows "\<exists>st t c d. adopt_vmm at pid vmm_pid api_ready found identity_sidecars s =
      s\<lparr>st_status := st, st_shim_pid := Some pid, st_vmm_pid := Some vmm_pid, st_sidecar_pids := t,
        st_started_at := c, st_degraded := d\<rparr> \<and> is_active st \<and> pids_ok t \<and> distinct d"
proof -
  obtain t where t: "recover_sidecar_pids found s = s\<lparr>st_sidecar_pids := t\<rparr>" "pids_ok t"
    using recover_sidecar_pids_only [OF assms(1,2)] by blast
  define u where "u = s\<lparr>st_sidecar_pids := t, st_shim_pid := Some pid, st_vmm_pid := Some vmm_pid\<rparr>"
  define v where "v = (if api_ready then start_clock at (set_vmm_api_degraded False (u\<lparr>st_status := Running\<rparr>))
      else if st_status s = Running then set_vmm_api_degraded True (u\<lparr>st_status := Running\<rparr>)
      else set_vmm_api_degraded False (u\<lparr>st_status := Starting\<rparr>))"
  have du: "distinct (st_degraded (u\<lparr>st_status := st\<rparr>))" for st using assms(3) by (simp add: u_def)
  have "\<exists>st c d. v = u\<lparr>st_status := st, st_started_at := c, st_degraded := d\<rparr> \<and> is_active st \<and> distinct d"
  proof (cases api_ready)
    case True
    obtain d where d: "set_vmm_api_degraded False (u\<lparr>st_status := Running\<rparr>)
        = (u\<lparr>st_status := Running\<rparr>)\<lparr>st_degraded := d\<rparr>" "distinct d"
      using set_vmm_api_degraded_only [OF du [of Running]] by blast
    obtain c where "start_clock at ((u\<lparr>st_status := Running\<rparr>)\<lparr>st_degraded := d\<rparr>)
        = (u\<lparr>st_status := Running\<rparr>)\<lparr>st_degraded := d, st_started_at := c\<rparr>"
      using start_clock_only by blast
    then show ?thesis using True d
      by (intro exI [of _ Running] exI [of _ c] exI [of _ d]) (simp add: v_def)
  next
    case False
    define st where "st = (if st_status s = Running then Running else Starting)"
    obtain d where "set_vmm_api_degraded (st_status s = Running) (u\<lparr>st_status := st\<rparr>)
        = (u\<lparr>st_status := st\<rparr>)\<lparr>st_degraded := d\<rparr>" "distinct d"
      using set_vmm_api_degraded_only [OF du [of st]] by blast
    then show ?thesis using False
      by (intro exI [of _ st] exI [of _ "st_started_at u"] exI [of _ d]) (simp add: v_def st_def split: if_splits)
  qed
  then obtain st c d where v: "v = u\<lparr>st_status := st, st_started_at := c, st_degraded := d\<rparr>" "is_active st" "distinct d"
    by blast
  let ?marker = "\<lambda>sidecar. sidecar @ '' exited (status unavailable)''"
  obtain d' where d': "(if st_status s = Running
      then fold (\<lambda>sidecar. add_degraded (?marker sidecar)) (missing_sidecars found identity_sidecars s) v else v)
      = v\<lparr>st_degraded := d'\<rparr>" "distinct d'"
    using fold_add_degraded_only [of v ?marker] v by (cases "st_status s = Running") force+
  have "adopt_vmm at pid vmm_pid api_ready found identity_sidecars s = v\<lparr>st_degraded := d'\<rparr>"
    unfolding adopt_vmm_def Let_def t(1) u_def [symmetric] d'(1) [symmetric] by (simp only: v_def u_def)
  then show ?thesis using v d' t(2)
    by (intro exI [of _ st] exI [of _ t] exI [of _ c] exI [of _ d']) (simp add: u_def)
qed

lemma lifecycle_inv_adopt:
  assumes "lifecycle_inv restores s" and "pid \<noteq> 0" and "vmm_pid \<noteq> 0"
    and "\<forall>(n, c) \<in> set found. c \<noteq> Some 0"
  shows "lifecycle_inv restores (adopt_vmm at pid vmm_pid api_ready found identity_sidecars s)"
proof -
  have "distinct (st_degraded s)" using assms(1) by (simp add: lifecycle_inv_def)
  then obtain st t c d where "adopt_vmm at pid vmm_pid api_ready found identity_sidecars s =
      s\<lparr>st_status := st, st_shim_pid := Some pid, st_vmm_pid := Some vmm_pid, st_sidecar_pids := t,
        st_started_at := c, st_degraded := d\<rparr>" "is_active st" "pids_ok t" "distinct d"
    using adopt_vmm_update [OF assms(4) lifecycle_inv_pids [OF assms(1)]] by blast
  then show ?thesis using lifecycle_inv_active_update [OF assms(1)] assms(2,3) by simp
qed

lemma lifecycle_inv_stop_unsupervised:
  assumes "lifecycle_inv restores s" and "pid \<noteq> 0" and "\<forall>(n, c) \<in> set found. c \<noteq> Some 0"
  shows "lifecycle_inv restores (begin_stop_unsupervised pid found s)"
proof -
  have "pids_ok (st_sidecar_pids (s\<lparr>st_shim_pid := None\<rparr>))" using lifecycle_inv_pids [OF assms(1)] by simp
  from recover_sidecar_pids_only [OF assms(3) this] obtain t where
    "recover_sidecar_pids found (s\<lparr>st_shim_pid := None\<rparr>) = s\<lparr>st_shim_pid := None, st_sidecar_pids := t\<rparr>" "pids_ok t"
    by auto
  then show ?thesis using assms(1,2)
    by (simp add: begin_stop_unsupervised_def lifecycle_inv_active)
      (simp add: lifecycle_inv_def state_ok_def pids_ok_def)
qed

lemma lifecycle_inv_sidecars:
  assumes "lifecycle_inv restores s" and "is_active (st_status s)" and "pids_ok t" and "distinct d"
  shows "lifecycle_inv restores (s\<lparr>st_sidecar_pids := t, st_degraded := d\<rparr>)"
  using assms by (simp add: lifecycle_inv_active state_ok_def pids_ok_def)

lemma lifecycle_inv_degraded:
  assumes "lifecycle_inv restores s" and "is_active (st_status s)"
  shows "lifecycle_inv restores (add_degraded marker s)"
  using assms add_degraded_only [of s marker] lifecycle_inv_pids [OF assms(1)]
    lifecycle_inv_sidecars [OF assms, of "st_sidecar_pids s"]
  by (auto simp: lifecycle_inv_def)

lemma lifecycle_inv_forget:
  assumes "lifecycle_inv restores s" and "is_active (st_status s)"
  shows "lifecycle_inv restores (forget_sidecar name s)" and "is_active (st_status (forget_sidecar name s))"
proof -
  obtain t where t: "forget_sidecar name s = s\<lparr>st_sidecar_pids := t\<rparr>" "pids_ok t"
    using forget_sidecar_pids [OF lifecycle_inv_pids [OF assms(1)]] by blast
  then show "lifecycle_inv restores (forget_sidecar name s)"
    using lifecycle_inv_sidecars [OF assms t(2), of "st_degraded s"] assms(1) by (simp add: lifecycle_inv_def)
  show "is_active (st_status (forget_sidecar name s))" using t assms(2) by simp
qed

lemma lifecycle_inv_record:
  assumes "lifecycle_inv restores s" and "is_active (st_status s)" and "pid \<noteq> 0"
  shows "lifecycle_inv restores (record_sidecar name pid s)"
proof -
  obtain t where t: "record_sidecar name pid s = s\<lparr>st_sidecar_pids := t\<rparr>" "pids_ok t"
    using record_sidecar_pids [OF lifecycle_inv_pids [OF assms(1)] assms(3)] by blast
  then show ?thesis
    using lifecycle_inv_sidecars [OF assms(1,2) t(2), of "st_degraded s"] assms(1) by (simp add: lifecycle_inv_def)
qed

lemma lifecycle_inv_ready:
  assumes "lifecycle_inv restores s"
  shows "lifecycle_inv restores (api_became_ready at s)"
proof -
  have i: "lifecycle_inv restores (s\<lparr>st_status := Running\<rparr>)"
    using assms by (simp add: lifecycle_inv_active) (simp add: lifecycle_inv_def state_ok_def)
  obtain d where d: "set_vmm_api_degraded False (s\<lparr>st_status := Running\<rparr>) = s\<lparr>st_status := Running, st_degraded := d\<rparr>"
      "distinct d"
    using set_vmm_api_degraded_only [of "s\<lparr>st_status := Running\<rparr>" False] assms by (auto simp: lifecycle_inv_def)
  obtain c where "api_became_ready at s = s\<lparr>st_status := Running, st_degraded := d, st_started_at := c\<rparr>"
    using start_clock_only [of at "s\<lparr>st_status := Running, st_degraded := d\<rparr>"] d(1) by (auto simp: api_became_ready_def)
  then show ?thesis using i d(2) by (simp add: lifecycle_inv_active state_ok_def)
qed

text \<open>Updates that leave a machine active, that settle it, and that keep its status.\<close>

lemma lifecycle_inv_becomes_active:
  assumes "lifecycle_inv restores s"
  shows "lifecycle_inv restores (begin_start at s)"
    and "lifecycle_inv restores (publish_running s)" and "lifecycle_inv restores (begin_stop s)"
    and "is_active st \<Longrightarrow> lifecycle_inv restores (s\<lparr>st_status := st\<rparr>)"
    and "is_active (st_status s) \<Longrightarrow> pid \<noteq> 0 \<Longrightarrow> lifecycle_inv restores (record_shim pid s)"
    and "is_active (st_status s) \<Longrightarrow> pid \<noteq> 0 \<Longrightarrow> lifecycle_inv restores (record_vmm pid s)"
  using assms by (simp_all add: lifecycle_defs lifecycle_inv_active, simp_all add: lifecycle_inv_def state_ok_def)

lemma lifecycle_inv_settles:
  assumes "lifecycle_inv restores s"
  shows "\<not> is_active st \<Longrightarrow> lifecycle_inv restores (cancel_prepared st s)"
    and "\<not> is_active st \<Longrightarrow> msg \<noteq> [] \<Longrightarrow> lifecycle_inv restores (rollback_before_shim at msg st s)"
    and "msg \<noteq> [] \<Longrightarrow> lifecycle_inv restores (terminate_unready_shim at msg s)"
    and "reason \<noteq> Failure [] \<Longrightarrow> lifecycle_inv restores (write_final_state at st process_status reason s)"
  using assms
  by (simp_all add: lifecycle_defs lifecycle_inv_def state_ok_def settled_def split: option.splits ExitStatus.splits)

lemma lifecycle_inv_fails:
  assumes "lifecycle_inv restores s"
  shows "pid \<noteq> 0 \<Longrightarrow> lifecycle_inv restores (write_recoverable_failed_state at pid msg s)"
    and "lifecycle_inv restores (write_ambiguous_failed_state at msg s)"
  using assms by (simp_all add: lifecycle_defs lifecycle_inv_def state_ok_def)

lemma lifecycle_inv_inactive:
  assumes "lifecycle_inv restores s"
  shows "r \<noteq> [] \<Longrightarrow> i \<noteq> [] \<Longrightarrow> h \<noteq> [] \<Longrightarrow> lifecycle_inv restores (pin_image r i h s)"
    and "lifecycle_inv restores (prepare_state identity new_mac forwards s)"
  using assms by (simp_all add: lifecycle_defs lifecycle_inv_def state_ok_def settled_def) blast+

lemma lifecycle_inv_restore:
  assumes "lifecycle_inv restores s" and "restores"
  shows "lifecycle_inv restores (restore_state s)"
  using assms by (auto simp: lifecycle_defs lifecycle_inv_def state_ok_def settled_def)

lemma lifecycle_inv_step:
  assumes "lifecycle_step restores s t" and inv: "lifecycle_inv restores s"
  shows "lifecycle_inv restores t"
  using assms(1)
proof (cases rule: lifecycle_step.cases)
  case (sidecar_exit name marker)
  then show ?thesis unfolding sidecar_exited_def
    using inv by (simp add: lifecycle_inv_degraded lifecycle_inv_forget)
next
  case (reconciled ob at)
  note r = reconciled_state_Some [OF this]
  then show ?thesis using inv by (simp add: lifecycle_inv_def settled_def)
next
  case shim
  then show ?thesis using inv by (simp add: lifecycle_inv_becomes_active)
next
  case restore
  then show ?thesis using lifecycle_inv_restore [OF inv] by simp
qed (simp_all only: inv lifecycle_inv_adopt lifecycle_inv_stop_unsupervised lifecycle_inv_record lifecycle_inv_forget
    lifecycle_inv_ready lifecycle_inv_degraded lifecycle_inv_becomes_active lifecycle_inv_settles lifecycle_inv_fails
    lifecycle_inv_inactive lifecycle_inv_restore not_False_eq_True)

lemma created_state_settled:
  assumes "created_state dbg paths catalog machine name spec = Inr s"
  shows "st_status s = Created" and "settled s" and "st_last_exit s = None"
  using assms unfolding created_state_def by (auto simp: and_then_Inr_iff settled_def)

lemma lifecycle_inv_created:
  assumes "created_state dbg paths catalog machine name spec = Inr s" and "state_ok s"
  shows "lifecycle_inv restores s"
  using created_state_settled [OF assms(1)] assms(2) by (simp add: lifecycle_inv_def settled_def)

lemma lifecycle_inv_cloned:
  assumes "created_state dbg paths catalog machine name spec = Inr s" and "lifecycle_inv restores live"
  shows "lifecycle_inv restores (clone_state s live)"
  using created_state_settled [OF assms(1)] assms(2)
  by (simp add: lifecycle_inv_def settled_def state_ok_def clone_state_def)

lemma lifecycle_reachable_inv: "lifecycle_reachable restores s \<Longrightarrow> lifecycle_inv restores s"
  by (induction rule: lifecycle_reachable.induct)
    (simp_all add: lifecycle_inv_created lifecycle_inv_cloned lifecycle_inv_step validate_state_iff)


definition demo_machine :: "(FirestoneError, MachineState) result" where
  "demo_machine = created_state id demo_layout \<lparr>entries = []\<rparr> ''x86_64'' ''m''
     (machine_spec_default\<lparr>ms_arch := Some X86_64\<rparr>)"

lemma demo_machine_reachable:
  "\<exists>s. demo_machine = Inr s \<and> st_status s = Created \<and> lifecycle_reachable restores s"
proof -
  have "(case demo_machine of Inl _ \<Rightarrow> False | Inr s \<Rightarrow> validate_state s = Inr ())" by code_simp
  then obtain s where s: "demo_machine = Inr s" "validate_state s = Inr ()" by (auto split: sum.splits)
  show ?thesis using s lifecycle_reachable.created [OF s(1) [unfolded demo_machine_def] s(2)]
      created_state_settled(1) [OF s(1) [unfolded demo_machine_def]] by blast
qed

text \<open>A machine whose launch ended without proof that its VMM is gone.\<close>

lemma ambiguous_failure_reachable:
  "\<exists>s. lifecycle_reachable restores s \<and> st_status s = Failed \<and> st_vmm_pid s = Some 8"
proof -
  obtain s where s: "st_status s = Created" "lifecycle_reachable restores s"
    using demo_machine_reachable by blast
  let ?a = "begin_start ''t'' s" let ?b = "record_shim 7 ?a" let ?c = "record_vmm 8 ?b"
  have "lifecycle_step restores s ?a" using s by (intro lifecycle_step.start) simp
  moreover have "lifecycle_step restores ?a ?b" by (intro lifecycle_step.shim) (simp_all add: begin_start_def)
  moreover have "lifecycle_step restores ?b ?c"
    by (intro lifecycle_step.vmm) (simp_all add: begin_start_def record_shim_def)
  moreover have "lifecycle_step restores ?c (write_ambiguous_failed_state ''t'' ''m'' ?c)"
    by (rule lifecycle_step.ambiguous)
  ultimately have "lifecycle_reachable restores (write_ambiguous_failed_state ''t'' ''m'' ?c)"
    using s(2) by (blast intro: lifecycle_reachable.step)
  then show ?thesis by (intro exI) (auto simp: write_ambiguous_failed_state_def record_vmm_def)
qed



end
