(* ===== verification/Tar_Stream.thy ===== *)
theory Tar_Stream
  imports Rust_Text Btree
begin

text \<open>
  Reading one OCI layer: the restartable cursor of \<^verbatim>\<open>firestone-core/src/oci/layers.rs\<close> over a
  decompressed tar stream, with the PAX and GNU extension headers. Bytes are characters, as in
  \<^verbatim>\<open>Rust_Text\<close>; a \<open>u64\<close> that only counts is a natural number with its saturation written out.
  The accessors of a 512-byte header are those of the \<open>tar\<close> crate and are arguments.
\<close>

section \<open>Headers and members\<close>

datatype EntryType =
    TRegular | TLink | TSymlink | TChar | TBlock | TDirectory | TFifo | TContinuous
  | TGNULongName | TGNULongLink | TGNUSparse | TXGlobalHeader | TXHeader | TOther u8

record TarCrate =
  tc_cksum :: "string \<Rightarrow> (IoError, u32) result"
  tc_entry_type :: "string \<Rightarrow> EntryType"
  tc_entry_size :: "string \<Rightarrow> (IoError, u64) result"
  tc_path_bytes :: "string \<Rightarrow> string"
  tc_link_name_bytes :: "string \<Rightarrow> string option"
  tc_set_link_name_literal :: "string \<Rightarrow> string \<Rightarrow> (IoError, string) result"
  tc_set_entry_type :: "EntryType \<Rightarrow> string \<Rightarrow> string"
  tc_set_size :: "nat \<Rightarrow> string \<Rightarrow> string"
  tc_set_cksum :: "string \<Rightarrow> string"
  tc_new_ustar :: string
  tc_set_path :: "string \<Rightarrow> string \<Rightarrow> (IoError, string) result"
  tc_set_username :: "string \<Rightarrow> string \<Rightarrow> (IoError, string) result"
  tc_set_groupname :: "string \<Rightarrow> string \<Rightarrow> (IoError, string) result"
  tc_set_mode :: "nat \<Rightarrow> string \<Rightarrow> string"
  tc_set_uid :: "nat \<Rightarrow> string \<Rightarrow> string"
  tc_set_gid :: "nat \<Rightarrow> string \<Rightarrow> string"
  tc_set_mtime :: "nat \<Rightarrow> string \<Rightarrow> string"

definition BLOCK :: nat where "BLOCK = 512"

definition MAX_EXTENSION_BYTES :: nat where "MAX_EXTENSION_BYTES = 1024 * 1024"

definition REPULL_HINT :: string where
  "REPULL_HINT = ''re-pull the image; the layer tar is malformed''"

definition layer_error :: "string \<Rightarrow> string \<Rightarrow> FirestoneError" where
  "layer_error msg h = with_hint h (error_new Dependency msg)"

definition cap_error :: "string \<Rightarrow> FirestoneError" where
  "cap_error msg =
     with_hint ''raise the OCI merge limits or use a smaller image'' (error_new Dependency msg)"

definition read_error :: FirestoneError where
  "read_error =
     with_hint ''re-pull the image and merge it again'' (error_new Dependency ''cannot read an OCI layer'')"

definition truncated_hint :: string where
  "truncated_hint = ''re-pull the image; the layer tar is truncated''"

record ExtensionHeader =
  eh_header :: string
  eh_data :: string

record Member =
  m_header :: string
  m_extensions :: "ExtensionHeader list"
  m_path :: string
  m_link :: "string option"
  m_entry_type :: EntryType
  m_data_size :: nat
  m_ordinal :: nat

definition padding_for :: "nat \<Rightarrow> nat" where
  "padding_for len = (let remainder = len mod BLOCK in if remainder = 0 then 0 else BLOCK - remainder)"

text \<open>The checksum field counts as blanks; both the unsigned and the signed sum are accepted.\<close>

definition checksum_bytes :: "string \<Rightarrow> u8 list" where
  "checksum_bytes block =
     map (\<lambda>(i, c). if 148 \<le> i \<and> i < 156 then 32 else of_char c) (zip [0..<length block] block)"

definition checksum_matches :: "string \<Rightarrow> u32 \<Rightarrow> bool" where
  "checksum_matches block stored \<longleftrightarrow>
     foldl (\<lambda>acc v. acc + ucast v) 0 (checksum_bytes block) = stored
     \<or> foldl (\<lambda>acc v. acc + scast v) 0 (checksum_bytes block) = stored"

definition trim_nul :: "string \<Rightarrow> string" where
  "trim_nul data = takeWhile (\<lambda>c. c \<noteq> CHR 0x00) data"

section \<open>PAX records\<close>

text \<open>
  A record is \<open>len key=value\<close> and a line feed, where \<open>len\<close> counts itself. The parser splits a
  payload into its records; \<open>record_bytes\<close> finds the length by iteration.
\<close>

function parse_pax_records :: "string \<Rightarrow> (FirestoneError, string list) result" where
  "parse_pax_records rest =
     (if rest = [] then Inr []
      else
        case split_once (CHR '' '') rest of
          None \<Rightarrow> Inl (layer_error ''a PAX extended header record has no length prefix'' REPULL_HINT)
        | Some (before, _) \<Rightarrow>
            (let space = length before
             in case from_str_radix (2 ^ 64) 10 before of
                  None \<Rightarrow> Inl (layer_error ''a PAX extended header record has an unreadable length'' REPULL_HINT)
                | Some len \<Rightarrow>
                    if len \<le> space + 1 \<or> len > length rest
                    then Inl (layer_error ''a PAX extended header record has an out-of-range length'' REPULL_HINT)
                    else and_then (parse_pax_records (drop len rest)) (\<lambda>records.
                           Inr (drop (space + 1) (take (len - 1) rest) # records))))"
  by pat_completeness auto
termination by (relation "measure length") auto

declare parse_pax_records.simps [simp del]

definition pax_key :: "string \<Rightarrow> string \<Rightarrow> string option" where
  "pax_key key record =
     (case split_once (CHR ''='') record of
        None \<Rightarrow> None | Some (k, v) \<Rightarrow> if k = key then Some v else None)"

fun pax_value :: "string list \<Rightarrow> string \<Rightarrow> string option" where
  "pax_value [] key = None"
| "pax_value (record # records) key =
     (case pax_key key record of Some v \<Rightarrow> Some v | None \<Rightarrow> pax_value records key)"

text \<open>The number of digits of a number, and the self-referential length of a record.\<close>

definition record_candidate :: "nat \<Rightarrow> nat \<Rightarrow> nat" where
  "record_candidate body len = length (show_nat len) + 1 + body + 1"

lemma show_nat_length_mono: "m \<le> n \<Longrightarrow> length (show_nat m) \<le> length (show_nat n)"
proof (induction "10 :: nat" n arbitrary: m rule: show_radix.induct)
  case (1 n)
  show ?case
  proof (cases "m < 10")
    case True
    then have "length (show_nat m) = 1" by (subst show_radix.simps) simp
    then show ?thesis by (simp add: Suc_le_eq)
  next
    case False
    with 1 have "length (show_nat (m div 10)) \<le> length (show_nat (n div 10))" by (simp add: div_le_mono)
    then show ?thesis using False 1(2) by (subst (1 2) show_radix.simps) simp
  qed
qed

lemma show_nat_length_le: "2 * length (show_nat n) \<le> n + 2"
proof (induction "10 :: nat" n rule: show_radix.induct)
  case (1 n)
  show ?case
  proof (cases "n < 10")
    case False
    then have "2 * length (show_nat (n div 10)) \<le> n div 10 + 2" using 1 by simp
    moreover have "n div 10 + 2 \<le> n" using False by linarith
    ultimately show ?thesis using False by (subst show_radix.simps) simp
  qed (subst show_radix.simps, simp)
qed

lemma record_candidate_mono: "m \<le> n \<Longrightarrow> record_candidate body m \<le> record_candidate body n"
  by (simp add: record_candidate_def show_nat_length_mono)

lemma record_candidate_bound:
  assumes "len \<le> record_candidate body len"
  shows "record_candidate body len \<le> 2 * body + 10"
proof -
  show ?thesis using assms show_nat_length_le [of len] unfolding record_candidate_def by linarith
qed

function record_length :: "nat \<Rightarrow> nat \<Rightarrow> nat" where
  "record_length body len =
     (let candidate = record_candidate body len
      in if candidate = len then len else record_length body candidate)"
  by pat_completeness auto
termination
proof (relation "measure (\<lambda>(body, len). if len \<le> record_candidate body len then 2 * body + 11 - len
    else 2 * body + 12 + len)", goal_cases)
  case (2 body len x)
  let ?f = "record_candidate body"
  show ?case
  proof (cases "len \<le> ?f len")
    case True
    then have "?f len \<le> ?f (?f len)" by (rule record_candidate_mono)
    moreover have "?f len \<le> 2 * body + 10" using True by (rule record_candidate_bound)
    ultimately show ?thesis using 2 True by simp
  next
    case False
    then have "?f (?f len) \<le> ?f len" by (intro record_candidate_mono) simp
    then show ?thesis using 2 False by auto
  qed
qed simp

declare record_length.simps [simp del]

definition record_bytes :: "string \<Rightarrow> string" where
  "record_bytes record =
     (let len = record_length (length record) (length record + 2)
      in show_nat len @ CHR '' '' # record @ [CHR 0x0A])"

text \<open>The length found counts the whole record, so the parser splits exactly there.\<close>

lemma record_length_fixed: "record_candidate body (record_length body len) = record_length body len"
proof (induction body len rule: record_length.induct)
  case (1 body len)
  then show ?case by (cases "record_candidate body len = len") (simp_all add: record_length.simps [of body len] Let_def)
qed

lemma record_bytes_length:
  "length (record_bytes record) = record_length (length record) (length record + 2)"
proof -
  let ?len = "record_length (length record) (length record + 2)"
  have "length (record_bytes record) = record_candidate (length record) ?len"
    by (simp add: record_bytes_def Let_def record_candidate_def)
  then show ?thesis by (simp only: record_length_fixed)
qed

lemma parse_pax_record:
  assumes "length record < 2 ^ 62"
  shows "parse_pax_records (record_bytes record @ rest) =
     and_then (parse_pax_records rest) (\<lambda>records. Inr (record # records))"
proof -
  define n where "n = record_length (length record) (length record + 2)"
  have len: "length (record_bytes record) = n" by (simp only: record_bytes_length n_def)
  have form: "record_bytes record = show_nat n @ CHR '' '' # record @ [CHR 0x0A]"
    by (simp add: record_bytes_def n_def Let_def)
  have "n = record_candidate (length record) n" unfolding n_def by (simp only: record_length_fixed)
  then have "n \<le> 2 * length record + 10" using record_candidate_bound [of n "length record"] by simp
  then have small: "n < 2 ^ 64" using assms by simp
  let ?s = "show_nat n"
  have n: "n = length ?s + length record + 2" using len form by simp
  have sp: "split_once (CHR '' '') (record_bytes record @ rest) = Some (?s, record @ CHR 0x0A # rest)"
    unfolding form using show_nat_digits [of n] by (auto simp: split_once_Some_iff list_all_iff is_ascii_digit_def)
  have dropped: "drop n (record_bytes record @ rest) = rest" using len by simp
  have taken: "drop (length ?s + 1) (take (n - 1) (record_bytes record @ rest)) = record"
  proof -
    define front where "front = ?s @ CHR '' '' # record"
    have "record_bytes record @ rest = front @ CHR 0x0A # rest" by (simp add: form front_def)
    moreover have "n - 1 = length front" using n by (simp add: front_def)
    ultimately have "take (n - 1) (record_bytes record @ rest) = front" by simp
    then show ?thesis by (simp add: front_def)
  qed
  have "record_bytes record \<noteq> []" using form by simp
  then show ?thesis
    unfolding parse_pax_records.simps [of "record_bytes record @ rest"] sp
    using small n len taken by (simp add: Let_def from_str_radix_show dropped del: take_append)
qed

section \<open>The cursor\<close>

text \<open>
  \<open>source.open()\<close> under \<open>GzDecoder\<close>: the decompressed bytes and whether reading past them
  fails instead of reporting the end.
\<close>

record LayerSource =
  ls_label :: string
  ls_open :: "(FirestoneError, string \<times> bool) result"

record LayerCursor =
  cu_index :: nat
  cu_source :: LayerSource
  cu_reader :: "(string \<times> bool) option"
  cu_next_ordinal :: nat
  cu_pending :: "nat option"
  cu_bytes_read :: nat

definition cursor_new :: "nat \<Rightarrow> LayerSource \<Rightarrow> LayerCursor" where
  "cursor_new index source =
     \<lparr>cu_index = index, cu_source = source, cu_reader = None, cu_next_ordinal = 0, cu_pending = None,
      cu_bytes_read = 0\<rparr>"

definition cursor_label :: "LayerCursor \<Rightarrow> string" where
  "cursor_label cu = ls_label (cu_source cu) @ '' (index '' @ show_nat (cu_index cu) @ '')''"

definition reopen :: "LayerCursor \<Rightarrow> (FirestoneError, LayerCursor) result" where
  "reopen cu =
     and_then (ls_open (cu_source cu)) (\<lambda>stream.
       Inr (cu\<lparr>cu_reader := Some stream, cu_next_ordinal := 0, cu_pending := None\<rparr>))"

definition reader_mut :: "LayerCursor \<Rightarrow> (FirestoneError, string \<times> bool) result" where
  "reader_mut cu =
     ok_or (with_hint ''report this as a firestone bug''
       (error_new Dependency ''an OCI layer reader is not open'')) (cu_reader cu)"

definition take_pending :: "LayerCursor \<Rightarrow> (FirestoneError, nat \<times> LayerCursor) result" where
  "take_pending cu =
     (case cu_pending cu of
        None \<Rightarrow> Inl (layer_error (''layer '' @ cursor_label cu @ '' has no entry payload pending'')
                  ''report this as a firestone bug'')
      | Some len \<Rightarrow> Inr (len, cu\<lparr>cu_pending := None\<rparr>))"

text \<open>Reads up to \<open>n\<close> bytes: fewer only at the end of the stream.\<close>

definition read_up_to :: "nat \<Rightarrow> LayerCursor \<Rightarrow> (FirestoneError, string \<times> LayerCursor) result" where
  "read_up_to n cu =
     and_then (reader_mut cu) (\<lambda>(bytes, failing).
       if length bytes < n \<and> failing then Inl read_error
       else Inr (take n bytes,
              cu\<lparr>cu_reader := Some (drop n bytes, failing),
                 cu_bytes_read := saturating_add (cu_bytes_read cu) (length (take n bytes))\<rparr>))"

definition read_block :: "LayerCursor \<Rightarrow> (FirestoneError, string option \<times> LayerCursor) result" where
  "read_block cu =
     and_then (read_up_to BLOCK cu) (\<lambda>(block, cu').
       if block = [] then Inr (None, cu')
       else if length block < BLOCK
       then Inl (layer_error (''layer '' @ cursor_label cu @ '' ends inside a tar header'') truncated_hint)
       else Inr (Some block, cu'))"

definition skip_padding :: "nat \<Rightarrow> LayerCursor \<Rightarrow> (FirestoneError, LayerCursor) result" where
  "skip_padding len cu =
     (let padding = padding_for len
      in if padding = 0 then Inr cu
         else and_then (read_up_to padding cu) (\<lambda>(discard, cu').
           if length discard < padding
           then Inl (layer_error (''layer '' @ cursor_label cu @ '' ends inside entry padding'') truncated_hint)
           else Inr cu'))"

definition read_exact_padded :: "nat \<Rightarrow> LayerCursor \<Rightarrow> (FirestoneError, string \<times> LayerCursor) result" where
  "read_exact_padded len cu =
     and_then (read_up_to len cu) (\<lambda>(data, cu').
       if length data \<noteq> len
       then Inl (layer_error (''layer '' @ cursor_label cu @ '' is truncated inside an entry'') truncated_hint)
       else and_then (skip_padding len cu') (\<lambda>cu''. Inr (data, cu'')))"

definition skip_data :: "LayerCursor \<Rightarrow> (FirestoneError, LayerCursor) result" where
  "skip_data cu =
     and_then (take_pending cu) (\<lambda>(len, cu).
     and_then (read_exact_padded len cu) (\<lambda>(_, cu). Inr cu))"

text \<open>\<open>copy_data\<close> returns the bytes it writes: the payload and zero padding.\<close>

definition write_padding :: "nat \<Rightarrow> string" where
  "write_padding len = replicate (padding_for len) (CHR 0x00)"

definition copy_data :: "LayerCursor \<Rightarrow> (FirestoneError, string \<times> LayerCursor) result" where
  "copy_data cu =
     and_then (take_pending cu) (\<lambda>(len, cu).
     and_then (map_err (\<lambda>_. with_hint ''re-pull the image and merge it again''
          (error_new Dependency ''cannot copy an OCI layer entry'')) (read_up_to len cu)) (\<lambda>(data, cu').
       if length data \<noteq> len
       then Inl (layer_error (''layer '' @ cursor_label cu @ '' is truncated inside an entry'') truncated_hint)
       else and_then (skip_padding len cu') (\<lambda>cu''. Inr (data @ write_padding len, cu''))))"

text \<open>How much a cursor can still read; opening it counts as one step.\<close>

definition unread :: "LayerCursor \<Rightarrow> nat" where
  "unread cu =
     (case cu_reader cu of
        Some (bytes, _) \<Rightarrow> length bytes
      | None \<Rightarrow> (case ls_open (cu_source cu) of Inl _ \<Rightarrow> 0 | Inr (bytes, _) \<Rightarrow> Suc (length bytes)))"

lemma unread_update [simp]:
  "unread (cu\<lparr>cu_next_ordinal := n\<rparr>) = unread cu"
  "unread (cu\<lparr>cu_pending := p\<rparr>) = unread cu"
  "unread (cu\<lparr>cu_next_ordinal := n, cu_pending := p\<rparr>) = unread cu"
  by (simp_all add: unread_def split: option.splits)

lemma read_up_to_unread:
  assumes "read_up_to n cu = Inr (data, cu')"
  shows "unread cu' = unread cu - n" and "length data = min n (unread cu)" and "cu_source cu' = cu_source cu"
  using assms by (auto simp: read_up_to_def reader_mut_def unread_def and_then_Inr_iff split: if_splits)

lemma read_block_unread:
  assumes "read_block cu = Inr (Some block, cu')"
  shows "unread cu' < unread cu" and "length block = BLOCK" and "cu_source cu' = cu_source cu"
proof -
  have up: "read_up_to BLOCK cu = Inr (block, cu')" and len: "length block = BLOCK"
    using assms read_up_to_unread(2) [of BLOCK cu]
    by (force simp: read_block_def and_then_Inr_iff split: if_splits)+
  show "length block = BLOCK" by (fact len)
  then have "0 < unread cu" "0 < BLOCK" using read_up_to_unread(2) [OF up] by (auto simp: BLOCK_def)
  then show "unread cu' < unread cu" "cu_source cu' = cu_source cu" using read_up_to_unread [OF up] by simp_all
qed

lemma skip_padding_unread:
  "skip_padding len cu = Inr cu' \<Longrightarrow> unread cu' \<le> unread cu \<and> cu_source cu' = cu_source cu"
  using read_up_to_unread [of "padding_for len" cu]
  by (force simp: skip_padding_def Let_def and_then_Inr_iff split: if_splits)

lemma read_exact_padded_unread:
  "read_exact_padded len cu = Inr (data, cu') \<Longrightarrow> unread cu' \<le> unread cu \<and> cu_source cu' = cu_source cu"
  using read_up_to_unread [of len cu] skip_padding_unread
  by (force simp: read_exact_padded_def and_then_Inr_iff split: if_splits)

section \<open>Reading a member\<close>

text \<open>What the extension headers before a member have said so far.\<close>

record HeaderScan =
  hs_extensions :: "ExtensionHeader list"
  hs_long_name :: "string option"
  hs_long_link :: "string option"
  hs_pax_path :: "string option"
  hs_pax_link :: "string option"

definition header_scan_new :: HeaderScan where
  "header_scan_new =
     \<lparr>hs_extensions = [], hs_long_name = None, hs_long_link = None, hs_pax_path = None, hs_pax_link = None\<rparr>"

definition is_extension :: "EntryType \<Rightarrow> bool" where
  "is_extension t \<longleftrightarrow> t = TGNULongName \<or> t = TGNULongLink \<or> t = TXHeader \<or> t = TXGlobalHeader"

definition absorb_extension ::
  "EntryType \<Rightarrow> string \<Rightarrow> string \<Rightarrow> HeaderScan \<Rightarrow> (FirestoneError, HeaderScan) result" where
  "absorb_extension entry_type header data scan =
     and_then
       (case entry_type of
          TGNULongName \<Rightarrow> Inr (scan\<lparr>hs_long_name := Some (trim_nul data)\<rparr>)
        | TGNULongLink \<Rightarrow> Inr (scan\<lparr>hs_long_link := Some (trim_nul data)\<rparr>)
        | TXHeader \<Rightarrow> and_then (parse_pax_records data) (\<lambda>records.
            Inr (scan\<lparr>hs_pax_path := pax_value records ''path'', hs_pax_link := pax_value records ''linkpath''\<rparr>))
        | _ \<Rightarrow> Inr scan) (\<lambda>scan.
       Inr (if entry_type \<noteq> TXGlobalHeader
            then scan\<lparr>hs_extensions := hs_extensions scan @ [\<lparr>eh_header = header, eh_data = data\<rparr>]\<rparr>
            else scan))"

definition or_else :: "'a option \<Rightarrow> 'a option \<Rightarrow> 'a option" where
  "or_else a b = (case a of None \<Rightarrow> b | Some _ \<Rightarrow> a)"

definition make_member :: "TarCrate \<Rightarrow> string \<Rightarrow> EntryType \<Rightarrow> nat \<Rightarrow> HeaderScan \<Rightarrow> nat \<Rightarrow> Member" where
  "make_member tc header entry_type len scan ordinal =
     \<lparr>m_header = header, m_extensions = hs_extensions scan,
      m_path = (case or_else (hs_pax_path scan) (hs_long_name scan) of
                  Some p \<Rightarrow> p | None \<Rightarrow> tc_path_bytes tc header),
      m_link = or_else (or_else (hs_pax_link scan) (hs_long_link scan)) (tc_link_name_bytes tc header),
      m_entry_type = entry_type, m_data_size = len, m_ordinal = ordinal\<rparr>"

definition check_header :: "TarCrate \<Rightarrow> string \<Rightarrow> string \<Rightarrow> (FirestoneError, EntryType \<times> nat) result" where
  "check_header tc label block =
     and_then (map_err (\<lambda>_. layer_error (''layer '' @ label @ '' has an unreadable header checksum'') REPULL_HINT)
        (tc_cksum tc block)) (\<lambda>stored.
     and_then (ensure (checksum_matches block stored)
        (layer_error (''layer '' @ label @ '' has a header checksum mismatch'') REPULL_HINT)) (\<lambda>_.
     and_then (ensure (tc_entry_type tc block \<noteq> TGNUSparse)
        (layer_error (''layer '' @ label @ '' holds a GNU sparse entry'')
           ''rebuild the image without sparse tar entries'')) (\<lambda>_.
     and_then (map_err (\<lambda>_. layer_error (''layer '' @ label @ '' has an unreadable entry size'') REPULL_HINT)
        (tc_entry_size tc block)) (\<lambda>len. Inr (tc_entry_type tc block, unat len)))))"

function read_header_loop ::
  "TarCrate \<Rightarrow> string \<Rightarrow> HeaderScan \<Rightarrow> LayerCursor \<Rightarrow> (FirestoneError, Member option \<times> LayerCursor) result" where
  "read_header_loop tc label scan cu =
     and_then (read_block cu) (\<lambda>(block, cu).
       case block of
         None \<Rightarrow>
           if hs_extensions scan = [] then Inr (None, cu)
           else Inl (layer_error (''layer '' @ label @ '' ends after an extension header'') truncated_hint)
       | Some block \<Rightarrow>
           if list_all (\<lambda>c. c = CHR 0x00) block then Inr (None, cu)
           else and_then (check_header tc label block) (\<lambda>(entry_type, len).
             if is_extension entry_type then
               if len > MAX_EXTENSION_BYTES
               then Inl (cap_error (''layer '' @ label @ '' has an extension header above ''
                      @ show_nat MAX_EXTENSION_BYTES @ '' bytes''))
               else and_then (read_exact_padded len cu) (\<lambda>(data, cu).
                    and_then (absorb_extension entry_type block data scan) (\<lambda>scan.
                      read_header_loop tc label scan cu))
             else
               Inr (Some (make_member tc block entry_type len scan (cu_next_ordinal cu)),
                    cu\<lparr>cu_next_ordinal := cu_next_ordinal cu + 1, cu_pending := Some len\<rparr>)))"
  by pat_completeness auto
termination
proof (relation "measure (\<lambda>(_, _, _, cu). unread cu)", goal_cases)
  case 2
  then show ?case by (fastforce dest: read_block_unread(1) read_exact_padded_unread)
qed simp

declare read_header_loop.simps [simp del]

definition read_header :: "TarCrate \<Rightarrow> LayerCursor \<Rightarrow> (FirestoneError, Member option \<times> LayerCursor) result" where
  "read_header tc cu =
     and_then (if cu_reader cu = None then reopen cu else Inr cu) (\<lambda>cu.
     and_then (if cu_pending cu \<noteq> None then skip_data cu else Inr cu) (\<lambda>cu.
       read_header_loop tc (cursor_label cu) header_scan_new cu))"

lemma read_header_loop_unread:
  "read_header_loop tc label scan cu = Inr (Some m, cu') \<Longrightarrow> unread cu' < unread cu \<and> cu_source cu' = cu_source cu"
proof (induction tc label scan cu arbitrary: cu' rule: read_header_loop.induct)
  case (1 tc label scan cu)
  obtain block cu1 where b: "read_block cu = Inr (Some block, cu1)"
    using "1.prems" by (subst (asm) read_header_loop.simps) (auto simp: and_then_Inr_iff split: option.splits if_splits)
  obtain entry_type len where h: "check_header tc label block = Inr (entry_type, len)"
    using "1.prems" b by (subst (asm) read_header_loop.simps) (auto simp: and_then_Inr_iff split: if_splits)
  note u = read_block_unread [OF b]
  show ?case
  proof (cases "is_extension entry_type")
    case False
    then have "unread cu' = unread cu1 \<and> cu_source cu' = cu_source cu1"
      using "1.prems" b h by (subst (asm) read_header_loop.simps) (auto split: if_splits)
    then show ?thesis using u by simp
  next
    case True
    obtain data cu2 scan' where r: "read_exact_padded len cu1 = Inr (data, cu2)"
      "absorb_extension entry_type block data scan = Inr scan'"
      "read_header_loop tc label scan' cu2 = Inr (Some m, cu')"
      "\<not> list_all (\<lambda>c. c = CHR 0x00) block" "\<not> len > MAX_EXTENSION_BYTES"
      using "1.prems" b h True
      by (subst (asm) read_header_loop.simps) (auto simp: and_then_Inr_iff split: if_splits)
    have "unread cu' < unread cu2 \<and> cu_source cu' = cu_source cu2"
      using "1.IH" [OF b refl refl r(4) h refl True r(5) r(1) refl r(2) r(3)] .
    then show ?thesis using u read_exact_padded_unread [OF r(1)] by simp
  qed
qed

lemma skip_data_unread: "skip_data cu = Inr cu' \<Longrightarrow> unread cu' \<le> unread cu \<and> cu_source cu' = cu_source cu"
  by (auto simp: skip_data_def take_pending_def and_then_Inr_iff
      dest!: read_exact_padded_unread split: option.splits)

lemma reopen_unread:
  "cu_reader cu = None \<Longrightarrow> reopen cu = Inr cu' \<Longrightarrow> unread cu' < unread cu \<and> cu_source cu' = cu_source cu"
  by (auto simp: reopen_def and_then_Inr_iff unread_def)

lemma read_header_unread:
  assumes "read_header tc cu = Inr (Some m, cu')"
  shows "unread cu' < unread cu"
proof -
  obtain a b where "(if cu_reader cu = None then reopen cu else Inr cu) = Inr a"
    "(if cu_pending a \<noteq> None then skip_data a else Inr a) = Inr b"
    "read_header_loop tc (cursor_label b) header_scan_new b = Inr (Some m, cu')"
    using assms by (auto simp: read_header_def and_then_Inr_iff)
  then have "unread a \<le> unread cu" "unread b \<le> unread a" "unread cu' < unread b"
    using reopen_unread [of cu a] skip_data_unread [of a b] read_header_loop_unread [of tc _ _ b m cu']
    by (auto split: if_splits)
  then show ?thesis by linarith
qed

function seek_loop :: "TarCrate \<Rightarrow> nat \<Rightarrow> LayerCursor \<Rightarrow> (FirestoneError, Member \<times> LayerCursor) result" where
  "seek_loop tc ordinal cu =
     and_then (read_header tc cu) (\<lambda>(found, cu').
       case found of
         None \<Rightarrow> Inl (layer_error (''layer '' @ cursor_label cu @ '' ended before entry '' @ show_nat ordinal)
                   ''re-pull the image and merge it again'')
       | Some member \<Rightarrow>
           if m_ordinal member = ordinal then Inr (member, cu')
           else and_then (skip_data cu') (\<lambda>cu''. seek_loop tc ordinal cu''))"
  by pat_completeness auto
termination
proof (relation "measure (\<lambda>(_, _, cu). unread cu)", goal_cases)
  case (2 tc ordinal cu x found cu1 member cu2)
  then have "unread cu1 < unread cu" "unread cu2 \<le> unread cu1"
    using read_header_unread [of tc cu member cu1] skip_data_unread [of cu1 cu2] by auto
  then show ?case by simp
qed simp

declare seek_loop.simps [simp del]

definition seek_to :: "TarCrate \<Rightarrow> nat \<Rightarrow> LayerCursor \<Rightarrow> (FirestoneError, Member \<times> LayerCursor) result" where
  "seek_to tc ordinal cu =
     and_then (if cu_reader cu = None \<or> cu_next_ordinal cu > ordinal then reopen cu else Inr cu)
       (seek_loop tc ordinal)"

section \<open>Written members read back\<close>

definition write_extension :: "ExtensionHeader \<Rightarrow> string" where
  "write_extension extension = eh_header extension @ eh_data extension @ write_padding (length (eh_data extension))"

lemma read_up_to_front:
  assumes "cu_reader cu = Some (data @ rest, bad)" and "n = length data"
  shows "\<exists>cu'. read_up_to n cu = Inr (data, cu') \<and> cu_reader cu' = Some (rest, bad)
     \<and> cu_next_ordinal cu' = cu_next_ordinal cu"
  using assms by (simp add: read_up_to_def reader_mut_def)

lemma read_block_front:
  assumes "cu_reader cu = Some (block @ rest, bad)" and "length block = BLOCK"
  shows "\<exists>cu'. read_block cu = Inr (Some block, cu') \<and> cu_reader cu' = Some (rest, bad)
     \<and> cu_next_ordinal cu' = cu_next_ordinal cu"
  using read_up_to_front [OF assms(1), of BLOCK] assms(2) by (auto simp: read_block_def BLOCK_def)

lemma read_exact_padded_front:
  assumes "cu_reader cu = Some (data @ write_padding (length data) @ rest, bad)" and "len = length data"
  shows "\<exists>cu'. read_exact_padded len cu = Inr (data, cu') \<and> cu_reader cu' = Some (rest, bad)
     \<and> cu_next_ordinal cu' = cu_next_ordinal cu"
proof -
  obtain c1 where c1: "read_up_to len cu = Inr (data, c1)" "cu_next_ordinal c1 = cu_next_ordinal cu"
    "cu_reader c1 = Some (write_padding (length data) @ rest, bad)"
    using read_up_to_front [OF assms] by blast
  have "\<exists>cu'. skip_padding len c1 = Inr cu' \<and> cu_reader cu' = Some (rest, bad)
      \<and> cu_next_ordinal cu' = cu_next_ordinal c1"
  proof (cases "padding_for len = 0")
    case True
    then show ?thesis using c1(3) assms(2) by (simp add: skip_padding_def write_padding_def)
  next
    case False
    have "length (write_padding (length data)) = padding_for len" by (simp add: write_padding_def assms(2))
    then show ?thesis using read_up_to_front [OF c1(3), of "padding_for len"] False by (auto simp: skip_padding_def Let_def)
  qed
  then show ?thesis using c1 assms(2) by (auto simp: read_exact_padded_def)
qed

lemma check_header_label:
  "check_header tc label block = Inr r \<Longrightarrow> check_header tc label' block = Inr r"
  by (simp add: check_header_def and_then_Inr_iff)

lemma absorb_extension_grows:
  assumes "absorb_extension entry_type header data scan = Inr scan'"
  shows "entry_type = TXGlobalHeader \<and> scan' = scan
     \<or> entry_type \<noteq> TXGlobalHeader
       \<and> hs_extensions scan' = hs_extensions scan @ [\<lparr>eh_header = header, eh_data = data\<rparr>]"
  using assms by (auto simp: absorb_extension_def and_then_Inr_iff split: EntryType.splits)

lemma read_exact_padded_length: "read_exact_padded len cu = Inr (data, cu') \<Longrightarrow> length data = len"
  by (auto simp: read_exact_padded_def and_then_Inr_iff split: if_splits)

text \<open>One extension header, and the member itself, read again from what is written for them.\<close>

lemma read_header_loop_extension:
  assumes "length block = BLOCK" and "\<not> list_all (\<lambda>c. c = CHR 0x00) block"
    and "check_header tc label block = Inr (entry_type, length data)" and "is_extension entry_type"
    and "\<not> length data > MAX_EXTENSION_BYTES"
    and "absorb_extension entry_type block data scan = Inr scan'"
    and "cu_reader cu = Some (write_extension \<lparr>eh_header = block, eh_data = data\<rparr> @ rest, bad)"
  shows "\<exists>cu'. read_header_loop tc label' scan cu = read_header_loop tc label' scan' cu'
     \<and> cu_reader cu' = Some (rest, bad) \<and> cu_next_ordinal cu' = cu_next_ordinal cu"
proof -
  have r: "cu_reader cu = Some (block @ data @ write_padding (length data) @ rest, bad)"
    using assms(7) by (simp add: write_extension_def)
  obtain c1 where c1: "read_block cu = Inr (Some block, c1)" "cu_next_ordinal c1 = cu_next_ordinal cu"
    "cu_reader c1 = Some (data @ write_padding (length data) @ rest, bad)"
    using read_block_front [OF r assms(1)] by blast
  obtain c2 where c2: "read_exact_padded (length data) c1 = Inr (data, c2)" "cu_next_ordinal c2 = cu_next_ordinal c1"
    "cu_reader c2 = Some (rest, bad)"
    using read_exact_padded_front [OF c1(3) refl] by blast
  show ?thesis
    using c1 c2 assms(2,4,5,6) check_header_label [OF assms(3), of label']
    by (subst read_header_loop.simps) (intro exI [of _ c2], simp)
qed

lemma read_header_loop_member:
  assumes "length block = BLOCK" and "\<not> list_all (\<lambda>c. c = CHR 0x00) block"
    and "check_header tc label block = Inr (entry_type, len)" and "\<not> is_extension entry_type"
    and "cu_reader cu = Some (block @ rest, bad)"
  shows "\<exists>cu'. read_header_loop tc label' scan cu
       = Inr (Some (make_member tc block entry_type len scan (cu_next_ordinal cu)), cu')
     \<and> cu_reader cu' = Some (rest, bad) \<and> cu_pending cu' = Some len"
proof -
  obtain c1 where "read_block cu = Inr (Some block, c1)" "cu_next_ordinal c1 = cu_next_ordinal cu"
    "cu_reader c1 = Some (rest, bad)"
    using read_block_front [OF assms(5,1)] by blast
  then show ?thesis using assms(2,4) check_header_label [OF assms(3), of label']
    by (subst read_header_loop.simps) simp
qed

lemma read_header_loop_cases:
  assumes "read_header_loop tc label scan cu = Inr (Some m, cu')"
  obtains (member) block entry_type len cu1 where "read_block cu = Inr (Some block, cu1)"
      "\<not> list_all (\<lambda>c. c = CHR 0x00) block" "check_header tc label block = Inr (entry_type, len)"
      "\<not> is_extension entry_type" "m = make_member tc block entry_type len scan (cu_next_ordinal cu1)"
  | (extension) block entry_type data cu1 cu2 scan' where "read_block cu = Inr (Some block, cu1)"
      "\<not> list_all (\<lambda>c. c = CHR 0x00) block" "check_header tc label block = Inr (entry_type, length data)"
      "is_extension entry_type" "\<not> length data > MAX_EXTENSION_BYTES"
      "read_exact_padded (length data) cu1 = Inr (data, cu2)"
      "absorb_extension entry_type block data scan = Inr scan'"
      "read_header_loop tc label scan' cu2 = Inr (Some m, cu')"
proof -
  obtain block cu1 where b: "read_block cu = Inr (Some block, cu1)" "\<not> list_all (\<lambda>c. c = CHR 0x00) block"
    using assms by (subst (asm) read_header_loop.simps) (auto simp: and_then_Inr_iff split: option.splits if_splits)
  obtain entry_type len where h: "check_header tc label block = Inr (entry_type, len)"
    using assms b by (subst (asm) read_header_loop.simps) (auto simp: and_then_Inr_iff)
  show thesis
  proof (cases "is_extension entry_type")
    case False
    then show thesis using assms b h member by (subst (asm) read_header_loop.simps) auto
  next
    case True
    then obtain data cu2 scan' where "read_exact_padded len cu1 = Inr (data, cu2)" "\<not> len > MAX_EXTENSION_BYTES"
      "absorb_extension entry_type block data scan = Inr scan'"
      "read_header_loop tc label scan' cu2 = Inr (Some m, cu')"
      using assms b h by (subst (asm) read_header_loop.simps) (auto simp: and_then_Inr_iff split: if_splits)
    then show thesis using extension [OF b] h True read_exact_padded_length by metis
  qed
qed

lemma make_member_ordinal:
  "(make_member tc block entry_type len scan k)\<lparr>m_ordinal := n\<rparr> = make_member tc block entry_type len scan n"
  by (simp add: make_member_def)

lemma read_header_loop_written:
  assumes "read_header_loop tc label scan cu = Inr (Some m, cu')"
  shows "\<exists>exts. m_extensions m = hs_extensions scan @ exts
     \<and> (\<forall>c rest bad. cu_reader c = Some (concat (map write_extension exts) @ m_header m @ rest, bad) \<longrightarrow>
         (\<exists>c'. read_header_loop tc label' scan c = Inr (Some (m\<lparr>m_ordinal := cu_next_ordinal c\<rparr>), c')
           \<and> cu_reader c' = Some (rest, bad) \<and> cu_pending c' = Some (m_data_size m)))"
  using assms
proof (induction tc label scan cu arbitrary: cu' rule: read_header_loop.induct)
  case (1 tc label scan cu)
  from "1.prems" show ?case
  proof (cases rule: read_header_loop_cases)
    case (member block entry_type len cu1)
    note len = read_block_unread(2) [OF member(1)]
    have "m_extensions m = hs_extensions scan" "m_header m = block" "m_data_size m = len"
      by (simp_all add: member(5) make_member_def)
    then show ?thesis using read_header_loop_member [OF len member(2,3,4)]
      by (intro exI [of _ "[]"]) (simp add: member(5) make_member_ordinal)
  next
    case (extension block entry_type data cu1 cu2 scan')
    note len = read_block_unread(2) [OF extension(1)]
    obtain exts where IH: "m_extensions m = hs_extensions scan' @ exts"
      "\<And>c rest bad. cu_reader c = Some (concat (map write_extension exts) @ m_header m @ rest, bad) \<Longrightarrow>
         (\<exists>c'. read_header_loop tc label' scan' c = Inr (Some (m\<lparr>m_ordinal := cu_next_ordinal c\<rparr>), c')
           \<and> cu_reader c' = Some (rest, bad) \<and> cu_pending c' = Some (m_data_size m))"
      using "1.IH" [OF extension(1) refl refl extension(2,3) refl extension(4,5,6) refl extension(7,8)] by blast
    let ?e = "\<lparr>eh_header = block, eh_data = data\<rparr>"
    from absorb_extension_grows [OF extension(7)] consider
      "scan' = scan" | "hs_extensions scan' = hs_extensions scan @ [?e]" by blast
    then show ?thesis
    proof cases
      case 1
      then show ?thesis using IH by blast
    next
      case 2
      have "\<exists>c'. read_header_loop tc label' scan c = Inr (Some (m\<lparr>m_ordinal := cu_next_ordinal c\<rparr>), c')
           \<and> cu_reader c' = Some (rest, bad) \<and> cu_pending c' = Some (m_data_size m)"
        if r: "cu_reader c = Some (write_extension ?e @ concat (map write_extension exts) @ m_header m @ rest, bad)" for c rest bad
      proof -
        obtain d where "read_header_loop tc label' scan c = read_header_loop tc label' scan' d"
          "cu_reader d = Some (concat (map write_extension exts) @ m_header m @ rest, bad)"
          "cu_next_ordinal d = cu_next_ordinal c"
          using read_header_loop_extension [OF len extension(2,3,4,5,7) r] by blast
        then show ?thesis using IH(2) [of d] by metis
      qed
      then show ?thesis using 2 IH(1) by (intro exI [of _ "?e # exts"]) simp
    qed
  qed
qed

text \<open>The bytes of a member that needs no repair.\<close>

definition member_bytes :: "Member \<Rightarrow> string \<Rightarrow> string" where
  "member_bytes m data =
     concat (map write_extension (m_extensions m)) @ m_header m @ data @ write_padding (length data)"

lemma copy_data_front:
  assumes "cu_reader c = Some (data @ write_padding (length data) @ rest, bad)" and "cu_pending c = Some (length data)"
  shows "\<exists>c'. copy_data c = Inr (data @ write_padding (length data), c') \<and> cu_reader c' = Some (rest, bad)
     \<and> cu_pending c' = None"
proof -
  define n where "n = length data"
  define d where "d = c\<lparr>cu_pending := None\<rparr>"
  have r: "cu_reader d = Some (data @ write_padding (length data) @ rest, bad)" by (simp add: d_def assms(1))
  obtain e where e: "read_exact_padded n d = Inr (data, e)" "cu_reader e = Some (rest, bad)"
    using read_exact_padded_front [OF r n_def] by blast
  then obtain f where f: "read_up_to n d = Inr (data, f)" "skip_padding n f = Inr e"
    by (auto simp: read_exact_padded_def and_then_Inr_iff split: if_splits)
  have p: "cu_pending f = None" using f(1) by (auto simp: read_up_to_def and_then_Inr_iff d_def split: if_splits)
  have "cu_pending e = None" using f(2) p
    by (auto simp: skip_padding_def Let_def read_up_to_def and_then_Inr_iff split: if_splits)
  moreover have "take_pending c = Inr (n, d)" by (simp add: take_pending_def assms(2) d_def n_def)
  ultimately show ?thesis using f e(2) by (simp add: copy_data_def n_def)
qed

lemma read_header_written:
  assumes "read_header tc cu = Inr (Some m, cu')" and "length data = m_data_size m"
    and "cu_reader c = Some (member_bytes m data @ rest, bad)" and "cu_pending c = None"
  shows "\<exists>c' c''. read_header tc c = Inr (Some (m\<lparr>m_ordinal := cu_next_ordinal c\<rparr>), c')
     \<and> copy_data c' = Inr (data @ write_padding (length data), c'')
     \<and> cu_reader c'' = Some (rest, bad) \<and> cu_pending c'' = None"
proof -
  obtain b where b: "read_header_loop tc (cursor_label b) header_scan_new b = Inr (Some m, cu')"
    using assms(1) by (auto simp: read_header_def and_then_Inr_iff)
  have "hs_extensions header_scan_new = []" by (simp add: header_scan_new_def)
  then have again: "cu_reader c = Some (concat (map write_extension (m_extensions m)) @ m_header m @ rest, bad) \<Longrightarrow>
      \<exists>c'. read_header_loop tc label' header_scan_new c = Inr (Some (m\<lparr>m_ordinal := cu_next_ordinal c\<rparr>), c')
         \<and> cu_reader c' = Some (rest, bad) \<and> cu_pending c' = Some (m_data_size m)" for label' c rest bad
    using read_header_loop_written [OF b, of label'] by simp
  have r: "cu_reader c = Some (concat (map write_extension (m_extensions m)) @ m_header m
      @ (data @ write_padding (length data) @ rest), bad)"
    using assms(3) by (simp add: member_bytes_def)
  have h: "read_header tc c = read_header_loop tc (cursor_label c) header_scan_new c"
    using assms(4) r by (simp add: read_header_def)
  from again [OF r, of "cursor_label c"] obtain c' where
    "read_header tc c = Inr (Some (m\<lparr>m_ordinal := cu_next_ordinal c\<rparr>), c')"
    "cu_reader c' = Some (data @ write_padding (length data) @ rest, bad)" "cu_pending c' = Some (length data)"
    using assms(2) h by auto
  then show ?thesis using copy_data_front [of c' data rest bad] by blast
qed

end
