(* ===== verification/Oci_Layers.thy ===== *)
theory Oci_Layers
  imports Tar_Stream Init_Proto
begin

text \<open>
  The merge of the layers of an OCI image into one tar stream,
  \<^verbatim>\<open>firestone-core/src/oci/layers.rs\<close>: the first pass reads every member of every layer and
  applies the overlay rules (whiteouts, opaque directories, files that replace directories); the
  second writes the surviving members in the order of their paths, with the guest's init
  injected. The \<open>tar\<close> crate is the argument \<open>tc\<close>, \<open>String::from_utf8_lossy\<close> the argument
  \<open>lossy\<close>. The output is returned as bytes; a writer that fails ends the merge with
  \<open>write_error\<close> and is not modelled.
\<close>

section \<open>Layer types and limits\<close>

definition MEDIA_TYPE_DOCKER_LAYER_GZIP :: string where
  "MEDIA_TYPE_DOCKER_LAYER_GZIP = ''application/vnd.docker.image.rootfs.diff.tar.gzip''"

definition MEDIA_TYPE_OCI_LAYER_GZIP :: string where
  "MEDIA_TYPE_OCI_LAYER_GZIP = ''application/vnd.oci.image.layer.v1.tar+gzip''"

definition MEDIA_TYPE_OCI_LAYER_ZSTD :: string where
  "MEDIA_TYPE_OCI_LAYER_ZSTD = ''application/vnd.oci.image.layer.v1.tar+zstd''"

datatype LayerCompression = Gzip

definition classify_layer_media_type :: "string \<Rightarrow> (FirestoneError, LayerCompression) result" where
  "classify_layer_media_type media_type =
     (if media_type = MEDIA_TYPE_DOCKER_LAYER_GZIP \<or> media_type = MEDIA_TYPE_OCI_LAYER_GZIP then Inr Gzip
      else if media_type = MEDIA_TYPE_OCI_LAYER_ZSTD
      then Inl (with_hint ''firestone reads gzip layers only; pull a gzip-compressed copy of the image''
             (error_new Dependency (''unsupported OCI layer media type '' @ media_type)))
      else Inl (with_hint (''supported layer media types are '' @ MEDIA_TYPE_DOCKER_LAYER_GZIP @ '' and ''
                  @ MEDIA_TYPE_OCI_LAYER_GZIP)
             (error_new Dependency (''unsupported OCI layer media type '' @ media_type))))"

record MergeLimits =
  max_uncompressed_bytes :: nat
  max_entries :: nat

definition merge_limits_default :: MergeLimits where
  "merge_limits_default = \<lparr>max_uncompressed_bytes = 8 * 1024 * 1024 * 1024, max_entries = 1000000\<rparr>"

definition FIRESTONE_INIT_PATH :: string where "FIRESTONE_INIT_PATH = ''sbin/firestone-init''"

definition FIRESTONE_OCI_MARKER_PATH :: string where "FIRESTONE_OCI_MARKER_PATH = ''etc/firestone-oci''"

definition METADATA_ENTRY_BYTES :: nat where "METADATA_ENTRY_BYTES = 4096"

definition USTAR_LINK_NAME_LIMIT :: nat where "USTAR_LINK_NAME_LIMIT = 100"

definition MAX_INJECTION_LINK_HOPS :: nat where "MAX_INJECTION_LINK_HOPS = 8"

definition WHITEOUT_PREFIX :: string where "WHITEOUT_PREFIX = ''.wh.''"

definition OPAQUE_MARKER :: string where "OPAQUE_MARKER = ''.wh..wh..opq''"

section \<open>Paths inside the archive\<close>

abbreviation (input) slash :: char where "slash \<equiv> CHR ''/''"

definition split_last_component :: "string \<Rightarrow> string \<times> string" where
  "split_last_component path =
     (case rsplit_once slash path of Some (parent, name) \<Rightarrow> (parent, name) | None \<Rightarrow> ([], path))"

definition join_path :: "string \<Rightarrow> string \<Rightarrow> string" where
  "join_path parent name = (if parent = [] then name else parent @ slash # name)"

definition traversal_error :: "(string \<Rightarrow> string) \<Rightarrow> string \<Rightarrow> string \<Rightarrow> string \<Rightarrow> FirestoneError" where
  "traversal_error lossy raw layer reason =
     with_hint ''firestone refuses layer entries that could escape the image root''
       (error_new Dependency (''layer '' @ layer @ '' holds the unsafe entry path `'' @ lossy raw @ ''`: '' @ reason))"

definition normalize_relative ::
  "(string \<Rightarrow> string) \<Rightarrow> string \<Rightarrow> string \<Rightarrow> (FirestoneError, string option) result" where
  "normalize_relative lossy raw layer =
     (if raw = [] then Inl (traversal_error lossy raw layer ''the path is empty'')
      else if CHR 0x00 \<in> set raw then Inl (traversal_error lossy raw layer ''the path contains a NUL byte'')
      else if ''..'' \<in> set (split_on slash raw)
      then Inl (traversal_error lossy raw layer ''the path contains a `..` component'')
      else
        let parts = filter (\<lambda>p. p \<noteq> [] \<and> p \<noteq> ''.'') (split_on slash raw)
        in Inr (if parts = [] then None else Some (join_with slash parts)))"

definition normalize_entry_path ::
  "(string \<Rightarrow> string) \<Rightarrow> string \<Rightarrow> string \<Rightarrow> (FirestoneError, string option) result" where
  "normalize_entry_path lossy raw layer =
     (case raw of
        c # _ \<Rightarrow> if c = slash then Inl (traversal_error lossy raw layer ''the path is absolute'')
                 else normalize_relative lossy raw layer
      | [] \<Rightarrow> normalize_relative lossy raw layer)"

definition normalize_link_target ::
  "(string \<Rightarrow> string) \<Rightarrow> string \<Rightarrow> string \<Rightarrow> (FirestoneError, string) result" where
  "normalize_link_target lossy raw layer =
     (let trimmed = (case strip_prefix ''/'' raw of Some t \<Rightarrow> t | None \<Rightarrow> raw)
      in and_then (normalize_relative lossy trimmed layer)
           (ok_or (traversal_error lossy raw layer ''the path resolves to the archive root'')))"

definition lexical_step :: "string list \<Rightarrow> string \<Rightarrow> string list" where
  "lexical_step parts p =
     (if p = [] \<or> p = ''.'' then parts else if p = ''..'' then butlast parts else parts @ [p])"

definition lexical_join :: "string \<Rightarrow> string \<Rightarrow> string" where
  "lexical_join base target =
     (let absolute = (case target of c # _ \<Rightarrow> c = slash | [] \<Rightarrow> False);
          sources = (if absolute then [[], target] else [base, target])
      in join_with slash (foldl (\<lambda>parts source. foldl lexical_step parts (split_on slash source)) [] sources))"

section \<open>The plan\<close>

datatype MergedKind = MDirectory | MRegular | MSymlink | MHardLink | MOther

record MergedEntry =
  me_layer :: nat
  me_ordinal :: nat
  me_kind :: MergedKind
  me_link_target :: "string option"
  me_local_target :: "(nat \<times> nat) option"
  me_symlink_target :: "string option"

datatype EmitMode = Relink string | Promote nat nat

type_synonym Entries = "(string \<times> MergedEntry) list"

record MergePlan =
  mp_entries :: Entries
  mp_overrides :: "string \<Rightarrow> EmitMode option"
  mp_bytes_read :: nat

record MergeRequest =
  mr_layers :: "LayerSource list"
  mr_config :: OciImageConfig
  mr_limits :: MergeLimits
  mr_injected_init :: "string option"

record MergeSummary =
  entries_written :: nat
  uncompressed_bytes_read :: nat
  unpacked_bytes :: nat
  summary_config :: OciImageConfig

fun classify_entry :: "EntryType \<Rightarrow> MergedKind" where
  "classify_entry TDirectory = MDirectory"
| "classify_entry TRegular = MRegular"
| "classify_entry TContinuous = MRegular"
| "classify_entry TSymlink = MSymlink"
| "classify_entry TLink = MHardLink"
| "classify_entry _ = MOther"

text \<open>\<open>entries.range(prefix..)\<close> up to the first key that does not start with the prefix.\<close>

definition subtree_prefix :: "string \<Rightarrow> string" where
  "subtree_prefix path = (if path = [] then [] else path @ [slash])"

definition drop_lower_subtree :: "Entries \<Rightarrow> string \<Rightarrow> nat \<Rightarrow> bool \<Rightarrow> Entries" where
  "drop_lower_subtree entries path layer include_self =
     (let doomed_self = (if include_self \<and> path \<noteq> []
            \<and> (case map_of entries path of Some e \<Rightarrow> me_layer e < layer | None \<Rightarrow> False) then [path] else []);
          prefix = subtree_prefix path;
          range = dropWhile (\<lambda>(key, _). key < prefix) entries;
          under = takeWhile (\<lambda>(key, _). starts_with prefix key) range;
          doomed = doomed_self @ map fst (filter (\<lambda>(_, e). me_layer e < layer) under)
      in fold (\<lambda>key es. case btree_remove key es of None \<Rightarrow> es | Some (_, rest) \<Rightarrow> rest) doomed entries)"

definition insert_member ::
  "(string \<Rightarrow> string) \<Rightarrow> string \<Rightarrow> nat \<Rightarrow> Member \<Rightarrow> string \<Rightarrow> Entries \<Rightarrow> (string \<Rightarrow> (nat \<times> nat) option)
   \<Rightarrow> (FirestoneError, Entries \<times> (string \<Rightarrow> (nat \<times> nat) option)) result" where
  "insert_member lossy label layer member path entries local_files =
     (let kind = classify_entry (m_entry_type member);
          local_files = (if m_entry_type member = TRegular \<or> m_entry_type member = TContinuous
            then local_files(path \<mapsto> (m_ordinal member, m_data_size member)) else local_files);
          entries = (if kind \<noteq> MDirectory then drop_lower_subtree entries path layer False else entries)
      in and_then
           (if kind = MHardLink
            then and_then (normalize_link_target lossy (case m_link member of Some l \<Rightarrow> l | None \<Rightarrow> []) label)
                   (\<lambda>target. Inr (Some target))
            else Inr None) (\<lambda>link_target.
           Inr (btree_insert path
                  \<lparr>me_layer = layer, me_ordinal = m_ordinal member, me_kind = kind, me_link_target = link_target,
                   me_local_target = (case link_target of Some t \<Rightarrow> local_files t | None \<Rightarrow> None),
                   me_symlink_target = (if kind = MSymlink then m_link member else None)\<rparr> entries,
                local_files)))"

definition apply_member ::
  "(string \<Rightarrow> string) \<Rightarrow> string \<Rightarrow> nat \<Rightarrow> Member \<Rightarrow> Entries \<Rightarrow> (string \<Rightarrow> (nat \<times> nat) option)
   \<Rightarrow> (FirestoneError, Entries \<times> (string \<Rightarrow> (nat \<times> nat) option)) result" where
  "apply_member lossy label layer member entries local_files =
     and_then (normalize_entry_path lossy (m_path member) label) (\<lambda>found.
       case found of
         None \<Rightarrow> Inr (entries, local_files)
       | Some path \<Rightarrow>
           let (parent, name) = split_last_component path
           in if name = OPAQUE_MARKER then Inr (drop_lower_subtree entries parent layer False, local_files)
              else case strip_prefix WHITEOUT_PREFIX name of
                Some removed \<Rightarrow>
                  if removed = []
                  then Inl (layer_error (''layer '' @ label @ '' has an empty whiteout name'') REPULL_HINT)
                  else Inr (drop_lower_subtree entries (join_path parent removed) layer True, local_files)
              | None \<Rightarrow> insert_member lossy label layer member path entries local_files)"

definition check_limits :: "MergeLimits \<Rightarrow> nat \<Rightarrow> nat \<Rightarrow> nat \<Rightarrow> nat \<Rightarrow> (FirestoneError, unit) result" where
  "check_limits limits members_read bytes_read cursor_bytes data_size =
     and_then (ensure (\<not> members_read > max_entries limits)
        (cap_error (''the OCI layers hold more than '' @ show_nat (max_entries limits) @ '' entries''))) (\<lambda>_.
       ensure (\<not> saturating_add (saturating_add bytes_read cursor_bytes) data_size > max_uncompressed_bytes limits)
        (cap_error (''the OCI layers expand beyond '' @ show_nat (max_uncompressed_bytes limits)
           @ '' uncompressed bytes'')))"

function plan_layer ::
  "TarCrate \<Rightarrow> (string \<Rightarrow> string) \<Rightarrow> MergeLimits \<Rightarrow> nat \<Rightarrow> nat \<Rightarrow> string \<Rightarrow> LayerCursor \<Rightarrow> nat \<Rightarrow> Entries
   \<Rightarrow> (string \<Rightarrow> (nat \<times> nat) option) \<Rightarrow> (FirestoneError, LayerCursor \<times> nat \<times> Entries) result" where
  "plan_layer tc lossy limits bytes_read layer label cu members_read entries local_files =
     and_then (read_header tc cu) (\<lambda>(found, cu).
       case found of
         None \<Rightarrow> Inr (cu, members_read, entries)
       | Some member \<Rightarrow>
           and_then (check_limits limits (members_read + 1) bytes_read (cu_bytes_read cu) (m_data_size member)) (\<lambda>_.
           and_then (apply_member lossy label layer member entries local_files) (\<lambda>(entries, local_files).
           and_then (skip_data cu) (\<lambda>cu.
             plan_layer tc lossy limits bytes_read layer label cu (members_read + 1) entries local_files))))"
  by pat_completeness auto
termination
proof (relation "measure (\<lambda>(_, _, _, _, _, _, cu, _, _, _). unread cu)", goal_cases)
  case (2 tc lossy limits bytes_read layer label cu members_read entries local_files x found cu1 member u y e l cu2)
  then have "unread cu1 < unread cu" "unread cu2 \<le> unread cu1"
    using read_header_unread [of tc cu member cu1] skip_data_unread [of cu1 cu2] by auto
  then show ?case by simp
qed simp

declare plan_layer.simps [simp del]

fun plan_layers ::
  "TarCrate \<Rightarrow> (string \<Rightarrow> string) \<Rightarrow> MergeLimits \<Rightarrow> nat \<Rightarrow> LayerSource list \<Rightarrow> nat \<Rightarrow> nat \<Rightarrow> Entries
   \<Rightarrow> (FirestoneError, nat \<times> Entries) result" where
  "plan_layers tc lossy limits layer [] bytes_read members_read entries = Inr (bytes_read, entries)"
| "plan_layers tc lossy limits layer (source # sources) bytes_read members_read entries =
     (let cu = cursor_new layer source
      in and_then (plan_layer tc lossy limits bytes_read layer (cursor_label cu) cu members_read entries Map.empty)
           (\<lambda>(cu, members_read, entries).
             plan_layers tc lossy limits (layer + 1) sources (saturating_add bytes_read (cu_bytes_read cu))
               members_read entries))"

section \<open>Hard links whose target was shadowed\<close>

text \<open>
  One link of the loop: \<open>overrides\<close> and \<open>representatives\<close> are the two maps the loop fills, the
  second from the layer and ordinal of a file's content to the link that now carries it.
\<close>

definition plan_hardlink ::
  "(string \<Rightarrow> string) \<Rightarrow> Entries \<Rightarrow> string \<times> MergedEntry
   \<Rightarrow> (string \<Rightarrow> EmitMode option) \<times> (nat \<times> nat \<Rightarrow> string option)
   \<Rightarrow> (FirestoneError, (string \<Rightarrow> EmitMode option) \<times> (nat \<times> nat \<Rightarrow> string option)) result" where
  "plan_hardlink lossy entries = (\<lambda>(path, entry) (overrides, representatives).
     if me_kind entry \<noteq> MHardLink then Inr (overrides, representatives)
     else
       and_then (ok_or (layer_error (''hardlink '' @ lossy path @ '' has no target'') REPULL_HINT)
          (me_link_target entry)) (\<lambda>target.
         let winner = map_of entries target
         in if (case winner of Some found \<Rightarrow> me_layer found = me_layer entry | None \<Rightarrow> False)
            then Inr (overrides, representatives)
            else case me_local_target entry of
              Some (ordinal, len) \<Rightarrow>
                let key = (me_layer entry, ordinal)
                in (case representatives key of
                      Some representative \<Rightarrow>
                        Inr (overrides(path \<mapsto> (if length representative \<le> USTAR_LINK_NAME_LIMIT
                                                  then Relink representative else Promote ordinal len)),
                             representatives)
                    | None \<Rightarrow> Inr (overrides(path \<mapsto> Promote ordinal len), representatives(key \<mapsto> path)))
            | None \<Rightarrow>
                if (case winner of Some found \<Rightarrow> me_kind found = MRegular | None \<Rightarrow> False)
                then Inr (overrides, representatives)
                else Inl (layer_error (''hardlink '' @ lossy path @ '' points at the missing entry '' @ lossy target)
                       REPULL_HINT)))"

fun plan_hardlinks_loop ::
  "(string \<Rightarrow> string) \<Rightarrow> Entries \<Rightarrow> Entries \<Rightarrow> (string \<Rightarrow> EmitMode option) \<times> (nat \<times> nat \<Rightarrow> string option)
   \<Rightarrow> (FirestoneError, (string \<Rightarrow> EmitMode option) \<times> (nat \<times> nat \<Rightarrow> string option)) result" where
  "plan_hardlinks_loop lossy entries [] st = Inr st"
| "plan_hardlinks_loop lossy entries (e # es) st =
     and_then (plan_hardlink lossy entries e st) (plan_hardlinks_loop lossy entries es)"

definition plan_hardlinks ::
  "(string \<Rightarrow> string) \<Rightarrow> Entries \<Rightarrow> (FirestoneError, string \<Rightarrow> EmitMode option) result" where
  "plan_hardlinks lossy entries =
     and_then (plan_hardlinks_loop lossy entries entries (Map.empty, Map.empty)) (\<lambda>(overrides, _). Inr overrides)"

definition build_plan ::
  "TarCrate \<Rightarrow> (string \<Rightarrow> string) \<Rightarrow> MergeRequest \<Rightarrow> (FirestoneError, MergePlan) result" where
  "build_plan tc lossy request =
     and_then (plan_layers tc lossy (mr_limits request) 0 (mr_layers request) 0 0 []) (\<lambda>(bytes_read, entries).
     and_then (plan_hardlinks lossy entries) (\<lambda>overrides.
       Inr \<lparr>mp_entries = entries, mp_overrides = overrides, mp_bytes_read = bytes_read\<rparr>))"

section \<open>Where the injected files go\<close>

fun follow_links :: "Entries \<Rightarrow> nat \<Rightarrow> string \<Rightarrow> string" where
  "follow_links entries 0 candidate = candidate"
| "follow_links entries (Suc hops) candidate =
     (case map_of entries candidate of
        None \<Rightarrow> candidate
      | Some entry \<Rightarrow>
          (case me_symlink_target entry of
             None \<Rightarrow> candidate
           | Some target \<Rightarrow>
               let next = lexical_join (fst (split_last_component candidate)) target
               in if next = [] \<or> next = candidate then candidate else follow_links entries hops next))"

definition resolve_injection_path :: "Entries \<Rightarrow> string \<Rightarrow> string" where
  "resolve_injection_path entries path =
     (let (parent, name) = split_last_component path;
          resolved = foldl (\<lambda>resolved part. if part = [] then resolved
              else follow_links entries MAX_INJECTION_LINK_HOPS (join_path resolved part)) [] (split_on slash parent)
      in join_path resolved name)"

section \<open>The second pass\<close>

definition injection_error :: "string \<Rightarrow> FirestoneError" where
  "injection_error path =
     layer_error (''cannot build the injected header for /'' @ path) ''report this as a firestone bug''"

definition injected_header ::
  "TarCrate \<Rightarrow> (string \<Rightarrow> string) \<Rightarrow> string \<Rightarrow> nat \<Rightarrow> nat \<Rightarrow> (FirestoneError, string) result" where
  "injected_header tc lossy path mode len =
     (let path = lossy path; fail = map_err (\<lambda>_. injection_error path)
      in and_then (fail (tc_set_path tc path (tc_new_ustar tc))) (\<lambda>header.
         and_then (fail (tc_set_username tc ''root'' header)) (\<lambda>header.
         and_then (fail (tc_set_groupname tc ''root'' header)) (\<lambda>header.
           Inr (tc_set_cksum tc (tc_set_size tc len (tc_set_mtime tc 0 (tc_set_gid tc 0 (tc_set_uid tc 0
                  (tc_set_mode tc mode (tc_set_entry_type tc TRegular header)))))))))))"

text \<open>The modes are 0o644 and 0o755.\<close>

definition write_injected_marker ::
  "TarCrate \<Rightarrow> (string \<Rightarrow> string) \<Rightarrow> string \<Rightarrow> (FirestoneError, string) result" where
  "write_injected_marker tc lossy path = injected_header tc lossy path 420 0"

definition write_injected_init ::
  "TarCrate \<Rightarrow> (string \<Rightarrow> string) \<Rightarrow> string \<Rightarrow> string \<Rightarrow> (FirestoneError, string) result" where
  "write_injected_init tc lossy path init_binary =
     and_then (injected_header tc lossy path 493 (length init_binary)) (\<lambda>header.
       Inr (header @ init_binary @ write_padding (length init_binary)))"

definition write_injected ::
  "TarCrate \<Rightarrow> (string \<Rightarrow> string) \<Rightarrow> string \<Rightarrow> string \<Rightarrow> string \<Rightarrow> (FirestoneError, string \<times> nat) result" where
  "write_injected tc lossy path init_path init_binary =
     (if path = init_path
      then and_then (write_injected_init tc lossy path init_binary) (\<lambda>out. Inr (out, length init_binary))
      else and_then (write_injected_marker tc lossy path) (\<lambda>out. Inr (out, 0)))"

definition append_firestone_init ::
  "TarCrate \<Rightarrow> (string \<Rightarrow> string) \<Rightarrow> string \<Rightarrow> (FirestoneError, string) result" where
  "append_firestone_init tc lossy init_binary =
     and_then (write_injected_marker tc lossy FIRESTONE_OCI_MARKER_PATH) (\<lambda>marker.
     and_then (write_injected_init tc lossy FIRESTONE_INIT_PATH init_binary) (\<lambda>init. Inr (marker @ init)))"

text \<open>The extension records a repaired header would contradict are dropped.\<close>

definition keep_record :: "bool \<Rightarrow> string \<Rightarrow> bool" where
  "keep_record promoted record =
     (let key = hd (split_on (CHR ''='') record)
      in \<not> (key = ''linkpath'' \<or> promoted \<and> key = ''size''))"

definition filter_extension ::
  "TarCrate \<Rightarrow> bool \<Rightarrow> ExtensionHeader \<Rightarrow> (FirestoneError, ExtensionHeader list) result" where
  "filter_extension tc promoted extension =
     (case tc_entry_type tc (eh_header extension) of
        TGNULongLink \<Rightarrow> Inr []
      | TXHeader \<Rightarrow>
          and_then (parse_pax_records (eh_data extension)) (\<lambda>records.
            let data = concat (map record_bytes (filter (keep_record promoted) records))
            in Inr (if data = [] then []
                    else [\<lparr>eh_header = tc_set_cksum tc (tc_set_size tc (length data) (eh_header extension)),
                           eh_data = data\<rparr>]))
      | _ \<Rightarrow> Inr [extension])"

definition filter_extensions ::
  "TarCrate \<Rightarrow> ExtensionHeader list \<Rightarrow> bool \<Rightarrow> (FirestoneError, ExtensionHeader list) result" where
  "filter_extensions tc extensions promoted =
     and_then (map_r (filter_extension tc promoted) extensions) (\<lambda>kept. Inr (concat kept))"

definition entry_unpacked :: "EmitMode option \<Rightarrow> MergedKind \<Rightarrow> nat \<Rightarrow> nat" where
  "entry_unpacked mode entry_kind data_size =
     (case mode of
        Some (Promote _ len) \<Rightarrow> len
      | Some (Relink _) \<Rightarrow> METADATA_ENTRY_BYTES
      | None \<Rightarrow> (case entry_kind of
            MRegular \<Rightarrow> data_size
          | MDirectory \<Rightarrow> METADATA_ENTRY_BYTES | MSymlink \<Rightarrow> METADATA_ENTRY_BYTES | MHardLink \<Rightarrow> METADATA_ENTRY_BYTES
          | MOther \<Rightarrow> 0))"

definition write_relinked ::
  "TarCrate \<Rightarrow> (string \<Rightarrow> string) \<Rightarrow> string \<Rightarrow> Member \<Rightarrow> string \<Rightarrow> LayerCursor
   \<Rightarrow> (FirestoneError, string \<times> LayerCursor) result" where
  "write_relinked tc lossy path member target cu =
     and_then (filter_extensions tc (m_extensions member) False) (\<lambda>exts.
     and_then (map_err (\<lambda>_. layer_error (''cannot re-point hardlink '' @ lossy path) REPULL_HINT)
        (tc_set_link_name_literal tc target (m_header member))) (\<lambda>header.
     and_then (skip_data cu) (\<lambda>cu.
       Inr (concat (map write_extension exts) @ tc_set_cksum tc header, cu))))"

definition write_promoted ::
  "TarCrate \<Rightarrow> (string \<Rightarrow> string) \<Rightarrow> MergeRequest \<Rightarrow> string \<Rightarrow> MergedEntry \<Rightarrow> Member \<Rightarrow> nat \<Rightarrow> nat \<Rightarrow> LayerCursor
   \<Rightarrow> (FirestoneError, string \<times> LayerCursor) result" where
  "write_promoted tc lossy request path entry member ordinal len cu =
     and_then (filter_extensions tc (m_extensions member) True) (\<lambda>exts.
     and_then (map_err (\<lambda>_. layer_error (''cannot promote hardlink '' @ lossy path) REPULL_HINT)
        (tc_set_link_name_literal tc [] (tc_set_size tc len (tc_set_entry_type tc TRegular (m_header member))))) (\<lambda>header.
     and_then (skip_data cu) (\<lambda>cu.
     and_then (if me_layer entry < length (mr_layers request) then Inr (mr_layers request ! me_layer entry)
         else Inl (layer_error (''layer index '' @ show_nat (me_layer entry) @ '' is out of range'')
                ''report this as a firestone bug'')) (\<lambda>source.
     and_then (seek_to tc ordinal (cursor_new (me_layer entry) source)) (\<lambda>(target, content).
     and_then (ensure ((m_entry_type target = TRegular \<or> m_entry_type target = TContinuous) \<and> m_data_size target = len)
        (layer_error (''hardlink '' @ lossy path @ '' has an unusable content source'') REPULL_HINT)) (\<lambda>_.
     and_then (copy_data content) (\<lambda>(data, _).
       Inr (concat (map write_extension exts) @ tc_set_cksum tc header @ data, cu))))))))"

definition write_entry ::
  "TarCrate \<Rightarrow> (string \<Rightarrow> string) \<Rightarrow> MergeRequest \<Rightarrow> MergePlan \<Rightarrow> LayerCursor list \<Rightarrow> string \<Rightarrow> MergedEntry
   \<Rightarrow> (FirestoneError, string \<times> nat \<times> LayerCursor list) result" where
  "write_entry tc lossy request plan cursors path entry =
     and_then (if me_layer entry < length cursors then Inr (cursors ! me_layer entry)
         else Inl (layer_error (''layer index '' @ show_nat (me_layer entry) @ '' is out of range'')
                ''report this as a firestone bug'')) (\<lambda>cu.
     and_then (seek_to tc (me_ordinal entry) cu) (\<lambda>(member, cu).
     and_then (normalize_entry_path lossy (m_path member) (cursor_label cu)) (\<lambda>observed.
     and_then (ensure (observed = Some path)
        (layer_error (''layer '' @ cursor_label cu @ '' changed while it was being merged'')
           ''re-pull the image and merge it again'')) (\<lambda>_.
     and_then
       (case mp_overrides plan path of
          None \<Rightarrow> and_then (copy_data cu) (\<lambda>(data, cu).
            Inr (concat (map write_extension (m_extensions member)) @ m_header member @ data, cu))
        | Some (Relink target) \<Rightarrow> write_relinked tc lossy path member target cu
        | Some (Promote ordinal len) \<Rightarrow> write_promoted tc lossy request path entry member ordinal len cu)
       (\<lambda>(out, cu).
         Inr (out, entry_unpacked (mp_overrides plan path) (me_kind entry) (m_data_size member),
              cursors[me_layer entry := cu]))))))"

text \<open>
  The output with its path, one element per member written; \<open>shadowed\<close> when an injected path
  is the entry's own.
\<close>

fun write_injected_all ::
  "TarCrate \<Rightarrow> (string \<Rightarrow> string) \<Rightarrow> string \<Rightarrow> string \<Rightarrow> string list
   \<Rightarrow> (FirestoneError, (string \<times> string \<times> nat) list) result" where
  "write_injected_all tc lossy init_path init_binary [] = Inr []"
| "write_injected_all tc lossy init_path init_binary (path # paths) =
     and_then (write_injected tc lossy path init_path init_binary) (\<lambda>(out, unpacked).
     and_then (write_injected_all tc lossy init_path init_binary paths) (\<lambda>rest.
       Inr ((path, out, unpacked) # rest)))"

fun write_entries ::
  "TarCrate \<Rightarrow> (string \<Rightarrow> string) \<Rightarrow> MergeRequest \<Rightarrow> MergePlan \<Rightarrow> string \<Rightarrow> string \<Rightarrow> Entries \<Rightarrow> string list
   \<Rightarrow> LayerCursor list \<Rightarrow> (FirestoneError, (string \<times> string \<times> nat) list) result" where
  "write_entries tc lossy request plan init_path init_binary [] injected cursors =
     write_injected_all tc lossy init_path init_binary injected"
| "write_entries tc lossy request plan init_path init_binary ((path, entry) # rest) injected cursors =
     (let due = takeWhile (\<lambda>p. p \<le> path) injected; later = dropWhile (\<lambda>p. p \<le> path) injected
      in and_then (write_injected_all tc lossy init_path init_binary due) (\<lambda>first.
         if path \<in> set due
         then and_then (write_entries tc lossy request plan init_path init_binary rest later cursors) (\<lambda>others.
                Inr (first @ others))
         else and_then (write_entry tc lossy request plan cursors path entry) (\<lambda>(out, unpacked, cursors).
              and_then (write_entries tc lossy request plan init_path init_binary rest later cursors) (\<lambda>others.
                Inr (first @ (path, out, unpacked) # others)))))"

definition write_merged ::
  "TarCrate \<Rightarrow> (string \<Rightarrow> string) \<Rightarrow> MergeRequest \<Rightarrow> MergePlan \<Rightarrow> (FirestoneError, (string \<times> string \<times> nat) list) result"
  where
  "write_merged tc lossy request plan =
     (let cursors = map (\<lambda>(i, source). cursor_new i source) (zip [0..<length (mr_layers request)] (mr_layers request));
          init_path = resolve_injection_path (mp_entries plan) FIRESTONE_INIT_PATH;
          marker_path = resolve_injection_path (mp_entries plan) FIRESTONE_OCI_MARKER_PATH;
          injected = (if mr_injected_init request \<noteq> None then sort [marker_path, init_path] else []);
          init_binary = (case mr_injected_init request of Some b \<Rightarrow> b | None \<Rightarrow> [])
      in write_entries tc lossy request plan init_path init_binary (mp_entries plan) injected cursors)"

definition merge_layers ::
  "TarCrate \<Rightarrow> (string \<Rightarrow> string) \<Rightarrow> MergeRequest \<Rightarrow> (FirestoneError, string \<times> MergeSummary) result" where
  "merge_layers tc lossy request =
     and_then (build_plan tc lossy request) (\<lambda>plan.
     and_then (write_merged tc lossy request plan) (\<lambda>written.
       Inr (concat (map (\<lambda>(_, out, _). out) written) @ replicate (BLOCK * 2) (CHR 0x00),
            \<lparr>entries_written = length written,
             uncompressed_bytes_read = mp_bytes_read plan,
             unpacked_bytes = foldl (\<lambda>acc (_, _, n). saturating_add acc n) 0 written,
             summary_config = mr_config request\<rparr>)))"

section \<open>Safe paths\<close>

text \<open>A path below the archive root: plain components joined by slashes.\<close>

definition plain_part :: "string \<Rightarrow> bool" where
  "plain_part p \<longleftrightarrow> p \<noteq> [] \<and> p \<noteq> ''.'' \<and> p \<noteq> ''..'' \<and> slash \<notin> set p"

definition inside_root :: "string \<Rightarrow> bool" where
  "inside_root path \<longleftrightarrow> (\<exists>parts. parts \<noteq> [] \<and> list_all plain_part parts \<and> path = join_with slash parts)"

lemma normalize_relative_Some:
  assumes "normalize_relative lossy raw layer = Inr (Some path)"
  shows "inside_root path" and "CHR 0x00 \<notin> set raw"
proof -
  let ?parts = "filter (\<lambda>p. p \<noteq> [] \<and> p \<noteq> ''.'') (split_on slash raw)"
  have "''..'' \<notin> set (split_on slash raw)" "path = join_with slash ?parts" "?parts \<noteq> []" "CHR 0x00 \<notin> set raw"
    using assms by (auto simp: normalize_relative_def Let_def split: if_splits)
  moreover have "list_all plain_part ?parts"
    using calculation(1) split_on_pieces [of _ slash raw] by (auto simp: plain_part_def list_all_iff)
  ultimately show "inside_root path" "CHR 0x00 \<notin> set raw" unfolding inside_root_def by blast+
qed

lemma normalize_entry_path_Some:
  "normalize_entry_path lossy raw layer = Inr (Some path) \<Longrightarrow> inside_root path"
  by (auto simp: normalize_entry_path_def split: list.splits if_splits dest: normalize_relative_Some)

lemma split_on_parts: "parts \<noteq> [] \<Longrightarrow> list_all plain_part parts \<Longrightarrow> split_on slash (join_with slash parts) = parts"
  using split_on_join [of parts slash] by (simp add: plain_part_def list_all_iff)

lemma lexical_join_parts:
  "\<exists>parts. lexical_join base target = join_with slash parts \<and> list_all plain_part parts"
proof -
  have step: "list_all plain_part (foldl lexical_step parts ps)"
    if "list_all plain_part parts" "list_all (\<lambda>p. slash \<notin> set p) ps" for parts ps
    using that
  proof (induction ps arbitrary: parts)
    case (Cons p ps)
    have "list_all plain_part (lexical_step parts p)"
      using Cons.prems by (auto simp: lexical_step_def plain_part_def list_all_iff dest: in_set_butlastD)
    then show ?case using Cons by simp
  qed simp
  have pieces: "list_all (\<lambda>p. slash \<notin> set p) (split_on slash s)" for s
    using split_on_pieces [of _ slash s] by (auto simp: list_all_iff)
  have "list_all plain_part (foldl (\<lambda>parts source. foldl lexical_step parts (split_on slash source)) acc sources)"
    if "list_all plain_part acc" for acc sources
    using that by (induction sources arbitrary: acc) (simp_all add: step pieces)
  then show ?thesis unfolding lexical_join_def Let_def by (intro exI conjI) (rule refl, simp)
qed

section \<open>Dropping a subtree\<close>

text \<open>The keys with a given prefix are a contiguous run of a sorted map.\<close>

lemma append_not_less: "\<not> p @ t < (p :: string)"
  by (induction p) auto

lemma prefix_run:
  fixes a b prefix :: string
  assumes "\<not> a < prefix" and "\<not> starts_with prefix a" and "a < b"
  shows "\<not> starts_with prefix b"
  using assms
proof (induction prefix arbitrary: a b)
  case Nil
  then show ?case by (simp add: starts_with_iff)
next
  case (Cons c prefix)
  obtain x a' where a: "a = x # a'" using Cons.prems(1) by (cases a) auto
  obtain y b' where b: "b = y # b'" using Cons.prems(3) a by (cases b) auto
  show ?case
  proof (cases "x = c")
    case False
    then have "c < x" using Cons.prems(1) by (auto simp: a)
    then have "c \<noteq> y" using Cons.prems(3) by (auto simp: a b)
    then show ?thesis by (simp add: b starts_with_iff)
  next
    case True
    have "\<not> a' < prefix" "\<not> starts_with prefix a'" using Cons.prems(1,2) True by (auto simp: a starts_with_iff)
    then show ?thesis using Cons.IH [of a' b'] Cons.prems(3) True by (auto simp: a b starts_with_iff)
  qed
qed

lemma under_run:
  fixes es :: Entries
  assumes "btree_wf es"
  shows "takeWhile (\<lambda>(key, _). starts_with prefix key) (dropWhile (\<lambda>(key, _). key < prefix) es)
       = filter (\<lambda>(key, _). starts_with prefix key) es"
  using assms
proof (induction es)
  case (Cons x es)
  obtain k e where x: "x = (k, e)" by (cases x)
  have wf: "btree_wf es" and greater: "\<And>y. y \<in> fst ` set es \<Longrightarrow> k < y" using Cons.prems by (auto simp: x)
  show ?case
  proof (cases "k < prefix")
    case True
    then have "\<not> starts_with prefix k" using append_not_less by (auto simp: starts_with_iff)
    then show ?thesis using True Cons.IH [OF wf] by (simp add: x)
  next
    case False
    have "dropWhile (\<lambda>(key, _). key < prefix) es = es"
    proof (cases es)
      case (Cons y ys)
      then have "k < fst y" using greater by simp
      then have "\<not> fst y < prefix" using False by (metis less_trans)
      then show ?thesis by (cases y) (simp add: Cons)
    qed simp
    then have run: "takeWhile (\<lambda>(key, _). starts_with prefix key) es = filter (\<lambda>(key, _). starts_with prefix key) es"
      using Cons.IH [OF wf] by simp
    show ?thesis
    proof (cases "starts_with prefix k")
      case True
      then show ?thesis using False run by (simp add: x)
    next
      case no: False
      have "filter (\<lambda>(key, _). starts_with prefix key) es = []"
        unfolding filter_empty_conv using prefix_run [OF False no] greater by force
      then show ?thesis using False no by (simp add: x)
    qed
  qed
qed simp

definition remove_key :: "string \<Rightarrow> Entries \<Rightarrow> Entries" where
  "remove_key key es = (case btree_remove key es of None \<Rightarrow> es | Some (_, rest) \<Rightarrow> rest)"

lemma btree_remove_filter:
  "btree_wf es \<Longrightarrow> btree_remove k es = (case map_of es k of None \<Rightarrow> None | Some v \<Rightarrow> Some (v, filter (\<lambda>x. fst x \<noteq> k) es))"
proof (induction es)
  case (Cons x es)
  obtain k' v where x: "x = (k', v)" by (cases x)
  have "filter (\<lambda>x. fst x \<noteq> k') es = es" using Cons.prems by (auto simp: x filter_id_conv)
  then show ?case using Cons by (auto simp: x split: option.splits)
qed simp

lemma remove_key_filter: "btree_wf es \<Longrightarrow> remove_key k es = filter (\<lambda>x. fst x \<noteq> k) es"
proof (cases "map_of es k")
  case None
  then have "filter (\<lambda>x. fst x \<noteq> k) es = es" by (auto simp: map_of_eq_None_iff filter_id_conv)
  moreover assume "btree_wf es"
  ultimately show ?thesis using None by (simp add: remove_key_def btree_remove_filter)
qed (simp add: remove_key_def btree_remove_filter)

lemma btree_wf_filter: "btree_wf es \<Longrightarrow> btree_wf (filter P es)"
  by (simp add: btree_wf_def sorted_wrt_map sorted_wrt_filter)

lemma remove_keys_filter: "btree_wf es \<Longrightarrow> fold remove_key ks es = filter (\<lambda>x. fst x \<notin> set ks) es"
proof (induction ks arbitrary: es)
  case (Cons k ks)
  then show ?case by (simp add: remove_key_filter btree_wf_filter conj_commute)
qed simp

text \<open>Which paths an operation reaches, and what the loop over a range of the map really does.\<close>

definition beneath :: "string \<Rightarrow> string \<Rightarrow> bool" where
  "beneath dir p \<longleftrightarrow> dir = [] \<or> (\<exists>rest. p = dir @ slash # rest)"

lemma beneath_iff: "starts_with (subtree_prefix dir) p \<longleftrightarrow> beneath dir p"
  by (auto simp: subtree_prefix_def beneath_def starts_with_iff)

lemma drop_lower_subtree_filter:
  assumes wf: "btree_wf es"
  shows "drop_lower_subtree es path layer incl =
     filter (\<lambda>(p, e). \<not> (me_layer e < layer \<and> (beneath path p \<or> incl \<and> path \<noteq> [] \<and> p = path))) es"
proof -
  define doomed where "doomed = (if incl \<and> path \<noteq> []
      \<and> (case map_of es path of Some e \<Rightarrow> me_layer e < layer | None \<Rightarrow> False) then [path] else [])
    @ map fst (filter (\<lambda>(_, e). me_layer e < layer) (filter (\<lambda>(key, _). starts_with (subtree_prefix path) key) es))"
  have "drop_lower_subtree es path layer incl = fold remove_key doomed es"
    by (simp add: drop_lower_subtree_def Let_def under_run [OF wf] doomed_def remove_key_def [abs_def])
  also have "\<dots> = filter (\<lambda>x. fst x \<notin> set doomed) es" by (rule remove_keys_filter [OF wf])
  also have "\<dots> = filter (\<lambda>(p, e). \<not> (me_layer e < layer \<and> (beneath path p \<or> incl \<and> path \<noteq> [] \<and> p = path))) es"
  proof (rule filter_cong [OF refl], clarify)
    fix p e assume "(p, e) \<in> set es"
    then have m: "map_of es p = Some e" by (simp add: btree_lookup [OF wf])
    then have uniq: "\<And>e'. (p, e') \<in> set es \<longleftrightarrow> e' = e" unfolding btree_lookup [OF wf, symmetric] by auto
    with m show "(fst (p, e) \<notin> set doomed) = (\<not> (me_layer e < layer \<and> (beneath path p \<or> incl \<and> path \<noteq> [] \<and> p = path)))"
      by (auto simp: doomed_def beneath_iff image_iff Bex_def)
  qed
  finally show ?thesis .
qed

lemma map_of_filter_wf:
  "btree_wf es \<Longrightarrow> map_of (filter (\<lambda>(p, e). P p e) es) p
     = (case map_of es p of Some e \<Rightarrow> if P p e then Some e else None | None \<Rightarrow> None)"
proof (induction es)
  case (Cons x es)
  obtain k e where x: "x = (k, e)" by (cases x)
  have "map_of es k = None" using Cons.prems by (auto simp: x map_of_eq_None_iff)
  then show ?case using Cons by (cases "p = k") (simp_all add: x)
qed simp

lemma map_of_drop_lower:
  assumes "btree_wf es"
  shows "map_of (drop_lower_subtree es path layer incl) p =
     (case map_of es p of
        Some e \<Rightarrow> if me_layer e < layer \<and> (beneath path p \<or> incl \<and> path \<noteq> [] \<and> p = path) then None else Some e
      | None \<Rightarrow> None)"
  unfolding drop_lower_subtree_filter [OF assms] map_of_filter_wf [OF assms] by (cases "map_of es p") simp_all

lemma drop_lower_wf: "btree_wf es \<Longrightarrow> btree_wf (drop_lower_subtree es path layer incl)"
  by (simp add: drop_lower_subtree_filter btree_wf_filter)

section \<open>The overlay rules\<close>

text \<open>
  The specification of one layer: its members say which paths they put and which paths of the
  layers below they hide. Nothing in it depends on the order of the members, except that the
  last of two members with one path wins.
\<close>

datatype LayerOp = OpPut string MergedEntry | OpWhiteout string | OpOpaque string | OpRoot

fun hides :: "LayerOp \<Rightarrow> string \<Rightarrow> bool" where
  "hides (OpPut q e) p \<longleftrightarrow> me_kind e \<noteq> MDirectory \<and> beneath q p"
| "hides (OpWhiteout t) p \<longleftrightarrow> beneath t p \<or> p = t"
| "hides (OpOpaque d) p \<longleftrightarrow> beneath d p"
| "hides OpRoot p \<longleftrightarrow> False"

fun puts :: "LayerOp \<Rightarrow> string \<Rightarrow> MergedEntry option" where
  "puts (OpPut q e) p = (if p = q then Some e else None)"
| "puts _ p = None"

fun last_put :: "LayerOp list \<Rightarrow> string \<Rightarrow> MergedEntry option" where
  "last_put [] p = None"
| "last_put (op # ops) p = (case last_put ops p of Some e \<Rightarrow> Some e | None \<Rightarrow> puts op p)"

definition overlay :: "LayerOp list \<Rightarrow> (string \<Rightarrow> MergedEntry option) \<Rightarrow> string \<Rightarrow> MergedEntry option" where
  "overlay ops lower p =
     (case last_put ops p of
        Some e \<Rightarrow> Some e
      | None \<Rightarrow> if list_ex (\<lambda>op. hides op p) ops then None else lower p)"

text \<open>The operation a member stands for, and the operations of a whole layer.\<close>

definition put_of ::
  "(string \<Rightarrow> string) \<Rightarrow> string \<Rightarrow> nat \<Rightarrow> Member \<Rightarrow> string \<Rightarrow> (string \<Rightarrow> (nat \<times> nat) option)
   \<Rightarrow> (FirestoneError, LayerOp \<times> (string \<Rightarrow> (nat \<times> nat) option)) result" where
  "put_of lossy label layer member path local_files =
     and_then (insert_member lossy label layer member path [] local_files) (\<lambda>(es, local_files).
       Inr (OpPut path (snd (hd es)), local_files))"

definition member_op ::
  "(string \<Rightarrow> string) \<Rightarrow> string \<Rightarrow> nat \<Rightarrow> Member \<Rightarrow> (string \<Rightarrow> (nat \<times> nat) option)
   \<Rightarrow> (FirestoneError, LayerOp \<times> (string \<Rightarrow> (nat \<times> nat) option)) result" where
  "member_op lossy label layer member local_files =
     and_then (normalize_entry_path lossy (m_path member) label) (\<lambda>found.
       case found of
         None \<Rightarrow> Inr (OpRoot, local_files)
       | Some path \<Rightarrow>
           let (parent, name) = split_last_component path
           in if name = OPAQUE_MARKER then Inr (OpOpaque parent, local_files)
              else case strip_prefix WHITEOUT_PREFIX name of
                Some removed \<Rightarrow>
                  if removed = []
                  then Inl (layer_error (''layer '' @ label @ '' has an empty whiteout name'') REPULL_HINT)
                  else Inr (OpWhiteout (join_path parent removed), local_files)
              | None \<Rightarrow> put_of lossy label layer member path local_files)"

function layer_ops ::
  "TarCrate \<Rightarrow> (string \<Rightarrow> string) \<Rightarrow> nat \<Rightarrow> string \<Rightarrow> LayerCursor \<Rightarrow> (string \<Rightarrow> (nat \<times> nat) option)
   \<Rightarrow> (FirestoneError, LayerOp list) result" where
  "layer_ops tc lossy layer label cu local_files =
     and_then (read_header tc cu) (\<lambda>(found, cu).
       case found of
         None \<Rightarrow> Inr []
       | Some member \<Rightarrow>
           and_then (member_op lossy label layer member local_files) (\<lambda>(op, local_files).
           and_then (skip_data cu) (\<lambda>cu.
           and_then (layer_ops tc lossy layer label cu local_files) (\<lambda>ops. Inr (op # ops)))))"
  by pat_completeness auto
termination
proof (relation "measure (\<lambda>(_, _, _, _, cu, _). unread cu)", goal_cases)
  case (2 tc lossy layer label cu local_files x found cu1 member y e l cu2)
  then have "unread cu1 < unread cu" "unread cu2 \<le> unread cu1"
    using read_header_unread [of tc cu member cu1] skip_data_unread [of cu1 cu2] by auto
  then show ?case by simp
qed simp

declare layer_ops.simps [simp del]

text \<open>What one operation does to the map of the first pass.\<close>

fun apply_op :: "nat \<Rightarrow> LayerOp \<Rightarrow> Entries \<Rightarrow> Entries" where
  "apply_op layer (OpPut q e) es =
     btree_insert q e (if me_kind e \<noteq> MDirectory then drop_lower_subtree es q layer False else es)"
| "apply_op layer (OpWhiteout t) es = drop_lower_subtree es t layer True"
| "apply_op layer (OpOpaque d) es = drop_lower_subtree es d layer False"
| "apply_op layer OpRoot es = es"

definition op_ok :: "nat \<Rightarrow> LayerOp \<Rightarrow> bool" where
  "op_ok layer op \<longleftrightarrow> (case op of OpPut q e \<Rightarrow> me_layer e = layer \<and> inside_root q | OpWhiteout t \<Rightarrow> t \<noteq> [] | _ \<Rightarrow> True)"

lemma insert_member_op:
  assumes "insert_member lossy label layer member path es lf = Inr (es', lf')" and "inside_root path"
  shows "\<exists>op. put_of lossy label layer member path lf = Inr (op, lf') \<and> es' = apply_op layer op es \<and> op_ok layer op"
  using assms
  by (auto simp: put_of_def insert_member_def Let_def and_then_Inr_iff op_ok_def drop_lower_subtree_def split: if_splits)

lemma apply_member_op:
  assumes "apply_member lossy label layer member es lf = Inr (es', lf')"
  shows "\<exists>op. member_op lossy label layer member lf = Inr (op, lf') \<and> es' = apply_op layer op es \<and> op_ok layer op"
proof -
  obtain found where f: "normalize_entry_path lossy (m_path member) label = Inr found"
    using assms by (auto simp: apply_member_def and_then_Inr_iff)
  show ?thesis
  proof (cases found)
    case None
    then show ?thesis using assms f by (simp add: apply_member_def member_op_def op_ok_def)
  next
    case (Some path)
    obtain parent name where s: "split_last_component path = (parent, name)" by (cases "split_last_component path")
    have inside: "inside_root path" using f Some by (simp add: normalize_entry_path_Some)
    show ?thesis
    proof (cases "strip_prefix WHITEOUT_PREFIX name")
      case None
      show ?thesis using assms f Some s None insert_member_op [OF _ inside]
        by (auto simp: apply_member_def member_op_def op_ok_def split: if_splits)
    next
      case (Some removed)
      then show ?thesis using assms f \<open>found = Some path\<close> s
        by (auto simp: apply_member_def member_op_def op_ok_def join_path_def split: if_splits)
    qed
  qed
qed

lemma plan_layer_ops:
  assumes "plan_layer tc lossy limits bytes_read layer label cu n es lf = Inr (cu', n', es')"
  shows "\<exists>ops. layer_ops tc lossy layer label cu lf = Inr ops \<and> es' = fold (apply_op layer) ops es
     \<and> list_all (op_ok layer) ops"
  using assms
proof (induction tc lossy limits bytes_read layer label cu n es lf rule: plan_layer.induct)
  case (1 tc lossy limits bytes_read layer label cu n es lf)
  obtain found cu1 where h: "read_header tc cu = Inr (found, cu1)"
    using "1.prems" by (subst (asm) plan_layer.simps) (auto simp: and_then_Inr_iff)
  show ?case
  proof (cases found)
    case None
    then show ?thesis using "1.prems" h
      by (subst (asm) plan_layer.simps, subst layer_ops.simps) (simp add: exI [of _ "[]"])
  next
    case (Some member)
    obtain u es1 lf1 cu2 where r: "check_limits limits (n + 1) bytes_read (cu_bytes_read cu1) (m_data_size member) = Inr u"
      "apply_member lossy label layer member es lf = Inr (es1, lf1)" "skip_data cu1 = Inr cu2"
      "plan_layer tc lossy limits bytes_read layer label cu2 (n + 1) es1 lf1 = Inr (cu', n', es')"
      using "1.prems" h Some by (subst (asm) plan_layer.simps) (auto simp: and_then_Inr_iff)
    obtain op where op: "member_op lossy label layer member lf = Inr (op, lf1)" "es1 = apply_op layer op es" "op_ok layer op"
      using apply_member_op [OF r(2)] by blast
    obtain ops where "layer_ops tc lossy layer label cu2 lf1 = Inr ops" "es' = fold (apply_op layer) ops es1"
      "list_all (op_ok layer) ops"
      using "1.IH" [OF h refl Some r(1,2) refl r(3,4)] by blast
    then show ?thesis using h Some r(3) op by (subst layer_ops.simps) simp
  qed
qed

lemma last_put_snoc:
  "last_put (ops @ [op]) p = (case puts op p of Some e \<Rightarrow> Some e | None \<Rightarrow> last_put ops p)"
  by (induction ops) (auto split: option.splits)

lemma last_put_layer: "list_all (op_ok layer) ops \<Longrightarrow> last_put ops p = Some e \<Longrightarrow> me_layer e = layer \<and> inside_root p"
proof (induction ops)
  case (Cons op ops)
  show ?case
  proof (cases "last_put ops p")
    case None
    then show ?thesis using Cons.prems by (cases op) (auto simp: op_ok_def split: if_splits)
  qed (use Cons in simp)
qed simp

text \<open>A drop removes exactly the hidden entries of lower layers, whatever this layer put before.\<close>

lemma overlay_drop:
  assumes wf: "btree_wf es" and es: "\<And>p. map_of es p = overlay ops lower p"
    and lower: "\<And>p e. lower p = Some e \<Longrightarrow> me_layer e < layer" and ok: "list_all (op_ok layer) ops"
    and op: "\<And>p. hides op p \<longleftrightarrow> beneath path p \<or> incl \<and> path \<noteq> [] \<and> p = path" and puts: "puts op p = None"
  shows "map_of (drop_lower_subtree es path layer incl) p = overlay (ops @ [op]) lower p"
proof (cases "last_put ops p")
  case None
  then show ?thesis
    unfolding map_of_drop_lower [OF wf] es op [symmetric]
    using lower [of p] by (cases "lower p") (simp_all add: overlay_def last_put_snoc puts)
next
  case (Some e)
  then have "me_layer e = layer" using last_put_layer [OF ok] by blast
  then show ?thesis unfolding map_of_drop_lower [OF wf] es using Some by (simp add: overlay_def last_put_snoc puts)
qed

lemma overlay_put:
  assumes "\<And>p. p \<noteq> q \<Longrightarrow> map_of es p = overlay (ops @ [op]) lower p"
    and "\<And>p. hides op p \<longleftrightarrow> hides (OpPut q e) p" and "\<And>p. puts op p = None"
  shows "map_of (btree_insert q e es) p = overlay (ops @ [OpPut q e]) lower p"
  using assms(1) [of p]
  by (cases "p = q"; cases "last_put ops p") (auto simp: overlay_def last_put_snoc assms(2,3))

lemma apply_op_wf: "btree_wf es \<Longrightarrow> btree_wf (apply_op layer op es)"
  by (cases op) (auto simp: drop_lower_wf)

lemma apply_op_overlay:
  assumes wf: "btree_wf es" and es: "\<And>p. map_of es p = overlay ops lower p"
    and lower: "\<And>p e. lower p = Some e \<Longrightarrow> me_layer e < layer" and ok: "list_all (op_ok layer) ops" "op_ok layer op"
  shows "map_of (apply_op layer op es) p = overlay (ops @ [op]) lower p"
proof (cases op)
  case (OpPut q e)
  show ?thesis
  proof (cases "me_kind e = MDirectory")
    case True
    have "map_of (btree_insert q e es) p = overlay (ops @ [OpPut q e]) lower p"
      using True es by (intro overlay_put [where op = OpRoot]) (simp_all add: overlay_def last_put_snoc)
    then show ?thesis using True by (simp add: OpPut)
  next
    case False
    have "map_of (drop_lower_subtree es q layer False) p = overlay (ops @ [OpOpaque q]) lower p" for p
      by (rule overlay_drop [OF wf es lower ok(1)]) simp_all
    then have "map_of (btree_insert q e (drop_lower_subtree es q layer False)) p = overlay (ops @ [OpPut q e]) lower p"
      using False by (intro overlay_put [where op = "OpOpaque q"]) simp_all
    then show ?thesis using False by (simp add: OpPut)
  qed
next
  case (OpWhiteout t)
  then have "t \<noteq> []" using ok(2) by (simp add: op_ok_def)
  then show ?thesis unfolding OpWhiteout apply_op.simps
    by (intro overlay_drop [OF wf es lower ok(1)]) auto
next
  case (OpOpaque d)
  then show ?thesis unfolding OpOpaque apply_op.simps
    by (intro overlay_drop [OF wf es lower ok(1)]) auto
next
  case OpRoot
  then show ?thesis using es by (simp add: overlay_def last_put_snoc)
qed

lemma apply_ops_overlay:
  assumes "btree_wf es" and "\<And>p. map_of es p = overlay done lower p"
    and "\<And>p e. lower p = Some e \<Longrightarrow> me_layer e < layer" and "list_all (op_ok layer) (done @ ops)"
  shows "btree_wf (fold (apply_op layer) ops es)
     \<and> (\<forall>p. map_of (fold (apply_op layer) ops es) p = overlay (done @ ops) lower p)"
  using assms
proof (induction ops arbitrary: es "done")
  case (Cons op ops)
  have "map_of (apply_op layer op es) p = overlay (done @ [op]) lower p" for p
    using Cons.prems by (intro apply_op_overlay) auto
  then have "btree_wf (fold (apply_op layer) ops (apply_op layer op es))
     \<and> (\<forall>p. map_of (fold (apply_op layer) ops (apply_op layer op es)) p = overlay ((done @ [op]) @ ops) lower p)"
    using Cons.prems by (intro Cons.IH) (auto intro: apply_op_wf)
  then show ?case by simp
qed simp

text \<open>All layers, from the lowest to the highest.\<close>

fun image_ops :: "TarCrate \<Rightarrow> (string \<Rightarrow> string) \<Rightarrow> nat \<Rightarrow> LayerSource list \<Rightarrow> (FirestoneError, LayerOp list list) result" where
  "image_ops tc lossy layer [] = Inr []"
| "image_ops tc lossy layer (source # sources) =
     (let cu = cursor_new layer source
      in and_then (layer_ops tc lossy layer (cursor_label cu) cu Map.empty) (\<lambda>ops.
         and_then (image_ops tc lossy (layer + 1) sources) (\<lambda>rest. Inr (ops # rest))))"

definition overlay_image :: "LayerOp list list \<Rightarrow> string \<Rightarrow> MergedEntry option" where
  "overlay_image = foldl (\<lambda>lower ops. overlay ops lower) Map.empty"

lemma overlay_layer:
  assumes "list_all (op_ok layer) ops" and "overlay ops lower p = Some e"
    and "\<And>p e. lower p = Some e \<Longrightarrow> me_layer e < layer \<and> inside_root p"
  shows "me_layer e < Suc layer \<and> inside_root p"
proof (cases "last_put ops p")
  case None
  then have "lower p = Some e" using assms(2) by (simp add: overlay_def split: if_splits)
  then show ?thesis using assms(3) [of p e] by simp
next
  case (Some e')
  then show ?thesis using last_put_layer [OF assms(1) Some] assms(2) by (simp add: overlay_def)
qed

lemma plan_layers_overlay:
  assumes "plan_layers tc lossy limits layer sources b n es = Inr (b', es')"
    and "btree_wf es" and "\<And>p e. map_of es p = Some e \<Longrightarrow> me_layer e < layer \<and> inside_root p"
  shows "\<exists>opss. image_ops tc lossy layer sources = Inr opss \<and> btree_wf es'
     \<and> map_of es' = foldl (\<lambda>lower ops. overlay ops lower) (map_of es) opss
     \<and> (\<forall>p e. map_of es' p = Some e \<longrightarrow> me_layer e < layer + length sources \<and> inside_root p)"
  using assms
proof (induction sources arbitrary: layer b n es)
  case (Cons source sources)
  define cu where "cu = cursor_new layer source"
  obtain cu1 n1 es1 where p: "plan_layer tc lossy limits b layer (cursor_label cu) cu n es Map.empty = Inr (cu1, n1, es1)"
    and rest: "plan_layers tc lossy limits (layer + 1) sources (saturating_add b (cu_bytes_read cu1)) n1 es1 = Inr (b', es')"
    using Cons.prems(1) by (auto simp: Let_def and_then_Inr_iff cu_def)
  obtain ops where ops: "layer_ops tc lossy layer (cursor_label cu) cu Map.empty = Inr ops"
    "es1 = fold (apply_op layer) ops es" "list_all (op_ok layer) ops"
    using plan_layer_ops [OF p] by blast
  have ov: "btree_wf es1 \<and> (\<forall>p. map_of es1 p = overlay ([] @ ops) (map_of es) p)"
    unfolding ops(2) using Cons.prems(2,3) ops(3) by (intro apply_ops_overlay) (auto simp: overlay_def)
  have "me_layer e < layer + 1 \<and> inside_root q" if "map_of es1 q = Some e" for q e
    using overlay_layer [OF ops(3), of "map_of es" q e] ov that Cons.prems(3) by simp
  then obtain opss where "image_ops tc lossy (layer + 1) sources = Inr opss" "btree_wf es'"
    "map_of es' = foldl (\<lambda>lower ops. overlay ops lower) (map_of es1) opss"
    "\<forall>p e. map_of es' p = Some e \<longrightarrow> me_layer e < layer + 1 + length sources \<and> inside_root p"
    using Cons.IH [OF rest conjunct1 [OF ov]] by blast
  moreover have "map_of es1 = overlay ops (map_of es)" using ov by auto
  ultimately show ?case using ops(1) by (simp add: Let_def cu_def [symmetric])
qed simp

lemma build_plan_overlay:
  assumes "build_plan tc lossy request = Inr plan"
  shows "\<exists>opss. image_ops tc lossy 0 (mr_layers request) = Inr opss \<and> btree_wf (mp_entries plan)
     \<and> map_of (mp_entries plan) = overlay_image opss
     \<and> (\<forall>p e. map_of (mp_entries plan) p = Some e \<longrightarrow> me_layer e < length (mr_layers request) \<and> inside_root p)"
proof -
  obtain b where "plan_layers tc lossy (mr_limits request) 0 (mr_layers request) 0 0 [] = Inr (b, mp_entries plan)"
    using assms by (auto simp: build_plan_def and_then_Inr_iff)
  from plan_layers_overlay [OF this] show ?thesis by (simp add: overlay_image_def)
qed

section \<open>Hard links resolve\<close>

definition link_ok :: "Entries \<Rightarrow> (string \<Rightarrow> EmitMode option) \<Rightarrow> string \<Rightarrow> MergedEntry \<Rightarrow> bool" where
  "link_ok es ov p e \<longleftrightarrow>
     (if me_kind e \<noteq> MHardLink then ov p = None
      else \<exists>t. me_link_target e = Some t \<and>
        (case ov p of
           None \<Rightarrow> \<exists>w. map_of es t = Some w \<and> (me_layer w = me_layer e \<or> me_kind w = MRegular)
         | Some (Promote ordinal len) \<Rightarrow> me_local_target e = Some (ordinal, len)
         | Some (Relink r) \<Rightarrow> r < p \<and> length r \<le> USTAR_LINK_NAME_LIMIT
             \<and> (\<exists>f ordinal len. map_of es r = Some f \<and> me_kind f = MHardLink \<and> me_layer f = me_layer e
                  \<and> map_option fst (me_local_target e) = Some ordinal \<and> ov r = Some (Promote ordinal len))))"

definition links_inv ::
  "Entries \<Rightarrow> Entries \<Rightarrow> (string \<Rightarrow> EmitMode option) \<times> (nat \<times> nat \<Rightarrow> string option) \<Rightarrow> bool" where
  "links_inv es pre st \<longleftrightarrow>
     dom (fst st) \<subseteq> fst ` set pre
     \<and> (\<forall>(p, e) \<in> set pre. link_ok es (fst st) p e)
     \<and> (\<forall>l ordinal r. snd st (l, ordinal) = Some r \<longrightarrow>
          (\<exists>f len. (r, f) \<in> set pre \<and> me_kind f = MHardLink \<and> me_layer f = l \<and> fst st r = Some (Promote ordinal len)))"

lemma link_ok_update:
  assumes ok: "link_ok es ov p e" and "q \<noteq> p" and "q \<notin> dom ov"
  shows "link_ok es (ov(q \<mapsto> m)) p e"
proof -
  have p: "(ov(q \<mapsto> m)) p = ov p" using assms(2) by simp
  have other: "(ov(q \<mapsto> m)) r = Some x" if "ov r = Some x" for r x using that assms(3) by auto
  show ?thesis
  proof (cases "me_kind e = MHardLink")
    case False
    then show ?thesis using ok p by (simp add: link_ok_def)
  next
    case True
    consider "ov p = None" | r where "ov p = Some (Relink r)" | ordinal len where "ov p = Some (Promote ordinal len)"
      by (cases "ov p"; cases "the (ov p)") auto
    then show ?thesis
    proof cases
      case 2
      then show ?thesis using ok True unfolding link_ok_def p by (simp del: fun_upd_apply) (metis other)
    qed (use ok True in \<open>simp_all add: link_ok_def p del: fun_upd_apply\<close>)
  qed
qed

lemma links_inv_rep:
  "links_inv es pre (ov, reps) \<Longrightarrow> reps (l, ordinal) = Some r \<Longrightarrow>
   \<exists>f len. (r, f) \<in> set pre \<and> me_kind f = MHardLink \<and> me_layer f = l \<and> ov r = Some (Promote ordinal len)"
  unfolding links_inv_def fst_conv snd_conv by blast

lemma links_inv_update:
  assumes inv: "links_inv es pre (ov, reps)" and q: "q \<notin> fst ` set pre"
    and new: "link_ok es (ov(q \<mapsto> m)) q e" and reps': "reps' = reps \<or>
      (\<exists>ordinal len. m = Promote ordinal len \<and> me_kind e = MHardLink \<and> reps' = reps((me_layer e, ordinal) \<mapsto> q))"
  shows "links_inv es (pre @ [(q, e)]) (ov(q \<mapsto> m), reps')"
proof -
  have dom: "q \<notin> dom ov" using inv q by (auto simp: links_inv_def)
  have old: "link_ok es (ov(q \<mapsto> m)) p f" if "(p, f) \<in> set pre" for p f
  proof -
    have "q \<noteq> p" using q that by force
    moreover have "link_ok es ov p f" using inv that by (auto simp: links_inv_def)
    ultimately show ?thesis using dom by (intro link_ok_update)
  qed
  have keep: "(ov(q \<mapsto> m)) r = ov r" if "(r, f) \<in> set pre" for r f using q that by force
  have reps: "\<exists>f len. (r, f) \<in> set (pre @ [(q, e)]) \<and> me_kind f = MHardLink \<and> me_layer f = l
      \<and> (ov(q \<mapsto> m)) r = Some (Promote ordinal len)" if rep: "reps (l, ordinal) = Some r" for l ordinal r
  proof -
    obtain f len where "(r, f) \<in> set pre" "me_kind f = MHardLink" "me_layer f = l" "ov r = Some (Promote ordinal len)"
      using links_inv_rep [OF inv rep] by blast
    then show ?thesis using keep [of r f] by auto
  qed
  show ?thesis unfolding links_inv_def fst_conv snd_conv
  proof (intro conjI allI impI)
    show "dom (ov(q \<mapsto> m)) \<subseteq> fst ` set (pre @ [(q, e)])" using inv by (auto simp: links_inv_def)
    show "\<forall>(p, f) \<in> set (pre @ [(q, e)]). link_ok es (ov(q \<mapsto> m)) p f" using old new by auto
    fix l ordinal r assume "reps' (l, ordinal) = Some r"
    then show "\<exists>f len. (r, f) \<in> set (pre @ [(q, e)]) \<and> me_kind f = MHardLink \<and> me_layer f = l
      \<and> (ov(q \<mapsto> m)) r = Some (Promote ordinal len)"
      using reps' reps [of l ordinal r] by (auto split: if_splits)
  qed
qed

lemma links_inv_skip:
  assumes "links_inv es pre (ov, reps)" and "q \<notin> fst ` set pre" and "link_ok es ov q e"
  shows "links_inv es (pre @ [(q, e)]) (ov, reps)"
proof -
  have "\<exists>f len. (r, f) \<in> set (pre @ [(q, e)]) \<and> me_kind f = MHardLink \<and> me_layer f = l \<and> ov r = Some (Promote ordinal len)"
    if "reps (l, ordinal) = Some r" for l ordinal r using links_inv_rep [OF assms(1) that] by auto
  then show ?thesis using assms unfolding links_inv_def fst_conv snd_conv by auto
qed

lemma plan_hardlink_inv:
  assumes step: "plan_hardlink lossy es (q, e) (ov, reps) = Inr st'" and inv: "links_inv es pre (ov, reps)"
    and q: "q \<notin> fst ` set pre" and less: "\<And>r. r \<in> fst ` set pre \<Longrightarrow> r < q"
    and pre: "\<And>x. x \<in> set pre \<Longrightarrow> map_of es (fst x) = Some (snd x)"
  shows "links_inv es (pre @ [(q, e)]) st'"
proof -
  have none: "ov q = None" using inv q by (auto simp: links_inv_def)
  show ?thesis
  proof (cases "me_kind e = MHardLink")
    case False
    then have "st' = (ov, reps)" using step by (simp add: plan_hardlink_def)
    then show ?thesis using False none links_inv_skip [OF inv q] by (simp add: link_ok_def)
  next
    case True
    obtain t where t: "me_link_target e = Some t"
      using step True by (auto simp: plan_hardlink_def and_then_Inr_iff)
    let ?ok = "\<exists>w. map_of es t = Some w \<and> (me_layer w = me_layer e \<or> me_kind w = MRegular)"
    consider (keep) ?ok "st' = (ov, reps)"
      | (first) ordinal len where "me_local_target e = Some (ordinal, len)" "reps (me_layer e, ordinal) = None"
          "st' = (ov(q \<mapsto> Promote ordinal len), reps((me_layer e, ordinal) \<mapsto> q))"
      | (again) ordinal len r where "me_local_target e = Some (ordinal, len)" "reps (me_layer e, ordinal) = Some r"
          "st' = (ov(q \<mapsto> (if length r \<le> USTAR_LINK_NAME_LIMIT then Relink r else Promote ordinal len)), reps)"
      using step True t unfolding plan_hardlink_def
      by (auto simp: Let_def split: option.splits if_splits)
    then show ?thesis
    proof cases
      case keep
      then show ?thesis using links_inv_skip [OF inv q, of e] True t none by (simp add: link_ok_def)
    next
      case first
      have "link_ok es (ov(q \<mapsto> Promote ordinal len)) q e" using True t first(1) by (simp add: link_ok_def)
      then show ?thesis unfolding first(3) using True by (intro links_inv_update [OF inv q]) auto
    next
      case again
      obtain f k where f: "(r, f) \<in> set pre" "me_kind f = MHardLink" "me_layer f = me_layer e" "ov r = Some (Promote ordinal k)"
        using links_inv_rep [OF inv again(2)] by blast
      have "r < q" "r \<noteq> q" "map_of es r = Some f" using less [of r] pre [OF f(1)] f(1) by (force+)
      then have "link_ok es (ov(q \<mapsto> (if length r \<le> USTAR_LINK_NAME_LIMIT then Relink r else Promote ordinal len))) q e"
        using True t again(1) f by (simp add: link_ok_def)
      then show ?thesis unfolding again(3) by (intro links_inv_update [OF inv q]) auto
    qed
  qed
qed

lemma plan_hardlinks_loop_inv:
  assumes "plan_hardlinks_loop lossy es suf st = Inr st'" and "es = pre @ suf" and "btree_wf es" and "links_inv es pre st"
  shows "links_inv es es st'"
  using assms
proof (induction suf arbitrary: pre st)
  case (Cons x suf)
  obtain q e where x: "x = (q, e)" by (cases x)
  obtain ov reps where st: "st = (ov, reps)" by (cases st)
  obtain st1 where s: "plan_hardlink lossy es (q, e) (ov, reps) = Inr st1" "plan_hardlinks_loop lossy es suf st1 = Inr st'"
    using Cons.prems(1) by (auto simp: x st and_then_Inr_iff)
  have sorted: "sorted_wrt (<) (map fst pre @ q # map fst suf)"
    using Cons.prems(2,3) by (simp add: btree_wf_def x)
  have less: "r < q" if "r \<in> fst ` set pre" for r using sorted that by (auto simp: sorted_wrt_append)
  have "links_inv es (pre @ [(q, e)]) st1"
  proof (rule plan_hardlink_inv [OF s(1)])
    show "links_inv es pre (ov, reps)" using Cons.prems(4) by (simp add: st)
    show "q \<notin> fst ` set pre" using less by blast
    show "r < q" if "r \<in> fst ` set pre" for r by (rule less [OF that])
    show "map_of es (fst y) = Some (snd y)" if "y \<in> set pre" for y
    proof -
      have "(fst y, snd y) \<in> set es" using that Cons.prems(2) by simp
      then show ?thesis by (simp only: btree_lookup [OF Cons.prems(3)])
    qed
  qed
  then show ?case using Cons.IH [OF s(2), of "pre @ [(q, e)]"] Cons.prems(2,3) by (simp add: x)
qed simp

lemma plan_hardlinks_ok:
  assumes "plan_hardlinks lossy es = Inr ov" and "btree_wf es" and "map_of es p = Some e"
  shows "link_ok es ov p e"
proof -
  obtain reps where l: "plan_hardlinks_loop lossy es es (Map.empty, Map.empty) = Inr (ov, reps)"
    using assms(1) by (auto simp: plan_hardlinks_def and_then_Inr_iff)
  have "links_inv es [] (Map.empty, Map.empty)" by (simp add: links_inv_def)
  from plan_hardlinks_loop_inv [OF l _ assms(2) this] have "links_inv es es (ov, reps)" by simp
  then show ?thesis using assms(2,3) by (fastforce simp: links_inv_def btree_lookup)
qed

section \<open>The order of the output\<close>

lemma write_injected_all_paths:
  "write_injected_all tc lossy init_path init_binary paths = Inr out \<Longrightarrow> map fst out = paths"
  by (induction paths arbitrary: out) (auto simp: and_then_Inr_iff)

lemma takeWhile_sorted_split:
  fixes path :: string
  assumes "sorted_wrt (<) injected"
  shows "\<forall>p \<in> set (takeWhile (\<lambda>p. p \<le> path) injected). p \<le> path"
    and "\<forall>p \<in> set (dropWhile (\<lambda>p. p \<le> path) injected). path < p"
    and "sorted_wrt (<) (takeWhile (\<lambda>p. p \<le> path) injected)"
    and "sorted_wrt (<) (dropWhile (\<lambda>p. p \<le> path) injected)"
proof -
  show "\<forall>p \<in> set (takeWhile (\<lambda>p. p \<le> path) injected). p \<le> path" using set_takeWhileD by fastforce
  show "\<forall>p \<in> set (dropWhile (\<lambda>p. p \<le> path) injected). path < p"
    using assms by (induction injected) auto
  have "sorted_wrt (<) (takeWhile (\<lambda>p. p \<le> path) injected @ dropWhile (\<lambda>p. p \<le> path) injected)"
    using assms by simp
  then show "sorted_wrt (<) (takeWhile (\<lambda>p. p \<le> path) injected)" "sorted_wrt (<) (dropWhile (\<lambda>p. p \<le> path) injected)"
    unfolding sorted_wrt_append by blast+
qed

lemma write_entries_paths:
  assumes "write_entries tc lossy request plan init_path init_binary es injected cursors = Inr out"
    and "sorted_wrt (<) (map fst es)" and "sorted_wrt (<) injected"
  shows "sorted_wrt (<) (map fst out) \<and> set (map fst out) = set injected \<union> fst ` set es"
  using assms
proof (induction es arbitrary: injected cursors out)
  case Nil
  then show ?case using write_injected_all_paths by fastforce
next
  case (Cons x es)
  obtain path entry where x: "x = (path, entry)" by (cases x)
  define due where "due = takeWhile (\<lambda>p. p \<le> path) injected"
  define later where "later = dropWhile (\<lambda>p. p \<le> path) injected"
  have inj: "set injected = set due \<union> set later" unfolding due_def later_def
    by (metis set_append takeWhile_dropWhile_id)
  note s = takeWhile_sorted_split [OF Cons.prems(3), of path, folded due_def later_def]
  define own where "own = (if path \<in> set due then [] else [path])"
  obtain first others cursors' where w: "write_injected_all tc lossy init_path init_binary due = Inr first"
    "write_entries tc lossy request plan init_path init_binary es later cursors' = Inr others"
    and out: "map fst out = map fst first @ own @ map fst others"
  proof (cases "path \<in> set due")
    case True
    then show thesis using Cons.prems(1) that
      by (auto simp: x Let_def and_then_Inr_iff own_def due_def [symmetric] later_def [symmetric])
  next
    case False
    then show thesis using Cons.prems(1) that
      by (auto simp: x Let_def and_then_Inr_iff own_def due_def [symmetric] later_def [symmetric])
  qed
  note own = own_def
  have IH: "sorted_wrt (<) (map fst others) \<and> set (map fst others) = set later \<union> fst ` set es"
    using Cons.IH [OF w(2)] Cons.prems(2) s(4) by simp
  have first: "map fst first = due" using write_injected_all_paths [OF w(1)] .
  have above: "\<forall>p \<in> set (map fst others). path < p" using IH s(2) Cons.prems(2) by (auto simp: x)
  have upto: "\<forall>p \<in> set (due @ own). p \<le> path" using s(1) own by auto
  have "sorted_wrt (<) (due @ own)"
  proof (cases "path \<in> set due")
    case False
    then have "\<forall>p \<in> set due. p < path" using s(1) by (metis order_le_less)
    then show ?thesis using s(3) own False by (simp add: sorted_wrt_append)
  qed (use s(3) own in simp)
  then have "sorted_wrt (<) ((due @ own) @ map fst others)"
    unfolding sorted_wrt_append [of _ "due @ own"] using IH above upto by (blast intro: le_less_trans)
  moreover have "set ((due @ own) @ map fst others) = set injected \<union> fst ` set (x # es)"
    using IH inj own by (auto simp: x)
  ultimately show ?case using out first by simp
qed

lemma resolve_injection_path_name:
  "\<exists>front. resolve_injection_path es path = front @ snd (split_last_component path)"
  by (auto simp: resolve_injection_path_def join_path_def Let_def split: prod.splits)

lemma injected_paths_distinct:
  "resolve_injection_path es FIRESTONE_INIT_PATH \<noteq> resolve_injection_path es FIRESTONE_OCI_MARKER_PATH"
proof -
  have "snd (split_last_component FIRESTONE_INIT_PATH) = ''firestone-init''"
    "snd (split_last_component FIRESTONE_OCI_MARKER_PATH) = ''firestone-oci''"
    by code_simp+
  then have "last (resolve_injection_path es FIRESTONE_INIT_PATH) = CHR ''t''"
    "last (resolve_injection_path es FIRESTONE_OCI_MARKER_PATH) = CHR ''i''"
    using resolve_injection_path_name [of es FIRESTONE_INIT_PATH]
      resolve_injection_path_name [of es FIRESTONE_OCI_MARKER_PATH] by auto
  then show ?thesis by auto
qed

lemma write_merged_paths:
  assumes "write_merged tc lossy request plan = Inr out" and "btree_wf (mp_entries plan)"
  shows "sorted_wrt (<) (map fst out) \<and> set (map fst out) = fst ` set (mp_entries plan)
     \<union> (if mr_injected_init request = None then {}
        else {resolve_injection_path (mp_entries plan) FIRESTONE_INIT_PATH,
              resolve_injection_path (mp_entries plan) FIRESTONE_OCI_MARKER_PATH})"
proof -
  let ?i = "resolve_injection_path (mp_entries plan) FIRESTONE_INIT_PATH"
  let ?m = "resolve_injection_path (mp_entries plan) FIRESTONE_OCI_MARKER_PATH"
  define injected where "injected = (if mr_injected_init request \<noteq> None then sort [?m, ?i] else [])"
  have "sorted_wrt (<) injected"
    using injected_paths_distinct [of "mp_entries plan"] by (cases "?m \<le> ?i") (auto simp: injected_def)
  moreover have "set injected = (if mr_injected_init request = None then {} else {?i, ?m})"
    by (auto simp: injected_def)
  ultimately have sorted: "sorted_wrt (<) injected" "set injected = (if mr_injected_init request = None then {} else {?i, ?m})"
    by blast+
  obtain init_binary cursors where
    "write_entries tc lossy request plan ?i init_binary (mp_entries plan) injected cursors = Inr out"
    using assms(1) unfolding write_merged_def Let_def injected_def by blast
  from write_entries_paths [OF this assms(2) [unfolded btree_wf_def] sorted(1)]
  show ?thesis unfolding sorted(2) by (simp only: sup_commute)
qed

section \<open>Members that need no repair\<close>

lemma read_header_loop_pending:
  "read_header_loop tc label scan cu = Inr (Some m, cu') \<Longrightarrow> cu_pending cu' = Some (m_data_size m)"
proof (induction tc label scan cu rule: read_header_loop.induct)
  case (1 tc label scan cu)
  from "1.prems" show ?case
  proof (cases rule: read_header_loop_cases)
    case (member block entry_type len cu1)
    then show ?thesis using "1.prems"
      by (subst (asm) read_header_loop.simps) (auto simp: make_member_def)
  next
    case (extension block entry_type data cu1 cu2 scan')
    then show ?thesis
      using "1.IH" [OF extension(1) refl refl extension(2,3) refl extension(4,5,6) refl extension(7,8)] by simp
  qed
qed

lemma read_header_source: "read_header tc cu = Inr (Some m, cu') \<Longrightarrow> cu_source cu' = cu_source cu"
  by (auto simp: read_header_def reopen_def and_then_Inr_iff dest!: read_header_loop_unread skip_data_unread split: if_splits)

lemma seek_loop_header:
  "seek_loop tc ordinal cu = Inr (m, cu') \<Longrightarrow>
   m_ordinal m = ordinal \<and> (\<exists>c. cu_source c = cu_source cu \<and> read_header tc c = Inr (Some m, cu'))"
proof (induction tc ordinal cu rule: seek_loop.induct)
  case (1 tc ordinal cu)
  obtain member cu1 where h: "read_header tc cu = Inr (Some member, cu1)"
    using "1.prems" by (subst (asm) seek_loop.simps) (auto simp: and_then_Inr_iff split: option.splits)
  show ?case
  proof (cases "m_ordinal member = ordinal")
    case True
    then show ?thesis using "1.prems" h by (subst (asm) seek_loop.simps) auto
  next
    case False
    then obtain cu2 where r: "skip_data cu1 = Inr cu2" "seek_loop tc ordinal cu2 = Inr (m, cu')"
      using "1.prems" h by (subst (asm) seek_loop.simps) (auto simp: and_then_Inr_iff)
    have "cu_source cu2 = cu_source cu" using read_header_source [OF h] skip_data_unread [OF r(1)] by simp
    then show ?thesis using "1.IH" [OF h refl refl False r] by simp
  qed
qed

lemma copy_data_form:
  "copy_data cu = Inr (out, cu') \<Longrightarrow> cu_pending cu = Some len \<Longrightarrow>
   \<exists>data. out = data @ write_padding (length data) \<and> length data = len"
  by (auto simp: copy_data_def take_pending_def and_then_Inr_iff split: if_splits)

lemma write_entry_copied:
  assumes "write_entry tc lossy request plan cursors path entry = Inr (out, n, cursors')"
    and "mp_overrides plan path = None"
  shows "\<exists>m data c cu label. cu_source c = cu_source (cursors ! me_layer entry)
     \<and> read_header tc c = Inr (Some m, cu) \<and> m_ordinal m = me_ordinal entry
     \<and> out = member_bytes m data \<and> length data = m_data_size m
     \<and> normalize_entry_path lossy (m_path m) label = Inr (Some path)"
proof -
  define cu0 where "cu0 = cursors ! me_layer entry"
  obtain m cu data' cu' where s: "seek_to tc (me_ordinal entry) cu0 = Inr (m, cu)"
    and n: "normalize_entry_path lossy (m_path m) (cursor_label cu) = Inr (Some path)"
    and c: "copy_data cu = Inr (data', cu')"
    and out: "out = concat (map write_extension (m_extensions m)) @ m_header m @ data'"
    using assms by (auto simp: write_entry_def and_then_Inr_iff cu0_def split: if_splits)
  obtain c' where c': "cu_source c' = cu_source cu0" "seek_loop tc (me_ordinal entry) c' = Inr (m, cu)"
  proof -
    obtain c' where "(if cu_reader cu0 = None \<or> cu_next_ordinal cu0 > me_ordinal entry then reopen cu0 else Inr cu0) = Inr c'"
      "seek_loop tc (me_ordinal entry) c' = Inr (m, cu)"
      using s by (auto simp: seek_to_def and_then_Inr_iff)
    then show thesis by (intro that [of c']) (auto simp: reopen_def and_then_Inr_iff split: if_splits)
  qed
  obtain c1 where h: "read_header tc c1 = Inr (Some m, cu)" and o: "m_ordinal m = me_ordinal entry"
    and src: "cu_source c1 = cu_source (cursors ! me_layer entry)"
    using seek_loop_header [OF c'(2)] c'(1) by (auto simp: cu0_def)
  have "cu_pending cu = Some (m_data_size m)"
    using h read_header_loop_pending by (auto simp: read_header_def and_then_Inr_iff)
  from copy_data_form [OF c this] obtain data where "data' = data @ write_padding (length data)" "length data = m_data_size m"
    by blast
  moreover from this have "out = member_bytes m data" by (simp add: member_bytes_def out)
  ultimately show ?thesis using h o n src by blast
qed

section \<open>Properties\<close>

text \<open>
  C10. The first pass implements the overlay rules: if it succeeds, the map it builds is sorted,
  every path in it is relative and free of empty, dot and dot-dot components, and it is the
  overlay of the layers, where a layer's puts win over what lies below and its whiteouts,
  opaque markers and non-directories hide the lower entries they cover, in whatever order the
  members of the layer come.
\<close>

theorem merge_refines_overlay:
  assumes "build_plan tc lossy request = Inr plan"
  shows "\<exists>opss. image_ops tc lossy 0 (mr_layers request) = Inr opss
     \<and> map_of (mp_entries plan) = overlay_image opss \<and> btree_wf (mp_entries plan)
     \<and> (\<forall>p e. map_of (mp_entries plan) p = Some e \<longrightarrow> inside_root p)"
  using build_plan_overlay [OF assms] by blast


text \<open>
  The merged stream names every surviving path exactly once and, when the init is injected,
  the two injected paths, in strictly increasing byte order; in particular a directory comes
  before everything below it.
\<close>

lemma merged_output_sorted:
  assumes "build_plan tc lossy request = Inr plan" and "write_merged tc lossy request plan = Inr out"
  shows "sorted_wrt (<) (map fst out)
     \<and> set (map fst out) = fst ` set (mp_entries plan)
         \<union> (if mr_injected_init request = None then {}
            else {resolve_injection_path (mp_entries plan) FIRESTONE_INIT_PATH,
                  resolve_injection_path (mp_entries plan) FIRESTONE_OCI_MARKER_PATH})
     \<and> (\<forall>dir p. p \<in> set (map fst out) \<and> dir \<in> set (map fst out) \<and> dir \<noteq> [] \<and> beneath dir p \<longrightarrow> dir < p)"
proof -
  have "dir < dir @ slash # rest" for dir rest by (induction dir) auto
  then have "\<forall>dir p. dir \<noteq> [] \<and> beneath dir p \<longrightarrow> dir < p" by (auto simp: beneath_def)
  then show ?thesis using write_merged_paths [OF assms(2)] build_plan_overlay [OF assms(1)] by blast
qed


definition demo_tar :: TarCrate where
  "demo_tar = \<lparr>tc_cksum = (\<lambda>block. Inr (foldl (\<lambda>acc v. acc + ucast v) 0 (checksum_bytes block))),
     tc_entry_type = (\<lambda>_. TRegular), tc_entry_size = (\<lambda>_. Inr 0),
     tc_path_bytes = takeWhile (\<lambda>c. c \<noteq> CHR 0x00), tc_link_name_bytes = (\<lambda>_. None),
     tc_set_link_name_literal = (\<lambda>_ h. Inr h), tc_set_entry_type = (\<lambda>_ h. h), tc_set_size = (\<lambda>_ h. h),
     tc_set_cksum = id, tc_new_ustar = replicate 512 (CHR 0x00), tc_set_path = (\<lambda>p h. Inr (p @ drop (length p) h)),
     tc_set_username = (\<lambda>_ h. Inr h), tc_set_groupname = (\<lambda>_ h. Inr h), tc_set_mode = (\<lambda>_ h. h),
     tc_set_uid = (\<lambda>_ h. h), tc_set_gid = (\<lambda>_ h. h), tc_set_mtime = (\<lambda>_ h. h)\<rparr>"

definition demo_header :: string where "demo_header = CHR ''a'' # replicate 511 (CHR 0x00)"

definition demo_request :: MergeRequest where
  "demo_request = \<lparr>mr_layers = [\<lparr>ls_label = ''l'', ls_open = Inr (demo_header, False)\<rparr>],
     mr_config = \<lparr>oi_env = [], oi_entrypoint = [], oi_cmd = [], oi_working_dir = None, oi_user = None\<rparr>,
     mr_limits = merge_limits_default, mr_injected_init = None\<rparr>"

definition demo_layer :: LayerSource where
  "demo_layer = \<lparr>ls_label = ''l'', ls_open = Inr (demo_header, False)\<rparr>"

definition demo_member :: Member where
  "demo_member = \<lparr>m_header = demo_header, m_extensions = [], m_path = ''a'', m_link = None,
     m_entry_type = TRegular, m_data_size = 0, m_ordinal = 0\<rparr>"

definition demo_cursor :: "string \<Rightarrow> nat \<Rightarrow> nat option \<Rightarrow> LayerCursor" where
  "demo_cursor rest n pending = \<lparr>cu_index = 0, cu_source = demo_layer, cu_reader = Some (rest, False),
     cu_next_ordinal = n, cu_pending = pending, cu_bytes_read = 512 * n\<rparr>"

definition demo_entry :: MergedEntry where
  "demo_entry = \<lparr>me_layer = 0, me_ordinal = 0, me_kind = MRegular, me_link_target = None, me_local_target = None,
     me_symlink_target = None\<rparr>"

lemma demo_header_facts:
  "length demo_header = BLOCK" "demo_header \<noteq> []" "take BLOCK demo_header = demo_header" "drop BLOCK demo_header = []"
  "\<not> list_all (\<lambda>c. c = CHR 0x00) demo_header" "takeWhile (\<lambda>c. c \<noteq> CHR 0x00) demo_header = ''a''"
  by (simp_all add: demo_header_def BLOCK_def)

lemma demo_check: "check_header demo_tar label demo_header = Inr (TRegular, 0)"
  by (simp add: check_header_def demo_tar_def checksum_matches_def)

lemma demo_make_member: "make_member demo_tar demo_header TRegular 0 header_scan_new 0 = demo_member"
  by (simp add: make_member_def demo_member_def header_scan_new_def or_else_def demo_tar_def demo_header_facts)

lemma demo_read_first:
  "read_header demo_tar (cursor_new 0 demo_layer) = Inr (Some demo_member, demo_cursor [] 1 (Some 0))"
proof -
  have b: "read_block (demo_cursor demo_header 0 None) = Inr (Some demo_header, (demo_cursor [] 1 None)\<lparr>cu_next_ordinal := 0\<rparr>)"
    by (simp add: read_block_def read_up_to_def reader_mut_def demo_cursor_def demo_header_facts saturating_add_def)
      (simp add: BLOCK_def)
  have "read_header demo_tar (cursor_new 0 demo_layer)
      = read_header_loop demo_tar (cursor_label (demo_cursor demo_header 0 None)) header_scan_new (demo_cursor demo_header 0 None)"
    by (simp add: read_header_def reopen_def cursor_new_def demo_layer_def demo_cursor_def)
  also have "\<dots> = Inr (Some demo_member, demo_cursor [] 1 (Some 0))"
    by (subst read_header_loop.simps)
      (simp add: b demo_header_facts demo_check is_extension_def, simp add: demo_cursor_def demo_make_member)
  finally show ?thesis .
qed

lemma demo_skip: "skip_data (demo_cursor [] 1 (Some 0)) = Inr (demo_cursor [] 1 None)"
  by (simp add: skip_data_def take_pending_def demo_cursor_def read_exact_padded_def read_up_to_def reader_mut_def
      skip_padding_def padding_for_def saturating_add_def)

lemma demo_read_last: "read_header demo_tar (demo_cursor [] 1 None) = Inr (None, demo_cursor [] 1 None)"
  by (simp add: read_header_def demo_cursor_def, subst read_header_loop.simps)
    (simp add: read_block_def read_up_to_def reader_mut_def saturating_add_def header_scan_new_def)

lemma demo_apply: "apply_member id label 0 demo_member [] Map.empty = Inr ([(''a'', demo_entry)], [''a'' \<mapsto> (0, 0)])"
proof -
  have "normalize_entry_path id ''a'' label = Inr (Some ''a'')" "split_last_component ''a'' = ([], ''a'')"
    "''a'' \<noteq> OPAQUE_MARKER" "strip_prefix WHITEOUT_PREFIX ''a'' = None" "drop_lower_subtree [] ''a'' 0 False = []"
    by code_simp+
  then show ?thesis by (simp add: apply_member_def demo_member_def insert_member_def demo_entry_def)
qed

lemma demo_plan:
  "build_plan demo_tar id demo_request =
     Inr \<lparr>mp_entries = [(''a'', demo_entry)], mp_overrides = Map.empty, mp_bytes_read = 512\<rparr>"
proof -
  have "plan_layer demo_tar id merge_limits_default 0 0 label (cursor_new 0 demo_layer) 0 [] Map.empty
      = Inr (demo_cursor [] 1 None, 1, [(''a'', demo_entry)])" for label
  proof -
    have "check_limits merge_limits_default 1 0 (cu_bytes_read (demo_cursor [] 1 (Some 0))) (m_data_size demo_member) = Inr ()"
      by (simp add: check_limits_def merge_limits_default_def saturating_add_def demo_cursor_def demo_member_def)
    then show ?thesis
      by (subst plan_layer.simps, subst plan_layer.simps)
        (simp add: demo_read_first demo_skip demo_read_last demo_apply del: One_nat_def)
  qed
  then show ?thesis
    by (simp add: build_plan_def demo_request_def demo_layer_def [symmetric] Let_def plan_hardlinks_def plan_hardlink_def
        demo_entry_def demo_cursor_def saturating_add_def)
qed

lemma demo_reopen: "reopen (cursor_new 0 demo_layer) = Inr (demo_cursor demo_header 0 None)"
  by (simp add: reopen_def cursor_new_def demo_layer_def demo_cursor_def)

lemma demo_read_open: "read_header demo_tar (demo_cursor demo_header 0 None) = Inr (Some demo_member, demo_cursor [] 1 (Some 0))"
proof -
  have "read_header demo_tar (cursor_new 0 demo_layer) = read_header demo_tar (demo_cursor demo_header 0 None)"
    by (simp add: read_header_def demo_reopen) (simp add: cursor_new_def demo_cursor_def)
  then show ?thesis using demo_read_first by simp
qed

lemma demo_copy: "copy_data (demo_cursor [] 1 (Some 0)) = Inr ([], demo_cursor [] 1 None)"
  by (simp add: copy_data_def take_pending_def demo_cursor_def read_up_to_def reader_mut_def
      skip_padding_def padding_for_def saturating_add_def write_padding_def)

abbreviation (input) demo_merge_plan :: MergePlan where
  "demo_merge_plan \<equiv> \<lparr>mp_entries = [(''a'', demo_entry)], mp_overrides = Map.empty, mp_bytes_read = 512\<rparr>"

lemma demo_write:
  "write_entry demo_tar id demo_request demo_merge_plan [cursor_new 0 demo_layer] ''a'' demo_entry
     = Inr (demo_header, 0, [demo_cursor [] 1 None])"
proof -
  have n: "normalize_entry_path id ''a'' label = Inr (Some ''a'')" for label
    by (simp add: normalize_entry_path_def normalize_relative_def)
  have "seek_to demo_tar 0 (cursor_new 0 demo_layer) = Inr (demo_member, demo_cursor [] 1 (Some 0))"
  proof -
    have "m_ordinal demo_member = 0" by (simp add: demo_member_def)
    then have "seek_loop demo_tar 0 (demo_cursor demo_header 0 None) = Inr (demo_member, demo_cursor [] 1 (Some 0))"
      by (subst seek_loop.simps) (simp add: demo_read_open)
    then show ?thesis by (simp add: seek_to_def demo_reopen) (simp add: cursor_new_def)
  qed
  then show ?thesis
    by (simp add: write_entry_def demo_entry_def entry_unpacked_def demo_copy del: One_nat_def)
      (simp add: demo_member_def n)
qed

lemma demo_written: "write_merged demo_tar id demo_request demo_merge_plan = Inr [(''a'', demo_header, 0)]"
  by (simp add: write_merged_def demo_request_def Let_def demo_layer_def [symmetric])
    (simp add: demo_write [unfolded demo_request_def, folded demo_layer_def])

theorem merge_refines_overlay_witness:
  "\<exists>opss. image_ops demo_tar id 0 (mr_layers demo_request) = Inr opss \<and> overlay_image opss ''a'' = Some demo_entry"
proof -
  obtain opss where "image_ops demo_tar id 0 (mr_layers demo_request) = Inr opss"
    "map_of [(''a'', demo_entry)] = overlay_image opss"
    using merge_refines_overlay [OF demo_plan] by auto
  then show ?thesis by (metis map_of_Cons_code(2))
qed



text \<open>
  The sorted order does not put a hard link after its target: of the two paths below, the link
  comes first, and the plan leaves it as it is.
\<close>

lemma hardlink_may_precede_target:
  "\<exists>es. map fst es = [''a-b'', ''a/b''] \<and> btree_wf es \<and> plan_hardlinks id es = Inr Map.empty
     \<and> (\<exists>l f. map_of es ''a-b'' = Some l \<and> me_kind l = MHardLink \<and> me_link_target l = Some ''a/b''
          \<and> map_of es ''a/b'' = Some f \<and> me_kind f = MRegular \<and> me_layer f = me_layer l)"
proof -
  let ?l = "demo_entry\<lparr>me_kind := MHardLink, me_link_target := Some ''a/b''\<rparr>"
  let ?es = "[(''a-b'', ?l), (''a/b'', demo_entry)]"
  have "btree_wf ?es" by (simp add: less_char_def)
  moreover have "plan_hardlinks id ?es = Inr Map.empty"
    by (simp add: plan_hardlinks_def plan_hardlink_def demo_entry_def)
  moreover have "me_kind ?l = MHardLink" "me_link_target ?l = Some ''a/b''" "me_kind demo_entry = MRegular"
    "me_layer demo_entry = me_layer ?l" by (simp_all add: demo_entry_def)
  ultimately show ?thesis by (intro exI [of _ ?es]) simp
qed

end
