(* ===== verification/Deps.thy ===== *)
theory Deps
  imports Network Btree
begin

text \<open>
  The manifest of pinned helpers and boot payloads, \<^verbatim>\<open>firestone-core/src/deps.rs\<close>: every binary
  Firestone downloads or executes is named here with its version, HTTPS location and SHA-256.
  The TOML library is an argument; so is \<open>scheme\<close>, which parses a URL and returns its scheme.
\<close>

definition SUPPORTED_MANIFEST_VERSION :: u32 where "SUPPORTED_MANIFEST_VERSION = 1"

definition DIRECT_BOOT_KERNEL_DEPENDENCY :: string where
  "DIRECT_BOOT_KERNEL_DEPENDENCY = ''cloud-hypervisor-kernel''"

definition MKFS_EXT4_DEPENDENCY :: string where "MKFS_EXT4_DEPENDENCY = ''mkfs-ext4''"

definition FIRESTONE_INIT_DEPENDENCY :: string where "FIRESTONE_INIT_DEPENDENCY = ''firestone-init''"

record DependencyArtifact =
  da_dependency :: string
  da_version :: string
  da_asset :: string
  da_install_name :: string
  da_url :: string
  da_sha256 :: string

definition executable :: "DependencyArtifact \<Rightarrow> bool" where
  "executable artifact \<longleftrightarrow>
     da_dependency artifact \<in> {''cloud-hypervisor'', ''virtiofsd'', ''passt'', ''qemu-img'', MKFS_EXT4_DEPENDENCY}"

text \<open>0o755 and 0o644.\<close>

definition expected_mode :: "DependencyArtifact \<Rightarrow> u32" where
  "expected_mode artifact = (if executable artifact then 493 else 420)"

record RawArtifact =
  raw_asset :: string
  raw_install_name :: string
  raw_url :: string
  raw_sha256 :: string

text \<open>The remaining keys of an entry, each with the result of reading it as a \<open>RawArtifact\<close>.\<close>

record DependencyEntry =
  de_version :: string
  de_availability :: string
  de_reason :: "string option"
  de_architectures :: "string list option"
  de_fields :: "(string \<times> (unit, RawArtifact) result) list"

record DependencyManifest =
  manifest_version :: u32
  dependencies :: "(string \<times> DependencyEntry) list"

definition supports_architecture :: "DependencyEntry \<Rightarrow> string \<Rightarrow> bool" where
  "supports_architecture entry architecture =
     (case de_architectures entry of None \<Rightarrow> True | Some architectures \<Rightarrow> architecture \<in> set architectures)"

definition manifest_parse ::
  "(string \<Rightarrow> (unit, DependencyManifest) result) \<Rightarrow> string \<Rightarrow> (FirestoneError, DependencyManifest) result" where
  "manifest_parse from_str input =
     and_then (map_err (\<lambda>_. with_hint ''restore deps.toml from the Firestone release''
         (error_new Dependency ''cannot parse dependency manifest'')) (from_str input)) (\<lambda>raw.
       if manifest_version raw \<noteq> SUPPORTED_MANIFEST_VERSION
       then Inl (with_hint (''use dependency manifest version '' @ show_nat (unat SUPPORTED_MANIFEST_VERSION))
              (error_new Dependency (''dependency manifest version '' @ show_nat (unat (manifest_version raw))
                 @ '' is unsupported'')))
       else Inr raw)"

definition source_only_error :: "string \<Rightarrow> string \<Rightarrow> string \<Rightarrow> string \<Rightarrow> FirestoneError" where
  "source_only_error dependency version architecture reason =
     with_hint
       (if dependency = ''virtiofsd''
        then ''M0-05c release blocker: publish immutable virtiofsd '' @ architecture
               @ '' binaries and checksums in deps.toml''
        else ''publish an immutable '' @ dependency @ '' '' @ architecture @ '' binary and checksum in deps.toml'')
       (error_new Dependency (''dependency `'' @ dependency @ ''` '' @ version @ '' has no immutable ''
          @ architecture @ '' binary: '' @ reason))"

definition validate_install_name :: "string \<Rightarrow> string \<Rightarrow> (FirestoneError, unit) result" where
  "validate_install_name dependency install_name =
     (let is_one_component = (length (components install_name) = 1 \<and> path_file_name install_name \<noteq> None)
      in ensure (\<not> (install_name = [] \<or> CHR ''/'' \<in> set install_name \<or> CHR 0x5C \<in> set install_name
              \<or> \<not> is_one_component \<or> install_name = ''.'' \<or> install_name = ''..''))
           (with_hint ''use a single file name without path separators in deps.toml''
             (error_new Dependency (''dependency `'' @ dependency @ ''` has unsafe install name `''
                @ install_name @ ''`''))))"

definition validate_url :: "(string \<Rightarrow> string option) \<Rightarrow> string \<Rightarrow> string \<Rightarrow> (FirestoneError, unit) result" where
  "validate_url scheme dependency url =
     and_then (ok_or (with_hint ''use an immutable HTTPS release URL in deps.toml''
         (error_new Dependency (''dependency `'' @ dependency @ ''` has an invalid artifact URL''))) (scheme url)) (\<lambda>s.
       ensure (s = ''https'') (with_hint ''use an immutable HTTPS release URL in deps.toml''
         (error_new Dependency (''dependency `'' @ dependency @ ''` artifact URL is not HTTPS''))))"

definition is_lower_hex_digit :: "char \<Rightarrow> bool" where
  "is_lower_hex_digit c \<longleftrightarrow> is_ascii_digit c \<or> (97 \<le> (of_char c :: nat) \<and> (of_char c :: nat) \<le> 102)"

definition validate_sha256 :: "string \<Rightarrow> string \<Rightarrow> (FirestoneError, unit) result" where
  "validate_sha256 dependency sha256 =
     ensure (length sha256 = 64 \<and> list_all is_lower_hex_digit sha256)
       (with_hint ''regenerate deps.toml with scripts/pin-deps.sh''
         (error_new Dependency (''dependency `'' @ dependency @ ''` has an invalid SHA-256 value'')))"

definition manifest_entry :: "DependencyManifest \<Rightarrow> string \<Rightarrow> (FirestoneError, DependencyEntry) result" where
  "manifest_entry manifest dependency =
     ok_or (with_hint ''restore deps.toml from the Firestone release''
         (error_new Dependency (''dependency manifest has no `'' @ dependency @ ''` entry'')))
       (map_of (dependencies manifest) dependency)"

definition check_availability :: "DependencyEntry \<Rightarrow> string \<Rightarrow> string \<Rightarrow> (FirestoneError, unit) result" where
  "check_availability entry dependency architecture =
     (if de_availability entry = ''binary'' then Inr ()
      else if de_availability entry = ''source-only''
      then Inl (source_only_error dependency (de_version entry) architecture
             (case de_reason entry of Some r \<Rightarrow> r | None \<Rightarrow> ''the release does not publish an immutable binary''))
      else Inl (with_hint ''use `binary` or `source-only` in deps.toml''
             (error_new Dependency (''dependency `'' @ dependency @ ''` has unsupported availability `''
                @ de_availability entry @ ''`''))))"

definition artifact ::
  "(string \<Rightarrow> string option) \<Rightarrow> DependencyManifest \<Rightarrow> string \<Rightarrow> string \<Rightarrow> (FirestoneError, DependencyArtifact) result"
  where
  "artifact scheme manifest dependency architecture =
     and_then (manifest_entry manifest dependency) (\<lambda>entry.
     and_then (ensure (supports_architecture entry architecture)
        (with_hint ''use a release target listed in the dependency architectures field''
          (error_new Dependency (''dependency `'' @ dependency @ ''` '' @ de_version entry @ '' is outside its ''
             @ architecture @ '' runtime scope'')))) (\<lambda>_.
     and_then (check_availability entry dependency architecture) (\<lambda>_.
     and_then (ok_or (with_hint (''publish an immutable '' @ architecture @ '' artifact and checksum in deps.toml'')
          (error_new Dependency (''dependency `'' @ dependency @ ''` '' @ de_version entry @ '' has no binary for ''
             @ architecture))) (map_of (de_fields entry) architecture)) (\<lambda>found.
     and_then (map_err (\<lambda>_. with_hint ''repair the generated deps.toml entry''
          (error_new Dependency (''dependency `'' @ dependency @ ''` has an invalid '' @ architecture
             @ '' artifact entry''))) found) (\<lambda>raw.
     and_then (validate_install_name dependency (raw_install_name raw)) (\<lambda>_.
     and_then (validate_url scheme dependency (raw_url raw)) (\<lambda>_.
     and_then (validate_sha256 dependency (raw_sha256 raw)) (\<lambda>_.
       Inr \<lparr>da_dependency = dependency, da_version = de_version entry, da_asset = raw_asset raw,
            da_install_name = raw_install_name raw, da_url = raw_url raw,
            da_sha256 = map to_ascii_lowercase (raw_sha256 raw)\<rparr>))))))))"

fun artifacts_of ::
  "(string \<Rightarrow> string option) \<Rightarrow> DependencyManifest \<Rightarrow> string \<Rightarrow> (string \<times> DependencyEntry) list
   \<Rightarrow> (string \<times> DependencyArtifact) list \<Rightarrow> (FirestoneError, (string \<times> DependencyArtifact) list) result" where
  "artifacts_of scheme manifest architecture [] found = Inr found"
| "artifacts_of scheme manifest architecture ((name, entry) # rest) found =
     (if supports_architecture entry architecture
      then and_then (artifact scheme manifest name architecture) (\<lambda>a.
             artifacts_of scheme manifest architecture rest (btree_insert name a found))
      else artifacts_of scheme manifest architecture rest found)"

definition artifacts ::
  "(string \<Rightarrow> string option) \<Rightarrow> DependencyManifest \<Rightarrow> string
   \<Rightarrow> (FirestoneError, (string \<times> DependencyArtifact) list) result" where
  "artifacts scheme manifest architecture = artifacts_of scheme manifest architecture (dependencies manifest) []"

definition embedded_passt ::
  "(string \<Rightarrow> string option) \<Rightarrow> DependencyManifest \<Rightarrow> string \<Rightarrow> (FirestoneError, DependencyArtifact) result" where
  "embedded_passt scheme manifest architecture =
     (if architecture \<noteq> ''x86_64''
      then Inl (with_hint ''run Firestone on Linux x86_64 for AppArmor passt remediation''
             (error_new Dependency (''the embedded passt helper is unavailable for '' @ architecture
                @ ''; its runtime scope is x86_64'')))
      else and_then (map_err (\<lambda>_. with_hint
            ''provide the pinned x86_64 passt payload and extraction result before AppArmor repair''
            (error_new Dependency ''embedded passt helper metadata is unavailable''))
          (artifact scheme manifest ''passt'' architecture)) (\<lambda>a.
        if da_version a \<noteq> PINNED_PASST_VERSION
        then Inl (with_hint ''regenerate the embedded helper manifest from the pinned passt source''
               (error_new Dependency (''embedded passt helper version '' @ da_version a
                  @ '' does not match pinned '' @ PINNED_PASST_VERSION)))
        else Inr a))"

definition direct_boot_kernel ::
  "(string \<Rightarrow> string option) \<Rightarrow> DependencyManifest \<Rightarrow> string \<Rightarrow> (FirestoneError, DependencyArtifact) result" where
  "direct_boot_kernel scheme manifest architecture =
     and_then (map_err (\<lambda>_. with_hint
          ''regenerate deps.toml with scripts/pin-deps.sh refresh --arch all before booting an OCI machine''
          (error_new Dependency (''pinned direct-boot kernel metadata is unavailable for '' @ architecture)))
        (artifact scheme manifest DIRECT_BOOT_KERNEL_DEPENDENCY architecture)) (\<lambda>a.
       if executable a
       then Inl (with_hint ''publish the kernel image as a mode-0644 dependency artifact''
              (error_new Dependency ''pinned direct-boot kernel is classified as an executable payload''))
       else Inr a)"

definition mkfs_ext4 ::
  "(string \<Rightarrow> string option) \<Rightarrow> DependencyManifest \<Rightarrow> string \<Rightarrow> (FirestoneError, DependencyArtifact) result" where
  "mkfs_ext4 scheme manifest architecture =
     and_then (map_err (\<lambda>_. with_hint
          ''regenerate deps.toml with scripts/pin-deps.sh refresh --arch all before pulling an OCI image''
          (error_new Dependency (''pinned mkfs.ext4 metadata is unavailable for '' @ architecture)))
        (artifact scheme manifest MKFS_EXT4_DEPENDENCY architecture)) (\<lambda>a.
       if \<not> executable a
       then Inl (with_hint ''publish mkfs.ext4 as a mode-0755 dependency artifact''
              (error_new Dependency ''pinned mkfs.ext4 is not classified as an executable payload''))
       else Inr a)"

definition firestone_init ::
  "(string \<Rightarrow> string option) \<Rightarrow> DependencyManifest \<Rightarrow> string \<Rightarrow> (FirestoneError, DependencyArtifact) result" where
  "firestone_init scheme manifest architecture =
     and_then (map_err (\<lambda>_. with_hint
          ''regenerate deps.toml with scripts/pin-deps.sh refresh --arch all before packing an OCI image''
          (error_new Dependency (''pinned firestone-init metadata is unavailable for '' @ architecture)))
        (artifact scheme manifest FIRESTONE_INIT_DEPENDENCY architecture)) (\<lambda>a.
       if executable a
       then Inl (with_hint ''publish the guest init as a mode-0644 dependency artifact''
              (error_new Dependency ''pinned firestone-init is classified as an executable payload''))
       else Inr a)"

section \<open>What a resolved artifact guarantees\<close>

lemma validate_install_name_plain:
  assumes "validate_install_name dependency n = Inr u"
  shows "plain_name n"
proof -
  have n: "n \<noteq> []" "CHR ''/'' \<notin> set n" "n \<noteq> ''.''" "n \<noteq> ''..''"
    using assms by (auto simp: validate_install_name_def Let_def)
  then show ?thesis by (simp add: plain_name_def)
qed

lemma lower_hex_lowercase: "list_all is_lower_hex_digit s \<Longrightarrow> map to_ascii_lowercase s = s"
  by (induction s) (auto simp: is_lower_hex_digit_def to_ascii_lowercase_def is_ascii_uppercase_def is_ascii_digit_def Let_def)

lemma artifact_safe:
  assumes "artifact scheme manifest dependency architecture = Inr a"
  shows "da_dependency a = dependency" and "plain_name (da_install_name a)" and "scheme (da_url a) = Some ''https''"
    and "length (da_sha256 a) = 64 \<and> list_all is_lower_hex_digit (da_sha256 a)"
  using assms unfolding artifact_def
  by (auto simp: and_then_Inr_iff validate_install_name_plain validate_url_def validate_sha256_def lower_hex_lowercase)

lemma artifacts_of_sound:
  assumes "artifacts_of scheme manifest architecture es found = Inr out"
    and "\<forall>n b. map_of found n = Some b \<longrightarrow> artifact scheme manifest n architecture = Inr b" and "btree_wf found"
  shows "(\<forall>n b. map_of out n = Some b \<longrightarrow> artifact scheme manifest n architecture = Inr b) \<and> btree_wf out
     \<and> fst ` set out = fst ` set found \<union> {n. \<exists>e. (n, e) \<in> set es \<and> supports_architecture e architecture}"
  using assms
proof (induction es arbitrary: found)
  case (Cons x es)
  obtain n e where x: "x = (n, e)" by (cases x)
  show ?case
  proof (cases "supports_architecture e architecture")
    case True
    then obtain a where a: "artifact scheme manifest n architecture = Inr a"
      "artifacts_of scheme manifest architecture es (btree_insert n a found) = Inr out"
      using Cons.prems(1) by (auto simp: x and_then_Inr_iff)
    have "\<forall>m b. map_of (btree_insert n a found) m = Some b \<longrightarrow> artifact scheme manifest m architecture = Inr b"
      using a(1) Cons.prems(2) by simp
    from Cons.IH [OF a(2) this btree_insert_wf [OF Cons.prems(3)]]
    have IH: "\<forall>n b. map_of out n = Some b \<longrightarrow> artifact scheme manifest n architecture = Inr b" "btree_wf out"
      "fst ` set out = insert n (fst ` set found) \<union> {n. \<exists>e. (n, e) \<in> set es \<and> supports_architecture e architecture}"
      unfolding fst_btree_insert by blast+
    have "fst ` set out = fst ` set found \<union> {n. \<exists>e. (n, e) \<in> set (x # es) \<and> supports_architecture e architecture}"
      unfolding IH(3) using True by (auto simp: x)
    then show ?thesis using IH(1,2) by blast
  next
    case False
    then have "artifacts_of scheme manifest architecture es found = Inr out" using Cons.prems(1) by (simp add: x)
    note IH = Cons.IH [OF this Cons.prems(2,3)]
    moreover have "{n. \<exists>e. (n, e) \<in> set (x # es) \<and> supports_architecture e architecture}
        = {n. \<exists>e. (n, e) \<in> set es \<and> supports_architecture e architecture}"
      using False by (auto simp: x)
    ultimately show ?thesis by simp
  qed
qed simp

text \<open>
  C28. Every helper or payload the manifest resolves can be installed and fetched safely: its
  file name is one plain component, so it stays in the directory it is joined to; its location
  is an HTTPS URL; its digest is 64 lower-case hexadecimal digits. The set resolved for an
  architecture is exactly the entries in that architecture's scope.
\<close>

theorem resolved_artifacts_safe:
  assumes "artifacts scheme manifest architecture = Inr found"
  shows "fst ` set found = {n. \<exists>e. (n, e) \<in> set (dependencies manifest) \<and> supports_architecture e architecture}
     \<and> (\<forall>n a. map_of found n = Some a \<longrightarrow>
          components (path_join dir (da_install_name a)) = components dir @ [NormalC (da_install_name a)]
          \<and> scheme (da_url a) = Some ''https''
          \<and> length (da_sha256 a) = 64 \<and> list_all is_lower_hex_digit (da_sha256 a)
          \<and> (expected_mode a = 493 \<longleftrightarrow> executable a))"
proof -
  have s: "(\<forall>n b. map_of found n = Some b \<longrightarrow> artifact scheme manifest n architecture = Inr b)"
    "fst ` set found = {n. \<exists>e. (n, e) \<in> set (dependencies manifest) \<and> supports_architecture e architecture}"
    using artifacts_of_sound [of scheme manifest architecture "dependencies manifest" "[]" found] assms
    by (auto simp: artifacts_def)
  show ?thesis
  proof (intro conjI allI impI)
    fix n a assume "map_of found n = Some a"
    then have a: "artifact scheme manifest n architecture = Inr a" using s(1) by blast
    note safe = artifact_safe [OF a]
    show "components (path_join dir (da_install_name a)) = components dir @ [NormalC (da_install_name a)]"
      using safe(2) by (rule components_join)
    show "scheme (da_url a) = Some ''https''" by (fact safe(3))
    show "length (da_sha256 a) = 64" "list_all is_lower_hex_digit (da_sha256 a)" using safe(4) by blast+
    show "(expected_mode a = 493) = executable a" by (simp add: expected_mode_def)
  qed (fact s(2))
qed

definition demo_manifest :: DependencyManifest where
  "demo_manifest = \<lparr>manifest_version = 1, dependencies = [(''passt'',
     \<lparr>de_version = ''1'', de_availability = ''binary'', de_reason = None, de_architectures = None,
      de_fields = [(''x86_64'', Inr \<lparr>raw_asset = ''passt'', raw_install_name = ''passt'', raw_url = ''https://h/p'',
        raw_sha256 = replicate 64 (CHR ''a'')\<rparr>)]\<rparr>)]\<rparr>"

theorem resolved_artifacts_safe_witness:
  "\<exists>found. artifacts (\<lambda>_. Some ''https'') demo_manifest ''x86_64'' = Inr found \<and> fst ` set found = {''passt''}"
proof -
  have "is_ok (artifacts (\<lambda>_. Some ''https'') demo_manifest ''x86_64'')" by code_simp
  then obtain found where f: "artifacts (\<lambda>_. Some ''https'') demo_manifest ''x86_64'' = Inr found" by (auto simp: is_ok_iff)
  from resolved_artifacts_safe [OF f] f show ?thesis by (auto simp: demo_manifest_def supports_architecture_def)
qed

end
