(* ===== verification/Helpers.thy ===== *)
theory Helpers
  imports Deps
begin

text \<open>
  Installation of helper binaries and boot payloads in the data directory,
  \<^verbatim>\<open>firestone-core/src/embedded_helpers.rs\<close>. The regular files are a map from paths to nodes that
  every operation returns updated; \<open>stat\<close> answers for the directories; the SHA-256 digest in hex
  is an argument, and so is \<open>failing\<close>, which names the system call that fails, if any, by the
  operation its error message reports. What other processes do to the files while a publication
  runs is the pair of functions \<open>meanwhile\<close> and \<open>afterwards\<close>, arbitrary in every theorem that
  does not say otherwise.
\<close>

section \<open>Identities\<close>

definition HELPER_LOCK_NAME :: string where "HELPER_LOCK_NAME = ''.embedded-helpers.lock''"

text \<open>0o755 and 0o600.\<close>

definition EXECUTABLE_MODE :: u32 where "EXECUTABLE_MODE = 0x1ED"
definition LOCK_MODE :: u32 where "LOCK_MODE = 0x180"

datatype ArtifactOrigin = OriginEmbedded | OriginPinned

fun adjective :: "ArtifactOrigin \<Rightarrow> string" where
  "adjective OriginEmbedded = ''embedded''"
| "adjective OriginPinned = ''pinned''"

fun mismatch_hint :: "ArtifactOrigin \<Rightarrow> string" where
  "mismatch_hint OriginEmbedded = ''remove the named file and retry with an intact Firestone release''"
| "mismatch_hint OriginPinned = ''remove the named file and retry from a trusted network''"

record ArtifactIdentity =
  ai_dependency :: string
  ai_install_name :: string
  ai_sha256 :: string
  ai_mode :: u32
  ai_expected_length :: "u64 option"
  ai_origin :: ArtifactOrigin

datatype InternalHelper = CloudHypervisor | HelperPasst | QemuImg | FirestoneInit

fun helper_dependency :: "InternalHelper \<Rightarrow> string" where
  "helper_dependency CloudHypervisor = ''cloud-hypervisor''"
| "helper_dependency HelperPasst = ''passt''"
| "helper_dependency QemuImg = ''qemu-img''"
| "helper_dependency FirestoneInit = ''firestone-init''"

definition system_program :: "InternalHelper \<Rightarrow> string" where
  "system_program helper = helper_dependency helper"

record EmbeddedHelper =
  eh_kind :: InternalHelper
  eh_version :: string
  eh_install_name :: string
  eh_sha256 :: string
  eh_bytes :: "u8 list"

definition identity_embedded :: "EmbeddedHelper \<Rightarrow> ArtifactIdentity" where
  "identity_embedded helper =
     \<lparr>ai_dependency = helper_dependency (eh_kind helper), ai_install_name = eh_install_name helper,
      ai_sha256 = eh_sha256 helper, ai_mode = EXECUTABLE_MODE,
      ai_expected_length = Some (of_nat (length (eh_bytes helper))), ai_origin = OriginEmbedded\<rparr>"

definition identity_pinned :: "DependencyArtifact \<Rightarrow> ArtifactIdentity" where
  "identity_pinned a =
     \<lparr>ai_dependency = da_dependency a, ai_install_name = da_install_name a, ai_sha256 = da_sha256 a,
      ai_mode = expected_mode a, ai_expected_length = None, ai_origin = OriginPinned\<rparr>"

section \<open>Files\<close>

record FileNode =
  fn_meta :: Metadata
  fn_bytes :: "u8 list"

type_synonym files = "string \<rightharpoonup> FileNode"

type_synonym failures = "string \<Rightarrow> IoError option"

definition io_step :: "failures \<Rightarrow> string \<Rightarrow> (IoError \<Rightarrow> FirestoneError) \<Rightarrow> (FirestoneError, unit) result" where
  "io_step failing operation e = (case failing operation of None \<Rightarrow> Inr () | Some source \<Rightarrow> Inl (e source))"

text \<open>Opening for reading with \<open>O_NOFOLLOW\<close>: the last component is not followed.\<close>

definition open_nofollow :: "failures \<Rightarrow> string \<Rightarrow> files \<Rightarrow> string \<Rightarrow> (IoError, FileNode) result" where
  "open_nofollow failing operation files path =
     (case files path of
        None \<Rightarrow> Inl \<lparr>io_kind = IoNotFound, io_text = ''No such file or directory''\<rparr>
      | Some node \<Rightarrow>
          if md_kind (fn_meta node) = FileSymlink
          then Inl \<lparr>io_kind = IoOther, io_text = ''Too many levels of symbolic links''\<rparr>
          else case failing operation of None \<Rightarrow> Inr node | Some source \<Rightarrow> Inl source)"

definition artifact_io_error :: "ArtifactIdentity \<Rightarrow> string \<Rightarrow> string \<Rightarrow> IoError \<Rightarrow> FirestoneError" where
  "artifact_io_error identity operation path source =
     with_hint ''check the Firestone data directory permissions and free space''
       (error_new Dependency (''cannot '' @ operation @ '' for '' @ adjective (ai_origin identity) @ '' ''
          @ quoted (ai_dependency identity) @ '' at '' @ path))"

definition lock_io_error :: "string \<Rightarrow> string \<Rightarrow> IoError \<Rightarrow> FirestoneError" where
  "lock_io_error operation path source =
     with_hint ''check the Firestone binary directory permissions''
       (error_new Dependency (''cannot '' @ operation @ '' embedded helper lock '' @ path))"

definition validate_owned_data_file_handle ::
  "stat_fn \<Rightarrow> Paths \<Rightarrow> string \<Rightarrow> string \<Rightarrow> u32 \<Rightarrow> Metadata \<Rightarrow> (FirestoneError, unit) result" where
  "validate_owned_data_file_handle stat paths path label mode metadata =
     and_then
       (ok_or (with_hint ''use a file below the Firestone data directory''
           (error_new Dependency (label @ '' '' @ quoted path @ '' has no parent directory'')))
         (path_parent path)) (\<lambda>parent.
     and_then (validate_owned_data_directory stat paths parent (label @ '' parent'') False) (\<lambda>_.
     if md_kind metadata \<noteq> FileRegular
     then Inl (with_hint ''replace the special file with a regular Firestone-owned file''
            (error_new Dependency (label @ '' '' @ quoted path @ '' is not a regular owned file'')))
     else if md_uid metadata \<noteq> p_runtime_uid paths \<or> permissions metadata \<noteq> mode
     then Inl (with_hint ''replace the file with one owned and protected by the Firestone user''
            (error_new Dependency
              (label @ '' '' @ quoted path @ '' is insecure: expected uid ''
                @ show_nat (unat (p_runtime_uid paths)) @ '' and mode '' @ show_octal4 mode
                @ '', '' @ found_uid_mode metadata)))
     else Inr ()))"

section \<open>Inspection\<close>

datatype InstalledState = Absent | Matches | Superseded string

definition handle_label :: "ArtifactIdentity \<Rightarrow> string" where
  "handle_label identity = adjective (ai_origin identity) @ '' '' @ ai_dependency identity"

definition length_mismatch :: "ArtifactIdentity \<Rightarrow> u64 \<Rightarrow> string option" where
  "length_mismatch identity len =
     (case ai_expected_length identity of
        None \<Rightarrow> None
      | Some expected_length \<Rightarrow>
          if len \<noteq> expected_length
          then Some (''has length '' @ show_nat (unat len) @ ''; expected '' @ show_nat (unat expected_length))
          else None)"

definition inspect_installed ::
  "(u8 list \<Rightarrow> string) \<Rightarrow> failures \<Rightarrow> stat_fn \<Rightarrow> Paths \<Rightarrow> files \<Rightarrow> string \<Rightarrow> ArtifactIdentity
   \<Rightarrow> (FirestoneError, InstalledState) result" where
  "inspect_installed sha256 failing stat paths files destination identity =
     (case open_nofollow failing ''open installed file'' files destination of
        Inl source \<Rightarrow>
          if io_kind source = IoNotFound then Inr Absent
          else Inl (artifact_io_error identity ''open installed file'' destination source)
      | Inr node \<Rightarrow>
          and_then (validate_owned_data_file_handle stat paths destination (handle_label identity)
            (ai_mode identity) (fn_meta node)) (\<lambda>_.
          and_then (io_step failing ''inspect installed file''
            (artifact_io_error identity ''inspect installed file'' destination)) (\<lambda>_.
          case length_mismatch identity (of_nat (length (fn_bytes node))) of
            Some reason \<Rightarrow> Inr (Superseded reason)
          | None \<Rightarrow>
              and_then (io_step failing ''hash installed file''
                (artifact_io_error identity ''hash installed file'' destination)) (\<lambda>_.
              if sha256 (fn_bytes node) \<noteq> ai_sha256 identity
              then Inr (Superseded (''has checksum '' @ sha256 (fn_bytes node) @ ''; expected ''
                     @ ai_sha256 identity))
              else Inr Matches))))"

definition verify_installed ::
  "(u8 list \<Rightarrow> string) \<Rightarrow> failures \<Rightarrow> stat_fn \<Rightarrow> Paths \<Rightarrow> files \<Rightarrow> string \<Rightarrow> ArtifactIdentity
   \<Rightarrow> (FirestoneError, bool) result" where
  "verify_installed sha256 failing stat paths files destination identity =
     and_then (inspect_installed sha256 failing stat paths files destination identity) (\<lambda>installed.
       case installed of
         Matches \<Rightarrow> Inr True
       | Absent \<Rightarrow> Inr False
       | Superseded reason \<Rightarrow>
           Inl (with_hint (mismatch_hint (ai_origin identity))
             (error_new Checksum (adjective (ai_origin identity) @ '' '' @ quoted (ai_dependency identity)
                @ '' at '' @ destination @ '' '' @ reason))))"

definition verified_pinned_artifact ::
  "(string \<Rightarrow> string) \<Rightarrow> (u8 list \<Rightarrow> string) \<Rightarrow> failures \<Rightarrow> stat_fn \<Rightarrow> Paths \<Rightarrow> files \<Rightarrow> DependencyArtifact
   \<Rightarrow> (FirestoneError, string) result" where
  "verified_pinned_artifact dbg sha256 failing stat paths files a =
     and_then (validate_bin_data_directory stat paths) (\<lambda>_.
     let identity = identity_pinned a
     in and_then (binary_file dbg paths (ai_install_name identity)) (\<lambda>destination.
        and_then (verify_installed sha256 failing stat paths files destination identity) (\<lambda>present.
        if present then Inr destination
        else Inl (with_hint ''retry start so Firestone can install the selected pinned firmware''
               (error_new Dependency (''pinned '' @ quoted (ai_dependency identity) @ '' is unavailable at ''
                  @ destination))))))"

section \<open>Publication\<close>

definition acquire_helper_lock ::
  "(string \<Rightarrow> string) \<Rightarrow> failures \<Rightarrow> stat_fn \<Rightarrow> Paths \<Rightarrow> files \<Rightarrow> (FirestoneError, unit) result \<times> files" where
  "acquire_helper_lock dbg failing stat paths files =
     (case binary_file dbg paths HELPER_LOCK_NAME of
        Inl e \<Rightarrow> (Inl e, files)
      | Inr lock_path \<Rightarrow>
          let lock_error = (\<lambda>operation. lock_io_error operation lock_path);
              locked = (\<lambda>node.
                and_then (validate_owned_data_file_handle stat paths lock_path ''embedded helper lock'' LOCK_MODE
                  (fn_meta node)) (\<lambda>_. io_step failing ''acquire'' (lock_error ''acquire'')))
          in case files lock_path of
               None \<Rightarrow>
                 (case failing ''create'' of
                    Some source \<Rightarrow> (Inl (lock_error ''create'' source), files)
                  | None \<Rightarrow>
                      let node = \<lparr>fn_meta = \<lparr>md_kind = FileRegular, md_uid = p_runtime_uid paths,
                                    md_mode = LOCK_MODE\<rparr>, fn_bytes = []\<rparr>
                      in (and_then (io_step failing ''set mode'' (lock_error ''set mode'')) (\<lambda>_.
                          and_then (io_step failing ''sync'' (lock_error ''sync'')) (\<lambda>_.
                          and_then (io_step failing ''sync parent of'' (lock_error ''sync parent of'')) (\<lambda>_.
                          locked node))), files(lock_path \<mapsto> node)))
             | Some node \<Rightarrow>
                 (and_then (map_err (lock_error ''open'') (open_nofollow failing ''open'' files lock_path)) locked,
                  files))"

definition publish_partial ::
  "failures \<Rightarrow> ArtifactIdentity \<Rightarrow> InstalledState \<Rightarrow> string \<Rightarrow> FileNode \<Rightarrow> files
   \<Rightarrow> (FirestoneError, unit) result \<times> files" where
  "publish_partial failing identity installed destination partial files =
     (let io = (\<lambda>operation. io_step failing operation (artifact_io_error identity operation destination))
      in case installed of
           Superseded _ \<Rightarrow>
             (case io ''replace superseded file'' of
                Inl e \<Rightarrow> (Inl e, files)
              | Inr _ \<Rightarrow> (io ''sync published file'', files(destination \<mapsto> partial)))
         | _ \<Rightarrow>
             if files destination \<noteq> None then (Inr (), files)
             else (case io ''publish partial file'' of
                     Inl e \<Rightarrow> (Inl e, files)
                   | Inr _ \<Rightarrow> (io ''sync published file'', files(destination \<mapsto> partial))))"

definition write_partial ::
  "(u8 list \<Rightarrow> string) \<Rightarrow> failures \<Rightarrow> Paths \<Rightarrow> ArtifactIdentity \<Rightarrow> (FirestoneError, u8 list) result
   \<Rightarrow> string \<Rightarrow> (FirestoneError, FileNode) result" where
  "write_partial sha256 failing paths identity write_source partial_path =
     (let io = (\<lambda>operation. io_step failing operation (artifact_io_error identity operation partial_path))
      in and_then (io_step failing ''create partial file''
           (artifact_io_error identity ''create partial file'' (bin_dir paths))) (\<lambda>_.
         and_then write_source (\<lambda>bytes.
         and_then (io ''flush partial file'') (\<lambda>_.
         and_then (io ''set partial mode'') (\<lambda>_.
         and_then (io ''sync partial file'') (\<lambda>_.
         and_then (io ''rewind partial file'') (\<lambda>_.
         and_then (io ''hash partial file'') (\<lambda>_.
         if sha256 bytes \<noteq> ai_sha256 identity
         then Inl (with_hint (mismatch_hint (ai_origin identity))
                (error_new Checksum (adjective (ai_origin identity) @ '' '' @ quoted (ai_dependency identity)
                   @ '' partial checksum mismatch: expected '' @ ai_sha256 identity @ '', got '' @ sha256 bytes)))
         else Inr \<lparr>fn_meta = \<lparr>md_kind = FileRegular, md_uid = p_runtime_uid paths, md_mode = ai_mode identity\<rparr>,
                   fn_bytes = bytes\<rparr>))))))))"

record Meanwhile =
  meanwhile :: "files \<Rightarrow> files"
  afterwards :: "files \<Rightarrow> files"

definition publish_and_verify ::
  "(u8 list \<Rightarrow> string) \<Rightarrow> failures \<Rightarrow> stat_fn \<Rightarrow> Paths \<Rightarrow> Meanwhile \<Rightarrow> ArtifactIdentity \<Rightarrow> InstalledState
   \<Rightarrow> string \<Rightarrow> FileNode \<Rightarrow> files \<Rightarrow> (FirestoneError, string) result \<times> files" where
  "publish_and_verify sha256 failing stat paths others identity installed destination partial files =
     (case publish_partial failing identity installed destination partial files of
        (Inl e, files) \<Rightarrow> (Inl e, files)
      | (Inr _, files) \<Rightarrow>
          let files = afterwards others files
          in (and_then (io_step failing ''sync binary directory''
                (artifact_io_error identity ''sync binary directory'' (bin_dir paths))) (\<lambda>_.
              and_then (verify_installed sha256 failing stat paths files destination identity) (\<lambda>present.
              if present then Inr destination
              else Inl (with_hint ''check the Firestone data directory permissions and free space''
                     (error_new Dependency (adjective (ai_origin identity) @ '' ''
                        @ quoted (ai_dependency identity) @ '' was not present after publication at ''
                        @ destination))))), files))"

text \<open>\<open>ensured\<close> is what creating the binary directory returned, \<open>partial_path\<close> the name of the partial file.\<close>

definition materialize_with ::
  "(string \<Rightarrow> string) \<Rightarrow> (u8 list \<Rightarrow> string) \<Rightarrow> failures \<Rightarrow> stat_fn \<Rightarrow> Paths \<Rightarrow> Meanwhile
   \<Rightarrow> (FirestoneError, unit) result \<Rightarrow> string \<Rightarrow> ArtifactIdentity \<Rightarrow> (FirestoneError, u8 list) result \<Rightarrow> files
   \<Rightarrow> (FirestoneError, string) result \<times> files" where
  "materialize_with dbg sha256 failing stat paths others ensured partial_path identity write_source files =
     (case and_then ensured (\<lambda>_. validate_bin_data_directory stat paths) of
        Inl e \<Rightarrow> (Inl e, files)
      | Inr _ \<Rightarrow>
          (case acquire_helper_lock dbg failing stat paths files of
             (Inl e, files) \<Rightarrow> (Inl e, files)
           | (Inr _, files) \<Rightarrow>
               (case and_then (validate_bin_data_directory stat paths) (\<lambda>_.
                       binary_file dbg paths (ai_install_name identity)) of
                  Inl e \<Rightarrow> (Inl e, files)
                | Inr destination \<Rightarrow>
                    (case inspect_installed sha256 failing stat paths files destination identity of
                       Inl e \<Rightarrow> (Inl e, files)
                     | Inr Matches \<Rightarrow> (Inr destination, files)
                     | Inr installed \<Rightarrow>
                         let files = meanwhile others files
                         in case write_partial sha256 failing paths identity write_source partial_path of
                              Inl e \<Rightarrow> (Inl e, files)
                            | Inr partial \<Rightarrow>
                                publish_and_verify sha256 failing stat paths others identity installed destination
                                  partial files))))"

definition install_pinned_artifact_with ::
  "(string \<Rightarrow> string) \<Rightarrow> (u8 list \<Rightarrow> string) \<Rightarrow> failures \<Rightarrow> stat_fn \<Rightarrow> Paths \<Rightarrow> Meanwhile
   \<Rightarrow> (FirestoneError, unit) result \<Rightarrow> string \<Rightarrow> DependencyArtifact \<Rightarrow> (FirestoneError, u8 list) result \<Rightarrow> files
   \<Rightarrow> (FirestoneError, string) result \<times> files" where
  "install_pinned_artifact_with dbg sha256 failing stat paths others ensured partial_path a write_source files =
     materialize_with dbg sha256 failing stat paths others ensured partial_path (identity_pinned a) write_source files"

definition verify_payload :: "(u8 list \<Rightarrow> string) \<Rightarrow> EmbeddedHelper \<Rightarrow> (FirestoneError, unit) result" where
  "verify_payload sha256 helper =
     ensure (sha256 (eh_bytes helper) = eh_sha256 helper)
       (with_hint ''replace the Firestone executable with an intact signed release''
         (error_new Checksum (''embedded `'' @ helper_dependency (eh_kind helper)
            @ ''` checksum mismatch: expected '' @ eh_sha256 helper @ '', got '' @ sha256 (eh_bytes helper))))"

definition materialize ::
  "(string \<Rightarrow> string) \<Rightarrow> (u8 list \<Rightarrow> string) \<Rightarrow> failures \<Rightarrow> stat_fn \<Rightarrow> Paths \<Rightarrow> Meanwhile
   \<Rightarrow> (FirestoneError, unit) result \<Rightarrow> string \<Rightarrow> EmbeddedHelper \<Rightarrow> files
   \<Rightarrow> (FirestoneError, string) result \<times> files" where
  "materialize dbg sha256 failing stat paths others ensured partial_path helper files =
     (case verify_payload sha256 helper of
        Inl e \<Rightarrow> (Inl e, files)
      | Inr _ \<Rightarrow>
          let identity = identity_embedded helper
          in materialize_with dbg sha256 failing stat paths others ensured partial_path identity
               (and_then (io_step failing ''write partial file''
                  (artifact_io_error identity ''write partial file'' (bin_dir paths))) (\<lambda>_. Inr (eh_bytes helper)))
               files)"

text \<open>\<open>embedded\<close> is the payload the build selected for the helper, if any.\<close>

definition materialize_embedded_helper ::
  "(string \<Rightarrow> string) \<Rightarrow> (u8 list \<Rightarrow> string) \<Rightarrow> failures \<Rightarrow> stat_fn \<Rightarrow> Paths \<Rightarrow> Meanwhile
   \<Rightarrow> (FirestoneError, unit) result \<Rightarrow> string \<Rightarrow> (InternalHelper \<Rightarrow> EmbeddedHelper option) \<Rightarrow> InternalHelper \<Rightarrow> files
   \<Rightarrow> (FirestoneError, string option) result \<times> files" where
  "materialize_embedded_helper dbg sha256 failing stat paths others ensured partial_path embedded k files =
     (case embedded k of
        None \<Rightarrow> (Inr None, files)
      | Some helper \<Rightarrow>
          (case materialize dbg sha256 failing stat paths others ensured partial_path helper files of
             (r, files) \<Rightarrow> (and_then r (\<lambda>p. Inr (Some p)), files)))"

section \<open>The guest init payload\<close>

definition read_pinned_payload ::
  "(u8 list \<Rightarrow> string) \<Rightarrow> failures \<Rightarrow> stat_fn \<Rightarrow> Paths \<Rightarrow> files \<Rightarrow> string \<Rightarrow> DependencyArtifact
   \<Rightarrow> (FirestoneError, u8 list) result" where
  "read_pinned_payload sha256 failing stat paths files destination a =
     (let identity = identity_pinned a
      in and_then (map_err (artifact_io_error identity ''open installed file'' destination)
           (open_nofollow failing ''open installed file'' files destination)) (\<lambda>node.
         and_then (validate_owned_data_file_handle stat paths destination (handle_label identity)
           (ai_mode identity) (fn_meta node)) (\<lambda>_.
         and_then (io_step failing ''read installed file''
           (artifact_io_error identity ''read installed file'' destination)) (\<lambda>_.
         if sha256 (fn_bytes node) \<noteq> ai_sha256 identity
         then Inl (with_hint (mismatch_hint (ai_origin identity))
                (error_new Checksum (''pinned '' @ quoted (ai_dependency identity) @ '' at '' @ destination
                   @ '' has checksum '' @ sha256 (fn_bytes node) @ ''; expected '' @ ai_sha256 identity)))
         else Inr (fn_bytes node)))))"

text \<open>\<open>installer\<close> is the publisher the caller passes; it returns the files as it left them.\<close>

definition resolve_firestone_init_payload ::
  "(string \<Rightarrow> string option) \<Rightarrow> (u8 list \<Rightarrow> string) \<Rightarrow> failures \<Rightarrow> stat_fn \<Rightarrow> EmbeddedHelper option \<Rightarrow> Paths
   \<Rightarrow> DependencyManifest \<Rightarrow> string \<Rightarrow> (DependencyArtifact \<Rightarrow> files \<Rightarrow> (FirestoneError, string) result \<times> files)
   \<Rightarrow> files \<Rightarrow> (FirestoneError, u8 list) result \<times> files" where
  "resolve_firestone_init_payload scheme sha256 failing stat embedded paths manifest architecture installer files =
     (case embedded of
        Some helper \<Rightarrow> (and_then (verify_payload sha256 helper) (\<lambda>_. Inr (eh_bytes helper)), files)
      | None \<Rightarrow>
          (case firestone_init scheme manifest architecture of
             Inl e \<Rightarrow>
               (Inl (with_hint (''OCI machines need the guest init: use an x86_64 standalone release, or build the ''
                    @ ''`firestone-init` release asset and pin it in deps.toml'')
                  (error_new Dependency ''this build carries no embedded firestone-init payload'')), files)
           | Inr a \<Rightarrow>
               (case installer a files of
                  (Inl e, files) \<Rightarrow>
                    (Inl (with_hint (''a build without an embedded payload downloads the guest init once, on first ''
                         @ ''OCI use: retry with network access to the pinned release, or use an x86_64 ''
                         @ ''standalone release that embeds it'')
                       (error_new (kind e) (''cannot obtain the pinned firestone-init '' @ da_version a
                          @ '' payload for '' @ architecture))), files)
                | (Inr installed, files) \<Rightarrow>
                    (read_pinned_payload sha256 failing stat paths files installed a, files))))"

definition firestone_init_payload ::
  "(string \<Rightarrow> string option) \<Rightarrow> (u8 list \<Rightarrow> string) \<Rightarrow> failures \<Rightarrow> stat_fn \<Rightarrow> (InternalHelper \<Rightarrow> EmbeddedHelper option)
   \<Rightarrow> Paths \<Rightarrow> DependencyManifest \<Rightarrow> string
   \<Rightarrow> (DependencyArtifact \<Rightarrow> files \<Rightarrow> (FirestoneError, string) result \<times> files)
   \<Rightarrow> files \<Rightarrow> (FirestoneError, u8 list) result \<times> files" where
  "firestone_init_payload scheme sha256 failing stat embedded paths manifest architecture installer files =
     resolve_firestone_init_payload scheme sha256 failing stat (embedded FirestoneInit) paths manifest architecture
       installer files"

section \<open>What an installed file satisfies\<close>

text \<open>The node of an artifact as a publication leaves it: owned, of the exact mode, length and digest.\<close>

definition installed_ok :: "(u8 list \<Rightarrow> string) \<Rightarrow> Paths \<Rightarrow> ArtifactIdentity \<Rightarrow> FileNode \<Rightarrow> bool" where
  "installed_ok sha256 paths identity node \<longleftrightarrow>
     md_kind (fn_meta node) = FileRegular \<and> md_uid (fn_meta node) = p_runtime_uid paths
     \<and> permissions (fn_meta node) = ai_mode identity
     \<and> length_mismatch identity (of_nat (length (fn_bytes node))) = None
     \<and> sha256 (fn_bytes node) = ai_sha256 identity"

lemma handle_accepts_iff:
  "validate_owned_data_file_handle stat paths path label mode metadata = Inr u \<longleftrightarrow>
     (\<exists>parent. path_parent path = Some parent
        \<and> validate_owned_data_directory stat paths parent (label @ '' parent'') False = Inr ())
     \<and> md_kind metadata = FileRegular \<and> md_uid metadata = p_runtime_uid paths \<and> permissions metadata = mode"
  by (auto simp: validate_owned_data_file_handle_def and_then_Inr_iff)

lemma inspect_Matches:
  assumes "inspect_installed sha256 failing stat paths files destination identity = Inr Matches"
  shows "\<exists>node. files destination = Some node \<and> installed_ok sha256 paths identity node"
  using assms unfolding inspect_installed_def installed_ok_def open_nofollow_def
  by (auto simp: and_then_Inr_iff handle_accepts_iff split: option.splits if_splits)

lemma verify_present:
  assumes "verify_installed sha256 failing stat paths files destination identity = Inr True"
  shows "\<exists>node. files destination = Some node \<and> installed_ok sha256 paths identity node"
proof -
  from assms obtain installed where
    i: "inspect_installed sha256 failing stat paths files destination identity = Inr installed"
    and "(case installed of Matches \<Rightarrow> Inr True | Absent \<Rightarrow> Inr False | Superseded reason \<Rightarrow>
       Inl (with_hint (mismatch_hint (ai_origin identity)) (error_new Checksum (adjective (ai_origin identity) @ '' ''
         @ quoted (ai_dependency identity) @ '' at '' @ destination @ '' '' @ reason)))) = Inr True"
    unfolding verify_installed_def and_then_Inr_iff by blast
  then have "installed = Matches" by (cases installed) simp_all
  then show ?thesis using i inspect_Matches by blast
qed

lemma publish_and_verify_present:
  assumes "publish_and_verify sha256 failing stat paths others identity installed destination partial files = (Inr p, files')"
  shows "p = destination \<and> (\<exists>node. files' p = Some node \<and> installed_ok sha256 paths identity node)"
  using assms unfolding publish_and_verify_def
  by (auto simp: and_then_Inr_iff Let_def split: prod.splits sum.splits if_splits dest: verify_present)

lemma publish_partial_changes:
  assumes "publish_partial failing identity installed destination partial files = (r, files')"
  shows "files' = files \<or> files' = files(destination \<mapsto> partial)"
  using assms unfolding publish_partial_def
  by (auto simp: Let_def split: InstalledState.splits sum.splits if_splits)

lemma write_partial_verified:
  assumes "write_partial sha256 failing paths identity write_source partial_path = Inr partial"
  shows "sha256 (fn_bytes partial) = ai_sha256 identity" and "write_source = Inr (fn_bytes partial)"
    and "fn_meta partial = \<lparr>md_kind = FileRegular, md_uid = p_runtime_uid paths, md_mode = ai_mode identity\<rparr>"
  using assms unfolding write_partial_def by (auto simp: Let_def and_then_Inr_iff split: if_splits)

lemma acquire_lock_changes:
  assumes "acquire_helper_lock dbg failing stat paths files = (r, files')"
    and "binary_file dbg paths HELPER_LOCK_NAME \<noteq> Inr p"
  shows "files' p = files p"
  using assms unfolding acquire_helper_lock_def
  by (auto simp: Let_def split: sum.splits option.splits)

text \<open>The cases of a publication, shared by the properties below.\<close>

lemma materialize_with_cases:
  assumes "materialize_with dbg sha256 failing stat paths others ensured partial_path identity write_source files
             = (r, files')"
  obtains (early) e where "r = Inl e" "files' = files"
    | (locked) lr locked where "acquire_helper_lock dbg failing stat paths files = (lr, locked)" "files' = locked"
        "\<And>p. r = Inr p \<Longrightarrow> binary_file dbg paths (ai_install_name identity) = Inr p
            \<and> inspect_installed sha256 failing stat paths locked p identity = Inr Matches"
    | (rejected) lr locked e where "acquire_helper_lock dbg failing stat paths files = (lr, locked)"
        "r = Inl e" "files' = meanwhile others locked"
    | (published) lr locked destination installed partial where
        "acquire_helper_lock dbg failing stat paths files = (lr, locked)"
        "binary_file dbg paths (ai_install_name identity) = Inr destination"
        "write_partial sha256 failing paths identity write_source partial_path = Inr partial"
        "publish_and_verify sha256 failing stat paths others identity installed destination partial
           (meanwhile others locked) = (r, files')"
proof (cases "and_then ensured (\<lambda>_. validate_bin_data_directory stat paths)")
  case (Inl e)
  then show ?thesis using assms early [of e] by (auto simp: materialize_with_def)
next
  case ok: (Inr u)
  obtain lr locked where l: "acquire_helper_lock dbg failing stat paths files = (lr, locked)" by fastforce
  show ?thesis
  proof (cases lr)
    case (Inl e)
    then have "r = Inl e" "files' = locked" using assms ok l by (simp_all add: materialize_with_def)
    then show ?thesis by (intro locked [OF l]) simp_all
  next
    case (Inr v)
    note lock = l Inr
    show ?thesis
    proof (cases "and_then (validate_bin_data_directory stat paths) (\<lambda>_. binary_file dbg paths (ai_install_name identity))")
      case (Inl e)
      then have "r = Inl e" "files' = locked" using assms ok lock by (simp_all add: materialize_with_def)
      then show ?thesis by (intro locked [OF l]) simp_all
    next
      case dest: (Inr destination)
      then have bin: "binary_file dbg paths (ai_install_name identity) = Inr destination"
        by (simp add: and_then_Inr_iff)
      show ?thesis
      proof (cases "inspect_installed sha256 failing stat paths locked destination identity")
        case (Inl e)
        then have "r = Inl e" "files' = locked" using assms ok lock dest by (simp_all add: materialize_with_def)
        then show ?thesis by (intro locked [OF l]) simp_all
      next
        case (Inr installed)
        show ?thesis
        proof (cases "installed = Matches")
          case True
          then have "r = Inr destination" "files' = locked" using assms ok lock dest Inr by (simp_all add: materialize_with_def)
          then show ?thesis using bin Inr True by (intro locked [OF l]) simp_all
        next
          case False
          then have step: "(case write_partial sha256 failing paths identity write_source partial_path of
              Inl e \<Rightarrow> (Inl e, meanwhile others locked)
            | Inr partial \<Rightarrow> publish_and_verify sha256 failing stat paths others identity installed destination
                partial (meanwhile others locked)) = (r, files')"
            using assms ok lock dest Inr by (cases installed) (hypsubst, simp add: materialize_with_def Let_def)+
          then show ?thesis
            using rejected [OF l] published [OF l bin] by (auto split: sum.splits)
        qed
      qed
    qed
  qed
qed

text \<open>
  C17. Whatever other processes do to the binary directory meanwhile, a path returned by a
  publication holds a regular file of the user with the artifact's exact mode, length and
  SHA-256 at the moment of the check; and the publisher itself never leaves bytes with another
  digest there: with no other writer every file except the lock is untouched, or is the verified
  payload at the artifact's own path.
\<close>

theorem publication_verified:
  assumes "materialize_with dbg sha256 failing stat paths others ensured partial_path identity write_source files
             = (r, files')"
  shows "(\<forall>p. r = Inr p \<longrightarrow> binary_file dbg paths (ai_install_name identity) = Inr p
            \<and> (\<exists>node. files' p = Some node \<and> installed_ok sha256 paths identity node))
     \<and> (meanwhile others = id \<and> afterwards others = id \<longrightarrow>
          (\<forall>p. binary_file dbg paths HELPER_LOCK_NAME \<noteq> Inr p \<longrightarrow> files' p = files p
            \<or> binary_file dbg paths (ai_install_name identity) = Inr p
              \<and> (\<exists>bytes. write_source = Inr bytes \<and> sha256 bytes = ai_sha256 identity
                   \<and> map_option fn_bytes (files' p) = Some bytes)))"
  using assms
proof (cases rule: materialize_with_cases)
  case early
  then show ?thesis by simp
next
  case (locked lr locked)
  then show ?thesis using acquire_lock_changes [OF locked(1)] inspect_Matches by blast
next
  case (rejected lr locked e)
  then show ?thesis using acquire_lock_changes [OF rejected(1)] by simp
next
  case (published lr locked destination installed partial)
  have "files' p = files p \<or> binary_file dbg paths (ai_install_name identity) = Inr p
       \<and> (\<exists>bytes. write_source = Inr bytes \<and> sha256 bytes = ai_sha256 identity \<and> map_option fn_bytes (files' p) = Some bytes)"
    if quiet: "meanwhile others = id" "afterwards others = id"
      and p: "binary_file dbg paths HELPER_LOCK_NAME \<noteq> Inr p" for p
  proof -
    obtain pr pf where pub: "publish_partial failing identity installed destination partial locked = (pr, pf)" by fastforce
    have "files' = pf" using published(4) quiet pub
      by (auto simp: publish_and_verify_def Let_def split: sum.splits)
    then have "files' = locked \<or> files' = locked(destination \<mapsto> partial)"
      using publish_partial_changes [OF pub] by simp
    then show ?thesis
      using acquire_lock_changes [OF published(1) p] write_partial_verified [OF published(3)] published(2)
      by (cases "p = destination") auto
  qed
  then show ?thesis using publish_and_verify_present [OF _] published by blast
qed

section \<open>A publication succeeds\<close>

definition owned_file :: "Paths \<Rightarrow> u32 \<Rightarrow> FileNode \<Rightarrow> bool" where
  "owned_file paths mode node \<longleftrightarrow>
     md_kind (fn_meta node) = FileRegular \<and> md_uid (fn_meta node) = p_runtime_uid paths
     \<and> permissions (fn_meta node) = mode"

lemma io_step_none [simp]: "io_step (\<lambda>_. None) operation e = Inr ()"
  by (simp add: io_step_def)

lemma bin_handle_ok:
  assumes "validate_bin_data_directory stat paths = Inr ()" and "plain_name n" and "owned_file paths mode node"
  shows "validate_owned_data_file_handle stat paths (path_join (bin_dir paths) n) label mode (fn_meta node) = Inr ()"
proof -
  have "validate_owned_data_directory stat paths (bin_dir paths) ''binary directory'' False = Inr ()"
    using assms(1) by (simp add: validate_bin_data_directory_def validate_owned_data_subdirectory_def and_then_Inr_iff)
  then obtain parent where "path_parent (path_join (bin_dir paths) n) = Some parent"
      "\<And>l'. validate_owned_data_directory stat paths parent l' False = Inr ()"
    by (rule owned_parent [OF _ assms(2)]) blast
  then show ?thesis using assms(3) by (simp add: handle_accepts_iff owned_file_def)
qed

lemma inspect_owned:
  assumes "validate_bin_data_directory stat paths = Inr ()" and "plain_name n"
    and "\<And>node. files (path_join (bin_dir paths) n) = Some node \<Longrightarrow> owned_file paths (ai_mode identity) node"
  shows "\<exists>installed. inspect_installed sha256 (\<lambda>_. None) stat paths files (path_join (bin_dir paths) n) identity = Inr installed
     \<and> (installed = Absent \<longleftrightarrow> files (path_join (bin_dir paths) n) = None)
     \<and> (\<forall>node. files (path_join (bin_dir paths) n) = Some node \<longrightarrow>
          (installed = Matches \<longleftrightarrow> installed_ok sha256 paths identity node))"
proof (cases "files (path_join (bin_dir paths) n)")
  case None
  then show ?thesis by (simp add: inspect_installed_def open_nofollow_def)
next
  case (Some node)
  have owned: "owned_file paths (ai_mode identity) node" using assms(3) Some by blast
  then have "open_nofollow (\<lambda>_. None) op files (path_join (bin_dir paths) n) = Inr node" for op
    using Some by (simp add: open_nofollow_def owned_file_def)
  then show ?thesis
    using bin_handle_ok [OF assms(1,2) owned] Some owned
    by (auto simp: inspect_installed_def installed_ok_def owned_file_def split: option.split)
qed

lemma acquire_lock_ok:
  assumes "validate_bin_data_directory stat paths = Inr ()"
    and "\<And>node. files (path_join (bin_dir paths) HELPER_LOCK_NAME) = Some node \<Longrightarrow> owned_file paths LOCK_MODE node"
  shows "\<exists>locked. acquire_helper_lock dbg (\<lambda>_. None) stat paths files = (Inr (), locked)
     \<and> (\<forall>p. p \<noteq> path_join (bin_dir paths) HELPER_LOCK_NAME \<longrightarrow> locked p = files p)"
proof -
  let ?lock = "path_join (bin_dir paths) HELPER_LOCK_NAME"
  have name: "plain_name HELPER_LOCK_NAME" by (simp add: HELPER_LOCK_NAME_def plain_name_def)
  have path: "binary_file dbg paths HELPER_LOCK_NAME = Inr ?lock"
    using name by (simp add: binary_file_def checked_join_iff HELPER_LOCK_NAME_def)
  show ?thesis
  proof (cases "files ?lock")
    case None
    have "owned_file paths LOCK_MODE
        \<lparr>fn_meta = \<lparr>md_kind = FileRegular, md_uid = p_runtime_uid paths, md_mode = LOCK_MODE\<rparr>, fn_bytes = []\<rparr>"
      by (simp add: owned_file_def permissions_def LOCK_MODE_def)
    from bin_handle_ok [OF assms(1) name this] show ?thesis
      using None by (auto simp: acquire_helper_lock_def path Let_def)
  next
    case (Some node)
    have "owned_file paths LOCK_MODE node" using assms(2) Some by blast
    from bin_handle_ok [OF assms(1) name this] this show ?thesis
      using Some by (simp add: acquire_helper_lock_def path Let_def open_nofollow_def owned_file_def)
  qed
qed

lemma publication_succeeds:
  assumes "validate_bin_data_directory stat paths = Inr ()"
    and "plain_name (ai_install_name identity)" and "\<not> contains_control (ai_install_name identity)"
    and "ai_install_name identity \<noteq> HELPER_LOCK_NAME"
    and "sha256 bytes = ai_sha256 identity" and "length_mismatch identity (of_nat (length bytes)) = None"
    and "ai_mode identity AND 0xFFF = ai_mode identity"
    and "\<forall>node. files (path_join (bin_dir paths) HELPER_LOCK_NAME) = Some node \<longrightarrow> owned_file paths LOCK_MODE node"
    and "\<forall>node. files (path_join (bin_dir paths) (ai_install_name identity)) = Some node \<longrightarrow>
           owned_file paths (ai_mode identity) node"
  shows "\<exists>files'. materialize_with dbg sha256 (\<lambda>_. None) stat paths \<lparr>meanwhile = id, afterwards = id\<rparr> (Inr ())
            partial_path identity (Inr bytes) files
          = (Inr (path_join (bin_dir paths) (ai_install_name identity)), files')
       \<and> (\<exists>node. files' (path_join (bin_dir paths) (ai_install_name identity)) = Some node
            \<and> installed_ok sha256 paths identity node)"
proof -
  let ?dest = "path_join (bin_dir paths) (ai_install_name identity)"
  let ?lock = "path_join (bin_dir paths) HELPER_LOCK_NAME"
  let ?partial = "\<lparr>fn_meta = \<lparr>md_kind = FileRegular, md_uid = p_runtime_uid paths, md_mode = ai_mode identity\<rparr>,
      fn_bytes = bytes\<rparr>"
  have apart: "?dest \<noteq> ?lock"
    using components_join [OF assms(2), of "bin_dir paths"] components_join [of HELPER_LOCK_NAME "bin_dir paths"] assms(4)
    by (auto simp: HELPER_LOCK_NAME_def plain_name_def)
  obtain locked where l: "acquire_helper_lock dbg (\<lambda>_. None) stat paths files = (Inr (), locked)" "locked ?dest = files ?dest"
    using acquire_lock_ok [OF assms(1), of files dbg] assms(8) apart by blast
  have dest: "binary_file dbg paths (ai_install_name identity) = Inr ?dest"
    using assms(2,3) by (simp add: binary_file_def checked_join_iff)
  have partial: "installed_ok sha256 paths identity ?partial" "owned_file paths (ai_mode identity) ?partial"
    using assms(5-7) by (simp_all add: installed_ok_def owned_file_def permissions_def)
  obtain installed where i: "inspect_installed sha256 (\<lambda>_. None) stat paths locked ?dest identity = Inr installed"
    "installed = Absent \<longleftrightarrow> files ?dest = None"
    using inspect_owned [OF assms(1,2), of locked identity sha256] assms(9) l(2) by auto
  have written: "write_partial sha256 (\<lambda>_. None) paths identity (Inr bytes) partial_path = Inr ?partial"
    using assms(5) by (simp add: write_partial_def)
  show ?thesis
  proof (cases "installed = Matches")
    case True
    then show ?thesis
      using assms(1) l dest i inspect_Matches [of sha256 "\<lambda>_. None" stat paths locked ?dest identity]
      by (simp add: materialize_with_def)
  next
    case False
    have "publish_partial (\<lambda>_. None) identity installed ?dest ?partial locked = (Inr (), locked(?dest \<mapsto> ?partial))"
      using False i(2) l(2) by (cases installed) (simp_all add: publish_partial_def)
    moreover have "verify_installed sha256 (\<lambda>_. None) stat paths (locked(?dest \<mapsto> ?partial)) ?dest identity = Inr True"
      using inspect_owned [OF assms(1,2), of "locked(?dest \<mapsto> ?partial)" identity sha256] partial
      by (auto simp: verify_installed_def)
    ultimately have "publish_and_verify sha256 (\<lambda>_. None) stat paths \<lparr>meanwhile = id, afterwards = id\<rparr> identity installed
        ?dest ?partial locked = (Inr ?dest, locked(?dest \<mapsto> ?partial))"
      by (simp add: publish_and_verify_def)
    then have "materialize_with dbg sha256 (\<lambda>_. None) stat paths \<lparr>meanwhile = id, afterwards = id\<rparr> (Inr ())
        partial_path identity (Inr bytes) files = (Inr ?dest, locked(?dest \<mapsto> ?partial))"
      using False assms(1) l dest i(1) written by (cases installed) (simp_all add: materialize_with_def)
    then show ?thesis using partial(1) by auto
  qed
qed

text \<open>
  C26. A publication heals the binary directory: with no failing call and no other writer, an
  artifact whose payload has the pinned digest is installed whether its path was empty, already
  right, or held a file of an older release with other bytes; the result is the artifact's path,
  holding a file of the exact mode, length and digest.
\<close>

theorem publication_heals:
  assumes "validate_bin_data_directory stat paths = Inr ()"
    and "plain_name (ai_install_name identity)" and "\<not> contains_control (ai_install_name identity)"
    and "ai_install_name identity \<noteq> HELPER_LOCK_NAME"
    and "sha256 bytes = ai_sha256 identity" and "length_mismatch identity (of_nat (length bytes)) = None"
    and "ai_mode identity AND 0xFFF = ai_mode identity"
    and "\<forall>node. files (path_join (bin_dir paths) HELPER_LOCK_NAME) = Some node \<longrightarrow> owned_file paths LOCK_MODE node"
    and "\<forall>node. files (path_join (bin_dir paths) (ai_install_name identity)) = Some node \<longrightarrow>
           owned_file paths (ai_mode identity) node"
  shows "\<exists>files'. materialize_with dbg sha256 (\<lambda>_. None) stat paths \<lparr>meanwhile = id, afterwards = id\<rparr> (Inr ())
            partial_path identity (Inr bytes) files
          = (Inr (path_join (bin_dir paths) (ai_install_name identity)), files')
       \<and> (\<exists>node. files' (path_join (bin_dir paths) (ai_install_name identity)) = Some node
            \<and> installed_ok sha256 paths identity node)"
  using assms by (intro publication_succeeds) blast+

section \<open>Witnesses\<close>

definition demo_identity :: ArtifactIdentity where
  "demo_identity = \<lparr>ai_dependency = ''passt'', ai_install_name = ''h'', ai_sha256 = ''a'', ai_mode = 0x1ED,
     ai_expected_length = Some 1, ai_origin = OriginEmbedded\<rparr>"

definition demo_digest :: "u8 list \<Rightarrow> string" where
  "demo_digest bytes = (if bytes = [1] then ''a'' else ''b'')"

text \<open>The path holds a file of another release.\<close>

definition demo_files :: files where
  "demo_files = [''/d/bin/h'' \<mapsto>
     \<lparr>fn_meta = \<lparr>md_kind = FileRegular, md_uid = 7, md_mode = 0x1ED\<rparr>, fn_bytes = [2, 2]\<rparr>]"

lemma demo_bin: "validate_bin_data_directory demo_stat demo_paths = Inr ()"
proof -
  have "validate_owned_data_directory demo_stat demo_paths p l False = Inr ()" if "p \<in> {''/d'', ''/d/bin''}" for p l
    using that by (auto simp: owned_data_directory_accepts is_absolute_def components_def piece_def path_join_def
        Let_def demo_stat_def demo_paths_def)
  then show ?thesis
    by (simp add: validate_bin_data_directory_def validate_owned_data_subdirectory_def bin_dir_def path_join_def
        is_absolute_def demo_paths_def [THEN arg_cong, of p_data_dir])
qed

lemma demo_destinations:
  "path_join (bin_dir demo_paths) HELPER_LOCK_NAME = ''/d/bin/.embedded-helpers.lock''"
  "path_join (bin_dir demo_paths) (ai_install_name demo_identity) = ''/d/bin/h''"
  by (simp_all add: bin_dir_def demo_paths_def path_join_def is_absolute_def HELPER_LOCK_NAME_def demo_identity_def)

lemma demo_hypotheses:
  "plain_name (ai_install_name demo_identity)" "\<not> contains_control (ai_install_name demo_identity)"
  "ai_install_name demo_identity \<noteq> HELPER_LOCK_NAME" "demo_digest [1] = ai_sha256 demo_identity"
  "length_mismatch demo_identity (of_nat (length [1 :: u8])) = None"
  "ai_mode demo_identity AND 0xFFF = ai_mode demo_identity"
  "\<forall>node. demo_files (path_join (bin_dir demo_paths) HELPER_LOCK_NAME) = Some node \<longrightarrow> owned_file demo_paths LOCK_MODE node"
  "\<forall>node. demo_files (path_join (bin_dir demo_paths) (ai_install_name demo_identity)) = Some node \<longrightarrow>
     owned_file demo_paths (ai_mode demo_identity) node"
  unfolding demo_destinations
  by (simp_all add: demo_identity_def plain_name_def HELPER_LOCK_NAME_def demo_digest_def length_mismatch_def
      demo_files_def owned_file_def demo_paths_def permissions_def)

theorem publication_heals_witness:
  "\<exists>files'. materialize_with id demo_digest (\<lambda>_. None) demo_stat demo_paths \<lparr>meanwhile = id, afterwards = id\<rparr> (Inr ())
        ''/d/bin/.h.partial'' demo_identity (Inr [1]) demo_files = (Inr ''/d/bin/h'', files')
     \<and> (\<exists>node. files' ''/d/bin/h'' = Some node \<and> installed_ok demo_digest demo_paths demo_identity node)"
  using publication_heals [where ?sha256.0 = demo_digest and bytes = "[1]" and files = demo_files, OF demo_bin demo_hypotheses,
      of id "''/d/bin/.h.partial''"]
  unfolding demo_destinations by simp

theorem publication_verified_witness:
  "\<exists>files' node. materialize_with id demo_digest (\<lambda>_. None) demo_stat demo_paths \<lparr>meanwhile = id, afterwards = id\<rparr>
        (Inr ()) ''/d/bin/.h.partial'' demo_identity (Inr [1]) demo_files = (Inr ''/d/bin/h'', files')
     \<and> files' ''/d/bin/h'' = Some node \<and> demo_digest (fn_bytes node) = ''a''"
proof -
  obtain files' where m: "materialize_with id demo_digest (\<lambda>_. None) demo_stat demo_paths \<lparr>meanwhile = id, afterwards = id\<rparr>
      (Inr ()) ''/d/bin/.h.partial'' demo_identity (Inr [1]) demo_files = (Inr ''/d/bin/h'', files')"
    using publication_succeeds [where ?sha256.0 = demo_digest and bytes = "[1]" and files = demo_files, OF demo_bin demo_hypotheses,
      of id "''/d/bin/.h.partial''"]
    unfolding demo_destinations by blast
  then show ?thesis
    using publication_verified [OF m] by (auto simp: installed_ok_def demo_identity_def)
qed

text \<open>Whatever the source, the guest init that is injected has a digest fixed at build or release time.\<close>

lemma init_payload_verified:
  assumes "firestone_init_payload scheme sha256 failing stat embedded paths manifest architecture installer files
             = (Inr bytes, files')"
  shows "(\<exists>helper. embedded FirestoneInit = Some helper \<and> sha256 bytes = eh_sha256 helper)
     \<or> (\<exists>a. firestone_init scheme manifest architecture = Inr a \<and> sha256 bytes = da_sha256 a)"
  using assms unfolding firestone_init_payload_def resolve_firestone_init_payload_def read_pinned_payload_def verify_payload_def
  by (auto simp: and_then_Inr_iff Let_def identity_pinned_def split: option.splits sum.splits prod.splits if_splits)

end
