(* ===== verification/Virtiofs.thy ===== *)
theory Virtiofs
  imports Mounts Helpers
begin

text \<open>
  The plans of the \<open>virtiofsd\<close> sidecars, \<^verbatim>\<open>firestone-core/src/virtiofs.rs\<close>: the checks of the host
  directories on disk, the command line of each daemon, the wait for its socket and pid file, and
  the form in which a plan crosses to the supervisor process. The layout rules are in theory
  \<open>Mounts\<close>. The file system is \<open>stat\<close> and \<open>canonicalize\<close> is \<open>fs::canonicalize\<close>.
\<close>

section \<open>Readiness bounds\<close>

definition VHOST_USER_SOCKET_MAX_BYTES :: nat where "VHOST_USER_SOCKET_MAX_BYTES = 107"
definition VIRTIOFS_NUM_QUEUES :: nat where "VIRTIOFS_NUM_QUEUES = 1"
definition VIRTIOFS_QUEUE_SIZE :: u16 where "VIRTIOFS_QUEUE_SIZE = 1024"

text \<open>0o700 and 0o600.\<close>

definition VIRTIOFSD_SOCKET_MODE :: u32 where "VIRTIOFSD_SOCKET_MODE = 0x1C0"
definition VIRTIOFSD_PID_MODE :: u32 where "VIRTIOFSD_PID_MODE = 0x180"

definition DEFAULT_VIRTIOFS_READINESS_TIMEOUT :: nanos where
  "DEFAULT_VIRTIOFS_READINESS_TIMEOUT = 10 * 1000000000"

definition DEFAULT_VIRTIOFS_READINESS_POLL_INTERVAL :: nanos where
  "DEFAULT_VIRTIOFS_READINESS_POLL_INTERVAL = 10 * 1000000"

datatype VirtiofsCancellationPolicy = AbortLaunch

record VirtiofsReadinessPlan =
  vr_timeout :: nanos
  vr_poll_interval :: nanos
  vr_cancellation :: VirtiofsCancellationPolicy

definition virtiofs_readiness_new :: "nanos \<Rightarrow> nanos \<Rightarrow> (FirestoneError, VirtiofsReadinessPlan) result" where
  "virtiofs_readiness_new timeout poll_interval =
     (if timeout = 0
      then Inl (with_hint ''use the default 10 second readiness timeout''
             (error_new InvalidSpec ''sidecar socket readiness timeout must be greater than zero''))
      else if poll_interval = 0 \<or> poll_interval > timeout
      then Inl (with_hint ''use the default 10 millisecond poll interval''
             (error_new InvalidSpec (''sidecar socket readiness poll interval must be greater than zero ''
                @ ''and no longer than its timeout'')))
      else Inr \<lparr>vr_timeout = timeout, vr_poll_interval = poll_interval, vr_cancellation = AbortLaunch\<rparr>)"

definition virtiofs_readiness_default :: VirtiofsReadinessPlan where
  "virtiofs_readiness_default = \<lparr>vr_timeout = DEFAULT_VIRTIOFS_READINESS_TIMEOUT,
     vr_poll_interval = DEFAULT_VIRTIOFS_READINESS_POLL_INTERVAL, vr_cancellation = AbortLaunch\<rparr>"

record VirtiofsPlan =
  vf_index :: nat
  vf_tag :: string
  vf_host :: string
  vf_guest :: string
  vf_readonly :: bool
  vf_sandbox :: VirtiofsSandbox
  vf_program :: string
  vf_args :: "string list"
  vf_socket :: string
  vf_pid_file :: string
  vf_log :: string
  vf_readiness :: VirtiofsReadinessPlan
  vf_owner_uid :: u32

section \<open>Host directories\<close>

definition validate_host_leaf :: "string \<Rightarrow> Metadata \<Rightarrow> u32 \<Rightarrow> nat \<Rightarrow> (FirestoneError, unit) result" where
  "validate_host_leaf path metadata uid index =
     ensure (md_uid metadata = uid \<and> permissions metadata AND 0x12 = 0)
       (mount_error index ''host''
         (''host directory '' @ quoted path @ '' is insecure: expected uid '' @ show_nat (unat uid)
           @ '' without group/world write, '' @ found_uid_mode metadata)
         ''choose a current-user-owned directory and remove group/world write access'')"

definition validate_host_ancestor :: "string \<Rightarrow> Metadata \<Rightarrow> u32 \<Rightarrow> nat \<Rightarrow> (FirestoneError, unit) result" where
  "validate_host_ancestor path metadata uid index =
     (let owner = md_uid metadata;
          mode = permissions metadata;
          protected = (mode AND 0x12 = 0);
          root_sticky = (owner = 0 \<and> mode AND 0x200 \<noteq> 0)
      in ensure ((owner = uid \<or> owner = 0) \<and> (protected \<or> root_sticky))
           (mount_error index ''host''
             (''host directory ancestor '' @ quoted path @ '' is renameable by another user: uid ''
               @ show_nat (unat owner) @ '', mode '' @ show_octal4 mode)
             ''move the shared directory below current-user or protected root-owned ancestry''))"

fun normal_components :: "PathComponent list \<Rightarrow> string list" where
  "normal_components [] = []"
| "normal_components (NormalC s # cs) = s # normal_components cs"
| "normal_components (_ # cs) = normal_components cs"

fun check_host_components ::
  "stat_fn \<Rightarrow> u32 \<Rightarrow> nat \<Rightarrow> string \<Rightarrow> string list \<Rightarrow> (FirestoneError, unit) result" where
  "check_host_components stat uid index current [] = Inr ()"
| "check_host_components stat uid index current (c # cs) =
     (let current = path_join current c
      in and_then (map_err (\<lambda>source. mount_error index ''host''
             (''cannot inspect host path '' @ quoted current @ '': '' @ io_text source)
             ''correct the host path and make every ancestor searchable'') (stat current)) (\<lambda>metadata.
         and_then (ensure (md_kind metadata = FileDirectory) (mount_error index ''host''
             (''host path component '' @ quoted current @ '' is not a real directory'')
             ''replace the symlink or non-directory component with a real directory'')) (\<lambda>_.
         and_then (if cs = [] then validate_host_leaf current metadata uid index
                   else validate_host_ancestor current metadata uid index) (\<lambda>_.
         check_host_components stat uid index current cs))))"

definition canonical_host_path ::
  "stat_fn \<Rightarrow> (string \<Rightarrow> (IoError, string) result) \<Rightarrow> string \<Rightarrow> u32 \<Rightarrow> nat \<Rightarrow> (FirestoneError, string) result" where
  "canonical_host_path stat canonicalize path uid index =
     and_then (map_err (\<lambda>source. mount_error index ''host''
         (''cannot canonicalize host path '' @ quoted path @ '': '' @ io_text source)
         ''correct the host path and make every ancestor searchable'') (canonicalize path)) (\<lambda>canonical.
     if \<not> path_eq canonical path
     then Inl (mount_error index ''host''
            (''host path '' @ quoted path @ '' resolves through a symlink or alias to '' @ quoted canonical)
            (''use the canonical path without symlinks, '' @ quoted ''.'' @ '', '' @ quoted ''..''
               @ '', or duplicate separators''))
     else if normal_components (components canonical) = []
     then Inl (mount_error index ''host''
            (''host path '' @ quoted ''/'' @ '' is not a user-owned shared directory'')
            ''choose a directory owned by the current user'')
     else and_then (check_host_components stat uid index ''/'' (normal_components (components canonical))) (\<lambda>_.
            Inr canonical))"

definition validate_socket_path :: "string \<Rightarrow> (FirestoneError, unit) result" where
  "validate_socket_path path =
     (if \<not> is_utf8 path
      then Inl (with_hint ''use a UTF-8 FIRESTONE_RUNTIME_DIR''
             (error_new InvalidSpec (''virtiofsd socket path '' @ quoted path @ '' is not UTF-8'')))
      else if length path > VHOST_USER_SOCKET_MAX_BYTES
      then Inl (with_hint ''set FIRESTONE_RUNTIME_DIR to a shorter absolute path''
             (error_new InvalidSpec (''virtiofsd socket path '' @ quoted path @ '' is '' @ show_nat (length path)
                @ '' bytes; Linux permits at most '' @ show_nat VHOST_USER_SOCKET_MAX_BYTES)))
      else Inr ())"

definition validate_absent_runtime_node ::
  "stat_fn \<Rightarrow> string \<Rightarrow> string \<Rightarrow> string \<Rightarrow> (FirestoneError, unit) result" where
  "validate_absent_runtime_node stat path tag label =
     (case stat path of
        Inl source \<Rightarrow>
          if io_kind source = IoNotFound then Inr ()
          else Inl (with_hint ''check the private machine runtime directory''
                 (error_new Dependency (''cannot inspect virtiofsd '' @ label @ '' '' @ quoted path @ '': ''
                    @ io_text source)))
      | Inr _ \<Rightarrow> Inl (with_hint ''reconcile or stop the machine before preparing a new sidecar''
             (error_new Conflict (''virtiofsd '' @ label @ '' '' @ quoted path @ '' already exists for mount `''
                @ tag @ ''`''))))"

section \<open>Preparing the plans\<close>

definition virtiofsd_args :: "string \<Rightarrow> string \<Rightarrow> VirtiofsSandbox \<Rightarrow> bool \<Rightarrow> string list" where
  "virtiofsd_args socket host sandbox readonly =
     [''--socket-path'', socket, ''--shared-dir'', host, ''--sandbox'', sandbox_as_str sandbox, ''--cache'', ''auto'',
      ''--announce-submounts''] @ (if readonly then [''--readonly''] else []) @ [''--log-level'', ''warn'']"

definition refuse_canonical_overlap :: "nat \<Rightarrow> string list \<Rightarrow> string \<Rightarrow> (FirestoneError, unit) result" where
  "refuse_canonical_overlap index canonical_hosts host =
     (case first_overlap 0 canonical_hosts host of
        None \<Rightarrow> Inr ()
      | Some (previous_index, previous) \<Rightarrow>
          Inl (mount_error index ''host''
            (''canonical host path '' @ quoted host @ '' overlaps mount['' @ show_nat previous_index @ ''].host ''
              @ quoted previous)
            ''use disjoint host directories for separate virtio-fs devices''))"

record VirtiofsHost =
  vh_stat :: stat_fn
  vh_canonicalize :: "string \<Rightarrow> (IoError, string) result"

definition plan_mount ::
  "(string \<Rightarrow> string) \<Rightarrow> VirtiofsHost \<Rightarrow> Paths \<Rightarrow> string \<Rightarrow> string \<Rightarrow> VirtiofsSandbox \<Rightarrow> VirtiofsReadinessPlan
   \<Rightarrow> string list \<Rightarrow> nat \<Rightarrow> MountSpec \<Rightarrow> MountShape \<Rightarrow> (FirestoneError, VirtiofsPlan) result" where
  "plan_mount dbg fs paths name program sandbox readiness canonical_hosts index mount shape =
     and_then (canonical_host_path (vh_stat fs) (vh_canonicalize fs) (mt_host mount) (p_runtime_uid paths) index) (\<lambda>host.
     and_then (refuse_canonical_overlap index canonical_hosts host) (\<lambda>_.
     and_then (machine_fs_socket dbg paths name index) (\<lambda>socket.
     and_then (validate_socket_path socket) (\<lambda>_.
     and_then (machine_fs_pid_file dbg paths name index) (\<lambda>pid_file.
     and_then (machine_virtiofsd_log dbg paths name index) (\<lambda>log.
     and_then (validate_absent_runtime_node (vh_stat fs) socket (sh_tag shape) ''socket'') (\<lambda>_.
     and_then (validate_absent_runtime_node (vh_stat fs) pid_file (sh_tag shape) ''pid file'') (\<lambda>_.
     and_then (validate_owned_data_file (vh_stat fs) paths log ''virtiofsd log'' 0x180 True) (\<lambda>_.
     Inr \<lparr>vf_index = index, vf_tag = sh_tag shape, vf_host = host, vf_guest = sh_guest shape,
          vf_readonly = mt_readonly mount, vf_sandbox = sandbox, vf_program = program,
          vf_args = virtiofsd_args socket host sandbox (mt_readonly mount), vf_socket = socket,
          vf_pid_file = pid_file, vf_log = log, vf_readiness = readiness,
          vf_owner_uid = p_runtime_uid paths\<rparr>)))))))))"

fun plan_mounts ::
  "(string \<Rightarrow> string) \<Rightarrow> VirtiofsHost \<Rightarrow> Paths \<Rightarrow> string \<Rightarrow> string \<Rightarrow> VirtiofsSandbox \<Rightarrow> VirtiofsReadinessPlan
   \<Rightarrow> VirtiofsPlan list \<Rightarrow> (MountSpec \<times> MountShape) list \<Rightarrow> (FirestoneError, VirtiofsPlan list) result" where
  "plan_mounts dbg fs paths name program sandbox readiness plans [] = Inr plans"
| "plan_mounts dbg fs paths name program sandbox readiness plans ((mount, shape) # rest) =
     and_then (plan_mount dbg fs paths name program sandbox readiness (map vf_host plans) (length plans) mount shape)
       (\<lambda>plan. plan_mounts dbg fs paths name program sandbox readiness (plans @ [plan]) rest)"

definition prepare_virtiofs_plans_with_readiness ::
  "(string \<Rightarrow> string) \<Rightarrow> (string \<Rightarrow> string option) \<Rightarrow> VirtiofsHost \<Rightarrow> Paths \<Rightarrow> DependencyManifest \<Rightarrow> string \<Rightarrow> Arch
   \<Rightarrow> MountSpec list \<Rightarrow> VirtiofsSandbox \<Rightarrow> VirtiofsReadinessPlan \<Rightarrow> (FirestoneError, VirtiofsPlan list) result" where
  "prepare_virtiofs_plans_with_readiness dbg scheme fs paths manifest name architecture mounts sandbox readiness =
     and_then (mount_shapes mounts) (\<lambda>shapes.
     if shapes = [] then Inr []
     else
       and_then (validate_bin_data_directory (vh_stat fs) paths) (\<lambda>_.
       and_then (validate_machine_data_directory dbg (vh_stat fs) paths name) (\<lambda>_.
       and_then (validate_machine_runtime_dir dbg (vh_stat fs) paths name) (\<lambda>_.
       and_then (artifact scheme manifest ''virtiofsd'' (arch_as_str architecture)) (\<lambda>a.
       and_then (binary_file dbg paths (da_install_name a)) (\<lambda>program.
       and_then (validate_owned_data_file (vh_stat fs) paths program ''pinned virtiofsd executable'' (expected_mode a) False)
         (\<lambda>_. plan_mounts dbg fs paths name program sandbox readiness [] (zip mounts shapes))))))))"

definition prepare_virtiofs_plans ::
  "(string \<Rightarrow> string) \<Rightarrow> (string \<Rightarrow> string option) \<Rightarrow> VirtiofsHost \<Rightarrow> Paths \<Rightarrow> DependencyManifest \<Rightarrow> string \<Rightarrow> Arch
   \<Rightarrow> MountSpec list \<Rightarrow> VirtiofsSandbox \<Rightarrow> (FirestoneError, VirtiofsPlan list) result" where
  "prepare_virtiofs_plans dbg scheme fs paths manifest name architecture mounts sandbox =
     prepare_virtiofs_plans_with_readiness dbg scheme fs paths manifest name architecture mounts sandbox
       virtiofs_readiness_default"

section \<open>Waiting for a sidecar\<close>

definition readiness_io_error :: "string \<Rightarrow> string \<Rightarrow> string \<Rightarrow> IoError \<Rightarrow> FirestoneError" where
  "readiness_io_error tag operation path source =
     with_hint ''inspect the virtiofsd log and private runtime directory''
       (error_new Dependency (''cannot '' @ operation @ '' virtiofsd readiness path '' @ quoted path
          @ '' for mount `'' @ tag @ ''`: '' @ io_text source))"

definition validate_runtime_parent :: "stat_fn \<Rightarrow> string \<Rightarrow> u32 \<Rightarrow> string \<Rightarrow> (FirestoneError, unit) result" where
  "validate_runtime_parent stat path uid tag =
     and_then (ok_or (error_new Dependency (''virtiofsd socket '' @ quoted path @ '' has no runtime parent''))
       (path_parent path)) (\<lambda>parent.
     and_then (map_err (readiness_io_error tag ''inspect'' parent) (stat parent)) (\<lambda>metadata.
     ensure (md_kind metadata = FileDirectory \<and> md_uid metadata = uid \<and> permissions metadata = 0x1C0)
       (with_hint ''stop and start the machine to recreate its private runtime directory''
         (error_new Dependency (''virtiofsd runtime directory '' @ quoted parent
            @ '' is insecure: expected a current-user mode-0700 real directory'')))))"

definition validate_socket_metadata :: "string \<Rightarrow> Metadata \<Rightarrow> u32 \<Rightarrow> string \<Rightarrow> (FirestoneError, unit) result" where
  "validate_socket_metadata path metadata uid tag =
     ensure (md_kind metadata = FileSocket \<and> md_uid metadata = uid \<and> permissions metadata = VIRTIOFSD_SOCKET_MODE)
       (with_hint ''stop and start the machine to replace the unsafe runtime node''
         (error_new Dependency (''virtiofsd socket '' @ quoted path @ '' for mount `'' @ tag
            @ ''` is insecure: expected uid '' @ show_nat (unat uid) @ '' and mode ''
            @ show_octal4 VIRTIOFSD_SOCKET_MODE)))"

definition validate_pid_metadata :: "string \<Rightarrow> Metadata \<Rightarrow> u32 \<Rightarrow> string \<Rightarrow> (FirestoneError, unit) result" where
  "validate_pid_metadata path metadata uid tag =
     ensure (md_kind metadata = FileRegular \<and> md_uid metadata = uid \<and> permissions metadata = VIRTIOFSD_PID_MODE)
       (with_hint ''stop and start the machine to replace the unsafe runtime node''
         (error_new Dependency (''virtiofsd pid file '' @ quoted path @ '' for mount `'' @ tag
            @ ''` is insecure: expected uid '' @ show_nat (unat uid) @ '' and mode ''
            @ show_octal4 VIRTIOFSD_PID_MODE)))"

definition validate_ready_files :: "VirtiofsPlan \<Rightarrow> stat_fn \<Rightarrow> (FirestoneError, bool) result" where
  "validate_ready_files plan stat =
     (case stat (vf_socket plan) of
        Inl source \<Rightarrow>
          if io_kind source = IoNotFound then Inr False
          else Inl (readiness_io_error (vf_tag plan) ''inspect'' (vf_socket plan) source)
      | Inr socket_metadata \<Rightarrow>
          and_then (validate_runtime_parent stat (vf_socket plan) (vf_owner_uid plan) (vf_tag plan)) (\<lambda>_.
          and_then (validate_socket_metadata (vf_socket plan) socket_metadata (vf_owner_uid plan) (vf_tag plan)) (\<lambda>_.
          case stat (vf_pid_file plan) of
            Inl source \<Rightarrow>
              if io_kind source = IoNotFound then Inr False
              else Inl (readiness_io_error (vf_tag plan) ''inspect'' (vf_pid_file plan) source)
          | Inr pid_metadata \<Rightarrow>
              and_then (validate_pid_metadata (vf_pid_file plan) pid_metadata (vf_owner_uid plan) (vf_tag plan)) (\<lambda>_.
              Inr True))))"

text \<open>What one turn of the loop observes: the cancellation flag, the process, the files, the clock.\<close>

record VirtiofsTick =
  vt_cancelled :: bool
  vt_process :: "(FirestoneError, unit) result"
  vt_stat :: stat_fn
  vt_now :: nanos

text \<open>The loop over the observations; \<open>None\<close> means that it is still waiting when they end.\<close>

fun virtiofs_wait_ready_while ::
  "VirtiofsPlan \<Rightarrow> nanos \<Rightarrow> VirtiofsTick list \<Rightarrow> (FirestoneError, unit) result option" where
  "virtiofs_wait_ready_while plan deadline [] = None"
| "virtiofs_wait_ready_while plan deadline (t # ts) =
     (if vt_cancelled t
      then Some (Inl (with_hint ''stop the partially launched sidecars before retrying''
             (error_new Interrupted (''virtiofsd readiness for mount `'' @ vf_tag plan @ ''` was cancelled''))))
      else case and_then (vt_process t) (\<lambda>_. validate_ready_files plan (vt_stat t)) of
        Inl e \<Rightarrow> Some (Inl e)
      | Inr True \<Rightarrow> Some (Inr ())
      | Inr False \<Rightarrow>
          if vt_now t \<ge> deadline
          then Some (Inl (with_hint (''inspect '' @ vf_log plan @ '' for the virtiofsd error'')
                 (error_new Timeout (''virtiofsd for mount `'' @ vf_tag plan @ ''` did not publish socket ''
                    @ quoted (vf_socket plan) @ '' before the deadline''))))
          else virtiofs_wait_ready_while plan deadline ts)"

text \<open>The sleep of a turn.\<close>

definition virtiofs_sleep :: "VirtiofsPlan \<Rightarrow> nanos \<Rightarrow> nanos \<Rightarrow> nanos" where
  "virtiofs_sleep plan deadline now = min (vr_poll_interval (vf_readiness plan)) (deadline - now)"

section \<open>Crossing to the supervisor\<close>

record VirtiofsPlanSnapshot =
  vs_index :: nat
  vs_tag :: string
  vs_host :: string
  vs_guest :: string
  vs_readonly :: bool
  vs_sandbox :: VirtiofsSandbox
  vs_program :: string
  vs_args :: "string list"
  vs_socket :: string
  vs_pid_file :: string
  vs_log :: string
  vs_readiness_timeout_ms :: u64
  vs_readiness_poll_interval_ms :: u64
  vs_owner_uid :: u32

definition snapshot_duration_millis :: "nanos \<Rightarrow> string \<Rightarrow> (FirestoneError, u64) result" where
  "snapshot_duration_millis duration label =
     (let ms = duration div 1000000
      in if ms < 2 ^ 64 then Inr (of_nat ms)
         else Inl (error_new Usage (label @ '' cannot be represented in the launch plan'')))"

definition virtiofs_snapshot :: "VirtiofsPlan \<Rightarrow> (FirestoneError, VirtiofsPlanSnapshot) result" where
  "virtiofs_snapshot plan =
     and_then (snapshot_duration_millis (vr_timeout (vf_readiness plan)) ''virtiofsd readiness timeout'') (\<lambda>timeout_ms.
     and_then (snapshot_duration_millis (vr_poll_interval (vf_readiness plan)) ''virtiofsd readiness poll interval'')
       (\<lambda>poll_ms.
     Inr \<lparr>vs_index = vf_index plan, vs_tag = vf_tag plan, vs_host = vf_host plan, vs_guest = vf_guest plan,
          vs_readonly = vf_readonly plan, vs_sandbox = vf_sandbox plan, vs_program = vf_program plan,
          vs_args = vf_args plan, vs_socket = vf_socket plan, vs_pid_file = vf_pid_file plan, vs_log = vf_log plan,
          vs_readiness_timeout_ms = timeout_ms, vs_readiness_poll_interval_ms = poll_ms,
          vs_owner_uid = vf_owner_uid plan\<rparr>))"

definition virtiofs_from_snapshot :: "VirtiofsPlanSnapshot \<Rightarrow> (FirestoneError, VirtiofsPlan) result" where
  "virtiofs_from_snapshot snapshot =
     and_then (virtiofs_readiness_new (unat (vs_readiness_timeout_ms snapshot) * 1000000)
        (unat (vs_readiness_poll_interval_ms snapshot) * 1000000)) (\<lambda>readiness.
     Inr \<lparr>vf_index = vs_index snapshot, vf_tag = vs_tag snapshot, vf_host = vs_host snapshot,
          vf_guest = vs_guest snapshot, vf_readonly = vs_readonly snapshot, vf_sandbox = vs_sandbox snapshot,
          vf_program = vs_program snapshot, vf_args = vs_args snapshot, vf_socket = vs_socket snapshot,
          vf_pid_file = vs_pid_file snapshot, vf_log = vs_log snapshot, vf_readiness = readiness,
          vf_owner_uid = vs_owner_uid snapshot\<rparr>)"

section \<open>Shared directories are protected\<close>

definition shared_leaf :: "u32 \<Rightarrow> Metadata \<Rightarrow> bool" where
  "shared_leaf uid md \<longleftrightarrow> md_kind md = FileDirectory \<and> md_uid md = uid \<and> permissions md AND 0x12 = 0"

definition shared_ancestor :: "u32 \<Rightarrow> Metadata \<Rightarrow> bool" where
  "shared_ancestor uid md \<longleftrightarrow> md_kind md = FileDirectory \<and> (md_uid md = uid \<or> md_uid md = 0)
     \<and> (permissions md AND 0x12 = 0 \<or> md_uid md = 0 \<and> permissions md AND 0x200 \<noteq> 0)"

text \<open>Every directory from the root down is real and cannot be renamed away; the last is the user's.\<close>

fun host_protected :: "stat_fn \<Rightarrow> u32 \<Rightarrow> string \<Rightarrow> string list \<Rightarrow> bool" where
  "host_protected stat uid current [] = True"
| "host_protected stat uid current (c # cs) \<longleftrightarrow>
     (case stat (path_join current c) of
        Inl _ \<Rightarrow> False
      | Inr md \<Rightarrow> (if cs = [] then shared_leaf uid md else shared_ancestor uid md)
          \<and> host_protected stat uid (path_join current c) cs)"

lemma check_host_components_iff:
  "check_host_components stat uid index current cs = Inr () \<longleftrightarrow> host_protected stat uid current cs"
proof (induction cs arbitrary: current)
  case (Cons c cs)
  then show ?case
    by (cases "stat (path_join current c)")
      (auto simp: Let_def and_then_Inr_iff validate_host_leaf_def validate_host_ancestor_def shared_leaf_def
        shared_ancestor_def split: if_splits)
qed simp

lemma canonical_host_path_ok:
  assumes "canonical_host_path stat canonicalize path uid index = Inr host"
  shows "path_eq host path" "canonicalize path = Inr host"
    "host_protected stat uid ''/'' (normal_components (components host))" "normal_components (components host) \<noteq> []"
  using assms unfolding canonical_host_path_def
  by (auto simp: and_then_Inr_iff check_host_components_iff split: if_splits)

lemma refuse_canonical_overlap_ok:
  "refuse_canonical_overlap index hosts host = Inr () \<longleftrightarrow> (\<forall>q \<in> set hosts. \<not> paths_overlap q host)"
  using first_overlap_None [of 0 hosts host]
  by (cases "first_overlap 0 hosts host") (auto simp: refuse_canonical_overlap_def)

text \<open>What one prepared plan says of its mount.\<close>

definition plan_ok ::
  "(string \<Rightarrow> string) \<Rightarrow> VirtiofsHost \<Rightarrow> Paths \<Rightarrow> string \<Rightarrow> VirtiofsSandbox \<Rightarrow> nat \<Rightarrow> MountSpec \<Rightarrow> MountShape
   \<Rightarrow> VirtiofsPlan \<Rightarrow> bool" where
  "plan_ok dbg fs paths name sandbox index mount shape plan \<longleftrightarrow>
     vf_index plan = index \<and> vf_tag plan = sh_tag shape \<and> vf_guest plan = sh_guest shape
     \<and> path_eq (vf_host plan) (mt_host mount)
     \<and> host_protected (vh_stat fs) (p_runtime_uid paths) ''/'' (normal_components (components (vf_host plan)))
     \<and> vf_args plan = virtiofsd_args (vf_socket plan) (vf_host plan) sandbox (mt_readonly mount)
     \<and> machine_fs_socket dbg paths name index = Inr (vf_socket plan) \<and> length (vf_socket plan) \<le> 107"

lemma plan_mount_ok:
  assumes "plan_mount dbg fs paths name program sandbox readiness hosts index mount shape = Inr plan"
  shows "plan_ok dbg fs paths name sandbox index mount shape plan" and "\<forall>q \<in> set hosts. \<not> paths_overlap q (vf_host plan)"
proof -
  from assms obtain host socket where
    c: "canonical_host_path (vh_stat fs) (vh_canonicalize fs) (mt_host mount) (p_runtime_uid paths) index = Inr host"
    and o: "refuse_canonical_overlap index hosts host = Inr ()" "machine_fs_socket dbg paths name index = Inr socket"
      "validate_socket_path socket = Inr ()"
    and p: "vf_index plan = index" "vf_tag plan = sh_tag shape" "vf_guest plan = sh_guest shape" "vf_host plan = host"
      "vf_socket plan = socket" "vf_args plan = virtiofsd_args socket host sandbox (mt_readonly mount)"
    unfolding plan_mount_def by (auto simp: and_then_Inr_iff)
  note host = canonical_host_path_ok [OF c]
  have "length socket \<le> 107" using o(3) by (auto simp: validate_socket_path_def VHOST_USER_SOCKET_MAX_BYTES_def split: if_splits)
  then show "plan_ok dbg fs paths name sandbox index mount shape plan"
    unfolding plan_ok_def using o(2) p host by simp
  show "\<forall>q \<in> set hosts. \<not> paths_overlap q (vf_host plan)" using o(1) p(4) by (simp add: refuse_canonical_overlap_ok)
qed

lemma plan_mounts_ok:
  assumes "plan_mounts dbg fs paths name program sandbox readiness plans rest = Inr out"
    and "sorted_wrt apart (map vf_host plans)"
  shows "\<exists>new. out = plans @ new \<and> length new = length rest
     \<and> (\<forall>i < length rest. plan_ok dbg fs paths name sandbox (length plans + i) (fst (rest ! i)) (snd (rest ! i)) (new ! i))
     \<and> sorted_wrt apart (map vf_host out)"
  using assms
proof (induction rest arbitrary: plans)
  case (Cons r rest)
  obtain mount shape where r: "r = (mount, shape)" by (cases r)
  obtain plan where m: "plan_mount dbg fs paths name program sandbox readiness (map vf_host plans) (length plans) mount shape = Inr plan"
    and out: "plan_mounts dbg fs paths name program sandbox readiness (plans @ [plan]) rest = Inr out"
    using Cons.prems(1) by (auto simp: r and_then_Inr_iff)
  have sorted: "sorted_wrt apart (map vf_host (plans @ [plan]))"
    using Cons.prems(2) plan_mount_ok(2) [OF m] not_overlap_apart by (simp add: sorted_wrt_append)
  obtain new where new: "out = (plans @ [plan]) @ new" "length new = length rest"
    "\<forall>i < length rest. plan_ok dbg fs paths name sandbox (length (plans @ [plan]) + i) (fst (rest ! i)) (snd (rest ! i)) (new ! i)"
    "sorted_wrt apart (map vf_host out)"
    using Cons.IH [OF out sorted] by blast
  have "plan_ok dbg fs paths name sandbox (length plans + i) (fst ((r # rest) ! i)) (snd ((r # rest) ! i)) ((plan # new) ! i)"
    if "i < length (r # rest)" for i
    using that plan_mount_ok(1) [OF m] new(3) by (cases i) (simp_all add: r)
  then show ?case using new by (intro exI [of _ "plan # new"]) simp
qed simp

lemma show_nat_inject [simp]: "show_nat a = show_nat b \<longleftrightarrow> a = b"
proof
  assume "show_nat a = show_nat b"
  then have "from_str_radix (a + b + 1) 10 (show_nat a) = from_str_radix (a + b + 1) 10 (show_nat b)" by simp
  then show "a = b" by (simp add: from_str_radix_show split: if_splits)
qed simp

lemma fs_sockets_differ:
  assumes "machine_fs_socket dbg paths name i = Inr p" "machine_fs_socket dbg paths name j = Inr q" "i \<noteq> j"
  shows "p \<noteq> q"
proof -
  have plain: "plain_name (''fs'' @ show_nat k @ ''.sock'')" for k
    by (simp add: plain_name_def is_ascii_lowercase_def is_ascii_digit_def)
  obtain dir where "p = path_join dir (''fs'' @ show_nat i @ ''.sock'')" "q = path_join dir (''fs'' @ show_nat j @ ''.sock'')"
    using assms(1,2) unfolding machine_fs_socket_def in_dir_def by (auto simp: and_then_Inr_iff)
  then show ?thesis
    using components_join [OF plain, of dir i] components_join [OF plain, of dir j] assms(3) by auto
qed

text \<open>
  C18. Prepared sidecars cannot reach each other or a directory another user controls: there is one
  plan per mount, in order, whose command line shares exactly that mount's directory, read-only
  when the mount is; the directory and all above it are real directories no other user can
  replace; directories, guest paths, tags and sockets of different plans are different and
  disjoint, and a socket path fits the kernel's limit.
\<close>

theorem virtiofs_plans_isolated:
  assumes "prepare_virtiofs_plans_with_readiness dbg scheme fs paths manifest name architecture mounts sandbox readiness = Inr plans"
  shows "length plans = length mounts
     \<and> (\<forall>i < length mounts. path_eq (vf_host (plans ! i)) (mt_host (mounts ! i)) \<and> vf_guest (plans ! i) = mt_guest (mounts ! i)
          \<and> vf_args (plans ! i) = [''--socket-path'', vf_socket (plans ! i), ''--shared-dir'', vf_host (plans ! i), ''--sandbox'',
               sandbox_as_str sandbox, ''--cache'', ''auto'', ''--announce-submounts'']
             @ (if mt_readonly (mounts ! i) then [''--readonly''] else []) @ [''--log-level'', ''warn'']
          \<and> host_protected (vh_stat fs) (p_runtime_uid paths) ''/'' (normal_components (components (vf_host (plans ! i))))
          \<and> length (vf_socket (plans ! i)) \<le> 107)
     \<and> (\<forall>i j. i < j \<and> j < length mounts \<longrightarrow>
          vf_socket (plans ! i) \<noteq> vf_socket (plans ! j) \<and> vf_tag (plans ! i) \<noteq> vf_tag (plans ! j)
          \<and> apart (vf_host (plans ! i)) (vf_host (plans ! j)) \<and> apart (vf_guest (plans ! i)) (vf_guest (plans ! j)))"
proof -
  obtain shapes where shapes: "mount_shapes mounts = Inr shapes"
    using assms by (auto simp: prepare_virtiofs_plans_with_readiness_def and_then_Inr_iff)
  obtain tags where inv: "layout_inv mounts tags shapes"
    using mount_shapes_inv [OF shapes] by blast
  have len: "length shapes = length mounts" using inv by (simp add: layout_inv_def)
  have "length plans = length mounts
     \<and> (\<forall>i < length mounts. plan_ok dbg fs paths name sandbox i (mounts ! i) (shapes ! i) (plans ! i))
     \<and> sorted_wrt apart (map vf_host plans)"
  proof (cases "shapes = []")
    case True
    then show ?thesis using assms shapes len by (simp add: prepare_virtiofs_plans_with_readiness_def)
  next
    case False
    then obtain program where "plan_mounts dbg fs paths name program sandbox readiness [] (zip mounts shapes) = Inr plans"
      using assms shapes by (auto simp: prepare_virtiofs_plans_with_readiness_def and_then_Inr_iff)
    from plan_mounts_ok [OF this] show ?thesis using len by auto
  qed
  then have n: "length plans = length mounts" "sorted_wrt apart (map vf_host plans)"
    and ok: "\<And>i. i < length mounts \<Longrightarrow> plan_ok dbg fs paths name sandbox i (mounts ! i) (shapes ! i) (plans ! i)" by blast+
  have shape: "shapes ! i = \<lparr>sh_tag = effective_tag (mounts ! i) i, sh_guest = mt_guest (mounts ! i)\<rparr>" if "i < length mounts" for i
    using inv that by (simp add: layout_inv_def)
  have "vf_socket (plans ! i) \<noteq> vf_socket (plans ! j) \<and> vf_tag (plans ! i) \<noteq> vf_tag (plans ! j)
      \<and> apart (vf_host (plans ! i)) (vf_host (plans ! j)) \<and> apart (vf_guest (plans ! i)) (vf_guest (plans ! j))"
    if ij: "i < j" "j < length mounts" for i j
  proof -
    have i: "i < length mounts" using ij by simp
    have "distinct (map sh_tag shapes)" "sorted_wrt apart (map mt_guest mounts)" using inv by (simp_all add: layout_inv_def)
    then have "sh_tag (shapes ! i) \<noteq> sh_tag (shapes ! j)" "apart (mt_guest (mounts ! i)) (mt_guest (mounts ! j))"
      using ij len nth_eq_iff_index_eq [of "map sh_tag shapes" i j] sorted_wrt_nth_less [of apart "map mt_guest mounts" i j]
      by simp_all
    then show ?thesis
      using ok [OF i] ok [OF ij(2)] ij shape [OF i] shape [OF ij(2)] fs_sockets_differ [of dbg paths name i _ j]
        sorted_wrt_nth_less [OF n(2), of i j] n(1)
      by (auto simp: plan_ok_def)
  qed
  then show ?thesis using n(1) ok shape unfolding plan_ok_def virtiofsd_args_def by simp
qed

section \<open>The wait\<close>

definition turn_waits :: "VirtiofsPlan \<Rightarrow> nanos \<Rightarrow> VirtiofsTick \<Rightarrow> bool" where
  "turn_waits plan deadline t \<longleftrightarrow> \<not> vt_cancelled t \<and> is_ok (vt_process t)
     \<and> validate_ready_files plan (vt_stat t) = Inr False \<and> vt_now t < deadline"

definition turn_ready :: "VirtiofsPlan \<Rightarrow> VirtiofsTick \<Rightarrow> bool" where
  "turn_ready plan t \<longleftrightarrow> \<not> vt_cancelled t \<and> is_ok (vt_process t) \<and> validate_ready_files plan (vt_stat t) = Inr True"

lemma wait_turn:
  "virtiofs_wait_ready_while plan deadline (t # ts) =
     (if turn_waits plan deadline t then virtiofs_wait_ready_while plan deadline ts
      else virtiofs_wait_ready_while plan deadline [t])"
  by (auto simp: turn_waits_def is_ok_def and_then_def split: sum.splits bool.splits)

lemma wait_last_turn: "virtiofs_wait_ready_while plan deadline [t] = None \<longleftrightarrow> turn_waits plan deadline t"
  by (auto simp: turn_waits_def is_ok_def and_then_def split: sum.splits bool.splits)

lemma wait_turn_ok: "virtiofs_wait_ready_while plan deadline [t] = Some (Inr ()) \<longleftrightarrow> turn_ready plan t"
  by (auto simp: turn_ready_def is_ok_def and_then_def split: sum.splits bool.splits)

lemma ready_not_waiting: "turn_ready plan t \<Longrightarrow> \<not> turn_waits plan deadline t"
  by (simp add: turn_ready_def turn_waits_def)

lemma wait_ok_iff:
  "virtiofs_wait_ready_while plan deadline ts = Some (Inr ()) \<longleftrightarrow>
     (\<exists>k < length ts. turn_ready plan (ts ! k) \<and> (\<forall>i < k. turn_waits plan deadline (ts ! i)))"
proof (induction ts)
  case (Cons t ts)
  have "(\<exists>k < length (t # ts). turn_ready plan ((t # ts) ! k) \<and> (\<forall>i < k. turn_waits plan deadline ((t # ts) ! i)))
      \<longleftrightarrow> turn_ready plan t \<or> turn_waits plan deadline t
            \<and> (\<exists>k < length ts. turn_ready plan (ts ! k) \<and> (\<forall>i < k. turn_waits plan deadline (ts ! i)))"
    by (simp add: Ex_less_Suc2 All_less_Suc2) blast
  then show ?case
    unfolding wait_turn [of plan deadline t ts] using Cons wait_turn_ok ready_not_waiting by auto
qed simp

text \<open>A clock that runs: a turn starts no earlier than the sleep before it ends.\<close>

fun turns_run :: "VirtiofsPlan \<Rightarrow> nanos \<Rightarrow> VirtiofsTick list \<Rightarrow> bool" where
  "turns_run plan deadline (t # u # ts) \<longleftrightarrow> vt_now t + virtiofs_sleep plan deadline (vt_now t) \<le> vt_now u
     \<and> turns_run plan deadline (u # ts)"
| "turns_run plan deadline _ = True"

lemma wait_ends:
  assumes "0 < vr_poll_interval (vf_readiness plan)"
  shows "turns_run plan deadline (t # ts) \<Longrightarrow> deadline \<le> vt_now t + length ts * vr_poll_interval (vf_readiness plan)
     \<Longrightarrow> virtiofs_wait_ready_while plan deadline (t # ts) \<noteq> None"
proof (induction ts arbitrary: t)
  case Nil
  then show ?case by (simp only: wait_last_turn turn_waits_def) simp
next
  case (Cons u ts)
  let ?p = "vr_poll_interval (vf_readiness plan)"
  show ?case
  proof (cases "turn_waits plan deadline t")
    case True
    have "vt_now t + min ?p (deadline - vt_now t) \<le> vt_now u" using Cons.prems(1) by (simp add: virtiofs_sleep_def)
    then have "deadline \<le> vt_now u + length ts * ?p"
      using Cons.prems(2) by (cases "?p \<le> deadline - vt_now t") (simp_all add: algebra_simps)
    then have "virtiofs_wait_ready_while plan deadline (u # ts) \<noteq> None" using Cons.IH Cons.prems(1) by simp
    then show ?thesis unfolding wait_turn [of plan deadline t "u # ts"] using True by simp
  next
    case False
    then show ?thesis unfolding wait_turn [of plan deadline t "u # ts"] using wait_last_turn by simp
  qed
qed

text \<open>
  C19. Waiting for a sidecar ends and misses nothing: with a running clock, one turn per poll
  interval up to the deadline and one more are enough; the wait succeeds exactly when some turn
  finds the socket and the pid file published, owned and private, while every earlier turn was
  before the deadline with the launch not cancelled and the process alive.
\<close>

theorem virtiofs_wait_live:
  assumes "virtiofs_readiness_new timeout poll_interval = Inr (vf_readiness plan)"
    and "turns_run plan deadline ts" and "ts \<noteq> []"
    and "deadline \<le> vt_now (hd ts) + (length ts - 1) * poll_interval"
  shows "\<exists>r. virtiofs_wait_ready_while plan deadline ts = Some r
     \<and> (r = Inr () \<longleftrightarrow> (\<exists>k < length ts.
          (\<not> vt_cancelled (ts ! k) \<and> is_ok (vt_process (ts ! k)) \<and> validate_ready_files plan (vt_stat (ts ! k)) = Inr True)
          \<and> (\<forall>i < k. \<not> vt_cancelled (ts ! i) \<and> is_ok (vt_process (ts ! i))
               \<and> validate_ready_files plan (vt_stat (ts ! i)) = Inr False \<and> vt_now (ts ! i) < deadline)))"
proof -
  have poll: "vr_poll_interval (vf_readiness plan) = poll_interval" "0 < poll_interval"
    using assms(1) by (auto simp: virtiofs_readiness_new_def dest!: sym [of _ "vf_readiness plan"] split: if_splits)
  obtain t us where ts: "ts = t # us" using assms(3) by (cases ts) auto
  have "virtiofs_wait_ready_while plan deadline (t # us) \<noteq> None"
    by (rule wait_ends) (use assms(2,4) poll in \<open>simp_all add: ts\<close>)
  then obtain r where r: "virtiofs_wait_ready_while plan deadline ts = Some r" using ts by auto
  then have "r = Inr () \<longleftrightarrow> (\<exists>k < length ts. turn_ready plan (ts ! k) \<and> (\<forall>i < k. turn_waits plan deadline (ts ! i)))"
    using wait_ok_iff [of plan deadline ts] by simp
  then show ?thesis using r unfolding turn_ready_def turn_waits_def by blast
qed

text \<open>A plan prepared with the default bounds reaches the supervisor unchanged.\<close>

lemma virtiofs_snapshot_roundtrip:
  assumes "vf_readiness plan = virtiofs_readiness_default"
  shows "\<exists>snapshot. virtiofs_snapshot plan = Inr snapshot \<and> virtiofs_from_snapshot snapshot = Inr plan"
proof -
  have d: "DEFAULT_VIRTIOFS_READINESS_TIMEOUT div 1000000 = 10000"
    "DEFAULT_VIRTIOFS_READINESS_POLL_INTERVAL div 1000000 = 10"
    by (simp_all add: DEFAULT_VIRTIOFS_READINESS_TIMEOUT_def DEFAULT_VIRTIOFS_READINESS_POLL_INTERVAL_def)
  have "virtiofs_readiness_new (unat (of_nat 10000 :: u64) * 1000000) (unat (of_nat 10 :: u64) * 1000000)
      = Inr virtiofs_readiness_default"
    by (simp add: virtiofs_readiness_new_def virtiofs_readiness_default_def
        DEFAULT_VIRTIOFS_READINESS_TIMEOUT_def DEFAULT_VIRTIOFS_READINESS_POLL_INTERVAL_def)
  then show ?thesis
    using assms
    by (simp add: virtiofs_snapshot_def snapshot_duration_millis_def Let_def virtiofs_readiness_default_def
        virtiofs_from_snapshot_def d)
qed

section \<open>Witnesses\<close>

definition demo_plan :: VirtiofsPlan where
  "demo_plan = \<lparr>vf_index = 0, vf_tag = ''share0'', vf_host = ''/h'', vf_guest = ''/work'', vf_readonly = False,
     vf_sandbox = SandboxNamespace, vf_program = ''/d/bin/virtiofsd'', vf_args = [], vf_socket = ''/r/m/fs0.sock'',
     vf_pid_file = ''/r/m/fs0.sock.pid'', vf_log = ''/d/machines/m/virtiofsd-0.log'',
     vf_readiness = virtiofs_readiness_default, vf_owner_uid = 7\<rparr>"

definition demo_turn :: "nanos \<Rightarrow> bool \<Rightarrow> VirtiofsTick" where
  "demo_turn now published = \<lparr>vt_cancelled = False, vt_process = Inr (),
     vt_stat = (\<lambda>p. if p = ''/r/m'' then Inr \<lparr>md_kind = FileDirectory, md_uid = 7, md_mode = 0x1C0\<rparr>
        else if \<not> published then Inl \<lparr>io_kind = IoNotFound, io_text = ''none''\<rparr>
        else if p = ''/r/m/fs0.sock'' then Inr \<lparr>md_kind = FileSocket, md_uid = 7, md_mode = 0x1C0\<rparr>
        else Inr \<lparr>md_kind = FileRegular, md_uid = 7, md_mode = 0x180\<rparr>), vt_now = now\<rparr>"

theorem virtiofs_wait_live_witness:
  "virtiofs_wait_ready_while demo_plan 10000000 [demo_turn 0 False, demo_turn 10000000 True] = Some (Inr ())"
proof -
  have files: "validate_ready_files demo_plan (vt_stat (demo_turn now published)) = Inr published" for now published
    by (simp add: validate_ready_files_def demo_plan_def demo_turn_def validate_runtime_parent_def path_parent_def
        components_def is_absolute_def piece_def path_join_def Let_def permissions_def validate_socket_metadata_def
        validate_pid_metadata_def VIRTIOFSD_SOCKET_MODE_def VIRTIOFSD_PID_MODE_def)
  have new: "virtiofs_readiness_new DEFAULT_VIRTIOFS_READINESS_TIMEOUT DEFAULT_VIRTIOFS_READINESS_POLL_INTERVAL
      = Inr (vf_readiness demo_plan)"
    by (simp add: virtiofs_readiness_new_def demo_plan_def virtiofs_readiness_default_def
        DEFAULT_VIRTIOFS_READINESS_TIMEOUT_def DEFAULT_VIRTIOFS_READINESS_POLL_INTERVAL_def)
  let ?ts = "[demo_turn 0 False, demo_turn 10000000 True]"
  have turns: "vt_now (demo_turn n b) = n" "\<not> vt_cancelled (demo_turn n b)" "vt_process (demo_turn n b) = Inr ()" for n b
    by (simp_all add: demo_turn_def)
  have run: "turns_run demo_plan 10000000 ?ts" "?ts \<noteq> []"
      "10000000 \<le> vt_now (hd ?ts) + (length ?ts - 1) * DEFAULT_VIRTIOFS_READINESS_POLL_INTERVAL"
    by (simp_all add: turns virtiofs_sleep_def demo_plan_def virtiofs_readiness_default_def
        DEFAULT_VIRTIOFS_READINESS_POLL_INTERVAL_def)
  have "\<exists>k < length ?ts. (\<not> vt_cancelled (?ts ! k) \<and> is_ok (vt_process (?ts ! k))
        \<and> validate_ready_files demo_plan (vt_stat (?ts ! k)) = Inr True)
      \<and> (\<forall>i < k. \<not> vt_cancelled (?ts ! i) \<and> is_ok (vt_process (?ts ! i))
           \<and> validate_ready_files demo_plan (vt_stat (?ts ! i)) = Inr False \<and> vt_now (?ts ! i) < 10000000)"
    by (rule exI [of _ 1]) (simp add: files turns)
  then show ?thesis using virtiofs_wait_live [OF new run] by blast
qed

definition demo_virtiofs_host :: VirtiofsHost where
  "demo_virtiofs_host = \<lparr>vh_stat = (\<lambda>p.
       if p \<in> {''/r/m/fs0.sock'', ''/r/m/fs0.sock.pid'', ''/d/machines/m/virtiofsd-0.log''}
       then Inl \<lparr>io_kind = IoNotFound, io_text = ''none''\<rparr>
       else if p = ''/d/bin/virtiofsd'' then Inr \<lparr>md_kind = FileRegular, md_uid = 7, md_mode = 0x1ED\<rparr>
       else demo_stat p), vh_canonicalize = Inr\<rparr>"

definition demo_virtiofs_manifest :: DependencyManifest where
  "demo_virtiofs_manifest = \<lparr>manifest_version = 1, dependencies = [(''virtiofsd'',
     \<lparr>de_version = ''1'', de_availability = ''binary'', de_reason = None, de_architectures = None,
      de_fields = [(''x86_64'', Inr \<lparr>raw_asset = ''v'', raw_install_name = ''virtiofsd'', raw_url = ''https://h/v'',
        raw_sha256 = replicate 64 (CHR ''a'')\<rparr>)]\<rparr>)]\<rparr>"

lemma demo_virtiofs_directories:
  "validate_bin_data_directory (vh_stat demo_virtiofs_host) demo_paths = Inr ()"
  "validate_machine_data_directory id (vh_stat demo_virtiofs_host) demo_paths ''m'' = Inr ''/d/machines/m''"
  "validate_machine_runtime_dir id (vh_stat demo_virtiofs_host) demo_paths ''m'' = Inr ''/r/m''"
  "validate_owned_data_file (vh_stat demo_virtiofs_host) demo_paths ''/d/bin/virtiofsd'' l 0x1ED False = Inr ()"
  "validate_owned_data_file (vh_stat demo_virtiofs_host) demo_paths ''/d/machines/m/virtiofsd-0.log'' l 0x180 True = Inr ()"
proof -
  let ?own = "\<lparr>md_kind = FileDirectory, md_uid = 7, md_mode = 0x1C0\<rparr>"
  have st: "vh_stat demo_virtiofs_host ''/'' = Inr \<lparr>md_kind = FileDirectory, md_uid = 0, md_mode = 0x1ED\<rparr>"
    "vh_stat demo_virtiofs_host ''/d'' = Inr ?own" "vh_stat demo_virtiofs_host ''/d/bin'' = Inr ?own"
    "vh_stat demo_virtiofs_host ''/d/machines'' = Inr ?own" "vh_stat demo_virtiofs_host ''/d/machines/m'' = Inr ?own"
    by (simp_all add: demo_virtiofs_host_def demo_stat_def)
  have dirs: "validate_owned_data_directory (vh_stat demo_virtiofs_host) demo_paths ''/d'' l False = Inr ()"
    "validate_owned_data_directory (vh_stat demo_virtiofs_host) demo_paths ''/d/bin'' l False = Inr ()"
    "validate_owned_data_directory (vh_stat demo_virtiofs_host) demo_paths ''/d/machines'' l False = Inr ()"
    "validate_owned_data_directory (vh_stat demo_virtiofs_host) demo_paths ''/d/machines/m'' l False = Inr ()" for l
    by (simp_all add: owned_data_directory_accepts is_absolute_def components_def piece_def path_join_def Let_def st
        demo_paths_def)
  then show "validate_bin_data_directory (vh_stat demo_virtiofs_host) demo_paths = Inr ()"
    by (simp add: validate_bin_data_directory_def validate_owned_data_subdirectory_def bin_dir_def path_join_def
        is_absolute_def demo_paths_def [THEN arg_cong, of p_data_dir])
  show "validate_machine_data_directory id (vh_stat demo_virtiofs_host) demo_paths ''m'' = Inr ''/d/machines/m''"
    by (simp add: validate_machine_data_directory_def machines_dir_def machine_dir_iff dirs and_then_Inr_iff
        plain_name_def path_join_def is_absolute_def demo_paths_def [THEN arg_cong, of p_data_dir])
  show "validate_machine_runtime_dir id (vh_stat demo_virtiofs_host) demo_paths ''m'' = Inr ''/r/m''"
    by (simp add: validate_machine_runtime_dir_def validate_runtime_dir_def validate_runtime_prerequisites_def
        path_parent_def components_def is_absolute_def piece_def path_join_def validate_runtime_ancestry_def
        validate_directory_path_def demo_paths_def demo_stat_def demo_virtiofs_host_def trusted_ancestor_def permissions_def
        validate_directory_type_def validate_trusted_ancestor_metadata_def inspect_runtime_dir_def
        validate_runtime_metadata_def private_directory_def machine_runtime_dir_def checked_join_def
        validate_private_runtime_directory_def Let_def)
  show "validate_owned_data_file (vh_stat demo_virtiofs_host) demo_paths ''/d/bin/virtiofsd'' l 0x1ED False = Inr ()"
    using dirs(2)
    by (simp add: validate_owned_data_file_def path_parent_def components_def is_absolute_def piece_def
        path_join_def demo_virtiofs_host_def permissions_def demo_paths_def)
  show "validate_owned_data_file (vh_stat demo_virtiofs_host) demo_paths ''/d/machines/m/virtiofsd-0.log'' l 0x180 True = Inr ()"
    using dirs(4)
    by (simp add: validate_owned_data_file_def path_parent_def components_def is_absolute_def piece_def
        path_join_def demo_virtiofs_host_def)
qed

theorem virtiofs_plans_isolated_witness:
  "\<exists>plans. prepare_virtiofs_plans_with_readiness id (\<lambda>_. Some ''https'') demo_virtiofs_host demo_paths demo_virtiofs_manifest
       ''m'' X86_64 [\<lparr>mt_host = ''/h'', mt_guest = ''/work'', mt_readonly = True, mt_tag = None\<rparr>] SandboxNone
       virtiofs_readiness_default = Inr plans
     \<and> ''--readonly'' \<in> set (vf_args (plans ! 0))"
proof -
  let ?m = "\<lparr>mt_host = ''/h'', mt_guest = ''/work'', mt_readonly = True, mt_tag = None\<rparr>"
  let ?s = "\<lparr>sh_tag = ''share0'', sh_guest = ''/work''\<rparr>"
  have shapes: "mount_shapes [?m] = Inr [?s]" by code_simp
  obtain a where a: "artifact (\<lambda>_. Some ''https'') demo_virtiofs_manifest ''virtiofsd'' ''x86_64'' = Inr a"
    "da_install_name a = ''virtiofsd''" "da_dependency a = ''virtiofsd''"
  proof -
    have "is_ok (artifact (\<lambda>_. Some ''https'') demo_virtiofs_manifest ''virtiofsd'' ''x86_64'')" by code_simp
    then obtain a where a: "artifact (\<lambda>_. Some ''https'') demo_virtiofs_manifest ''virtiofsd'' ''x86_64'' = Inr a"
      by (auto simp: is_ok_iff)
    then have "da_install_name a = ''virtiofsd''" "da_dependency a = ''virtiofsd''"
      by (auto simp: artifact_def and_then_Inr_iff demo_virtiofs_manifest_def manifest_entry_def)
    then show thesis using a that by blast
  qed
  have zero: "show_nat 0 = ''0''" by code_simp
  have names: "binary_file id demo_paths ''virtiofsd'' = Inr ''/d/bin/virtiofsd''"
    "machine_fs_socket id demo_paths ''m'' 0 = Inr ''/r/m/fs0.sock''"
    "machine_fs_pid_file id demo_paths ''m'' 0 = Inr ''/r/m/fs0.sock.pid''"
    "machine_virtiofsd_log id demo_paths ''m'' 0 = Inr ''/d/machines/m/virtiofsd-0.log''"
    by (simp_all add: binary_file_def machine_fs_socket_def machine_fs_pid_file_def machine_virtiofsd_log_def in_dir_def
        machine_dir_def machine_runtime_dir_def machines_dir_def bin_dir_def checked_join_iff plain_name_def path_join_def
        is_absolute_def and_then_Inr_iff demo_paths_def zero)
  have "canonical_host_path (vh_stat demo_virtiofs_host) (vh_canonicalize demo_virtiofs_host) ''/h'' 7 0 = Inr ''/h''"
    by (simp add: canonical_host_path_def demo_virtiofs_host_def path_eq_def components_def is_absolute_def piece_def
        path_join_def validate_host_leaf_def demo_stat_def permissions_def)
  moreover have "validate_socket_path ''/r/m/fs0.sock'' = Inr ()"
    by (simp add: validate_socket_path_def is_utf8_def VHOST_USER_SOCKET_MAX_BYTES_def)
  moreover have "validate_absent_runtime_node (vh_stat demo_virtiofs_host) p t l = Inr ()"
    if "p \<in> {''/r/m/fs0.sock'', ''/r/m/fs0.sock.pid''}" for p t l
    using that by (auto simp: validate_absent_runtime_node_def demo_virtiofs_host_def)
  moreover have "p_runtime_uid demo_paths = 7" by (simp add: demo_paths_def)
  ultimately have "is_ok (plan_mount id demo_virtiofs_host demo_paths ''m'' ''/d/bin/virtiofsd'' SandboxNone
      virtiofs_readiness_default [] 0 ?m ?s)"
    by (simp add: plan_mount_def names refuse_canonical_overlap_def demo_virtiofs_directories)
  then obtain plan where "plan_mount id demo_virtiofs_host demo_paths ''m'' ''/d/bin/virtiofsd'' SandboxNone
      virtiofs_readiness_default [] 0 ?m ?s = Inr plan" by (auto simp: is_ok_iff)
  moreover have "expected_mode a = 0x1ED" using a(3) by (simp add: expected_mode_def executable_def)
  ultimately have p: "prepare_virtiofs_plans_with_readiness id (\<lambda>_. Some ''https'') demo_virtiofs_host demo_paths
      demo_virtiofs_manifest ''m'' X86_64 [?m] SandboxNone virtiofs_readiness_default = Inr [plan]"
    by (simp add: prepare_virtiofs_plans_with_readiness_def shapes a names demo_virtiofs_directories)
  then show ?thesis using virtiofs_plans_isolated [OF p] by simp
qed

end
