(* ===== verification/Json_Overlay.thy ===== *)
theory Json_Overlay
  imports Json Btree
begin

text \<open>
  The operations on JSON documents behind \<open>vmm.config_overlay\<close>, from
  \<^verbatim>\<open>firestone-core/src/vmm.rs\<close>: the RFC 7396 merge patch, the check that a document still contains
  everything another one requires, and the canonical order of keys. A \<open>serde_json\<close> object is an
  ordered map, so the documents of the program satisfy \<open>json_wf\<close>.
\<close>

section \<open>Operations of \<open>serde_json::Value\<close>\<close>

fun as_object :: "json \<Rightarrow> (string \<times> json) list option" where
  "as_object (JObject es) = Some es"
| "as_object _ = None"

fun as_array :: "json \<Rightarrow> json list option" where
  "as_array (JArray xs) = Some xs"
| "as_array _ = None"

definition map_remove :: "string \<Rightarrow> (string \<times> json) list \<Rightarrow> (string \<times> json) list" where
  "map_remove k es = (case btree_remove k es of None \<Rightarrow> es | Some (_, es') \<Rightarrow> es')"

text \<open>The index of an array token: decimal without sign or leading zero.\<close>

definition parse_index :: "string \<Rightarrow> nat option" where
  "parse_index s =
     (if starts_with ''+'' s \<or> starts_with ''0'' s \<and> length s \<noteq> 1 then None
      else from_str_radix (2 ^ 64) 10 s)"

fun json_at :: "json \<Rightarrow> string list \<Rightarrow> json option" where
  "json_at v [] = Some v"
| "json_at (JObject es) (token # tokens) =
     (case map_of es token of None \<Rightarrow> None | Some v \<Rightarrow> json_at v tokens)"
| "json_at (JArray xs) (token # tokens) =
     (case parse_index token of
        None \<Rightarrow> None
      | Some i \<Rightarrow> if i < length xs then json_at (xs ! i) tokens else None)"
| "json_at _ (token # tokens) = None"

text \<open>\<open>str::replace\<close> of a two-character pattern.\<close>

fun replace2 :: "char \<Rightarrow> char \<Rightarrow> char \<Rightarrow> string \<Rightarrow> string" where
  "replace2 a b c (x # y # s) = (if x = a \<and> y = b then c # replace2 a b c s else x # replace2 a b c (y # s))"
| "replace2 a b c s = s"

definition unescape_token :: "string \<Rightarrow> string" where
  "unescape_token s = replace2 (CHR ''~'') (CHR ''0'') (CHR ''~'') (replace2 (CHR ''~'') (CHR ''1'') (CHR ''/'') s)"

definition json_pointer :: "json \<Rightarrow> string \<Rightarrow> json option" where
  "json_pointer v p =
     (if p = [] then Some v
      else if \<not> starts_with ''/'' p then None
      else json_at v (map unescape_token (tl (split_on (CHR ''/'') p))))"

section \<open>The merge patch\<close>

fun apply_merge_patch :: "json \<Rightarrow> json \<Rightarrow> json"
and merge_entries :: "(string \<times> json) list \<Rightarrow> (string \<times> json) list \<Rightarrow> (string \<times> json) list" where
  "apply_merge_patch target (JObject patch_object) =
     JObject (merge_entries (case as_object target of Some es \<Rightarrow> es | None \<Rightarrow> []) patch_object)"
| "apply_merge_patch target patch = patch"
| "merge_entries target [] = target"
| "merge_entries target ((key, patch_value) # rest) =
     (if patch_value = JNull then merge_entries (map_remove key target) rest
      else merge_entries
             (btree_insert key
               (apply_merge_patch (case map_of target key of Some v \<Rightarrow> v | None \<Rightarrow> JNull) patch_value) target) rest)"

section \<open>What a document requires of another\<close>

definition object_path :: "string \<Rightarrow> string \<Rightarrow> string" where
  "object_path parent key = (if parent = [] then key else parent @ ''.'' @ key)"

definition display_path :: "string \<Rightarrow> string" where
  "display_path path = (if path = [] then ''<root>'' else path)"

fun required_subset :: "json \<Rightarrow> json \<Rightarrow> string \<Rightarrow> (string, unit) result"
and required_entries :: "(string \<times> json) list \<Rightarrow> (string \<times> json) list \<Rightarrow> string \<Rightarrow> (string, unit) result"
and required_items :: "nat \<Rightarrow> json list \<Rightarrow> json list \<Rightarrow> string \<Rightarrow> (string, unit) result" where
  "required_subset (JObject required_object) candidate path =
     (case as_object candidate of
        None \<Rightarrow> Inl (display_path path)
      | Some candidate_object \<Rightarrow> required_entries required_object candidate_object path)"
| "required_subset (JArray required_array) candidate path =
     (case as_array candidate of
        None \<Rightarrow> Inl (display_path path)
      | Some candidate_array \<Rightarrow>
          if length candidate_array < length required_array then Inl (display_path path)
          else required_items 0 required_array candidate_array path)"
| "required_subset required candidate path =
     (if required = candidate then Inr () else Inl (display_path path))"
| "required_entries [] candidate_object path = Inr ()"
| "required_entries ((key, required_value) # rest) candidate_object path =
     (case map_of candidate_object key of
        None \<Rightarrow> Inl (object_path path key)
      | Some candidate_value \<Rightarrow>
          and_then (required_subset required_value candidate_value (object_path path key)) (\<lambda>_.
          required_entries rest candidate_object path))"
| "required_items i [] candidate_array path = Inr ()"
| "required_items i (required_value # rest) candidate_array path =
     and_then (required_subset required_value (candidate_array ! i)
       (display_path path @ ''['' @ show_nat i @ '']'')) (\<lambda>_.
     required_items (i + 1) rest candidate_array path)"

section \<open>Canonical order\<close>

fun sort_json :: "json \<Rightarrow> json" where
  "sort_json (JObject es) =
     JObject (foldl (\<lambda>es (k, v). btree_insert k v es) []
       (map (\<lambda>(k, v). (k, sort_json v)) (sort_key fst es)))"
| "sort_json (JArray xs) = JArray (map sort_json xs)"
| "sort_json v = v"

section \<open>Well-formed documents\<close>

fun json_wf :: "json \<Rightarrow> bool" where
  "json_wf (JObject es) \<longleftrightarrow> btree_wf es \<and> (\<forall>e \<in> set es. json_wf (snd e))"
| "json_wf (JArray xs) \<longleftrightarrow> (\<forall>x \<in> set xs. json_wf x)"
| "json_wf _ = True"

lemma map_of_map_remove:
  assumes "btree_wf es"
  shows "map_of (map_remove k es) = (map_of es)(k := None)" and "btree_wf (map_remove k es)"
    and "set (map_remove k es) \<subseteq> set es"
proof -
  have "map_of (map_remove k es) = (map_of es)(k := None) \<and> btree_wf (map_remove k es) \<and> set (map_remove k es) \<subseteq> set es"
    using assms
  proof (induction es)
    case (Cons e es)
    obtain k' v where e: "e = (k', v)" by (cases e)
    show ?case
    proof (cases "k = k'")
      case True
      moreover have "map_of es k = None"
        using Cons.prems True by (auto simp: e map_of_eq_None_iff)
      ultimately show ?thesis using Cons.prems by (auto simp: e map_remove_def fun_eq_iff)
    next
      case False
      then have step: "map_remove k (e # es) = e # map_remove k es"
        by (simp add: e map_remove_def split: option.split prod.split)
      have IH: "map_of (map_remove k es) = (map_of es)(k := None)" "btree_wf (map_remove k es)" "set (map_remove k es) \<subseteq> set es"
        using Cons by (auto simp: e)
      show ?thesis unfolding step using IH Cons.prems False by (auto simp: e)
    qed
  qed (simp add: map_remove_def)
  then show "map_of (map_remove k es) = (map_of es)(k := None)" "btree_wf (map_remove k es)" "set (map_remove k es) \<subseteq> set es"
    by blast+
qed

text \<open>The ordered maps stay ordered: a patched document of ordered maps is one.\<close>

lemma json_wf_insert:
  "btree_wf es \<Longrightarrow> (\<forall>e \<in> set es. json_wf (snd e)) \<Longrightarrow> json_wf v \<Longrightarrow> (\<forall>e \<in> set (btree_insert k v es). json_wf (snd e))"
  using set_btree_insert [of _ k v es] by fastforce

lemma json_wf_lookup: "(\<forall>e \<in> set es. json_wf (snd e)) \<Longrightarrow> map_of es k = Some v \<Longrightarrow> json_wf v"
  using map_of_SomeD [of es k v] by fastforce

lemma merge_patch_wf:
  "json_wf target \<Longrightarrow> json_wf patch \<Longrightarrow> json_wf (apply_merge_patch target patch)"
  "btree_wf es \<Longrightarrow> (\<forall>e \<in> set es. json_wf (snd e)) \<Longrightarrow> (\<forall>e \<in> set ps. json_wf (snd e)) \<Longrightarrow>
     btree_wf (merge_entries es ps) \<and> (\<forall>e \<in> set (merge_entries es ps). json_wf (snd e))"
proof (induction target patch and es ps rule: apply_merge_patch_merge_entries.induct)
  case (1 target po)
  then show ?case by (cases target) auto
next
  case (4 target key pv rest)
  show ?case
  proof (cases "pv = JNull")
    case True
    then show ?thesis
      using 4(1) [OF True] map_of_map_remove [OF 4(4), of key] 4(5,6) by auto
  next
    case False
    let ?old = "case map_of target key of Some v \<Rightarrow> v | None \<Rightarrow> JNull"
    have "json_wf ?old" using 4(5) json_wf_lookup by (auto split: option.split)
    then have "json_wf (apply_merge_patch ?old pv)" using 4(2) [OF False] 4(6) by simp
    then show ?thesis
      using 4(3) [OF False] False json_wf_insert [OF 4(4,5)] btree_insert_wf [OF 4(4)] 4(6) by simp
  qed
qed auto

text \<open>
  RFC 7396 pointwise: in the patched object a name absent from the patch keeps its member, a
  null removes it, and any other value patches the member recursively.
\<close>

lemma merge_entries_lookup:
  assumes "btree_wf es" and "distinct (map fst ps)"
  shows "map_of (merge_entries es ps) k =
     (case map_of ps k of
        None \<Rightarrow> map_of es k
      | Some JNull \<Rightarrow> None
      | Some pv \<Rightarrow> Some (apply_merge_patch (case map_of es k of Some v \<Rightarrow> v | None \<Rightarrow> JNull) pv))"
  using assms
proof (induction ps arbitrary: es)
  case (Cons p ps)
  obtain key pv where p: "p = (key, pv)" by (cases p)
  have fresh: "map_of ps key = None" using Cons.prems(2) by (simp add: p map_of_eq_None_iff)
  show ?case
  proof (cases "pv = JNull")
    case True
    then show ?thesis
      using Cons.IH [of "map_remove key es"] map_of_map_remove [OF Cons.prems(1), of key] Cons.prems(2) fresh
      by (auto simp: p split: option.split json.split)
  next
    case False
    let ?new = "apply_merge_patch (case map_of es key of Some v \<Rightarrow> v | None \<Rightarrow> JNull) pv"
    have "map_of (merge_entries es (p # ps)) k = map_of (merge_entries (btree_insert key ?new es) ps) k"
      using False by (simp add: p)
    also have "\<dots> = (case map_of ps k of None \<Rightarrow> map_of (btree_insert key ?new es) k | Some JNull \<Rightarrow> None
        | Some pv \<Rightarrow> Some (apply_merge_patch (case map_of (btree_insert key ?new es) k of Some v \<Rightarrow> v | None \<Rightarrow> JNull) pv))"
      using Cons.IH [of "btree_insert key ?new es"] btree_insert_wf [OF Cons.prems(1)] Cons.prems(2) by simp
    finally show ?thesis
      using fresh False by (cases "k = key") (auto simp: p split: option.split json.split)
  qed
qed simp

section \<open>Canonical documents\<close>

lemma foldl_insert_wf: "btree_wf es \<Longrightarrow> btree_wf (foldl (\<lambda>es (k, v). btree_insert k v es) es xs)"
  by (induction xs arbitrary: es) (auto split: prod.split)

lemma btree_insert_last:
  "btree_wf (es @ [(k, v)]) \<Longrightarrow> btree_insert k v es = es @ [(k, v)]"
proof (induction es)
  case (Cons e es)
  then show ?case by (cases e) (auto simp: btree_wf_def)
qed simp

lemma foldl_insert_sorted: "btree_wf (es @ xs) \<Longrightarrow> foldl (\<lambda>es (k, v). btree_insert k v es) es xs = es @ xs"
proof (induction xs arbitrary: es)
  case (Cons x xs)
  obtain k v where x: "x = (k, v)" by (cases x)
  have "btree_wf (es @ [(k, v)])" using Cons.prems by (simp add: x btree_wf_def sorted_wrt_append)
  then show ?case using Cons.IH [of "es @ [x]"] Cons.prems by (simp add: x btree_insert_last)
qed simp

lemma sort_json_id: "json_wf v \<Longrightarrow> sort_json v = v"
proof (induction v rule: sort_json.induct)
  case (1 es)
  have wf: "btree_wf es" using 1(2) by simp
  then have "sorted (map fst es)" by (simp add: btree_wf_def strict_sorted_iff)
  then have sorted: "sort_key fst es = es" by (rule sort_key_id_if_sorted)
  have "map (\<lambda>(k, v). (k, sort_json v)) es = es"
    using 1 by (intro map_idI) (fastforce simp: sorted)
  then show ?case using foldl_insert_sorted [of "[]" es] wf by (simp add: sorted)
qed (auto intro: map_idI)

section \<open>What the requirement keeps\<close>

text \<open>A required scalar is unchanged, an object stays an object, an array an array that is no shorter.\<close>

fun keeps :: "json \<Rightarrow> json \<Rightarrow> bool" where
  "keeps (JObject _) w \<longleftrightarrow> is_object w"
| "keeps (JArray xs) w \<longleftrightarrow> (case as_array w of None \<Rightarrow> False | Some ys \<Rightarrow> length xs \<le> length ys)"
| "keeps v w \<longleftrightarrow> w = v"

definition keeps_all :: "json \<Rightarrow> json \<Rightarrow> bool" where
  "keeps_all required candidate \<longleftrightarrow>
     (\<forall>tokens v. json_at required tokens = Some v \<longrightarrow> (\<exists>w. json_at candidate tokens = Some w \<and> keeps v w))"

lemma keeps_all_object:
  assumes "\<And>k r. map_of es k = Some r \<Longrightarrow> \<exists>c. map_of ces k = Some c \<and> keeps_all r c"
  shows "keeps_all (JObject es) (JObject ces)"
  unfolding keeps_all_def
proof (intro allI impI)
  fix tokens v assume at: "json_at (JObject es) tokens = Some v"
  show "\<exists>w. json_at (JObject ces) tokens = Some w \<and> keeps v w"
  proof (cases tokens)
    case Nil
    then show ?thesis using at by auto
  next
    case (Cons k rest)
    then obtain r where r: "map_of es k = Some r" "json_at r rest = Some v" using at by (auto split: option.splits)
    obtain c where "map_of ces k = Some c" "keeps_all r c" using assms [OF r(1)] by blast
    then show ?thesis using r(2) Cons by (auto simp: keeps_all_def)
  qed
qed

lemma keeps_all_array:
  assumes "length xs \<le> length ys" and "\<And>i. i < length xs \<Longrightarrow> keeps_all (xs ! i) (ys ! i)"
  shows "keeps_all (JArray xs) (JArray ys)"
  unfolding keeps_all_def
proof (intro allI impI)
  fix tokens v assume "json_at (JArray xs) tokens = Some v"
  then show "\<exists>w. json_at (JArray ys) tokens = Some w \<and> keeps v w"
    using assms by (cases tokens) (auto simp: keeps_all_def split: option.splits if_splits)
qed

lemma keeps_all_scalar: "\<not> is_object v \<Longrightarrow> as_array v = None \<Longrightarrow> keeps_all v v"
  unfolding keeps_all_def by (intro allI impI, case_tac tokens; cases v) auto

lemma required_subset_keeps:
  "required_subset r c path = Inr () \<Longrightarrow> keeps_all r c"
  "required_entries es ces path = Inr () \<Longrightarrow> map_of es k = Some r' \<Longrightarrow> \<exists>c. map_of ces k = Some c \<and> keeps_all r' c"
  "required_items i rs cs path = Inr () \<Longrightarrow> j < length rs \<Longrightarrow> keeps_all (rs ! j) (cs ! (i + j))"
proof (induction r c path and es ces path and i rs cs path arbitrary: and k r' and j
    rule: required_subset_required_entries_required_items.induct)
  case (1 es c path)
  then show ?case by (cases c) (auto intro: keeps_all_object)
next
  case (2 xs c path)
  then show ?case by (cases c) (auto intro!: keeps_all_array split: if_splits)
next
  case (5 key rv rest ces path)
  then show ?case by (auto simp: and_then_Inr_iff split: option.splits if_splits)
next
  case (7 i rv rest cs path)
  then show ?case by (cases j) (auto simp: and_then_Inr_iff)
qed (auto intro: keeps_all_scalar split: if_splits)

text \<open>A document meets its own requirement.\<close>

lemma required_entries_refl:
  "\<forall>e \<in> set es. map_of all (fst e) = Some (snd e) \<and> (\<forall>path. required_subset (snd e) (snd e) path = Inr ())
     \<Longrightarrow> required_entries es all path = Inr ()"
proof (induction es)
  case (Cons e es)
  then show ?case by (cases e) simp
qed simp

lemma required_items_refl:
  "\<forall>j < length xs. ys ! (i + j) = xs ! j \<and> (\<forall>path. required_subset (xs ! j) (xs ! j) path = Inr ())
     \<Longrightarrow> required_items i xs ys path = Inr ()"
proof (induction xs arbitrary: i)
  case (Cons x xs)
  have "\<forall>j < length xs. ys ! (i + 1 + j) = xs ! j \<and> (\<forall>path. required_subset (xs ! j) (xs ! j) path = Inr ())"
    using Cons.prems by (auto dest: spec [of _ "Suc _"])
  moreover have "ys ! i = x" "required_subset x x path' = Inr ()" for path'
    using Cons.prems [rule_format, of 0] by simp_all
  ultimately show ?case using Cons.IH [of "i + 1"] by simp
qed simp

lemma required_subset_refl: "json_wf r \<Longrightarrow> required_subset r r path = Inr ()"
proof (induction r arbitrary: path rule: json_wf.induct)
  case (1 es)
  then have "\<forall>e \<in> set es. map_of es (fst e) = Some (snd e) \<and> (\<forall>path. required_subset (snd e) (snd e) path = Inr ())"
    by (auto simp: btree_wf_distinct)
  from required_entries_refl [OF this] show ?case by simp
next
  case (2 xs)
  have "\<forall>j < length xs. xs ! (0 + j) = xs ! j \<and> (\<forall>path. required_subset (xs ! j) (xs ! j) path = Inr ())"
    using 2 by simp
  from required_items_refl [OF this] show ?case by simp
qed simp_all

section \<open>Patching twice is patching once\<close>

lemma btree_ext:
  assumes "btree_wf xs" "btree_wf ys" "map_of xs = map_of ys"
  shows "xs = ys"
proof (rule map_sorted_distinct_set_unique)
  have "set xs = {(k, v). map_of xs k = Some v}" "set ys = {(k, v). map_of ys k = Some v}"
    using assms(1,2) by (auto simp: btree_wf_distinct)
  then show same: "set xs = set ys" using assms(3) by simp
  show "inj_on fst (set xs \<union> set ys)" using btree_wf_distinct [OF assms(1)] by (simp add: same [symmetric] distinct_map)
  show "sorted (map fst xs)" "distinct (map fst xs)" "sorted (map fst ys)" "distinct (map fst ys)"
    using assms(1,2) by (simp_all add: btree_wf_def strict_sorted_iff)
qed

lemma merge_patch_idempotent:
  "json_wf p \<Longrightarrow> json_wf t \<Longrightarrow> apply_merge_patch (apply_merge_patch t p) p = apply_merge_patch t p"
proof (induction p arbitrary: t rule: json_wf.induct)
  case (1 ps)
  let ?es = "case as_object t of Some es \<Rightarrow> es | None \<Rightarrow> []"
  have es: "btree_wf ?es" "\<forall>e \<in> set ?es. json_wf (snd e)" using 1(3) by (cases t; simp)+
  have ps: "distinct (map fst ps)" "\<forall>e \<in> set ps. json_wf (snd e)" using 1(2) by (simp_all add: btree_wf_distinct)
  define out where "out = merge_entries ?es ps"
  have out: "btree_wf out" "\<forall>e \<in> set out. json_wf (snd e)" using merge_patch_wf(2) [OF es ps(2)] by (simp_all add: out_def)
  have "map_of (merge_entries out ps) k = map_of out k" for k
  proof (cases "map_of ps k")
    case None
    then show ?thesis using merge_entries_lookup [OF out(1) ps(1), of k] by simp
  next
    case (Some pv)
    have mem: "(k, pv) \<in> set ps" using Some by (rule map_of_SomeD)
    let ?old = "case map_of ?es k of Some v \<Rightarrow> v | None \<Rightarrow> JNull"
    have "json_wf ?old" using json_wf_lookup [OF es(2), of k] by (cases "map_of ?es k") simp_all
    then have again: "apply_merge_patch (apply_merge_patch ?old pv) pv = apply_merge_patch ?old pv"
      using 1(1) [OF mem] ps(2) mem by fastforce
    have "map_of out k = (if pv = JNull then None else Some (apply_merge_patch ?old pv))"
      unfolding out_def using merge_entries_lookup [OF es(1) ps(1), of k] Some by (cases pv) simp_all
    then show ?thesis
      using merge_entries_lookup [OF out(1) ps(1), of k] Some again by (cases pv) simp_all
  qed
  then have "merge_entries out ps = out"
    using btree_ext merge_patch_wf(2) [OF out ps(2)] out(1) by blast
  then show ?case by (simp add: out_def)
qed simp_all

end
