(* ===== verification/Vmm_Config.thy ===== *)
theory Vmm_Config
  imports Virtiofs Json_Overlay Machine_State
begin

text \<open>
  The document sent to Cloud Hypervisor, \<^verbatim>\<open>firestone-core/src/vmm.rs\<close>: the payload a machine boots,
  the typed configuration built from the spec, the state and the sidecar plans, its JSON form, the
  overlay the user may merge into it, and the checks that keep the fields Firestone owns. Encoding
  to bytes (\<open>serde_json::to_vec\<close>) and the atomic file writer are arguments.
\<close>

section \<open>Inputs\<close>

definition DIRECT_BOOT_CMDLINE :: string where
  "DIRECT_BOOT_CMDLINE = ''console=hvc0 console=ttyS0 root=/dev/vda rw init=/sbin/firestone-init''"

datatype ImageKind = KindDisk | KindOci

fun image_kind_as_str :: "ImageKind \<Rightarrow> string" where
  "image_kind_as_str KindDisk = ''disk''"
| "image_kind_as_str KindOci = ''oci''"

definition is_disk :: "ImageKind \<Rightarrow> bool" where "is_disk k \<longleftrightarrow> k = KindDisk"
definition is_oci :: "ImageKind \<Rightarrow> bool" where "is_oci k \<longleftrightarrow> k = KindOci"

record VmConfigInput =
  vi_name :: string
  vi_spec :: MachineSpec
  vi_state :: MachineState
  vi_network :: NetworkPlan
  vi_filesystems :: "VirtiofsPlan list"
  vi_architecture :: Arch
  vi_catalog_firmware :: "CatalogFirmware option"
  vi_image_kind :: ImageKind

record CanonicalVmConfig =
  vc_value :: json
  vc_bytes :: "u8 list"

text \<open>What the builder reads of the host: the digest, the failing calls and the files of the helpers.\<close>

record VmmHost =
  vm_dbg :: "string \<Rightarrow> string"
  vm_scheme :: "string \<Rightarrow> string option"
  vm_sha256 :: "u8 list \<Rightarrow> string"
  vm_failing :: failures
  vm_stat :: stat_fn
  vm_files :: files

section \<open>The typed configuration\<close>

record CpusConfig =
  cc_boot_vcpus :: u32
  cc_max_vcpus :: u32

record MemoryConfig =
  mc_size :: u64
  mc_shared :: bool
  mc_hotplug_size :: "u64 option"

record PayloadConfig =
  pl_firmware :: "string option"
  pl_kernel :: "string option"
  pl_cmdline :: "string option"

datatype ImageType = Qcow2 | Raw

record DiskConfig =
  dc_path :: string
  dc_readonly :: "bool option"
  dc_image_type :: ImageType
  dc_backing_files :: "bool option"

datatype VhostMode = VhostClient

record NetConfig =
  nc_tap :: "string option"
  nc_mac :: MacAddr
  nc_ip :: "IpAddr option"
  nc_mask :: "IpAddr option"
  nc_vhost_user :: "bool option"
  nc_vhost_socket :: "string option"
  nc_vhost_mode :: "VhostMode option"

record FsConfig =
  fc_tag :: string
  fc_socket :: string
  fc_num_queues :: nat
  fc_queue_size :: u16

record VsockConfig =
  vk_cid :: u32
  vk_socket :: string

datatype ConsoleMode = ModeFile | ModePty

record SerialConfig =
  se_mode :: ConsoleMode
  se_file :: string

record ConsoleConfig =
  co_mode :: ConsoleMode

record RngConfig =
  rg_src :: string

record VmConfig =
  vg_cpus :: CpusConfig
  vg_memory :: MemoryConfig
  vg_payload :: PayloadConfig
  vg_disks :: "DiskConfig list"
  vg_net :: "NetConfig list option"
  vg_fs :: "FsConfig list option"
  vg_vsock :: VsockConfig
  vg_serial :: SerialConfig
  vg_console :: ConsoleConfig
  vg_rng :: RngConfig

definition utf8_path :: "string \<Rightarrow> string \<Rightarrow> (FirestoneError, string) result" where
  "utf8_path path fld =
     (if is_utf8 path then Inr path
      else Inl (with_hint ''use a UTF-8 Firestone runtime directory''
             (error_new InvalidSpec (fld @ '' path '' @ quoted path @ '' is not UTF-8''))))"

definition net_from_plan :: "NetworkPlan \<Rightarrow> (FirestoneError, NetConfig list option) result" where
  "net_from_plan plan =
     (case plan of
        PlanNone \<Rightarrow> Inr None
      | PlanPasst plan \<Rightarrow>
          and_then (utf8_path (oe_path (pp_socket plan)) ''passt vhost-user socket'') (\<lambda>socket.
          Inr (Some [\<lparr>nc_tap = None, nc_mac = pp_mac plan, nc_ip = None, nc_mask = None, nc_vhost_user = Some True,
             nc_vhost_socket = Some socket, nc_vhost_mode = Some VhostClient\<rparr>]))
      | PlanTap plan \<Rightarrow>
          Inr (Some [\<lparr>nc_tap = Some (tp_name plan), nc_mac = tp_mac plan, nc_ip = tp_ip plan, nc_mask = tp_mask plan,
             nc_vhost_user = None, nc_vhost_socket = None, nc_vhost_mode = None\<rparr>]))"

definition fs_from_plan :: "VirtiofsPlan \<Rightarrow> FsConfig" where
  "fs_from_plan plan = \<lparr>fc_tag = vf_tag plan, fc_socket = vf_socket plan, fc_num_queues = VIRTIOFS_NUM_QUEUES,
     fc_queue_size = VIRTIOFS_QUEUE_SIZE\<rparr>"

definition base_vm_config ::
  "(string \<Rightarrow> string) \<Rightarrow> Paths \<Rightarrow> VmConfigInput \<Rightarrow> PayloadConfig \<Rightarrow> (FirestoneError, VmConfig) result" where
  "base_vm_config dbg paths input payload =
     and_then (net_from_plan (vi_network input)) (\<lambda>net.
     if st_cid (vi_state input) \<noteq> 3
     then Inl (with_hint ''persist vsock CID 3 before building VmConfig''
            (error_new InvalidSpec (''machine state must use fixed vsock CID 3, found ''
               @ show_nat (unat (st_cid (vi_state input))))))
     else
       let fs = (if vi_filesystems input = [] then None else Some (map fs_from_plan (vi_filesystems input)));
           vcpus = (ucast (ms_cpus (vi_spec input)) :: u32);
           max_vcpus = (ucast (case ms_cpus_max (vi_spec input) of Some c \<Rightarrow> c | None \<Rightarrow> ms_cpus (vi_spec input)) :: u32);
           memory = as_bytes (ms_memory (vi_spec input));
           hotplug_size = map_option (\<lambda>memory_max. if as_bytes memory_max < memory then 0 else as_bytes memory_max - memory)
             (ms_memory_max (vi_spec input))
       in and_then (machine_disk dbg paths (vi_name input)) (\<lambda>disk.
          and_then (if is_oci (vi_image_kind input) then machine_config_image dbg paths (vi_name input)
                    else machine_seed_image dbg paths (vi_name input)) (\<lambda>second.
          and_then (machine_vsock_socket dbg paths (vi_name input)) (\<lambda>vsock.
          and_then (machine_console_log dbg paths (vi_name input)) (\<lambda>log.
          Inr \<lparr>vg_cpus = \<lparr>cc_boot_vcpus = vcpus, cc_max_vcpus = max_vcpus\<rparr>,
               vg_memory = \<lparr>mc_size = memory, mc_shared = True, mc_hotplug_size = hotplug_size\<rparr>,
               vg_payload = payload,
               vg_disks = [\<lparr>dc_path = disk, dc_readonly = None, dc_image_type = Qcow2, dc_backing_files = Some True\<rparr>,
                 \<lparr>dc_path = second, dc_readonly = Some True, dc_image_type = Raw, dc_backing_files = None\<rparr>],
               vg_net = net, vg_fs = fs,
               vg_vsock = \<lparr>vk_cid = st_cid (vi_state input), vk_socket = vsock\<rparr>,
               vg_serial = \<lparr>se_mode = ModeFile, se_file = log\<rparr>,
               vg_console = \<lparr>co_mode = ModePty\<rparr>, vg_rng = \<lparr>rg_src = ''/dev/urandom''\<rparr>\<rparr>)))))"

section \<open>The payload\<close>

datatype EffectiveFirmware = EffRhf | EffEdk2 | EffCustom string

definition effective_firmware :: "Firmware \<Rightarrow> Arch \<Rightarrow> CatalogFirmware option \<Rightarrow> EffectiveFirmware" where
  "effective_firmware firmware architecture catalog_firmware =
     (case as_path firmware of
        Some path \<Rightarrow> EffCustom path
      | None \<Rightarrow>
          if firmware = FwRhf then EffRhf
          else if firmware = FwEdk2 then EffEdk2
          else case (case catalog_firmware of
                       Some c \<Rightarrow> c
                     | None \<Rightarrow> (case architecture of X86_64 \<Rightarrow> CatalogRhf | Aarch64 \<Rightarrow> CatalogEdk2)) of
                 CatalogRhf \<Rightarrow> EffRhf
               | CatalogEdk2 \<Rightarrow> EffEdk2)"

definition require_auto_firmware_for_direct_boot :: "Firmware \<Rightarrow> (FirestoneError, unit) result" where
  "require_auto_firmware_for_direct_boot firmware =
     (if firmware = FwAuto then Inr ()
      else Inl (with_hint ''remove vmm.firmware, or leave it `auto`, for an OCI machine''
             (with_field ''vmm.firmware'' (error_new InvalidSpec (''vmm.firmware `'' @ firmware_display firmware
                @ ''` cannot be used by an OCI machine: it boots the pinned kernel directly'')))))"

definition require_custom_firmware :: "stat_fn \<Rightarrow> string \<Rightarrow> (FirestoneError, unit) result" where
  "require_custom_firmware stat path =
     and_then (map_err (\<lambda>_. with_hint ''correct vmm.firmware to an existing regular file''
         (error_new InvalidSpec (''firmware file '' @ path @ '' is unavailable''))) (stat path)) (\<lambda>metadata.
     ensure (md_kind metadata = FileRegular)
       (with_hint ''set vmm.firmware to an existing regular file''
         (error_new InvalidSpec (''firmware path '' @ path @ '' is not a regular file''))))"

definition installed_firmware :: "VmmHost \<Rightarrow> Paths \<Rightarrow> DependencyArtifact \<Rightarrow> (FirestoneError, string) result" where
  "installed_firmware host paths a =
     verified_pinned_artifact (vm_dbg host) (vm_sha256 host) (vm_failing host) (vm_stat host) paths (vm_files host) a"

definition resolve_payload ::
  "VmmHost \<Rightarrow> Paths \<Rightarrow> DependencyManifest \<Rightarrow> VmConfigInput \<Rightarrow> (FirestoneError, PayloadConfig) result" where
  "resolve_payload host paths manifest input =
     (let firmware = vs_firmware (ms_vmm (vi_spec input));
          architecture = arch_as_str (vi_architecture input)
      in if is_oci (vi_image_kind input)
         then and_then (require_auto_firmware_for_direct_boot firmware) (\<lambda>_.
              and_then (direct_boot_kernel (vm_scheme host) manifest architecture) (\<lambda>a.
              and_then (installed_firmware host paths a) (\<lambda>path.
              Inr \<lparr>pl_firmware = None, pl_kernel = Some path, pl_cmdline = Some DIRECT_BOOT_CMDLINE\<rparr>)))
         else case effective_firmware firmware (vi_architecture input) (vi_catalog_firmware input) of
                EffRhf \<Rightarrow>
                  and_then (artifact (vm_scheme host) manifest ''rust-hypervisor-firmware'' architecture) (\<lambda>a.
                  and_then (installed_firmware host paths a) (\<lambda>path.
                  Inr \<lparr>pl_firmware = None, pl_kernel = Some path, pl_cmdline = None\<rparr>))
              | EffEdk2 \<Rightarrow>
                  and_then (artifact (vm_scheme host) manifest ''cloud-hypervisor-edk2'' architecture) (\<lambda>a.
                  and_then (installed_firmware host paths a) (\<lambda>path.
                  Inr \<lparr>pl_firmware = Some path, pl_kernel = None, pl_cmdline = None\<rparr>))
              | EffCustom path \<Rightarrow>
                  if \<not> is_absolute path
                  then Inl (with_hint ''resolve custom firmware through Paths before building VmConfig''
                         (error_new InvalidSpec (''custom firmware path '' @ quoted path @ '' is not absolute'')))
                  else and_then (require_custom_firmware (vm_stat host) path) (\<lambda>_.
                         Inr \<lparr>pl_firmware = Some path, pl_kernel = None, pl_cmdline = None\<rparr>))"

definition selected_pinned_firmware ::
  "(string \<Rightarrow> string option) \<Rightarrow> DependencyManifest \<Rightarrow> Firmware \<Rightarrow> Arch \<Rightarrow> CatalogFirmware option
   \<Rightarrow> (FirestoneError, DependencyArtifact option) result" where
  "selected_pinned_firmware scheme manifest firmware architecture catalog_firmware =
     (case effective_firmware firmware architecture catalog_firmware of
        EffRhf \<Rightarrow> and_then (artifact scheme manifest ''rust-hypervisor-firmware'' (arch_as_str architecture)) (\<lambda>a. Inr (Some a))
      | EffEdk2 \<Rightarrow> and_then (artifact scheme manifest ''cloud-hypervisor-edk2'' (arch_as_str architecture)) (\<lambda>a. Inr (Some a))
      | EffCustom _ \<Rightarrow> Inr None)"

definition selected_pinned_boot_artifact ::
  "(string \<Rightarrow> string option) \<Rightarrow> DependencyManifest \<Rightarrow> Firmware \<Rightarrow> Arch \<Rightarrow> CatalogFirmware option \<Rightarrow> ImageKind
   \<Rightarrow> (FirestoneError, DependencyArtifact option) result" where
  "selected_pinned_boot_artifact scheme manifest firmware architecture catalog_firmware image_kind =
     (if is_oci image_kind
      then and_then (require_auto_firmware_for_direct_boot firmware) (\<lambda>_.
           and_then (direct_boot_kernel scheme manifest (arch_as_str architecture)) (\<lambda>a. Inr (Some a)))
      else selected_pinned_firmware scheme manifest firmware architecture catalog_firmware)"

section \<open>The JSON form\<close>

text \<open>The derived \<open>Serialize\<close>: an object of the members that are not skipped, in key order.\<close>

definition put_member :: "string \<Rightarrow> json option \<Rightarrow> (string \<times> json) list \<Rightarrow> (string \<times> json) list" where
  "put_member k v es = (case v of None \<Rightarrow> es | Some v \<Rightarrow> btree_insert k v es)"

fun put_members :: "(string \<times> json) list \<Rightarrow> (string \<times> json option) list \<Rightarrow> (string \<times> json) list" where
  "put_members es [] = es"
| "put_members es ((k, v) # members) = put_members (put_member k v es) members"

definition json_object :: "(string \<times> json option) list \<Rightarrow> json" where
  "json_object members = JObject (put_members [] members)"

text \<open>A path that is not UTF-8 cannot be serialized.\<close>

definition path_json :: "string \<Rightarrow> (unit, json) result" where
  "path_json p = (if is_utf8 p then Inr (JString p) else Inl ())"

fun opt_json :: "('a \<Rightarrow> (unit, json) result) \<Rightarrow> 'a option \<Rightarrow> (unit, json option) result" where
  "opt_json f None = Inr None"
| "opt_json f (Some x) = and_then (f x) (\<lambda>v. Inr (Some v))"

definition word_json :: "('a::len) word \<Rightarrow> json" where
  "word_json w = JInt (int (unat w))"

fun image_type_json :: "ImageType \<Rightarrow> json" where
  "image_type_json Qcow2 = JString ''Qcow2''"
| "image_type_json Raw = JString ''Raw''"

fun console_mode_json :: "ConsoleMode \<Rightarrow> json" where
  "console_mode_json ModeFile = JString ''File''"
| "console_mode_json ModePty = JString ''Pty''"

definition payload_json :: "PayloadConfig \<Rightarrow> (unit, json) result" where
  "payload_json p =
     and_then (opt_json path_json (pl_firmware p)) (\<lambda>firmware.
     and_then (opt_json path_json (pl_kernel p)) (\<lambda>kernel.
     Inr (json_object [(''firmware'', firmware), (''kernel'', kernel), (''cmdline'', map_option JString (pl_cmdline p))])))"

definition disk_json :: "DiskConfig \<Rightarrow> (unit, json) result" where
  "disk_json d =
     and_then (path_json (dc_path d)) (\<lambda>path.
     Inr (json_object [(''path'', Some path), (''readonly'', map_option JBool (dc_readonly d)),
       (''image_type'', Some (image_type_json (dc_image_type d))),
       (''backing_files'', map_option JBool (dc_backing_files d))]))"

definition net_json :: "NetConfig \<Rightarrow> json" where
  "net_json n =
     json_object [(''tap'', map_option JString (nc_tap n)), (''mac'', Some (JString (mac_display (nc_mac n)))),
       (''ip'', map_option (\<lambda>a. JString (ip_display a)) (nc_ip n)),
       (''mask'', map_option (\<lambda>a. JString (ip_display a)) (nc_mask n)),
       (''vhost_user'', map_option JBool (nc_vhost_user n)), (''vhost_socket'', map_option JString (nc_vhost_socket n)),
       (''vhost_mode'', map_option (\<lambda>_. JString ''Client'') (nc_vhost_mode n))]"

definition fs_json :: "FsConfig \<Rightarrow> (unit, json) result" where
  "fs_json f =
     and_then (path_json (fc_socket f)) (\<lambda>socket.
     Inr (json_object [(''tag'', Some (JString (fc_tag f))), (''socket'', Some socket),
       (''num_queues'', Some (JInt (int (fc_num_queues f)))), (''queue_size'', Some (word_json (fc_queue_size f)))]))"

definition vm_config_json :: "VmConfig \<Rightarrow> (unit, json) result" where
  "vm_config_json g =
     and_then (payload_json (vg_payload g)) (\<lambda>payload.
     and_then (map_r disk_json (vg_disks g)) (\<lambda>disks.
     and_then (opt_json (\<lambda>fs. and_then (map_r fs_json fs) (\<lambda>xs. Inr (JArray xs))) (vg_fs g)) (\<lambda>fs.
     and_then (path_json (vk_socket (vg_vsock g))) (\<lambda>vsock.
     and_then (path_json (se_file (vg_serial g))) (\<lambda>serial.
     and_then (path_json (rg_src (vg_rng g))) (\<lambda>rng.
     Inr (json_object
       [(''cpus'', Some (json_object [(''boot_vcpus'', Some (word_json (cc_boot_vcpus (vg_cpus g)))),
           (''max_vcpus'', Some (word_json (cc_max_vcpus (vg_cpus g))))])),
        (''memory'', Some (json_object [(''size'', Some (word_json (mc_size (vg_memory g)))),
           (''shared'', Some (JBool (mc_shared (vg_memory g)))),
           (''hotplug_size'', map_option word_json (mc_hotplug_size (vg_memory g)))])),
        (''payload'', Some payload), (''disks'', Some (JArray disks)),
        (''net'', map_option (\<lambda>ns. JArray (map net_json ns)) (vg_net g)), (''fs'', fs),
        (''vsock'', Some (json_object [(''cid'', Some (word_json (vk_cid (vg_vsock g)))), (''socket'', Some vsock)])),
        (''serial'', Some (json_object [(''mode'', Some (console_mode_json (se_mode (vg_serial g)))), (''file'', Some serial)])),
        (''console'', Some (json_object [(''mode'', Some (console_mode_json (co_mode (vg_console g))))])),
        (''rng'', Some (json_object [(''src'', Some rng)]))])))))))"

section \<open>The checks of the overlay\<close>

definition required_overlay_error :: "string \<Rightarrow> FirestoneError" where
  "required_overlay_error path =
     with_hint ''remove that overlay change; Firestone owns required boot and sidecar fields''
       (error_new InvalidSpec (''vmm.config_overlay changes required VmConfig field `'' @ path @ ''`''))"

definition display_component :: "string \<Rightarrow> string \<Rightarrow> string" where
  "display_component display component =
     (if list_all is_ascii_digit component then display @ ''['' @ component @ '']''
      else (if display = [] then display else display @ ''.'') @ component)"

definition display_pointer :: "string \<Rightarrow> string" where
  "display_pointer p = foldl display_component [] (split_on (CHR ''/'') (dropWhile (\<lambda>c. c = CHR ''/'') p))"

definition require_false_or_absent :: "json \<Rightarrow> string \<Rightarrow> (FirestoneError, unit) result" where
  "require_false_or_absent candidate p =
     (case json_pointer candidate p of
        None \<Rightarrow> Inr ()
      | Some (JBool False) \<Rightarrow> Inr ()
      | Some _ \<Rightarrow> Inl (required_overlay_error (display_pointer p)))"

definition require_absent :: "json \<Rightarrow> string \<Rightarrow> (FirestoneError, unit) result" where
  "require_absent candidate p =
     (if json_pointer candidate p = None then Inr () else Inl (required_overlay_error (display_pointer p)))"

definition validate_required_defaults :: "json \<Rightarrow> VmConfigInput \<Rightarrow> (FirestoneError, unit) result" where
  "validate_required_defaults candidate input =
     and_then (for_each (require_false_or_absent candidate)
         [''/disks/0/readonly'', ''/disks/0/vhost_user'', ''/disks/1/backing_files'', ''/disks/1/vhost_user'']) (\<lambda>_.
     case vi_network input of
       PlanPasst _ \<Rightarrow> for_each (require_absent candidate) [''/net/0/tap'', ''/net/0/ip'', ''/net/0/mask'']
     | PlanTap _ \<Rightarrow>
         and_then (require_false_or_absent candidate ''/net/0/vhost_user'') (\<lambda>_.
         for_each (require_absent candidate) [''/net/0/ip'', ''/net/0/mask'', ''/net/0/vhost_socket''])
     | PlanNone \<Rightarrow> Inr ())"

definition contains_key :: "string \<Rightarrow> (string \<times> json) list \<Rightarrow> bool" where
  "contains_key k es \<longleftrightarrow> map_of es k \<noteq> None"

definition validate_payload_keys :: "(string \<times> json) list \<Rightarrow> (string \<times> json) list \<Rightarrow> (FirestoneError, unit) result" where
  "validate_payload_keys required_payload payload =
     (if contains_key ''kernel'' required_payload \<and> contains_key ''firmware'' payload
      then Inl (required_overlay_error ''payload.firmware'')
      else if contains_key ''firmware'' required_payload \<and> contains_key ''kernel'' payload
      then Inl (required_overlay_error ''payload.kernel'')
      else if \<not> contains_key ''cmdline'' required_payload \<and> contains_key ''cmdline'' payload
      then Inl (required_overlay_error ''payload.cmdline'')
      else Inr ())"

definition json_get :: "json \<Rightarrow> string \<Rightarrow> json option" where
  "json_get v k = (case as_object v of None \<Rightarrow> None | Some es \<Rightarrow> map_of es k)"

definition validate_required_invariants :: "json \<Rightarrow> json \<Rightarrow> VmConfigInput \<Rightarrow> (FirestoneError, unit) result" where
  "validate_required_invariants base candidate input =
     and_then (map_err required_overlay_error (required_subset base candidate [])) (\<lambda>_.
     and_then (validate_required_defaults candidate input) (\<lambda>_.
     case as_object candidate of
       None \<Rightarrow> Inl (required_overlay_error ''<root>'')
     | Some es \<Rightarrow>
         if vi_network input = PlanNone \<and> contains_key ''net'' es then Inl (required_overlay_error ''net'')
         else if vi_filesystems input = [] \<and> contains_key ''fs'' es then Inl (required_overlay_error ''fs'')
         else (case (Option.bind (map_of es ''payload'') as_object,
                     Option.bind (json_get base ''payload'') as_object) of
                 (Some payload, Some required_payload) \<Rightarrow> validate_payload_keys required_payload payload
               | _ \<Rightarrow> Inr ())))"

section \<open>The canonical document\<close>

definition base_value ::
  "VmmHost \<Rightarrow> Paths \<Rightarrow> DependencyManifest \<Rightarrow> VmConfigInput \<Rightarrow> (FirestoneError, json) result" where
  "base_value host paths manifest input =
     and_then (resolve_payload host paths manifest input) (\<lambda>payload.
     and_then (base_vm_config (vm_dbg host) paths input payload) (\<lambda>typed.
     map_err (\<lambda>_. with_hint ''use UTF-8 paths in the machine configuration''
       (error_new InvalidSpec (''cannot serialize Cloud Hypervisor VmConfig for machine `'' @ vi_name input @ ''`'')))
       (vm_config_json typed)))"

definition merge_overlay :: "json \<Rightarrow> json option \<Rightarrow> (FirestoneError, json) result" where
  "merge_overlay base overlay =
     (case overlay of
        None \<Rightarrow> Inr base
      | Some overlay \<Rightarrow>
          if \<not> is_object overlay
          then Inl (with_hint ''use an RFC 7396 object merge patch''
                 (error_new InvalidSpec ''vmm.config_overlay must be a JSON object''))
          else Inr (apply_merge_patch base overlay))"

definition canonical_vm_config ::
  "(json \<Rightarrow> (unit, u8 list) result) \<Rightarrow> VmmHost \<Rightarrow> Paths \<Rightarrow> DependencyManifest \<Rightarrow> VmConfigInput
   \<Rightarrow> (FirestoneError, CanonicalVmConfig) result" where
  "canonical_vm_config to_vec host paths manifest input =
     and_then (base_value host paths manifest input) (\<lambda>base.
     and_then (merge_overlay base (vs_config_overlay (ms_vmm (vi_spec input)))) (\<lambda>merged.
     and_then (validate_required_invariants base merged input) (\<lambda>_.
     let canonical = sort_json merged
     in and_then (map_err (\<lambda>_. with_hint ''the generated vmconfig.json was not changed''
          (error_new Generic (''cannot encode canonical Cloud Hypervisor VmConfig for machine `'' @ vi_name input @ ''`'')))
          (to_vec canonical)) (\<lambda>bytes. Inr \<lparr>vc_value = canonical, vc_bytes = bytes\<rparr>))))"

definition publish_vm_config ::
  "(json \<Rightarrow> (unit, u8 list) result) \<Rightarrow> (string \<Rightarrow> u8 list \<Rightarrow> u32 \<Rightarrow> (FirestoneError, unit) result) \<Rightarrow> VmmHost \<Rightarrow> Paths
   \<Rightarrow> DependencyManifest \<Rightarrow> VmConfigInput \<Rightarrow> (FirestoneError, CanonicalVmConfig) result" where
  "publish_vm_config to_vec write_with_mode host paths manifest input =
     and_then (canonical_vm_config to_vec host paths manifest input) (\<lambda>config.
     and_then (validate_machine_data_directory (vm_dbg host) (vm_stat host) paths (vi_name input)) (\<lambda>_.
     and_then (machine_vmconfig (vm_dbg host) paths (vi_name input)) (\<lambda>path.
     and_then (write_with_mode path (vc_bytes config) 0x180) (\<lambda>_. Inr config))))"

section \<open>The base document\<close>

lemma map_of_put_member: "map_of (put_member k v es) k' = (if k' = k \<and> v \<noteq> None then v else map_of es k')"
  by (auto simp: put_member_def split: option.split)

definition member_wf :: "string \<times> json option \<Rightarrow> bool" where
  "member_wf m \<longleftrightarrow> pred_option json_wf (snd m)"

lemma member_wf_simps [simp]:
  "member_wf (k, None)" "member_wf (k, Some v) \<longleftrightarrow> json_wf v"
  "member_wf (k, map_option f x) \<longleftrightarrow> pred_option (\<lambda>a. json_wf (f a)) x"
  by (simp_all add: member_wf_def option.pred_map comp_def)

lemma put_members_wf:
  assumes "btree_wf es" "\<forall>e \<in> set es. json_wf (snd e)" "list_all member_wf members"
  shows "btree_wf (put_members es members) \<and> (\<forall>e \<in> set (put_members es members). json_wf (snd e))"
  using assms
proof (induction members arbitrary: es)
  case (Cons m members)
  obtain k v where m: "m = (k, v)" by (cases m)
  have "btree_wf (put_member k v es) \<and> (\<forall>e \<in> set (put_member k v es). json_wf (snd e))"
  proof (cases v)
    case (Some x)
    then have "json_wf x" using Cons.prems(3) m by simp
    then show ?thesis
      using json_wf_insert [OF Cons.prems(1,2), of x k] btree_insert_wf [OF Cons.prems(1)] Some by (simp add: put_member_def)
  qed (use Cons.prems in \<open>simp add: put_member_def\<close>)
  then show ?case using Cons.IH [of "put_member k v es"] Cons.prems(3) unfolding m put_members.simps by simp
qed simp

lemma json_object_wf [simp]: "list_all member_wf members \<Longrightarrow> json_wf (json_object members)"
  using put_members_wf [of "[]" members] by (simp add: json_object_def)

lemma scalar_json_wf [simp]:
  "json_wf (word_json w)" "json_wf (image_type_json t)" "json_wf (console_mode_json m)"
  by (simp_all add: word_json_def image_type_json.simps, (cases t; simp), (cases m; simp))

lemma path_json_ok: "path_json p = Inr v \<longleftrightarrow> is_utf8 p \<and> v = JString p"
  by (auto simp: path_json_def)

lemma opt_json_ok: "opt_json f x = Inr y \<longleftrightarrow> (case x of None \<Rightarrow> y = None | Some a \<Rightarrow> \<exists>v. f a = Inr v \<and> y = Some v)"
  by (cases x) (auto simp: and_then_Inr_iff)

lemma payload_json_wf: "payload_json p = Inr v \<Longrightarrow> json_wf v"
  unfolding payload_json_def
  by (auto simp: and_then_Inr_iff opt_json_ok path_json_ok option.pred_True split: option.splits)

lemma disk_json_wf: "disk_json d = Inr v \<Longrightarrow> json_wf v"
  unfolding disk_json_def by (auto simp: and_then_Inr_iff path_json_ok option.pred_True)

lemma net_json_wf: "json_wf (net_json n)"
  unfolding net_json_def by (simp add: option.pred_True)

lemma fs_json_wf: "fs_json f = Inr v \<Longrightarrow> json_wf v"
  unfolding fs_json_def by (auto simp: and_then_Inr_iff path_json_ok)

lemma map_r_wf:
  assumes "map_r f xs = Inr ys" and "\<And>x y. f x = Inr y \<Longrightarrow> json_wf y"
  shows "json_wf (JArray ys)"
proof -
  have "list_all2 (\<lambda>x y. f x = Inr y) xs ys" using assms(1) by (simp add: map_r_Inr_iff)
  then show ?thesis by (induction rule: list_all2_induct) (use assms(2) in auto)
qed

text \<open>The members of the base document the properties speak of.\<close>

lemma base_value_shape:
  assumes "base_value host paths manifest input = Inr base"
  obtains g :: VmConfig and payload d0 d1 where
    "json_wf base" "is_object base"
    "json_at base [''payload''] = Some payload" "payload_json (vg_payload g) = Inr payload"
    "resolve_payload host paths manifest input = Inr (vg_payload g)"
    "json_at base [''disks''] = Some (JArray [d0, d1])"
    "json_at d0 [''readonly''] = None" "json_at d0 [''vhost_user''] = None"
    "json_at d1 [''backing_files''] = None" "json_at d1 [''vhost_user''] = None"
    "net_from_plan (vi_network input) = Inr (vg_net g)"
    "json_at base [''net''] = map_option (\<lambda>ns. JArray (map net_json ns)) (vg_net g)"
    "json_at base [''fs''] = None \<longleftrightarrow> vi_filesystems input = []"
    "\<And>k. k \<notin> {''cpus'', ''memory'', ''payload'', ''disks'', ''net'', ''fs'', ''vsock'', ''serial'', ''console'', ''rng''}
       \<Longrightarrow> json_at base [k] = None"
proof -
  from assms obtain pl g where pl: "resolve_payload host paths manifest input = Inr pl"
    and g: "base_vm_config (vm_dbg host) paths input pl = Inr g" and j: "vm_config_json g = Inr base"
    by (auto simp: base_value_def and_then_Inr_iff)
  from g obtain disk second where net: "net_from_plan (vi_network input) = Inr (vg_net g)"
    and disks: "vg_disks g = [\<lparr>dc_path = disk, dc_readonly = None, dc_image_type = Qcow2, dc_backing_files = Some True\<rparr>,
        \<lparr>dc_path = second, dc_readonly = Some True, dc_image_type = Raw, dc_backing_files = None\<rparr>]"
    and gp: "vg_payload g = pl"
    and fs: "vg_fs g = (if vi_filesystems input = [] then None else Some (map fs_from_plan (vi_filesystems input)))"
    by (auto simp: base_vm_config_def and_then_Inr_iff Let_def split: if_splits)
  obtain payload ds fs' vsock serial rng where parts: "payload_json (vg_payload g) = Inr payload"
      "map_r disk_json (vg_disks g) = Inr ds"
      "opt_json (\<lambda>fs. and_then (map_r fs_json fs) (\<lambda>xs. Inr (JArray xs))) (vg_fs g) = Inr fs'"
      "path_json (vk_socket (vg_vsock g)) = Inr vsock" "path_json (se_file (vg_serial g)) = Inr serial"
      "path_json (rg_src (vg_rng g)) = Inr rng"
    and base: "base = json_object
       [(''cpus'', Some (json_object [(''boot_vcpus'', Some (word_json (cc_boot_vcpus (vg_cpus g)))),
           (''max_vcpus'', Some (word_json (cc_max_vcpus (vg_cpus g))))])),
        (''memory'', Some (json_object [(''size'', Some (word_json (mc_size (vg_memory g)))),
           (''shared'', Some (JBool (mc_shared (vg_memory g)))),
           (''hotplug_size'', map_option word_json (mc_hotplug_size (vg_memory g)))])),
        (''payload'', Some payload), (''disks'', Some (JArray ds)),
        (''net'', map_option (\<lambda>ns. JArray (map net_json ns)) (vg_net g)), (''fs'', fs'),
        (''vsock'', Some (json_object [(''cid'', Some (word_json (vk_cid (vg_vsock g)))), (''socket'', Some vsock)])),
        (''serial'', Some (json_object [(''mode'', Some (console_mode_json (se_mode (vg_serial g)))), (''file'', Some serial)])),
        (''console'', Some (json_object [(''mode'', Some (console_mode_json (co_mode (vg_console g))))])),
        (''rng'', Some (json_object [(''src'', Some rng)]))]"
    using j unfolding vm_config_json_def by (auto simp: and_then_Inr_iff)
  have wf: "json_wf base"
    unfolding base
  proof (rule json_object_wf)
    have "pred_option json_wf fs'"
    proof (cases "vg_fs g")
      case (Some plans)
      then obtain xs where "map_r fs_json plans = Inr xs" "fs' = Some (JArray xs)"
        using parts(3) by (auto simp: opt_json_ok and_then_Inr_iff)
      then show ?thesis using map_r_wf [of fs_json plans xs] fs_json_wf by simp
    qed (use parts(3) in \<open>simp add: opt_json_ok\<close>)
    moreover have "json_wf vsock" "json_wf serial" "json_wf rng" using parts(4-6) by (auto simp: path_json_ok)
    ultimately show "list_all member_wf 
        [(''cpus'', Some (json_object [(''boot_vcpus'', Some (word_json (cc_boot_vcpus (vg_cpus g)))),
           (''max_vcpus'', Some (word_json (cc_max_vcpus (vg_cpus g))))])),
        (''memory'', Some (json_object [(''size'', Some (word_json (mc_size (vg_memory g)))),
           (''shared'', Some (JBool (mc_shared (vg_memory g)))),
           (''hotplug_size'', map_option word_json (mc_hotplug_size (vg_memory g)))])),
        (''payload'', Some payload), (''disks'', Some (JArray ds)),
        (''net'', map_option (\<lambda>ns. JArray (map net_json ns)) (vg_net g)), (''fs'', fs'),
        (''vsock'', Some (json_object [(''cid'', Some (word_json (vk_cid (vg_vsock g)))), (''socket'', Some vsock)])),
        (''serial'', Some (json_object [(''mode'', Some (console_mode_json (se_mode (vg_serial g)))), (''file'', Some serial)])),
        (''console'', Some (json_object [(''mode'', Some (console_mode_json (co_mode (vg_console g))))])),
        (''rng'', Some (json_object [(''src'', Some rng)]))]"
      using payload_json_wf [OF parts(1)] map_r_wf [OF parts(2) disk_json_wf] net_json_wf
      by (simp add: member_wf_def [of "(''fs'', fs')"] option.pred_True)
  qed
  obtain d0 d1 where ds: "ds = [d0, d1]" "disk_json \<lparr>dc_path = disk, dc_readonly = None, dc_image_type = Qcow2, dc_backing_files = Some True\<rparr> = Inr d0"
      "disk_json \<lparr>dc_path = second, dc_readonly = Some True, dc_image_type = Raw, dc_backing_files = None\<rparr> = Inr d1"
    using parts(2) by (auto simp: disks and_then_Inr_iff)
  show thesis
  proof (rule that [OF wf])
    show "is_object base" by (simp add: base json_object_def)
    show "json_at base [''payload''] = Some payload" "json_at base [''disks''] = Some (JArray [d0, d1])"
      "json_at base [''net''] = map_option (\<lambda>ns. JArray (map net_json ns)) (vg_net g)"
      by (simp_all add: base json_object_def map_of_put_member ds(1) split: option.split)
    show "payload_json (vg_payload g) = Inr payload" by (fact parts(1))
    show "resolve_payload host paths manifest input = Inr (vg_payload g)" using pl gp by simp
    show "net_from_plan (vi_network input) = Inr (vg_net g)" by (fact net)
    show "json_at d0 [''readonly''] = None" "json_at d0 [''vhost_user''] = None"
      using ds(2) by (auto simp: disk_json_def and_then_Inr_iff json_object_def map_of_put_member)
    show "json_at d1 [''backing_files''] = None" "json_at d1 [''vhost_user''] = None"
      using ds(3) by (auto simp: disk_json_def and_then_Inr_iff json_object_def map_of_put_member)
    have "fs' = None \<longleftrightarrow> vg_fs g = None" using parts(3) by (auto simp: opt_json_ok split: option.splits)
    then show "json_at base [''fs''] = None \<longleftrightarrow> vi_filesystems input = []"
      by (simp add: base json_object_def map_of_put_member fs split: option.split)
    show "json_at base [k] = None"
      if "k \<notin> {''cpus'', ''memory'', ''payload'', ''disks'', ''net'', ''fs'', ''vsock'', ''serial'', ''console'', ''rng''}" for k
      using that by (simp add: base json_object_def map_of_put_member)
  qed
qed

section \<open>The overlay cannot change what Firestone owns\<close>

lemma pointer_paths:
  "json_pointer v ''/disks/0/readonly'' = json_at v [''disks'', ''0'', ''readonly'']"
  "json_pointer v ''/disks/0/vhost_user'' = json_at v [''disks'', ''0'', ''vhost_user'']"
  "json_pointer v ''/disks/1/backing_files'' = json_at v [''disks'', ''1'', ''backing_files'']"
  "json_pointer v ''/disks/1/vhost_user'' = json_at v [''disks'', ''1'', ''vhost_user'']"
  "json_pointer v ''/net/0/tap'' = json_at v [''net'', ''0'', ''tap'']"
  "json_pointer v ''/net/0/ip'' = json_at v [''net'', ''0'', ''ip'']"
  "json_pointer v ''/net/0/mask'' = json_at v [''net'', ''0'', ''mask'']"
  "json_pointer v ''/net/0/vhost_user'' = json_at v [''net'', ''0'', ''vhost_user'']"
  "json_pointer v ''/net/0/vhost_socket'' = json_at v [''net'', ''0'', ''vhost_socket'']"
  by (simp_all add: json_pointer_def starts_with_def unescape_token_def)

lemma require_false_or_absent_ok:
  "require_false_or_absent v p = Inr () \<longleftrightarrow> json_pointer v p \<in> {None, Some (JBool False)}"
  by (auto simp: require_false_or_absent_def split: option.splits json.splits bool.splits)

lemma require_absent_ok: "require_absent v p = Inr () \<longleftrightarrow> json_pointer v p = None"
  by (simp add: require_absent_def)

lemma resolve_payload_one:
  "resolve_payload host paths manifest input = Inr p \<Longrightarrow> (pl_kernel p = None) \<noteq> (pl_firmware p = None)"
  by (auto simp: resolve_payload_def Let_def and_then_Inr_iff split: if_splits EffectiveFirmware.splits)

lemma payload_members:
  assumes "payload_json p = Inr v"
  shows "json_at v [''kernel''] = map_option JString (pl_kernel p)"
    "json_at v [''firmware''] = map_option JString (pl_firmware p)"
    "json_at v [''cmdline''] = map_option JString (pl_cmdline p)" "is_object v"
  using assms unfolding payload_json_def
  by (auto simp: and_then_Inr_iff opt_json_ok path_json_ok json_object_def map_of_put_member split: option.splits)

lemma merge_overlay_wf:
  assumes "merge_overlay base overlay = Inr merged" "json_wf base" "\<forall>o'. overlay = Some o' \<longrightarrow> json_wf o'"
  shows "json_wf merged"
  using assms merge_patch_wf(1) by (auto simp: merge_overlay_def split: option.splits if_splits)

lemma object_member: "as_object v = Some es \<Longrightarrow> json_at v (k # ks) = (case map_of es k of None \<Rightarrow> None | Some w \<Rightarrow> json_at w ks)"
  by (cases v) auto

lemma keeps_string: "keeps (JString s) w \<longleftrightarrow> w = JString s"
  by auto

text \<open>Exactly one of kernel and firmware is required, and the payload keys cannot be exchanged.\<close>

lemma payload_keys_kept:
  assumes "keeps_all (JObject required) (JObject payload)" "validate_payload_keys required payload = Inr ()"
    and "map_of required ''kernel'' = map_option JString kn" "map_of required ''firmware'' = map_option JString fw"
    and "map_of required ''cmdline'' = map_option JString cl" "(kn = None) \<noteq> (fw = None)"
    and "k \<in> {''kernel'', ''firmware'', ''cmdline''}"
  shows "map_of payload k = map_of required k"
proof -
  have kept: "map_of payload k' = Some (JString s)" if "map_of required k' = Some (JString s)" for k' s
    using assms(1) that unfolding keeps_all_def
    by (auto dest!: spec [of _ "[k']"] split: option.splits)
  show ?thesis
    using assms(2-7) kept
    by (auto simp: validate_payload_keys_def contains_key_def split: if_splits option.splits; fastforce)
qed

lemma invariants_ok:
  assumes "validate_required_invariants base candidate input = Inr ()"
  obtains es where "as_object candidate = Some es" "keeps_all base candidate"
    "validate_required_defaults candidate input = Inr ()"
    "vi_network input = PlanNone \<Longrightarrow> map_of es ''net'' = None" "vi_filesystems input = [] \<Longrightarrow> map_of es ''fs'' = None"
    "\<And>payload required. map_of es ''payload'' = Some (JObject payload) \<Longrightarrow> json_get base ''payload'' = Some (JObject required)
       \<Longrightarrow> validate_payload_keys required payload = Inr ()"
proof -
  from assms have sub: "required_subset base candidate [] = Inr ()" and d: "validate_required_defaults candidate input = Inr ()"
    by (simp_all add: validate_required_invariants_def and_then_Inr_iff)
  from assms obtain es where es: "as_object candidate = Some es"
    by (auto simp: validate_required_invariants_def and_then_Inr_iff split: option.splits)
  have "vi_network input = PlanNone \<Longrightarrow> map_of es ''net'' = None" "vi_filesystems input = [] \<Longrightarrow> map_of es ''fs'' = None"
    using assms es by (auto simp: validate_required_invariants_def and_then_Inr_iff contains_key_def split: if_splits)
  moreover have "validate_payload_keys required payload = Inr ()"
    if "map_of es ''payload'' = Some (JObject payload)" "json_get base ''payload'' = Some (JObject required)" for payload required
    using assms es that by (auto simp: validate_required_invariants_def and_then_Inr_iff split: if_splits)
  ultimately show thesis using that [OF es required_subset_keeps(1) [OF sub] d] by blast
qed

lemma keeps_all_member:
  assumes "keeps_all base candidate" "json_at base [k] = Some v" "json_at candidate [k] = Some w"
  shows "keeps_all v w"
proof -
  have "json_at base (k # tokens) = json_at v tokens" for tokens
    using assms(2) by (cases base) (auto split: option.splits if_splits)
  moreover have "json_at candidate (k # tokens) = json_at w tokens" for tokens
    using assms(3) by (cases candidate) (auto split: option.splits if_splits)
  ultimately show ?thesis using assms(1) unfolding keeps_all_def by metis
qed

text \<open>
  C16. The overlay cannot take from Firestone what it owns. In every configuration that is produced,
  each scalar the base document has, at any depth, is present unchanged, objects and arrays stay
  such and no array lost a required element; the boot payload is exactly the base's, so the boot mode
  cannot be flipped; no network or shared-directory device appears on a machine planned without
  one; and the system disk is not made read-only.
\<close>

theorem overlay_keeps_owned_fields:
  assumes "canonical_vm_config to_vec host paths manifest input = Inr config"
    and "\<forall>overlay. vs_config_overlay (ms_vmm (vi_spec input)) = Some overlay \<longrightarrow> json_wf overlay"
  shows "\<exists>base. base_value host paths manifest input = Inr base
     \<and> (\<forall>tokens v. json_at base tokens = Some v \<longrightarrow> (\<exists>w. json_at (vc_value config) tokens = Some w \<and> keeps v w))
     \<and> (\<forall>k \<in> {''kernel'', ''firmware'', ''cmdline''}.
          json_at (vc_value config) [''payload'', k] = json_at base [''payload'', k])
     \<and> (vi_network input = PlanNone \<longrightarrow> json_at (vc_value config) [''net''] = None)
     \<and> (vi_filesystems input = [] \<longrightarrow> json_at (vc_value config) [''fs''] = None)
     \<and> json_at (vc_value config) [''disks'', ''0'', ''readonly''] \<in> {None, Some (JBool False)}"
proof -
  from assms(1) obtain base merged where base: "base_value host paths manifest input = Inr base"
    and merged: "merge_overlay base (vs_config_overlay (ms_vmm (vi_spec input))) = Inr merged"
    and inv: "validate_required_invariants base merged input = Inr ()" and cfg: "vc_value config = sort_json merged"
    by (auto simp: canonical_vm_config_def and_then_Inr_iff Let_def)
  from base obtain g :: VmConfig and payload where wf: "json_wf base" and obj: "is_object base"
    and pl: "json_at base [''payload''] = Some payload" "payload_json (vg_payload g) = Inr payload"
      "resolve_payload host paths manifest input = Inr (vg_payload g)"
    by (rule base_value_shape)
  have out: "vc_value config = merged" using cfg sort_json_id merge_overlay_wf [OF merged wf] assms(2) by simp
  from inv obtain es where es: "as_object merged = Some es" and keep: "keeps_all base merged"
    and defaults: "validate_required_defaults merged input = Inr ()"
    and none: "vi_network input = PlanNone \<Longrightarrow> map_of es ''net'' = None" "vi_filesystems input = [] \<Longrightarrow> map_of es ''fs'' = None"
    and keys: "\<And>payload required. map_of es ''payload'' = Some (JObject payload) \<Longrightarrow> json_get base ''payload'' = Some (JObject required)
       \<Longrightarrow> validate_payload_keys required payload = Inr ()"
    by (rule invariants_ok) blast
  obtain required where req: "payload = JObject required" using payload_members(4) [OF pl(2)] by (cases payload) auto
  obtain w where w: "json_at merged [''payload''] = Some w" "keeps payload w" using keep pl(1) unfolding keeps_all_def by blast
  then obtain out_payload where op: "w = JObject out_payload" using req by (cases w) auto
  have kp: "keeps_all (JObject required) (JObject out_payload)"
    using keeps_all_member [OF keep pl(1) w(1)] by (simp add: req op)
  have "map_of es ''payload'' = Some (JObject out_payload)" using w(1) es op by (simp add: object_member split: option.splits)
  moreover have "json_get base ''payload'' = Some (JObject required)"
    using pl(1) req obj by (cases base) (auto simp: json_get_def split: option.splits)
  ultimately have vk: "validate_payload_keys required out_payload = Inr ()" by (rule keys)
  have "map_of out_payload k = map_of required k" if "k \<in> {''kernel'', ''firmware'', ''cmdline''}" for k
    using payload_keys_kept [OF kp vk _ _ _ resolve_payload_one [OF pl(3)] that] payload_members(1-3) [OF pl(2)]
    by (simp add: req split: option.splits)
  moreover have "json_at merged [''payload'', k] = map_of out_payload k" "json_at base [''payload'', k] = map_of required k" for k
    using w(1) pl(1) by (cases merged; cases base; auto simp: op req split: option.splits if_splits)+
  moreover have "json_at merged [''disks'', ''0'', ''readonly''] \<in> {None, Some (JBool False)}"
    using defaults by (simp add: validate_required_defaults_def and_then_Inr_iff require_false_or_absent_ok pointer_paths)
  ultimately show ?thesis
    using base keep none es unfolding out keeps_all_def by (auto simp: object_member split: option.splits)
qed

section \<open>The base document passes its own checks\<close>

lemma json_at_object_cons: "is_object v \<Longrightarrow> json_at v [k] = Some w \<Longrightarrow> json_at v (k # ks) = json_at w ks"
  by (cases v) (auto split: option.splits)

lemma json_at_object_none: "is_object v \<Longrightarrow> json_at v [k] = None \<Longrightarrow> json_at v (k # ks) = None"
  by (cases v) (auto split: option.splits)

lemma index_tokens: "parse_index ''0'' = Some 0" "parse_index ''1'' = Some 1"
proof -
  have "show_nat 0 = ''0''" "show_nat 1 = ''1''" by code_simp+
  then show "parse_index ''0'' = Some 0" "parse_index ''1'' = Some 1"
    using from_str_radix_show [of 10 "2 ^ 64" 0] from_str_radix_show [of 10 "2 ^ 64" 1]
    by (simp_all add: parse_index_def starts_with_def)
qed

lemma net_members:
  "json_at (net_json n) [''tap''] = map_option JString (nc_tap n)"
  "json_at (net_json n) [''ip''] = map_option (\<lambda>a. JString (ip_display a)) (nc_ip n)"
  "json_at (net_json n) [''mask''] = map_option (\<lambda>a. JString (ip_display a)) (nc_mask n)"
  "json_at (net_json n) [''vhost_user''] = map_option JBool (nc_vhost_user n)"
  "json_at (net_json n) [''vhost_socket''] = map_option JString (nc_vhost_socket n)"
  by (simp_all add: net_json_def json_object_def map_of_put_member split: option.split)

lemma base_defaults:
  assumes "base_value host paths manifest input = Inr base"
    and "\<And>t. vi_network input = PlanTap t \<Longrightarrow> tp_ip t = None \<and> tp_mask t = None"
  shows "validate_required_defaults base input = Inr ()"
  using assms(1)
proof (rule base_value_shape)
  fix g :: VmConfig and payload d0 d1
  assume obj: "is_object base" and disks: "json_at base [''disks''] = Some (JArray [d0, d1])"
    and d: "json_at d0 [''readonly''] = None" "json_at d0 [''vhost_user''] = None"
      "json_at d1 [''backing_files''] = None" "json_at d1 [''vhost_user''] = None"
    and net: "net_from_plan (vi_network input) = Inr (vg_net g)"
      "json_at base [''net''] = map_option (\<lambda>ns. JArray (map net_json ns)) (vg_net g)"
  have disk: "json_at base [''disks'', ''0'', k] = json_at d0 [k]" "json_at base [''disks'', ''1'', k] = json_at d1 [k]" for k
    using json_at_object_cons [OF obj disks] by (simp_all add: index_tokens)
  have nets: "json_at base [''net'', ''0'', k] = json_at (net_json n) [k]" if "vg_net g = Some [n]" for n k
    using json_at_object_cons [OF obj, of "''net''"] net(2) that by (simp add: index_tokens)
  show ?thesis
  proof (cases "vi_network input")
    case PlanNone
    then show ?thesis
      by (simp add: validate_required_defaults_def require_false_or_absent_ok pointer_paths disk d and_then_Inr_iff)
  next
    case (PlanPasst plan)
    then obtain n where "vg_net g = Some [n]" "nc_tap n = None" "nc_ip n = None" "nc_mask n = None"
      using net(1) by (auto simp: net_from_plan_def and_then_Inr_iff dest!: sym [of _ "vg_net g"])
    then show ?thesis using PlanPasst nets
      by (simp add: validate_required_defaults_def require_false_or_absent_ok require_absent_ok pointer_paths disk d
          net_members and_then_Inr_iff)
  next
    case (PlanTap t)
    then obtain n where "vg_net g = Some [n]" "nc_ip n = None" "nc_mask n = None" "nc_vhost_user n = None" "nc_vhost_socket n = None"
      using net(1) assms(2) [OF PlanTap] by (auto simp: net_from_plan_def dest!: sym [of _ "vg_net g"])
    then show ?thesis using PlanTap nets
      by (simp add: validate_required_defaults_def require_false_or_absent_ok require_absent_ok pointer_paths disk d
          net_members and_then_Inr_iff)
  qed
qed

text \<open>
  A document with the required members of the base, and nothing more at the checked places, is
  accepted; \<open>extra\<close> is a member Firestone knows nothing about.
\<close>

lemma extended_base_accepted:
  assumes "base_value host paths manifest input = Inr base"
    and "\<And>t. vi_network input = PlanTap t \<Longrightarrow> tp_ip t = None \<and> tp_mask t = None"
    and "base = JObject es" and "\<And>e. e \<in> set es \<Longrightarrow> map_of all (fst e) = Some (snd e)"
    and "\<And>k. k \<in> {''payload'', ''disks'', ''net'', ''fs''} \<Longrightarrow> map_of all k = map_of es k"
  shows "validate_required_invariants base (JObject all) input = Inr ()"
  using assms(1)
proof (rule base_value_shape)
  fix g :: VmConfig and payload d0 d1
  assume wf: "json_wf base"
    and pl: "json_at base [''payload''] = Some payload" "payload_json (vg_payload g) = Inr payload"
      "resolve_payload host paths manifest input = Inr (vg_payload g)"
    and net: "net_from_plan (vi_network input) = Inr (vg_net g)"
      "json_at base [''net''] = map_option (\<lambda>ns. JArray (map net_json ns)) (vg_net g)"
    and fs: "(json_at base [''fs''] = None) = (vi_filesystems input = [])"
  obtain required where req: "payload = JObject required" using payload_members(4) [OF pl(2)] by (cases payload) auto
  have "validate_payload_keys required required = Inr ()"
    using payload_members(1,2) [OF pl(2)] resolve_payload_one [OF pl(3)]
    by (auto simp: req validate_payload_keys_def contains_key_def split: option.splits)
  moreover have "map_of es ''payload'' = Some (JObject required)" using pl(1) by (simp add: assms(3) req split: option.splits)
  moreover have "map_of es ''net'' = None" if "vi_network input = PlanNone"
    using net that by (simp add: assms(3) net_from_plan_def split: option.splits)
  moreover have "map_of es ''fs'' = None" if "vi_filesystems input = []" using fs that by (simp add: assms(3) split: option.splits)
  moreover have "required_subset base (JObject all) [] = Inr ()"
  proof -
    have "\<forall>e \<in> set es. json_wf (snd e)" using wf assms(3) by simp
    then show ?thesis using required_entries_refl [of es all "[]"] assms(4) required_subset_refl by (simp add: assms(3))
  qed
  moreover have "validate_required_defaults (JObject all) input = Inr ()"
  proof -
    have "json_at (JObject all) (k # ks) = json_at base (k # ks)" if "k \<in> {''disks'', ''net''}" for k ks
      using assms(5) [of k] that by (auto simp: assms(3))
    then have "validate_required_defaults (JObject all) input = validate_required_defaults base input"
      by (cases "vi_network input")
        (simp_all add: validate_required_defaults_def require_false_or_absent_def require_absent_def pointer_paths)
    then show ?thesis using base_defaults [OF assms(1,2)] by simp
  qed
  ultimately show ?thesis
    by (auto simp: validate_required_invariants_def assms(3) assms(5) json_get_def contains_key_def)
qed

text \<open>
  C20. Without an overlay the checks refuse nothing Firestone itself builds: whenever the base
  document can be built (and a tap device carries no host address, as every prepared plan has
  it), the canonical configuration is that document, byte for byte what the encoder makes of it.
\<close>

theorem base_document_accepted:
  assumes "base_value host paths manifest input = Inr base" and "to_vec base = Inr bytes"
    and "vs_config_overlay (ms_vmm (vi_spec input)) = None"
    and "\<forall>t. vi_network input = PlanTap t \<longrightarrow> tp_ip t = None \<and> tp_mask t = None"
  shows "canonical_vm_config to_vec host paths manifest input = Inr \<lparr>vc_value = base, vc_bytes = bytes\<rparr>"
proof -
  obtain es where es: "base = JObject es" and wf: "json_wf base"
    using assms(1) by (rule base_value_shape) (cases base, auto)
  have "validate_required_invariants base base input = Inr ()"
    using extended_base_accepted [OF assms(1) _ es, of es] assms(4) wf es by (simp add: btree_wf_distinct)
  then show ?thesis
    using assms(1-3) sort_json_id [OF wf] by (simp add: canonical_vm_config_def merge_overlay_def)
qed

section \<open>Witnesses\<close>

text \<open>A machine with a firmware of its own, no network and no shared directory.\<close>

definition demo_vmm_host :: VmmHost where
  "demo_vmm_host = \<lparr>vm_dbg = id, vm_scheme = (\<lambda>_. None), vm_sha256 = (\<lambda>_. []), vm_failing = (\<lambda>_. None),
     vm_stat = (\<lambda>_. Inr \<lparr>md_kind = FileRegular, md_uid = 0, md_mode = 0x1A4\<rparr>), vm_files = (\<lambda>_. None)\<rparr>"

definition demo_input :: "json option \<Rightarrow> VmConfigInput" where
  "demo_input overlay = \<lparr>vi_name = ''m'',
     vi_spec = machine_spec_default\<lparr>ms_vmm := vmm_spec_default\<lparr>vs_firmware := FwPath ''/fw'', vs_config_overlay := overlay\<rparr>\<rparr>,
     vi_state = demo_state, vi_network = PlanNone, vi_filesystems = [], vi_architecture = X86_64,
     vi_catalog_firmware = None, vi_image_kind = KindDisk\<rparr>"

definition demo_vmm_manifest :: DependencyManifest where
  "demo_vmm_manifest = \<lparr>manifest_version = 1, dependencies = []\<rparr>"

definition demo_overlay :: json where
  "demo_overlay = JObject [(''balloon'', JObject [(''size'', JInt 0)])]"

lemma demo_base: "\<exists>base. base_value demo_vmm_host demo_paths demo_vmm_manifest (demo_input overlay) = Inr base"
proof -
  have pl: "resolve_payload demo_vmm_host demo_paths demo_vmm_manifest (demo_input overlay)
      = Inr \<lparr>pl_firmware = Some ''/fw'', pl_kernel = None, pl_cmdline = None\<rparr>"
    by (simp add: resolve_payload_def demo_input_def is_oci_def effective_firmware_def is_absolute_def
        require_custom_firmware_def demo_vmm_host_def)
  have names: "machine_disk id demo_paths ''m'' = Inr ''/d/machines/m/disk.qcow2''"
    "machine_seed_image id demo_paths ''m'' = Inr ''/d/machines/m/seed.img''"
    "machine_vsock_socket id demo_paths ''m'' = Inr ''/r/m/vsock.sock''"
    "machine_console_log id demo_paths ''m'' = Inr ''/d/machines/m/console.log''"
    by (simp_all add: machine_disk_def machine_seed_image_def machine_vsock_socket_def machine_console_log_def in_dir_def
        machine_dir_def machine_runtime_dir_def machines_dir_def checked_join_iff plain_name_def path_join_def
        is_absolute_def and_then_Inr_iff demo_paths_def)
  have "\<exists>g. base_vm_config id demo_paths (demo_input overlay) \<lparr>pl_firmware = Some ''/fw'', pl_kernel = None, pl_cmdline = None\<rparr> = Inr g
      \<and> is_ok (vm_config_json g)"
    by (simp add: base_vm_config_def demo_input_def net_from_plan_def demo_state_def is_oci_def names Let_def
        vm_config_json_def payload_json_def disk_json_def path_json_def is_utf8_def)
  then show ?thesis
    using pl by (auto simp: base_value_def is_ok_iff demo_vmm_host_def)
qed

theorem base_document_accepted_witness:
  "\<exists>base. canonical_vm_config (\<lambda>_. Inr []) demo_vmm_host demo_paths demo_vmm_manifest (demo_input None)
     = Inr \<lparr>vc_value = base, vc_bytes = []\<rparr>"
proof -
  obtain base where b: "base_value demo_vmm_host demo_paths demo_vmm_manifest (demo_input None) = Inr base"
    using demo_base by blast
  show ?thesis
    using base_document_accepted [OF b, of "\<lambda>_. Inr []" "[]"] by (auto simp: demo_input_def)
qed

theorem overlay_keeps_owned_fields_witness:
  "\<exists>config base. canonical_vm_config (\<lambda>_. Inr []) demo_vmm_host demo_paths demo_vmm_manifest (demo_input (Some demo_overlay)) = Inr config
     \<and> base_value demo_vmm_host demo_paths demo_vmm_manifest (demo_input (Some demo_overlay)) = Inr base
     \<and> json_at (vc_value config) [''payload'', ''firmware''] = json_at base [''payload'', ''firmware'']"
proof -
  obtain es where base: "base_value demo_vmm_host demo_paths demo_vmm_manifest (demo_input (Some demo_overlay)) = Inr (JObject es)"
    and wf: "btree_wf es" and fresh: "map_of es ''balloon'' = None"
  proof -
    obtain base where b: "base_value demo_vmm_host demo_paths demo_vmm_manifest (demo_input (Some demo_overlay)) = Inr base"
      using demo_base by blast
    then have "json_wf base \<and> is_object base \<and> json_at base [''balloon''] = None" by (rule base_value_shape) simp
    then show thesis using b that by (cases base) (auto split: option.splits)
  qed
  have merged: "apply_merge_patch (JObject es) demo_overlay = JObject (btree_insert ''balloon'' (JObject [(''size'', JInt 0)]) es)"
    using fresh by (simp add: demo_overlay_def)
  have "validate_required_invariants (JObject es) (JObject (btree_insert ''balloon'' (JObject [(''size'', JInt 0)]) es))
      (demo_input (Some demo_overlay)) = Inr ()"
    using extended_base_accepted [OF base _ refl, of "btree_insert ''balloon'' (JObject [(''size'', JInt 0)]) es"] wf fresh
    by (force simp: demo_input_def btree_wf_distinct)
  then obtain config where c: "canonical_vm_config (\<lambda>_. Inr []) demo_vmm_host demo_paths demo_vmm_manifest
      (demo_input (Some demo_overlay)) = Inr config"
    using base merged by (auto simp: canonical_vm_config_def merge_overlay_def demo_input_def demo_overlay_def)
  have "json_wf demo_overlay" by (simp add: demo_overlay_def)
  then show ?thesis using overlay_keeps_owned_fields [OF c] c by (auto simp: demo_input_def)
qed

end
