(* ===== verification/Ui_Auth.thy ===== *)
theory Ui_Auth
  imports Helpers
begin

unbundle bit_operations_syntax

text \<open>
  The gate of the loopback web transport, \<^verbatim>\<open>firestone/src/ui/auth.rs\<close>: session tokens, the decision
  on each request and the security headers of each response. A request is its method, its path and
  query, and the list of its headers in order, names in lower case; a response has the marker by
  which a handler asks for the terminal's content policy. The application behind the gate is an
  argument, and so are the JSON encoder and the random device.
\<close>

section \<open>Constants\<close>

definition TOKEN_BYTES :: nat where "TOKEN_BYTES = 32"
definition COOKIE_NAME :: string where "COOKIE_NAME = ''firestone_session''"
definition URANDOM :: string where "URANDOM = ''/dev/urandom''"
definition JSON_CONTENT_TYPE :: string where "JSON_CONTENT_TYPE = ''application/json''"

definition COOKIE_ATTRIBUTES :: string where
  "COOKIE_ATTRIBUTES = ''; Path=/; HttpOnly; SameSite=Strict; Max-Age=86400''"

definition CONTENT_SECURITY_POLICY :: string where
  "CONTENT_SECURITY_POLICY =
     ''default-src '' @ quoted ''none'' @ ''; script-src '' @ quoted ''self'' @ ''; style-src '' @ quoted ''self'' @ ''; ''
     @ ''img-src '' @ quoted ''self'' @ '' data:; font-src '' @ quoted ''self'' @ ''; connect-src '' @ quoted ''self''
     @ ''; frame-src '' @ quoted ''self'' @ ''; base-uri '' @ quoted ''none'' @ ''; form-action '' @ quoted ''self''
     @ ''; frame-ancestors '' @ quoted ''none''"

definition TERMINAL_CONTENT_SECURITY_POLICY :: string where
  "TERMINAL_CONTENT_SECURITY_POLICY =
     ''default-src '' @ quoted ''none'' @ ''; script-src '' @ quoted ''self'' @ '' '' @ quoted ''wasm-unsafe-eval''
     @ ''; style-src '' @ quoted ''self'' @ ''; ''
     @ ''img-src '' @ quoted ''self'' @ '' data:; font-src '' @ quoted ''self'' @ ''; connect-src '' @ quoted ''self''
     @ ''; frame-src '' @ quoted ''self'' @ ''; base-uri '' @ quoted ''none'' @ ''; form-action '' @ quoted ''self''
     @ ''; frame-ancestors '' @ quoted ''none''"

definition TERMINAL_EMBED_CONTENT_SECURITY_POLICY :: string where
  "TERMINAL_EMBED_CONTENT_SECURITY_POLICY =
     ''default-src '' @ quoted ''none'' @ ''; script-src '' @ quoted ''self'' @ '' '' @ quoted ''wasm-unsafe-eval''
     @ ''; style-src '' @ quoted ''self'' @ ''; ''
     @ ''img-src '' @ quoted ''self'' @ '' data:; font-src '' @ quoted ''self'' @ ''; connect-src '' @ quoted ''self''
     @ ''; frame-src '' @ quoted ''self'' @ ''; base-uri '' @ quoted ''none'' @ ''; form-action '' @ quoted ''self''
     @ ''; frame-ancestors '' @ quoted ''self''"

datatype WasmPolicy = Standalone | Embedded

section \<open>Session tokens\<close>

datatype SessionToken = SessionToken (token_bytes: "u8 list")

definition token_hex_digit :: "u8 \<Rightarrow> char" where
  "token_hex_digit v = char_of (if v \<le> 9 then 48 + unat v else 97 + unat v - 10)"

fun byte_hex :: "u8 \<Rightarrow> string" where
  "byte_hex b = [token_hex_digit (drop_bit 4 b), token_hex_digit (b AND 0x0F)]"

definition to_hex :: "SessionToken \<Rightarrow> string" where
  "to_hex token = concat (map byte_hex (token_bytes token))"

definition hex_digit_value :: "nat \<Rightarrow> nat option" where
  "hex_digit_value b =
     (if 48 \<le> b \<and> b \<le> 57 then Some (b - 48)
      else if 97 \<le> b \<and> b \<le> 102 then Some (b - 97 + 10)
      else if 65 \<le> b \<and> b \<le> 70 then Some (b - 65 + 10)
      else None)"

definition hex_value :: "char \<Rightarrow> u8 option" where
  "hex_value c = map_option of_nat (hex_digit_value (of_char c))"

fun hex_bytes :: "string \<Rightarrow> u8 list option" where
  "hex_bytes (h # l # rest) =
     (case hex_value h of
        None \<Rightarrow> None
      | Some high \<Rightarrow>
          (case hex_value l of
             None \<Rightarrow> None
           | Some low \<Rightarrow> map_option (\<lambda>bs. (push_bit 4 high OR low) # bs) (hex_bytes rest)))"
| "hex_bytes _ = Some []"

definition parse_hex :: "string \<Rightarrow> SessionToken option" where
  "parse_hex s = (if length s \<noteq> TOKEN_BYTES * 2 then None else map_option SessionToken (hex_bytes s))"

definition token_from_hex :: "string \<Rightarrow> (FirestoneError, SessionToken) result" where
  "token_from_hex s =
     ok_or (with_hint ''regenerate the token file, or delete it and let firestone create one''
         (error_new Usage (''a session token must be exactly '' @ show_nat (TOKEN_BYTES * 2)
            @ '' hexadecimal characters''))) (parse_hex s)"

fun byte_difference :: "u8 \<Rightarrow> u8 list \<Rightarrow> u8 list \<Rightarrow> u8" where
  "byte_difference d (a # as) (b # bs) = byte_difference (d OR (a XOR b)) as bs"
| "byte_difference d _ _ = d"

definition constant_time_eq :: "u8 list \<Rightarrow> u8 list \<Rightarrow> bool" where
  "constant_time_eq l r \<longleftrightarrow> byte_difference 0 (take TOKEN_BYTES l) (take TOKEN_BYTES r) = 0"

definition token_matches :: "SessionToken \<Rightarrow> SessionToken \<Rightarrow> bool" where
  "token_matches token candidate = constant_time_eq (token_bytes token) (token_bytes candidate)"

text \<open>\<open>random\<close> is what the random device gives: the opened file, then at least the bytes asked for.\<close>

definition token_generate :: "(IoError, (IoError, u8 list) result) result \<Rightarrow> (FirestoneError, SessionToken) result" where
  "token_generate random =
     and_then (map_err (\<lambda>_. with_hint ''check that /dev/urandom exists and is readable''
         (error_new Dependency (''cannot open '' @ quoted URANDOM @ '' to generate a session token''))) random) (\<lambda>device.
     and_then (map_err (\<lambda>_. with_hint ''check that /dev/urandom is a working character device''
         (error_new Dependency (''cannot read '' @ show_nat TOKEN_BYTES @ '' random bytes from '' @ quoted URANDOM))) device) (\<lambda>bytes.
     if length bytes < TOKEN_BYTES
     then Inl (with_hint ''check that /dev/urandom is a working character device''
            (error_new Dependency (''cannot read '' @ show_nat TOKEN_BYTES @ '' random bytes from '' @ quoted URANDOM)))
     else Inr (SessionToken (take TOKEN_BYTES bytes))))"

section \<open>Requests\<close>

datatype Method = GET | HEAD | OtherMethod string

record Request =
  rq_method :: Method
  rq_path :: string
  rq_query :: "string option"
  rq_headers :: "(string \<times> string) list"

record UiAuth =
  ua_token :: "SessionToken option"

record LoopbackGate =
  lg_token :: SessionToken
  lg_port :: u16

definition ui_auth_trusted :: UiAuth where "ui_auth_trusted = \<lparr>ua_token = None\<rparr>"
definition ui_auth_token :: "SessionToken \<Rightarrow> UiAuth" where "ui_auth_token token = \<lparr>ua_token = Some token\<rparr>"
definition is_trusted :: "UiAuth \<Rightarrow> bool" where "is_trusted auth \<longleftrightarrow> ua_token auth = None"

definition auth_gate :: "UiAuth \<Rightarrow> u16 \<Rightarrow> LoopbackGate option" where
  "auth_gate auth port = map_option (\<lambda>token. \<lparr>lg_token = token, lg_port = port\<rparr>) (ua_token auth)"

text \<open>\<open>HeaderValue::to_str\<close>: visible ASCII and tab only.\<close>

definition to_str :: "string \<Rightarrow> string option" where
  "to_str v = (if list_all (\<lambda>c. 32 \<le> (of_char c :: nat) \<and> (of_char c :: nat) < 127 \<or> (of_char c :: nat) = 9) v
     then Some v else None)"

definition get_header :: "(string \<times> string) list \<Rightarrow> string \<Rightarrow> string option" where
  "get_header headers name = Option.bind (map_of headers name) to_str"

definition get_all :: "(string \<times> string) list \<Rightarrow> string \<Rightarrow> string list" where
  "get_all headers name = map snd (filter (\<lambda>h. fst h = name) headers)"

definition eq_ignore_ascii_case :: "string \<Rightarrow> string \<Rightarrow> bool" where
  "eq_ignore_ascii_case a b \<longleftrightarrow> map to_ascii_lowercase a = map to_ascii_lowercase b"

definition loopback_hosts :: "u16 \<Rightarrow> string list" where
  "loopback_hosts port =
     map (\<lambda>h. h @ '':'' @ show_nat (unat port)) [''127.0.0.1'', ''localhost'', ''[::1]'']"

definition host_is_loopback :: "LoopbackGate \<Rightarrow> (string \<times> string) list \<Rightarrow> bool" where
  "host_is_loopback gate headers =
     (case get_header headers ''host'' of None \<Rightarrow> False | Some host \<Rightarrow> host \<in> set (loopback_hosts (lg_port gate)))"

definition origin_is_loopback :: "LoopbackGate \<Rightarrow> string \<Rightarrow> bool" where
  "origin_is_loopback gate origin \<longleftrightarrow>
     origin \<in> set (map (\<lambda>h. ''http://'' @ h) (loopback_hosts (lg_port gate)))"

definition is_same_site :: "LoopbackGate \<Rightarrow> (string \<times> string) list \<Rightarrow> bool" where
  "is_same_site gate headers =
     (case get_header headers ''sec-fetch-site'' of
        Some site \<Rightarrow> site \<in> {''same-origin'', ''none''}
      | None \<Rightarrow> (case get_header headers ''origin'' of None \<Rightarrow> False | Some origin \<Rightarrow> origin_is_loopback gate origin))"

definition header_list_contains :: "(string \<times> string) list \<Rightarrow> string \<Rightarrow> string \<Rightarrow> bool" where
  "header_list_contains headers name token =
     list_ex (\<lambda>v. case to_str v of
         None \<Rightarrow> False
       | Some t \<Rightarrow> list_ex (\<lambda>e. eq_ignore_ascii_case (trim e) token) (split_on (CHR '','') t)) (get_all headers name)"

definition is_protocol_upgrade :: "(string \<times> string) list \<Rightarrow> bool" where
  "is_protocol_upgrade headers \<longleftrightarrow>
     header_list_contains headers ''upgrade'' ''websocket'' \<or> header_list_contains headers ''connection'' ''upgrade''"

section \<open>Presented tokens\<close>

text \<open>The text of the first session cookie: the loops of \<open>cookie_token\<close>.\<close>

fun cookie_in_pairs :: "string list \<Rightarrow> string option" where
  "cookie_in_pairs [] = None"
| "cookie_in_pairs (pair # pairs) =
     (case split_once (CHR ''='') pair of
        None \<Rightarrow> cookie_in_pairs pairs
      | Some (name, v) \<Rightarrow> if trim name = COOKIE_NAME then Some (trim v) else cookie_in_pairs pairs)"

fun cookie_in_values :: "string list \<Rightarrow> string option" where
  "cookie_in_values [] = None"
| "cookie_in_values (v # vs) =
     (case to_str v of
        None \<Rightarrow> cookie_in_values vs
      | Some t \<Rightarrow>
          (case cookie_in_pairs (split_on (CHR '';'') t) of
             None \<Rightarrow> cookie_in_values vs
           | Some c \<Rightarrow> Some c))"

definition cookie_token :: "(string \<times> string) list \<Rightarrow> SessionToken option" where
  "cookie_token headers = Option.bind (cookie_in_values (get_all headers ''cookie'')) parse_hex"

definition bearer_credential :: "(string \<times> string) list \<Rightarrow> string option" where
  "bearer_credential headers =
     Option.bind (get_header headers ''authorization'') (\<lambda>v.
     Option.bind (split_once (CHR '' '') v) (\<lambda>(scheme, credential).
       if \<not> eq_ignore_ascii_case scheme ''Bearer'' then None else Some (trim credential)))"

definition bearer_token :: "(string \<times> string) list \<Rightarrow> SessionToken option" where
  "bearer_token headers = Option.bind (bearer_credential headers) parse_hex"

fun token_in_pairs :: "string list \<Rightarrow> string option" where
  "token_in_pairs [] = None"
| "token_in_pairs (pair # pairs) =
     (case strip_prefix ''token='' pair of Some v \<Rightarrow> Some v | None \<Rightarrow> token_in_pairs pairs)"

definition query_token :: "string option \<Rightarrow> string option" where
  "query_token query = Option.bind query (\<lambda>q. token_in_pairs (split_on (CHR ''&'') q))"

section \<open>The decision\<close>

record Rejection =
  rj_status :: nat
  rj_message :: string
  rj_hint :: string

datatype Decision = Allow | Bootstrap string string | Reject Rejection

definition unauthorized :: Rejection where
  "unauthorized = \<lparr>rj_status = 401, rj_message = ''the request did not carry the Firestone session token'',
     rj_hint = ''open the URL printed by `firestone ui`, or send Authorization: Bearer <token>''\<rparr>"

definition token_is_some_and :: "LoopbackGate \<Rightarrow> SessionToken option \<Rightarrow> bool" where
  "token_is_some_and gate candidate = (case candidate of None \<Rightarrow> False | Some t \<Rightarrow> token_matches (lg_token gate) t)"

text \<open>Steps 4 and 5: upgrades and mutations.\<close>

definition cross_origin_decision :: "LoopbackGate \<Rightarrow> Method \<Rightarrow> (string \<times> string) list \<Rightarrow> Decision" where
  "cross_origin_decision gate m headers =
     (if is_protocol_upgrade headers \<and> \<not> is_same_site gate headers
      then Reject \<lparr>rj_status = 403, rj_message = ''the protocol upgrade was not proven to come from this origin'',
             rj_hint = ''open the terminal from the Firestone UI page, or send Origin: http://127.0.0.1:PORT''\<rparr>
      else if m \<notin> {GET, HEAD}
        \<and> \<not> (case get_header headers ''sec-fetch-site'' of
               Some site \<Rightarrow> site = ''same-origin''
             | None \<Rightarrow> (case get_header headers ''origin'' of None \<Rightarrow> True | Some origin \<Rightarrow> origin_is_loopback gate origin))
      then Reject \<lparr>rj_status = 403, rj_message = ''the request was issued from another origin'',
             rj_hint = ''drive mutations from the Firestone UI page itself''\<rparr>
      else Allow)"

definition decide :: "LoopbackGate \<Rightarrow> Method \<Rightarrow> string \<Rightarrow> string option \<Rightarrow> (string \<times> string) list \<Rightarrow> Decision" where
  "decide gate m path query headers =
     (if \<not> host_is_loopback gate headers
      then Reject \<lparr>rj_status = 403, rj_message = ''the request Host header is not the bound loopback address'',
             rj_hint = ''open the printed http://127.0.0.1:PORT/ URL directly''\<rparr>
      else
        let cookie_ok = token_is_some_and gate (cookie_token headers);
            bearer_ok = token_is_some_and gate (bearer_token headers);
            header_ok = (cookie_ok \<or> bearer_ok)
        in case query_token query of
             Some candidate \<Rightarrow>
               if \<not> token_is_some_and gate (parse_hex candidate) then Reject unauthorized
               else if m \<in> {GET, HEAD} then Bootstrap path candidate
               else cross_origin_decision gate m headers
           | None \<Rightarrow> if \<not> header_ok then Reject unauthorized else cross_origin_decision gate m headers)"

section \<open>Responses\<close>

record Response =
  rs_status :: nat
  rs_headers :: "(string \<times> string) list"
  rs_body :: "u8 list"
  rs_policy :: "WasmPolicy option"

definition insert_header :: "string \<Rightarrow> string \<Rightarrow> (string \<times> string) list \<Rightarrow> (string \<times> string) list" where
  "insert_header name v headers = filter (\<lambda>h. fst h \<noteq> name) headers @ [(name, v)]"

definition INTERNAL_ERROR_JSON :: "u8 list" where
  \<open>INTERNAL_ERROR_JSON = map (\<lambda>c. of_nat (of_char c))
     (''{"error":{"kind":"generic","message":"the loopback gate could not serialize a response",''
      @ ''"hint":"retry the request; if it fails again, report a Firestone bug"}}'')\<close>

text \<open>\<open>to_vec\<close> encodes the error envelope.\<close>

definition rejection_response :: "(FirestoneError \<Rightarrow> (unit, u8 list) result) \<Rightarrow> Rejection \<Rightarrow> Response" where
  "rejection_response to_vec rejection =
     (let error = \<lparr>kind = Usage, message = rj_message rejection, hint = Some (rj_hint rejection), field = None\<rparr>;
          body = (case to_vec error of Inr b \<Rightarrow> b | Inl _ \<Rightarrow> INTERNAL_ERROR_JSON)
      in \<lparr>rs_status = rj_status rejection, rs_headers = [(''content-type'', JSON_CONTENT_TYPE)], rs_body = body, rs_policy = None\<rparr>)"

text \<open>\<open>HeaderValue::from_str\<close>: no control character except tab.\<close>

definition header_value_from_str :: "string \<Rightarrow> string option" where
  "header_value_from_str v = (if list_all (\<lambda>c. (32 \<le> (of_char c :: nat) \<and> (of_char c :: nat) \<noteq> 127) \<or> (of_char c :: nat) = 9) v
     then Some v else None)"

definition insert_if_valid :: "string \<Rightarrow> string \<Rightarrow> (string \<times> string) list \<Rightarrow> (string \<times> string) list" where
  "insert_if_valid name v headers =
     (case header_value_from_str v of None \<Rightarrow> headers | Some v \<Rightarrow> insert_header name v headers)"

definition bootstrap_response :: "string \<Rightarrow> string \<Rightarrow> Response" where
  "bootstrap_response location token =
     \<lparr>rs_status = 303,
      rs_headers = insert_if_valid ''set-cookie'' (COOKIE_NAME @ ''='' @ token @ COOKIE_ATTRIBUTES)
        (insert_if_valid ''location'' location []),
      rs_body = [], rs_policy = None\<rparr>"

definition enforce ::
  "(FirestoneError \<Rightarrow> (unit, u8 list) result) \<Rightarrow> LoopbackGate \<Rightarrow> (Request \<Rightarrow> Response) \<Rightarrow> Request \<Rightarrow> Response" where
  "enforce to_vec gate next_handler request =
     (case decide gate (rq_method request) (rq_path request) (rq_query request) (rq_headers request) of
        Allow \<Rightarrow> next_handler request
      | Bootstrap location token \<Rightarrow> bootstrap_response location token
      | Reject rejection \<Rightarrow> rejection_response to_vec rejection)"

definition security_headers :: "(Request \<Rightarrow> Response) \<Rightarrow> Request \<Rightarrow> Response" where
  "security_headers next_handler request =
     (let response = next_handler request;
          policy = (case rs_policy response of
             Some Standalone \<Rightarrow> TERMINAL_CONTENT_SECURITY_POLICY
           | Some Embedded \<Rightarrow> TERMINAL_EMBED_CONTENT_SECURITY_POLICY
           | None \<Rightarrow> CONTENT_SECURITY_POLICY)
      in response\<lparr>rs_headers := fold (\<lambda>(name, v). insert_header name v)
           [(''content-security-policy'', policy), (''referrer-policy'', ''no-referrer''),
            (''x-content-type-options'', ''nosniff''), (''cross-origin-opener-policy'', ''same-origin''),
            (''cross-origin-resource-policy'', ''same-origin'')] (rs_headers response)\<rparr>)"

definition secured ::
  "(FirestoneError \<Rightarrow> (unit, u8 list) result) \<Rightarrow> (Request \<Rightarrow> Response) \<Rightarrow> LoopbackGate option \<Rightarrow> Request \<Rightarrow> Response" where
  "secured to_vec app gate =
     security_headers (case gate of Some gate \<Rightarrow> enforce to_vec gate app | None \<Rightarrow> app)"

section \<open>The token file\<close>

definition token_file_error :: "string \<Rightarrow> string \<Rightarrow> IoError \<Rightarrow> FirestoneError" where
  "token_file_error operation path source =
     error_new Dependency (''cannot '' @ operation @ '' serve token file '' @ quoted path)"

text \<open>
  \<open>opened\<close> is the open call, \<open>failing\<close> the other calls that fail, \<open>random\<close> the random device. The
  second result is the file the call created and wrote in full, under a umask that keeps the owner's
  bits.
\<close>

definition load_or_create_token_file ::
  "failures \<Rightarrow> (IoError, FileNode) result \<Rightarrow> (IoError, (IoError, u8 list) result) result \<Rightarrow> string \<Rightarrow> u32
   \<Rightarrow> (FirestoneError, SessionToken) result \<times> FileNode option" where
  "load_or_create_token_file failing opened random path uid =
     (case opened of
        Inr node \<Rightarrow>
          (and_then (io_step failing ''inspect'' (\<lambda>source. with_hint (''check the token file'' @ [CHR 0x27] @ ''s owner'') (token_file_error ''inspect'' path source))) (\<lambda>_.
           if md_kind (fn_meta node) \<noteq> FileRegular \<or> md_uid (fn_meta node) \<noteq> uid \<or> permissions (fn_meta node) \<noteq> 0x180
           then Inl (with_hint ''run `chmod 600` on the token file, or delete it and retry''
                  (error_new Dependency (''serve token file '' @ quoted path
                     @ '' must be a current-user regular file with mode 0600'')))
           else let text' = map (\<lambda>b. char_of (unat b)) (fn_bytes node)
                in if failing ''read'' \<noteq> None \<or> \<not> is_utf8 text'
                   then Inl (with_hint ''store the token as 64 hexadecimal characters''
                          (error_new Dependency (''cannot read serve token file '' @ quoted path)))
                   else token_from_hex (trim text')), None)
      | Inl source \<Rightarrow>
          if io_kind source = IoNotFound
          then (case token_generate random of
                  Inl e \<Rightarrow> (Inl e, None)
                | Inr token \<Rightarrow>
                    let private = (\<lambda>source. with_hint ''choose a token path inside a private, writable directory'' source)
                    in case failing ''create'' of
                         Some e \<Rightarrow> (Inl (private (token_file_error ''create'' path e)), None)
                       | None \<Rightarrow>
                           (case failing ''write'' of
                              Some e \<Rightarrow> (Inl (private (token_file_error ''write'' path e)), None)
                            | None \<Rightarrow>
                                (Inr token,
                                 Some \<lparr>fn_meta = \<lparr>md_kind = FileRegular, md_uid = uid, md_mode = 0x180\<rparr>,
                                   fn_bytes = map (\<lambda>c. of_nat (of_char c)) (to_hex token) @ [10]\<rparr>)))
          else (Inl (with_hint (''check the token file'' @ [CHR 0x27] @ ''s owner and permissions'') (token_file_error ''open'' path source)), None))"

section \<open>Tokens and their text\<close>

lemma byte_difference_zero: "length as = length bs \<Longrightarrow> byte_difference d as bs = 0 \<longleftrightarrow> d = 0 \<and> as = bs"
proof (induction d as bs rule: byte_difference.induct)
  case (1 d a as b bs)
  have "d OR (a XOR b) = 0 \<longleftrightarrow> d = 0 \<and> a = b"
    by (metis or_eq_0_iff xor_self_eq bit.xor_left_self xor.right_neutral)
  then show ?case using 1 by auto
qed auto

lemma constant_time_eq_iff: "length l = 32 \<Longrightarrow> length r = 32 \<Longrightarrow> constant_time_eq l r \<longleftrightarrow> l = r"
  by (simp add: constant_time_eq_def TOKEN_BYTES_def byte_difference_zero)

lemma nibble_bits:
  fixes w :: u8
  assumes "w < 16" and "bit w n"
  shows "n < 4"
proof -
  have "unat w < 16" using assms(1) by (simp add: word_less_nat_alt)
  then have "take_bit 4 (unat w) = unat w" by (simp add: take_bit_eq_mod)
  then have "take_bit 4 w = w" unfolding word_unat_eq_iff unsigned_take_bit_eq .
  then show ?thesis using assms(2) by (metis bit_take_bit_iff)
qed

lemma nibbles:
  fixes h l :: u8
  assumes "h < 16" "l < 16"
  shows "drop_bit 4 (push_bit 4 h OR l) = h" "(push_bit 4 h OR l) AND 0x0F = l"
proof -
  have mask: "(0x0F :: u8) = mask 4" by (simp add: mask_eq_exp_minus_1)
  show "drop_bit 4 (push_bit 4 h OR l) = h"
    by (rule bit_word_eqI) (use nibble_bits [OF assms(1)] nibble_bits [OF assms(2)] in \<open>auto simp: bit_simps\<close>)
  show "(push_bit 4 h OR l) AND 0x0F = l"
    unfolding mask by (rule bit_word_eqI) (use nibble_bits [OF assms(2)] in \<open>auto simp: bit_simps\<close>)
qed

lemma nibbles_join: "push_bit 4 (drop_bit 4 (b :: u8)) OR (b AND 0x0F) = b"
proof -
  have mask: "(0x0F :: u8) = mask 4" by (simp add: mask_eq_exp_minus_1)
  show ?thesis unfolding mask by (rule bit_word_eqI) (auto simp: bit_simps)
qed

lemma nibble_bounds: "drop_bit 4 (b :: u8) < 16" "b AND 0x0F < (16 :: u8)"
proof -
  have "unat (drop_bit 4 b) = unat b div 16"
    by (simp add: drop_bit_eq_div unat_div)
  then have "unat (drop_bit 4 b) < 16" using unat_u8_less [of b] by linarith
  then show "drop_bit 4 b < 16" by (simp add: word_less_nat_alt)
  have "b AND 0x0F = take_bit 4 b" by (simp add: take_bit_eq_mask mask_eq_exp_minus_1)
  moreover have "unat (take_bit 4 b) < 16"
    unfolding unsigned_take_bit_eq by (simp add: take_bit_eq_mod)
  ultimately show "b AND 0x0F < 16" by (simp add: word_less_nat_alt)
qed

text \<open>A digit is read exactly when its lower-case form prints the value.\<close>

lemma of_char_less: "(of_char c :: nat) < 256"
proof -
  have "(of_char c :: nat) mod 256 = of_char c" by (rule of_char_mod_256)
  then show ?thesis by (metis mod_less_divisor zero_less_numeral)
qed

lemma of_char_lowercase:
  "(of_char (to_ascii_lowercase c) :: nat) = (if 65 \<le> (of_char c :: nat) \<and> (of_char c :: nat) \<le> 90 then of_char c + 32 else of_char c)"
  by (simp add: to_ascii_lowercase_def is_ascii_uppercase_def Let_def)

lemma of_char_hex_digit:
  assumes "v < 16"
  shows "(of_char (token_hex_digit v) :: nat) = (if unat v \<le> 9 then 48 + unat v else 87 + unat v)"
proof -
  have "unat v < 16" using assms by (simp add: word_less_nat_alt)
  then show ?thesis by (simp add: token_hex_digit_def word_le_nat_alt)
qed

lemma hex_ranges:
  fixes b n :: nat
  shows "(if 48 \<le> b \<and> b \<le> 57 then b - 48 = n else if 97 \<le> b \<and> b \<le> 102 then b - 97 + 10 = n
       else if 65 \<le> b \<and> b \<le> 70 then b - 65 + 10 = n else False)
     \<longleftrightarrow> n < 16 \<and> (if 65 \<le> b \<and> b \<le> 90 then b + 32 else b) = (if n \<le> 9 then 48 + n else 87 + n)"
proof -
  consider "b < 48" | "48 \<le> b" "b \<le> 57" | "57 < b" "b < 65" | "65 \<le> b" "b \<le> 70" | "70 < b" "b < 97"
    | "97 \<le> b" "b \<le> 102" | "102 < b" by linarith
  then show ?thesis by cases (auto split: if_splits)
qed

lemma hex_value_iff: "hex_value c = Some v \<longleftrightarrow> v < 16 \<and> to_ascii_lowercase c = token_hex_digit v"
proof -
  let ?b = "of_char c :: nat"
  have digit: "hex_digit_value ?b = Some n \<longleftrightarrow>
      n < 16 \<and> (if 65 \<le> ?b \<and> ?b \<le> 90 then ?b + 32 else ?b) = (if n \<le> 9 then 48 + n else 87 + n)" for n
    unfolding hex_ranges [of ?b n, symmetric] hex_digit_value_def by (simp only: option.inject option.distinct split: if_split) blast
  have "hex_value c = Some v \<longleftrightarrow> hex_digit_value ?b = Some (unat v)"
  proof
    assume "hex_value c = Some v"
    then obtain k where k: "hex_digit_value ?b = Some k" "v = of_nat k" unfolding hex_value_def by auto
    then have "unat v = k" using digit [of k] by (simp add: unat_of_nat_u8)
    then show "hex_digit_value ?b = Some (unat v)" using k by simp
  qed (simp add: hex_value_def)
  also have "\<dots> \<longleftrightarrow> v < 16 \<and> to_ascii_lowercase c = token_hex_digit v"
  proof (cases "unat v < 16")
    case True
    then have v: "v < 16" by (simp add: word_less_nat_alt)
    have "to_ascii_lowercase c = token_hex_digit v \<longleftrightarrow> (of_char (to_ascii_lowercase c) :: nat) = of_char (token_hex_digit v)"
      by (rule of_char_eq_iff [symmetric])
    then show ?thesis unfolding digit of_char_lowercase of_char_hex_digit [OF v] using v True by blast
  qed (simp add: digit word_less_nat_alt)
  finally show ?thesis .
qed

lemma byte_hex_join:
  "h < 16 \<Longrightarrow> l < 16 \<Longrightarrow> byte_hex (push_bit 4 h OR l) = [token_hex_digit h, token_hex_digit l]"
  by (simp only: byte_hex.simps nibbles)

declare byte_hex.simps [simp del]

lemma hex_bytes_iff:
  "even (length s) \<Longrightarrow> hex_bytes s = Some bs \<longleftrightarrow> map to_ascii_lowercase s = concat (map byte_hex bs)"
proof (induction s arbitrary: bs rule: hex_bytes.induct)
  case (1 h l rest)
  show ?case
  proof
    assume "hex_bytes (h # l # rest) = Some bs"
    then obtain high low bs' where v: "hex_value h = Some high" "hex_value l = Some low" "hex_bytes rest = Some bs'"
      "bs = (push_bit 4 high OR low) # bs'"
      by (auto split: option.splits)
    then show "map to_ascii_lowercase (h # l # rest) = concat (map byte_hex bs)"
      using 1(1) [OF v(1,2), of bs'] 1(2) v(1,2) by (simp add: hex_value_iff byte_hex_join)
  next
    assume m: "map to_ascii_lowercase (h # l # rest) = concat (map byte_hex bs)"
    then obtain b bs' where bs: "bs = b # bs'" by (cases bs) auto
    then have v: "hex_value h = Some (drop_bit 4 b)" "hex_value l = Some (b AND 0x0F)"
      "map to_ascii_lowercase rest = concat (map byte_hex bs')"
      using m nibble_bounds [of b] by (simp_all add: hex_value_iff byte_hex.simps)
    then have "hex_bytes rest = Some bs'" using 1(1) [OF v(1,2), of bs'] 1(2) by simp
    with v show "hex_bytes (h # l # rest) = Some bs" by (simp add: bs nibbles_join)
  qed
next
  case "2_1"
  then show ?case by (cases bs) (auto simp: byte_hex.simps)
qed simp

lemma length_to_hex: "length (to_hex t) = 2 * length (token_bytes t)"
proof -
  have "length (concat (map byte_hex bs)) = 2 * length bs" for bs by (induction bs) (simp_all add: byte_hex.simps)
  then show ?thesis by (simp add: to_hex_def)
qed

lemma parse_hex_iff:
  "parse_hex s = Some t \<longleftrightarrow> length (token_bytes t) = 32 \<and> map to_ascii_lowercase s = to_hex t"
proof -
  have "length s = 64" if "map to_ascii_lowercase s = to_hex t" "length (token_bytes t) = 32"
    using arg_cong [OF that(1), of length] that(2) by (simp add: length_to_hex)
  moreover have "length (token_bytes t) = 32" if "map to_ascii_lowercase s = to_hex t" "length s = 64"
    using arg_cong [OF that(1), of length] that(2) by (simp add: length_to_hex)
  moreover have "map_option SessionToken (hex_bytes s) = Some t \<longleftrightarrow> map to_ascii_lowercase s = to_hex t" if "length s = 64"
    using hex_bytes_iff [of s "token_bytes t"] that by (cases t) (auto simp: to_hex_def)
  ultimately show ?thesis by (auto simp: parse_hex_def TOKEN_BYTES_def)
qed

text \<open>A presented text is accepted exactly when, in lower case, it is the token.\<close>

lemma accepted_token_iff:
  assumes "length (token_bytes (lg_token gate)) = 32"
  shows "token_is_some_and gate (parse_hex s) \<longleftrightarrow> map to_ascii_lowercase s = to_hex (lg_token gate)"
proof
  assume "token_is_some_and gate (parse_hex s)"
  then obtain t where t: "parse_hex s = Some t" "token_matches (lg_token gate) t" by (auto simp: token_is_some_and_def split: option.splits)
  then have "lg_token gate = t"
    using assms constant_time_eq_iff by (cases t; cases "lg_token gate") (auto simp: token_matches_def parse_hex_iff)
  then show "map to_ascii_lowercase s = to_hex (lg_token gate)" using t(1) by (simp add: parse_hex_iff)
next
  assume "map to_ascii_lowercase s = to_hex (lg_token gate)"
  then have "parse_hex s = Some (lg_token gate)" using assms by (simp add: parse_hex_iff)
  then show "token_is_some_and gate (parse_hex s)" using assms by (simp add: token_is_some_and_def token_matches_def constant_time_eq_iff)
qed

section \<open>Who reaches the application\<close>

lemma map_of_insert_header [simp]: "map_of (insert_header name v headers) k = (if k = name then Some v else map_of headers k)"
  unfolding insert_header_def by (induction headers) (auto simp: map_add_def split: option.splits)

text \<open>The texts a request presents as a token: its session cookie, bearer credential and query token.\<close>

definition presented :: "Request \<Rightarrow> string set" where
  "presented request = set_option (cookie_in_values (get_all (rq_headers request) ''cookie''))
     \<union> set_option (bearer_credential (rq_headers request)) \<union> set_option (query_token (rq_query request))"

definition holds_token :: "LoopbackGate \<Rightarrow> Request \<Rightarrow> bool" where
  "holds_token gate request \<longleftrightarrow> (\<exists>t \<in> presented request. map to_ascii_lowercase t = to_hex (lg_token gate))"

text \<open>A request a browser says, or by its origin shows, comes from another site.\<close>

definition cross_site :: "LoopbackGate \<Rightarrow> (string \<times> string) list \<Rightarrow> bool" where
  "cross_site gate headers =
     (case get_header headers ''sec-fetch-site'' of
        Some site \<Rightarrow> site \<notin> {''same-origin'', ''none''}
      | None \<Rightarrow> (case get_header headers ''origin'' of None \<Rightarrow> False | Some origin \<Rightarrow> \<not> origin_is_loopback gate origin))"

abbreviation decision :: "LoopbackGate \<Rightarrow> Request \<Rightarrow> Decision" where
  "decision gate request \<equiv> decide gate (rq_method request) (rq_path request) (rq_query request) (rq_headers request)"

lemma header_token_iff:
  assumes "length (token_bytes (lg_token gate)) = 32"
  shows "token_is_some_and gate (cookie_token (rq_headers request)) \<Longrightarrow> holds_token gate request"
    and "token_is_some_and gate (bearer_token (rq_headers request)) \<Longrightarrow> holds_token gate request"
    and "query_token (rq_query request) = Some c \<Longrightarrow> token_is_some_and gate (parse_hex c) \<Longrightarrow> holds_token gate request"
  using accepted_token_iff [OF assms]
  by (auto simp: holds_token_def presented_def cookie_token_def bearer_token_def token_is_some_and_def [of gate None]
      split: bind_splits)

lemma no_token_rejected:
  assumes "length (token_bytes (lg_token gate)) = 32" and "\<not> holds_token gate request"
  shows "\<exists>rejection. decision gate request = Reject rejection \<and> rj_status rejection \<in> {401, 403}"
  using header_token_iff [OF assms(1), of request] assms(2)
  by (auto simp: decide_def Let_def unauthorized_def split: option.split)

lemma foreign_host_rejected:
  "\<not> host_is_loopback gate (rq_headers request) \<Longrightarrow> \<exists>rejection. decision gate request = Reject rejection \<and> rj_status rejection = 403"
  by (simp add: decide_def)

lemma cross_site_not_allowed:
  assumes "cross_site gate (rq_headers request)"
    and "rq_method request \<notin> {GET, HEAD} \<or> is_protocol_upgrade (rq_headers request)"
  shows "decision gate request \<noteq> Allow"
proof -
  have "cross_origin_decision gate (rq_method request) (rq_headers request) \<noteq> Allow"
    using assms
    by (cases "get_header (rq_headers request) ''sec-fetch-site''"; cases "get_header (rq_headers request) ''origin''")
      (auto simp: cross_origin_decision_def cross_site_def is_same_site_def)
  then show ?thesis by (auto simp: decide_def Let_def split: option.splits)
qed

lemma unproven_upgrade_not_allowed:
  assumes "is_protocol_upgrade (rq_headers request)" "get_header (rq_headers request) ''sec-fetch-site'' = None"
    "get_header (rq_headers request) ''origin'' = None"
  shows "decision gate request \<noteq> Allow"
  using assms by (auto simp: decide_def cross_origin_decision_def is_same_site_def Let_def split: option.splits)

lemma gate_hides_app: "decision gate request \<noteq> Allow \<Longrightarrow>
  secured to_vec app (Some gate) request = secured to_vec app' (Some gate) request"
  by (cases "decision gate request") (simp_all add: secured_def security_headers_def enforce_def)

lemma secured_status: "rs_status (secured to_vec app (Some gate) request)
    = (case decision gate request of Allow \<Rightarrow> rs_status (app request) | Bootstrap _ _ \<Rightarrow> 303 | Reject rejection \<Rightarrow> rj_status rejection)"
  by (auto simp: secured_def security_headers_def enforce_def Let_def bootstrap_response_def rejection_response_def
      split: Decision.split)

text \<open>
  C24. The application behind the loopback gate is unreachable for anybody but the holder of the
  session token on this origin: when a request presents no text that is the token, names another
  host, would change something or open a channel from another site, or opens a channel without
  saying where it comes from, the response is the same whatever the application is. Without the token it is 401 or 403, so no session cookie is given out.
\<close>

theorem foreign_request_never_reaches_app:
  assumes "length (token_bytes (lg_token gate)) = 32"
    and "\<not> holds_token gate request \<or> \<not> host_is_loopback gate (rq_headers request)
       \<or> cross_site gate (rq_headers request)
         \<and> (rq_method request \<notin> {GET, HEAD} \<or> is_protocol_upgrade (rq_headers request))
       \<or> is_protocol_upgrade (rq_headers request) \<and> get_header (rq_headers request) ''sec-fetch-site'' = None
         \<and> get_header (rq_headers request) ''origin'' = None"
  shows "secured to_vec app (Some gate) request = secured to_vec app' (Some gate) request
     \<and> (\<not> holds_token gate request \<longrightarrow> rs_status (secured to_vec app (Some gate) request) \<in> {401, 403})"
proof -
  have "decision gate request \<noteq> Allow"
    using assms(2) no_token_rejected [OF assms(1)] foreign_host_rejected cross_site_not_allowed
      unproven_upgrade_not_allowed by (metis Decision.distinct(3))
  then show ?thesis
    using gate_hides_app no_token_rejected [OF assms(1), of request] by (auto simp: secured_status)
qed


text \<open>A token file the daemon creates is read back as the token it holds.\<close>

lemma ascii_is_utf8: "list_all (\<lambda>c. (of_char c :: nat) < 128) s \<Longrightarrow> is_utf8 s"
  unfolding is_utf8_def by (induction s) simp_all

lemma trim_line:
  assumes "s \<noteq> []" "plain_char (hd s)" "plain_char (last s)"
  shows "trim (s @ [CHR 0x0A]) = s"
proof -
  have "first_stripped (map rev whitespace_encodings) (CHR 0x0A # rev s) = Some (rev s)"
    by (simp add: whitespace_encodings_def)
  then have "trim_end (s @ [CHR 0x0A]) = trim_end s"
    by (simp add: trim_end_def trim_by.simps [of _ "CHR 0x0A # rev s"])
  moreover have "trim_start (s @ [CHR 0x0A]) = s @ [CHR 0x0A]"
    using assms by (intro trim_start_plain) (simp add: hd_append)
  ultimately show ?thesis using assms trim_end_plain [of s] by (simp add: trim_def)
qed

lemma hex_digit_plain: "v < 16 \<Longrightarrow> plain_char (token_hex_digit v) \<and> (of_char (token_hex_digit v) :: nat) < 128
    \<and> to_ascii_lowercase (token_hex_digit v) = token_hex_digit v"
proof -
  assume v: "v < 16"
  then have "unat v < 16" by (simp add: word_less_nat_alt)
  then show ?thesis
    by (auto simp: plain_char_def Let_def to_ascii_lowercase_def is_ascii_uppercase_def of_char_hex_digit [OF v])
qed

lemma to_hex_plain: "c \<in> set (to_hex t) \<Longrightarrow> plain_char c \<and> (of_char c :: nat) < 128 \<and> to_ascii_lowercase c = c"
  using hex_digit_plain nibble_bounds by (auto simp: to_hex_def byte_hex.simps)

lemma parse_to_hex: "length (token_bytes t) = 32 \<Longrightarrow> parse_hex (to_hex t) = Some t"
  using to_hex_plain [of _ t] by (simp add: parse_hex_iff map_idI)

lemma token_generate_length: "token_generate random = Inr t \<Longrightarrow> length (token_bytes t) = 32"
  by (auto simp: token_generate_def and_then_def TOKEN_BYTES_def split: sum.splits if_splits)

lemma token_file_roundtrip:
  assumes "load_or_create_token_file failing (Inl e) random path uid = (Inr token, Some node)"
    and "failing' ''inspect'' = None" and "failing' ''read'' = None"
  shows "load_or_create_token_file failing' (Inr node) random' path uid = (Inr token, None)"
proof -
  have g: "token_generate random = Inr token"
    and node: "node = \<lparr>fn_meta = \<lparr>md_kind = FileRegular, md_uid = uid, md_mode = 0x180\<rparr>,
       fn_bytes = map (\<lambda>c. of_nat (of_char c)) (to_hex token) @ [10]\<rparr>"
    using assms(1)
    by (auto simp: load_or_create_token_file_def and_then_def Let_def split: if_splits sum.splits option.splits)
  let ?s = "to_hex token"
  have len: "length ?s = 64" using token_generate_length [OF g] by (simp add: length_to_hex)
  then have ne: "?s \<noteq> []" by auto
  have "char_of (unat (of_nat (of_char c) :: u8)) = c" for c
    using of_char_less [of c] by (simp add: unat_of_nat_u8)
  moreover have "char_of (unat (10 :: u8)) = CHR 0x0A" by code_simp
  ultimately have contents: "map (\<lambda>b. char_of (unat b)) (fn_bytes node) = ?s @ [CHR 0x0A]"
    by (simp add: node o_def)
  have "is_utf8 (?s @ [CHR 0x0A])"
    using to_hex_plain [of _ token] by (intro ascii_is_utf8) (auto simp: list_all_iff)
  moreover have "trim (?s @ [CHR 0x0A]) = ?s"
    using ne to_hex_plain [of _ token] by (intro trim_line) auto
  moreover have "token_from_hex ?s = Inr token"
    using parse_to_hex token_generate_length [OF g] by (simp add: token_from_hex_def ok_or_def)
  moreover have "md_kind (fn_meta node) = FileRegular" "md_uid (fn_meta node) = uid" "permissions (fn_meta node) = 0x180"
    by (simp_all add: node permissions_def)
  ultimately show ?thesis
    using assms(2,3) by (simp add: load_or_create_token_file_def contents io_step_def and_then_def Let_def)
qed

section \<open>Witnesses\<close>

definition demo_gate :: LoopbackGate where
  "demo_gate = \<lparr>lg_token = SessionToken (replicate 32 7), lg_port = 80\<rparr>"

definition demo_request :: "(string \<times> string) list \<Rightarrow> Request" where
  "demo_request credentials = \<lparr>rq_method = GET, rq_path = ''/'', rq_query = None,
     rq_headers = (''host'', ''localhost:80'') # credentials\<rparr>"

definition demo_app :: "Request \<Rightarrow> Response" where
  "demo_app request = \<lparr>rs_status = 200, rs_headers = [], rs_body = [1], rs_policy = None\<rparr>"

theorem foreign_request_never_reaches_app_witness:
  "rs_status (secured (\<lambda>_. Inr []) demo_app (Some demo_gate) (demo_request [])) \<in> {401, 403}"
proof -
  have "\<not> holds_token demo_gate (demo_request [])"
    by (simp add: holds_token_def presented_def demo_request_def get_all_def bearer_credential_def get_header_def query_token_def)
  then show ?thesis
    using foreign_request_never_reaches_app [of demo_gate "demo_request []" "\<lambda>_. Inr []" demo_app demo_app] by (simp add: demo_gate_def)
qed

lemma to_str_hex: "to_str (to_hex t) = Some (to_hex t)"
proof -
  have "32 \<le> (of_char c :: nat) \<and> (of_char c :: nat) < 127" if "c \<in> set (to_hex t)" for c
    using to_hex_plain [OF that] by (simp add: plain_char_def Let_def)
  then show ?thesis by (simp add: to_str_def list_all_iff)
qed


end
