(* ===== verification/Snapshot.thy ===== *)
theory Snapshot
  imports Helpers Lifecycle
begin

text \<open>
  Machine snapshots, \<^verbatim>\<open>firestone-core/src/snapshot.rs\<close>: identifiers, the metadata document and the
  restore marker, and the copy that keeps the holes of a file. The source file is the sequence of
  bytes its reads give, cut by the kernel as the list of turns says; the destination is a byte list
  with the \<open>seek\<close>, \<open>write\<close> and \<open>set_len\<close> of a regular file. JSON decoding, SHA-256 and the
  rendered timestamp are arguments.
\<close>

section \<open>Documents\<close>

definition SNAPSHOT_FILE_MODE :: u32 where "SNAPSHOT_FILE_MODE = 0x180"
definition SNAPSHOT_DIR_MODE :: u32 where "SNAPSHOT_DIR_MODE = 0x1C0"
definition SNAPSHOT_SCHEMA_VERSION :: u32 where "SNAPSHOT_SCHEMA_VERSION = 1"
definition MAX_SNAPSHOT_NAME_BYTES :: nat where "MAX_SNAPSHOT_NAME_BYTES = 64"
definition MAX_SNAPSHOT_DOCUMENT_BYTES :: nat where "MAX_SNAPSHOT_DOCUMENT_BYTES = 64 * 1024"
definition SPARSE_BLOCK_BYTES :: nat where "SPARSE_BLOCK_BYTES = 128 * 1024"

fun snapshot_kind_as_str :: "SnapshotKind \<Rightarrow> string" where
  "snapshot_kind_as_str Cold = ''cold''"
| "snapshot_kind_as_str Warm = ''warm''"

record SnapshotMetadata =
  sm_schema_version :: u32
  sm_kind :: SnapshotKind
  sm_created_at :: string
  sm_image_id :: "string option"
  sm_firestone_version :: string
  sm_disk_bytes :: u64
  sm_memory_bytes :: "u64 option"

definition snapshot_conflict :: "string \<Rightarrow> string \<Rightarrow> FirestoneError" where
  "snapshot_conflict h msg = with_hint h (error_new Conflict msg)"

definition metadata_validate :: "SnapshotMetadata \<Rightarrow> string \<Rightarrow> (FirestoneError, unit) result" where
  "metadata_validate m path =
     (let retake = ''remove the snapshot directory and take a new snapshot''
      in if sm_schema_version m \<noteq> SNAPSHOT_SCHEMA_VERSION
         then Inl (snapshot_conflict ''remove the snapshot or use the Firestone release that wrote it''
                (''snapshot metadata '' @ quoted path @ '' has schema version '' @ show_nat (unat (sm_schema_version m))
                 @ ''; this Firestone writes '' @ show_nat (unat SNAPSHOT_SCHEMA_VERSION)))
         else if sm_created_at m = [] \<or> sm_firestone_version m = []
         then Inl (snapshot_conflict retake (''snapshot metadata '' @ quoted path @ '' is incomplete''))
         else case (sm_kind m, sm_memory_bytes m) of
                (Warm, Some _) \<Rightarrow> Inr ()
              | (Cold, None) \<Rightarrow> Inr ()
              | (Warm, None) \<Rightarrow>
                  Inl (snapshot_conflict retake (''warm snapshot metadata '' @ quoted path @ '' has no memory_bytes''))
              | (Cold, Some _) \<Rightarrow>
                  Inl (snapshot_conflict retake (''cold snapshot metadata '' @ quoted path @ '' records memory_bytes'')))"

definition auto_snapshot_name :: "string \<Rightarrow> string" where
  "auto_snapshot_name rendered =
     (let digits = take 14 (filter is_ascii_digit rendered)
      in if 14 \<le> length digits then ''snap-'' @ take 8 digits @ ''-'' @ take 6 (drop 8 digits)
         else ''snap-00000000-000000'')"

definition snapshot_name_char :: "char \<Rightarrow> bool" where
  "snapshot_name_char c \<longleftrightarrow> is_ascii_alphanumeric c \<or> c \<in> {CHR ''.'', CHR ''_'', CHR ''-''}"

definition validate_snapshot_name :: "(string \<Rightarrow> string) \<Rightarrow> string \<Rightarrow> (FirestoneError, unit) result" where
  "validate_snapshot_name dbg snapshot =
     (if snapshot \<noteq> [] \<and> length snapshot \<le> MAX_SNAPSHOT_NAME_BYTES
         \<and> \<not> starts_with ''.'' snapshot \<and> \<not> starts_with ''-'' snapshot
         \<and> list_all snapshot_name_char snapshot
      then Inr ()
      else Inl (with_hint (''use 1 to '' @ show_nat MAX_SNAPSHOT_NAME_BYTES
               @ '' characters from A-Z a-z 0-9 . _ - that do not start with '' @ quoted ''.'' @ '' or '' @ quoted ''-'')
             (error_new InvalidSpec (''snapshot name '' @ dbg snapshot @ '' is not a valid snapshot identifier''))))"

record RestoreRequest =
  rr_schema_version :: u32
  rr_snapshot :: string
  rr_snapshot_dir :: string
  rr_vmstate_dir :: string
  rr_vmconfig_sha256 :: string
  rr_created_at :: string

definition restore_validate :: "(string \<Rightarrow> string) \<Rightarrow> RestoreRequest \<Rightarrow> string \<Rightarrow> (FirestoneError, unit) result" where
  "restore_validate dbg r path =
     (let retry = ''remove the restore marker and retry the restore''
      in if rr_schema_version r \<noteq> SNAPSHOT_SCHEMA_VERSION
         then Inl (snapshot_conflict retry
                (''restore marker '' @ quoted path @ '' has schema version '' @ show_nat (unat (rr_schema_version r))
                 @ ''; this Firestone writes '' @ show_nat (unat SNAPSHOT_SCHEMA_VERSION)))
         else and_then (validate_snapshot_name dbg (rr_snapshot r)) (\<lambda>_.
           if \<not> is_absolute (rr_snapshot_dir r) \<or> \<not> is_absolute (rr_vmstate_dir r)
           then Inl (snapshot_conflict retry (''restore marker '' @ quoted path @ '' has a relative path''))
           else if length (rr_vmconfig_sha256 r) \<noteq> 64 \<or> \<not> list_all is_lower_hex_digit (rr_vmconfig_sha256 r)
           then Inl (snapshot_conflict retry (''restore marker '' @ quoted path @ '' has an invalid vmconfig digest''))
           else Inr ()))"

definition snapshot_io_error :: "string \<Rightarrow> string \<Rightarrow> IoError \<Rightarrow> FirestoneError" where
  "snapshot_io_error operation path source =
     with_hint ''check the Firestone data directory permissions''
       (error_new Generic (''cannot '' @ operation @ '' '' @ quoted path))"

definition read_snapshot_document ::
  "failures \<Rightarrow> files \<Rightarrow> string \<Rightarrow> string \<Rightarrow> (FirestoneError, u8 list) result" where
  "read_snapshot_document failing files path label =
     and_then (map_err (\<lambda>e. with_hint ''check the machine directory permissions''
         (error_new (if io_kind e = IoNotFound then NotFound else Dependency) (''cannot open '' @ label @ '' '' @ quoted path)))
       (open_nofollow failing ''open'' files path)) (\<lambda>node.
     and_then (io_step failing ''inspect'' (snapshot_io_error ''inspect'' path)) (\<lambda>_.
     if md_kind (fn_meta node) \<noteq> FileRegular
     then Inl (with_hint ''move the conflicting path aside and retry''
            (error_new Dependency (label @ '' '' @ quoted path @ '' is not a regular file'')))
     else if length (fn_bytes node) > MAX_SNAPSHOT_DOCUMENT_BYTES
     then Inl (with_hint ''remove the oversized document and retry''
            (error_new Conflict (label @ '' '' @ quoted path @ '' exceeds the ''
               @ show_nat MAX_SNAPSHOT_DOCUMENT_BYTES @ ''-byte limit'')))
     else and_then (io_step failing ''read'' (snapshot_io_error ''read'' path)) (\<lambda>_. Inr (fn_bytes node))))"

text \<open>\<open>decode\<close> is the typed JSON decoder, which refuses unknown fields.\<close>

definition read_snapshot_metadata ::
  "(u8 list \<Rightarrow> (unit, SnapshotMetadata) result) \<Rightarrow> failures \<Rightarrow> files \<Rightarrow> string \<Rightarrow> (FirestoneError, SnapshotMetadata) result" where
  "read_snapshot_metadata decode failing files path =
     and_then (read_snapshot_document failing files path ''snapshot metadata'') (\<lambda>bytes.
     and_then (map_err (\<lambda>_. snapshot_conflict ''remove the snapshot directory and take a new snapshot''
         (''snapshot metadata '' @ quoted path @ '' is not valid JSON'')) (decode bytes)) (\<lambda>m.
     and_then (metadata_validate m path) (\<lambda>_. Inr m)))"

definition read_restore_request ::
  "(string \<Rightarrow> string) \<Rightarrow> (u8 list \<Rightarrow> (unit, RestoreRequest) result) \<Rightarrow> failures \<Rightarrow> files \<Rightarrow> string
   \<Rightarrow> (FirestoneError, RestoreRequest) result" where
  "read_restore_request dbg decode failing files path =
     and_then (read_snapshot_document failing files path ''restore marker'') (\<lambda>bytes.
     and_then (map_err (\<lambda>_. snapshot_conflict ''remove the restore marker and retry the restore''
         (''restore marker '' @ quoted path @ '' is not valid JSON'')) (decode bytes)) (\<lambda>r.
     and_then (restore_validate dbg r path) (\<lambda>_. Inr r)))"

definition snapshot_file_url :: "string \<Rightarrow> (FirestoneError, string) result" where
  "snapshot_file_url directory =
     (if \<not> is_absolute directory
      then Inl (with_hint ''report this Firestone path bug''
             (error_new Generic (''VM state directory '' @ quoted directory @ '' is not absolute'')))
      else if \<not> is_utf8 directory
      then Inl (with_hint ''use a UTF-8 Firestone data directory''
             (error_new InvalidSpec (''VM state directory '' @ quoted directory @ '' is not UTF-8'')))
      else if contains_control directory
      then Inl (with_hint ''use a Firestone data directory without control characters''
             (error_new InvalidSpec ''VM state directory contains control characters''))
      else Inr (''file://'' @ directory))"

definition snapshot_document_digest :: "(u8 list \<Rightarrow> u8 list) \<Rightarrow> u8 list \<Rightarrow> string" where
  "snapshot_document_digest digest bytes =
     foldl (\<lambda>s byte. s @ show_hex2 (unat byte)) [] (digest bytes)"

section \<open>Directories and space\<close>

definition create_snapshot_directory :: "failures \<Rightarrow> string \<Rightarrow> (FirestoneError, unit) result" where
  "create_snapshot_directory failing path =
     and_then (io_step failing ''create'' (snapshot_io_error ''create'' path)) (\<lambda>_.
     io_step failing ''set mode'' (snapshot_io_error ''set mode 0700 on'' path))"

definition ensure_snapshot_directory :: "stat_fn \<Rightarrow> failures \<Rightarrow> string \<Rightarrow> (FirestoneError, unit) result" where
  "ensure_snapshot_directory stat failing path =
     (case stat path of
        Inr m \<Rightarrow>
          if md_kind m = FileSymlink
          then Inl (with_hint ''move the symlink aside and retry''
                 (error_new Dependency (''snapshot directory '' @ quoted path @ '' is a symbolic link'')))
          else if md_kind m = FileDirectory
          then io_step failing ''set mode'' (snapshot_io_error ''set mode 0700 on'' path)
          else Inl (with_hint ''move the conflicting path aside and retry''
                 (error_new Dependency (''snapshot directory '' @ quoted path @ '' is not a directory'')))
      | Inl e \<Rightarrow>
          if io_kind e = IoNotFound then create_snapshot_directory failing path
          else Inl (snapshot_io_error ''inspect'' path e))"

text \<open>\<open>statvfs\<close> gives the fragment size and the blocks available to the user.\<close>

definition available_bytes :: "(IoError, nat \<times> nat) result \<Rightarrow> string \<Rightarrow> (FirestoneError, nat) result" where
  "available_bytes statvfs path =
     and_then (map_err (\<lambda>_. with_hint ''check the Firestone data directory permissions''
         (error_new Dependency (''cannot measure free space on '' @ quoted path))) statvfs) (\<lambda>(fragment, blocks).
     Inr (saturating_mul fragment blocks))"

definition allocated_bytes :: "(IoError, nat) result \<Rightarrow> string \<Rightarrow> (FirestoneError, nat) result" where
  "allocated_bytes blocks path =
     (case blocks of
        Inr n \<Rightarrow> Inr (saturating_mul n 512)
      | Inl e \<Rightarrow> if io_kind e = IoNotFound then Inr 0 else Inl (snapshot_io_error ''inspect'' path e))"

section \<open>The sparse copy\<close>

text \<open>
  A turn is one \<open>read\<close> call that is interrupted, fails, or gives at most one byte more than the number
  it carries; after the list of turns every read gives all that is asked for.
\<close>

datatype ReadTurn = ReadInterrupted | ReadFails IoError | ReadTakes nat

type_synonym reader = "ReadTurn list \<times> u8 list"

fun sparse_read_block :: "nat \<Rightarrow> ReadTurn list \<Rightarrow> u8 list \<Rightarrow> (IoError, u8 list \<times> reader) result" where
  "sparse_read_block room [] rest = Inr (take room rest, [], drop room rest)"
| "sparse_read_block room (turn # turns) rest =
     (if room = 0 then Inr ([], turn # turns, rest)
      else case turn of
             ReadInterrupted \<Rightarrow> sparse_read_block room turns rest
           | ReadFails e \<Rightarrow> Inl e
           | ReadTakes n \<Rightarrow>
               if rest = [] then Inr ([], turns, [])
               else let k = min (Suc n) (min room (length rest))
                    in and_then (sparse_read_block (room - k) turns (drop k rest)) (\<lambda>(block, r).
                       Inr (take k rest @ block, r)))"

text \<open>Writing at an offset fills a gap with zeros; \<open>set_len\<close> cuts or extends with zeros.\<close>

definition write_at :: "nat \<Rightarrow> u8 list \<Rightarrow> u8 list \<Rightarrow> u8 list" where
  "write_at offset block f =
     take offset f @ replicate (offset - length f) 0 @ block @ drop (offset + length block) f"

definition set_len :: "nat \<Rightarrow> u8 list \<Rightarrow> u8 list" where
  "set_len n f = take n f @ replicate (n - length f) 0"

record SparseCopy =
  sc_apparent_bytes :: nat
  sc_written_bytes :: nat

text \<open>The kernel may fail each step on the destination, given the offset it happens at.\<close>

type_synonym write_failures = "string \<Rightarrow> nat \<Rightarrow> IoError option"

definition write_step :: "write_failures \<Rightarrow> string \<Rightarrow> string \<Rightarrow> nat \<Rightarrow> (FirestoneError, unit) result" where
  "write_step failing operation path offset =
     (case failing operation offset of None \<Rightarrow> Inr () | Some e \<Rightarrow> Inl (snapshot_io_error operation path e))"

text \<open>The state of the copy: the bytes written so far and the destination.\<close>

definition write_sparse_block ::
  "write_failures \<Rightarrow> string \<Rightarrow> u8 list \<Rightarrow> nat \<Rightarrow> nat \<times> u8 list \<Rightarrow> (FirestoneError, nat \<times> u8 list) result" where
  "write_sparse_block failing destination block offset state =
     (if list_ex (\<lambda>byte. byte \<noteq> 0) block
      then and_then (write_step failing ''seek'' destination offset) (\<lambda>_.
           and_then (write_step failing ''write'' destination offset) (\<lambda>_.
           Inr (saturating_add (fst state) (length block), write_at offset block (snd state))))
      else Inr state)"

lemma sparse_read_block_rest:
  "sparse_read_block room turns rest = Inr (block, turns', rest') \<Longrightarrow> block = take room rest \<and> rest' = drop room rest"
proof (induction turns arbitrary: room rest block turns' rest')
  case (Cons turn turns)
  show ?case
  proof (cases "room = 0 \<or> rest = []")
    case True
    then show ?thesis using Cons.prems Cons.IH [of room rest block turns' rest'] by (auto split: ReadTurn.splits if_splits)
  next
    case False
    show ?thesis
    proof (cases turn)
      case (ReadTakes n)
      let ?k = "min (Suc n) (min room (length rest))"
      from False Cons.prems ReadTakes obtain block' where b: "sparse_read_block (room - ?k) turns (drop ?k rest) = Inr (block', turns', rest')"
        "block = take ?k rest @ block'" by (auto simp: Let_def and_then_Inr_iff)
      have k: "?k \<le> room" by simp
      show ?thesis using Cons.IH [OF b(1)] b(2) k take_add [of ?k "room - ?k" rest] by (simp add: drop_drop)
    qed (use False Cons.prems Cons.IH [of room rest block turns' rest'] in auto)
  qed
qed auto

text \<open>\<open>copy_blocks\<close> is the loop: it stops at the first empty block. The destination is returned with an error too.\<close>

function copy_blocks ::
  "write_failures \<Rightarrow> string \<Rightarrow> string \<Rightarrow> ReadTurn list \<Rightarrow> u8 list \<Rightarrow> nat \<Rightarrow> nat \<times> u8 list
   \<Rightarrow> (FirestoneError, unit) result \<times> (nat \<times> u8 list)" where
  "copy_blocks failing source destination turns rest offset state =
     (case sparse_read_block SPARSE_BLOCK_BYTES turns rest of
        Inl e \<Rightarrow> (Inl (snapshot_io_error ''read'' source e), state)
      | Inr (block, turns', rest') \<Rightarrow>
          if block = [] then (Inr (), state)
          else case write_sparse_block failing destination block offset state of
                 Inl e \<Rightarrow> (Inl e, state)
               | Inr state' \<Rightarrow>
                   copy_blocks failing source destination turns' rest' (saturating_add offset (length block)) state')"
  by pat_completeness auto
termination
  by (relation "measure (\<lambda>(_, _, _, _, rest, _, _). length rest)")
    (auto simp: SPARSE_BLOCK_BYTES_def dest!: sparse_read_block_rest)

declare copy_blocks.simps [simp del]

text \<open>
  \<open>seen\<close> are the bytes the reads give: the file's own, unless another process changes it meanwhile. A
  failing \<open>write\<close> leaves the destination as it was before the block.
\<close>

definition sparse_copy_file ::
  "failures \<Rightarrow> write_failures \<Rightarrow> ReadTurn list \<Rightarrow> u8 list \<Rightarrow> u32 \<Rightarrow> files \<Rightarrow> string \<Rightarrow> string \<Rightarrow> u32
   \<Rightarrow> (FirestoneError, SparseCopy) result \<times> files" where
  "sparse_copy_file failing write_failing turns seen uid files source destination mode =
     (case open_nofollow failing ''open'' files source of
        Inl e \<Rightarrow> (Inl (snapshot_io_error ''open'' source e), files)
      | Inr node \<Rightarrow>
          case io_step failing ''inspect'' (snapshot_io_error ''inspect'' source) of
            Inl e \<Rightarrow> (Inl e, files)
          | Inr _ \<Rightarrow>
              if md_kind (fn_meta node) \<noteq> FileRegular
              then (Inl (with_hint ''restore the owned machine file and retry''
                      (error_new Dependency (quoted source @ '' is not a regular file''))), files)
              else if files destination \<noteq> None
              then (Inl (snapshot_io_error ''create'' destination \<lparr>io_kind = IoAlreadyExists, io_text = ''File exists''\<rparr>), files)
              else case write_step write_failing ''create'' destination 0 of
                     Inl e \<Rightarrow> (Inl e, files)
                   | Inr _ \<Rightarrow>
                       let apparent = length (fn_bytes node);
                           (r, written, out) = copy_blocks write_failing source destination turns seen 0 (0, []);
                           keep = (\<lambda>bytes. files(destination \<mapsto>
                             \<lparr>fn_meta = \<lparr>md_kind = FileRegular, md_uid = uid, md_mode = mode\<rparr>, fn_bytes = bytes\<rparr>))
                       in case r of
                            Inl e \<Rightarrow> (Inl e, keep out)
                          | Inr _ \<Rightarrow>
                              case write_step write_failing ''truncate'' destination apparent of
                                Inl e \<Rightarrow> (Inl e, keep out)
                              | Inr _ \<Rightarrow>
                                  (and_then (write_step write_failing ''sync'' destination apparent) (\<lambda>_.
                                     Inr \<lparr>sc_apparent_bytes = apparent, sc_written_bytes = written\<rparr>),
                                   keep (set_len apparent out)))"

section \<open>Identifiers\<close>

lemma snapshot_name_ok:
  "validate_snapshot_name dbg s = Inr () \<longleftrightarrow>
     s \<noteq> [] \<and> length s \<le> 64 \<and> hd s \<notin> {CHR ''.'', CHR ''-''} \<and> list_all snapshot_name_char s"
  by (cases s) (auto simp: validate_snapshot_name_def MAX_SNAPSHOT_NAME_BYTES_def starts_with_def)

lemma snapshot_name_chars: "snapshot_name_char c \<Longrightarrow> c \<noteq> CHR ''/'' \<and> 32 \<le> (of_char c :: nat) \<and> (of_char c :: nat) < 127"
  by (auto simp: snapshot_name_char_def is_ascii_alphanumeric_def is_ascii_alphabetic_def is_ascii_digit_def
      is_ascii_uppercase_def is_ascii_lowercase_def Let_def)

lemma no_control: "list_all (\<lambda>c. 32 \<le> (of_char c :: nat) \<and> (of_char c :: nat) < 127) s \<Longrightarrow> \<not> contains_control s"
  by (induction s) (auto simp: Let_def)

text \<open>The three directory names a valid identifier gives are names of one component each.\<close>

lemma snapshot_name_plain:
  assumes "validate_snapshot_name dbg s = Inr ()" and "w \<in> {[], ''.partial-'', ''.removing-''}"
  shows "plain_name (w @ s) \<and> \<not> contains_control (w @ s)"
proof -
  have s: "s \<noteq> []" "hd s \<noteq> CHR ''.''" "\<forall>c \<in> set s. c \<noteq> CHR ''/'' \<and> 32 \<le> (of_char c :: nat) \<and> (of_char c :: nat) < 127"
    using assms(1) snapshot_name_chars by (auto simp: snapshot_name_ok list_all_iff)
  have "list_all (\<lambda>c. 32 \<le> (of_char c :: nat) \<and> (of_char c :: nat) < 127) w" using assms(2) by auto
  then have "\<not> contains_control (w @ s)" using s(3) by (intro no_control) (auto simp only: list_all_iff set_append)
  moreover have "plain_name (w @ s)"
  proof -
    obtain c t where "s = c # t" using s(1) by (cases s) auto
    moreover have "CHR ''/'' \<notin> set w" using assms(2) by auto
    moreover have "CHR ''/'' \<notin> set s" using s(3) by blast
    ultimately show ?thesis using s(2) assms(2) unfolding plain_name_def by (elim insertE) simp_all
  qed
  ultimately show ?thesis by blast
qed

lemma auto_snapshot_name_valid: "validate_snapshot_name dbg (auto_snapshot_name rendered) = Inr ()"
proof (cases "14 \<le> length (take 14 (filter is_ascii_digit rendered))")
  case True
  define d where "d = take 14 (filter is_ascii_digit rendered)"
  then have d: "length d = 14" "list_all is_ascii_digit d" using True by (auto simp: list_all_iff dest!: in_set_takeD)
  then have "list_all snapshot_name_char (take 8 d)" "list_all snapshot_name_char (take 6 (drop 8 d))"
    by (auto simp: list_all_iff snapshot_name_char_def is_ascii_alphanumeric_def dest!: in_set_takeD in_set_dropD)
  moreover have "auto_snapshot_name rendered = ''snap-'' @ take 8 d @ ''-'' @ take 6 (drop 8 d)"
    using d by (simp add: auto_snapshot_name_def d_def Let_def)
  ultimately show ?thesis
    using d by (simp add: snapshot_name_ok snapshot_name_char_def is_ascii_alphanumeric_def is_ascii_alphabetic_def
        is_ascii_lowercase_def)
next
  case False
  then have "auto_snapshot_name rendered = ''snap-00000000-000000''" by (simp add: auto_snapshot_name_def Let_def)
  then show ?thesis
    by (simp add: snapshot_name_ok snapshot_name_char_def is_ascii_alphanumeric_def is_ascii_alphabetic_def
        is_ascii_lowercase_def is_ascii_digit_def)
qed

section \<open>The copy\<close>

lemma length_set_len [simp]: "length (set_len n f) = n"
  by (simp add: set_len_def)

lemma set_len_same [simp]: "set_len (length f) f = f"
  by (simp add: set_len_def)

lemma set_len_set_len: "length f \<le> m \<Longrightarrow> set_len n (set_len m f) = set_len n f"
  by (auto simp: set_len_def simp flip: replicate_add)

lemma saturating_add_exact: "a + b < 2 ^ 64 \<Longrightarrow> saturating_add a b = a + b"
  by (simp add: saturating_add_def)

text \<open>A block at the end of the file, hole included, extends it.\<close>

lemma write_at_end: "length f \<le> offset \<Longrightarrow> write_at offset block f = set_len offset f @ block"
  by (simp add: write_at_def set_len_def)

lemma set_len_zeros:
  assumes "length f \<le> offset" "\<not> list_ex (\<lambda>byte. byte \<noteq> 0) block"
  shows "set_len (offset + length block) f = set_len offset f @ block"
proof -
  have "block = replicate (length block) 0" using assms(2) by (simp add: list_ex_iff replicate_length_same)
  then have "set_len offset f @ block = f @ replicate (offset - length f) 0 @ replicate (length block) 0"
    using assms(1) by (metis append.assoc set_len_def take_all)
  also have "\<dots> = f @ replicate (offset + length block - length f) 0" using assms(1) by (simp flip: replicate_add)
  finally show ?thesis using assms(1) by (simp add: set_len_def)
qed

fun blocks :: "nat \<Rightarrow> 'a list \<Rightarrow> 'a list list" where
  "blocks n xs = (if n = 0 \<or> xs = [] then [] else take n xs # blocks n (drop n xs))"

declare blocks.simps [simp del]

definition nonzero_bytes :: "u8 list \<Rightarrow> nat" where
  "nonzero_bytes xs = sum_list (map length (filter (list_ex (\<lambda>byte. byte \<noteq> 0)) (blocks SPARSE_BLOCK_BYTES xs)))"

lemma nonzero_bytes_step: "xs \<noteq> [] \<Longrightarrow> nonzero_bytes xs =
    (if list_ex (\<lambda>byte. byte \<noteq> 0) (take SPARSE_BLOCK_BYTES xs) then length (take SPARSE_BLOCK_BYTES xs) else 0)
    + nonzero_bytes (drop SPARSE_BLOCK_BYTES xs)"
  by (simp add: nonzero_bytes_def blocks.simps [of _ xs] SPARSE_BLOCK_BYTES_def)

lemma nonzero_bytes_le: "nonzero_bytes xs \<le> length xs"
proof (induction xs rule: length_induct)
  case (1 xs)
  show ?case
  proof (cases "xs = []")
    case False
    then have "nonzero_bytes (drop SPARSE_BLOCK_BYTES xs) \<le> length (drop SPARSE_BLOCK_BYTES xs)"
      using 1 by (intro mp [OF spec [OF 1]]) (simp add: SPARSE_BLOCK_BYTES_def)
    then show ?thesis using nonzero_bytes_step [OF False] by auto
  qed (simp add: nonzero_bytes_def blocks.simps)
qed

lemma write_block_state:
  assumes "write_sparse_block failing destination block offset (w, f) = Inr (w', f')" "length f \<le> offset"
  shows "length f' \<le> offset + length block" and "set_len (offset + length block) f' = set_len offset f @ block"
    and "w' = (if list_ex (\<lambda>byte. byte \<noteq> 0) block then saturating_add w (length block) else w)"
  using assms set_len_zeros [of f offset block] set_len_same [of "set_len offset f @ block"]
  by (auto simp: write_sparse_block_def and_then_Inr_iff write_at_end simp del: set_len_same split: if_splits)

text \<open>The loop, from any point: the destination, holes included, grows by exactly what is left to read.\<close>

lemma copy_blocks_result:
  assumes "copy_blocks failing source destination turns rest offset (w, f) = (Inr (), w', f')"
    and "length f \<le> offset" and "offset + length rest < 2 ^ 64" and "w \<le> offset"
  shows "length f' \<le> offset + length rest \<and> set_len (offset + length rest) f' = set_len offset f @ rest
     \<and> w' = w + nonzero_bytes rest"
  using assms
proof (induction "length rest" arbitrary: turns rest offset w f rule: less_induct)
  case less
  from less.prems(1) obtain block turns' rest' where r: "sparse_read_block SPARSE_BLOCK_BYTES turns rest = Inr (block, turns', rest')"
    by (subst (asm) copy_blocks.simps) (auto split: sum.splits prod.splits)
  then have b: "block = take SPARSE_BLOCK_BYTES rest" "rest' = drop SPARSE_BLOCK_BYTES rest" using sparse_read_block_rest by auto
  show ?case
  proof (cases "block = []")
    case True
    then have "rest = []" using b by (simp add: SPARSE_BLOCK_BYTES_def)
    moreover have "w' = w \<and> f' = f"
      using less.prems(1) unfolding copy_blocks.simps [of _ _ _ turns] by (simp add: r True)
    ultimately show ?thesis using less.prems by (simp add: nonzero_bytes_def blocks.simps)
  next
    case False
    from less.prems(1) r False obtain w1 f1 where
      s: "write_sparse_block failing destination block offset (w, f) = Inr (w1, f1)"
      and c: "copy_blocks failing source destination turns' rest' (saturating_add offset (length block)) (w1, f1) = (Inr (), w', f')"
      by (subst (asm) copy_blocks.simps) (auto split: sum.splits)
    have len: "length block + length rest' = length rest" "rest = block @ rest'" using b by auto
    then have off: "saturating_add offset (length block) = offset + length block"
      using less.prems(3) by (intro saturating_add_exact) linarith
    have w1: "w1 = w + (if list_ex (\<lambda>byte. byte \<noteq> 0) block then length block else 0)"
    proof -
      have "w + length block < 2 ^ 64" using less.prems(3,4) len(1) by linarith
      then show ?thesis using write_block_state(3) [OF s less.prems(2)] by (simp add: saturating_add_exact)
    qed
    have "rest \<noteq> []" using False b by auto
    then have "length rest' < length rest" using b by (simp add: SPARSE_BLOCK_BYTES_def)
    moreover have "offset + length block + length rest' < 2 ^ 64" using less.prems(3) len by linarith
    moreover have "w1 \<le> offset + length block" using w1 less.prems(4) by simp
    ultimately have "length f' \<le> offset + length block + length rest' \<and>
        set_len (offset + length block + length rest') f' = set_len (offset + length block) f1 @ rest' \<and> w' = w1 + nonzero_bytes rest'"
      using less.hyps c [unfolded off] write_block_state(1) [OF s less.prems(2)] by blast
    moreover have "nonzero_bytes rest = (if list_ex (\<lambda>byte. byte \<noteq> 0) block then length block else 0) + nonzero_bytes rest'"
      unfolding b by (rule nonzero_bytes_step) fact
    moreover have "offset + length block + length rest' = offset + length rest" using len(1) by simp
    ultimately show ?thesis
      unfolding write_block_state(2) [OF s less.prems(2)] w1 by (metis append.assoc add.assoc len(2))
  qed
qed

text \<open>Reads that are only cut short or interrupted do not stop the loop.\<close>

definition reads_succeed :: "ReadTurn list \<Rightarrow> bool" where
  "reads_succeed turns \<longleftrightarrow> list_all (\<lambda>turn. case turn of ReadFails _ \<Rightarrow> False | _ \<Rightarrow> True) turns"

lemma sparse_read_block_succeeds:
  "reads_succeed turns \<Longrightarrow> \<exists>block turns' rest'. sparse_read_block room turns rest = Inr (block, turns', rest') \<and> reads_succeed turns'"
proof (induction turns arbitrary: room rest)
  case (Cons turn turns)
  then have ok: "reads_succeed turns" by (simp add: reads_succeed_def)
  show ?case
  proof (cases turn)
    case ReadInterrupted
    then show ?thesis using Cons.prems Cons.IH [OF ok, of room rest] by auto
  next
    case (ReadFails e)
    then show ?thesis using Cons.prems by (simp add: reads_succeed_def)
  next
    case (ReadTakes n)
    let ?k = "min (Suc n) (min room (length rest))"
    show ?thesis
      using ReadTakes Cons.prems ok Cons.IH [OF ok, of "room - ?k" "drop ?k rest"] by (auto simp: Let_def)
  qed
qed simp

lemma copy_blocks_succeeds:
  "reads_succeed turns \<Longrightarrow> \<exists>w f. copy_blocks (\<lambda>_ _. None) source destination turns rest offset state = (Inr (), w, f)"
proof (induction "length rest" arbitrary: turns rest offset state rule: less_induct)
  case less
  obtain block turns' rest' where r: "sparse_read_block SPARSE_BLOCK_BYTES turns rest = Inr (block, turns', rest')" "reads_succeed turns'"
    using sparse_read_block_succeeds [OF less.prems] by blast
  show ?case
  proof (cases "block = []")
    case True
    then show ?thesis by (cases state) (simp add: copy_blocks.simps [of _ _ _ turns] r)
  next
    case False
    have "length rest' < length rest" using False sparse_read_block_rest [OF r(1)] by (auto simp: SPARSE_BLOCK_BYTES_def)
    then show ?thesis
      using less.hyps [OF _ r(2)] False
      by (simp add: copy_blocks.simps [of _ _ _ turns] r write_sparse_block_def write_step_def)
  qed
qed

text \<open>
  C22. The sparse copy copies: whenever it reports success, the destination has exactly the bytes the
  reads gave, cut or filled with zeros to the length the source had when it was opened, however the
  kernel cut the reads; an all-zero block is never written. It succeeds when no step fails, so a file
  nobody changes meanwhile is copied byte for byte.
\<close>

theorem sparse_copy_exact:
  assumes "files source = Some node" and "length (fn_bytes node) < 2 ^ 64" and "length seen < 2 ^ 64"
    and "sparse_copy_file failing write_failing turns seen uid files source destination mode = (r, files')"
  shows "(\<forall>c. r = Inr c \<longrightarrow>
        c = \<lparr>sc_apparent_bytes = length (fn_bytes node), sc_written_bytes = nonzero_bytes seen\<rparr>
        \<and> files' = files(destination \<mapsto> \<lparr>fn_meta = \<lparr>md_kind = FileRegular, md_uid = uid, md_mode = mode\<rparr>,
            fn_bytes = set_len (length (fn_bytes node)) seen\<rparr>))
     \<and> (md_kind (fn_meta node) = FileRegular \<and> files destination = None \<and> reads_succeed turns
        \<and> failing = (\<lambda>_. None) \<and> write_failing = (\<lambda>_ _. None) \<and> seen = fn_bytes node \<longrightarrow>
        (\<exists>c copy. r = Inr c \<and> files' destination = Some copy \<and> fn_bytes copy = fn_bytes node))"
proof -
  obtain res w out where c: "copy_blocks write_failing source destination turns seen 0 (0, []) = (res, w, out)"
    by (metis prod_cases3)
  have exact: "set_len n out = set_len n seen \<and> w = nonzero_bytes seen" if "res = Inr ()" for n
  proof -
    have "set_len 0 [] = ([] :: u8 list)" by (simp add: set_len_def)
    then show ?thesis
      using copy_blocks_result [OF c [unfolded that]] assms(3) set_len_set_len [of out "length seen" n] by simp
  qed
  have partly: "c = \<lparr>sc_apparent_bytes = length (fn_bytes node), sc_written_bytes = nonzero_bytes seen\<rparr>
        \<and> files' = files(destination \<mapsto> \<lparr>fn_meta = \<lparr>md_kind = FileRegular, md_uid = uid, md_mode = mode\<rparr>,
            fn_bytes = set_len (length (fn_bytes node)) seen\<rparr>)" if "r = Inr c" for c
  proof -
    have "res = Inr () \<and> c = \<lparr>sc_apparent_bytes = length (fn_bytes node), sc_written_bytes = w\<rparr>
        \<and> files' = files(destination \<mapsto> \<lparr>fn_meta = \<lparr>md_kind = FileRegular, md_uid = uid, md_mode = mode\<rparr>,
            fn_bytes = set_len (length (fn_bytes node)) out\<rparr>)"
      using assms(4) unfolding that sparse_copy_file_def c Let_def prod.case
      by (simp add: assms(1) open_nofollow_def and_then_Inr_iff split: option.splits sum.splits if_splits)
    then show ?thesis using exact by simp
  qed
  have returns: "\<exists>c. r = Inr c" if "md_kind (fn_meta node) = FileRegular" "files destination = None" "reads_succeed turns"
      "failing = (\<lambda>_. None)" "write_failing = (\<lambda>_ _. None)"
  proof -
    have res: "res = Inr ()" using copy_blocks_succeeds [OF that(3), of source destination seen 0 "(0, [])"] c that(5) by auto
    have "open_nofollow failing ''open'' files source = Inr node"
      by (simp add: open_nofollow_def assms(1) that(1,4))
    moreover have "io_step failing o' e = Inr ()" "write_step write_failing o' p n = Inr ()" for o' e p n
      by (simp_all add: io_step_def write_step_def that(4,5))
    ultimately have "fst (sparse_copy_file failing write_failing turns seen uid files source destination mode)
        = Inr \<lparr>sc_apparent_bytes = length (fn_bytes node), sc_written_bytes = w\<rparr>"
      unfolding sparse_copy_file_def c Let_def prod.case by (simp add: that(1,2) res)
    then show ?thesis using assms(4) by simp
  qed
  show ?thesis
  proof (intro conjI allI impI)
    assume all: "md_kind (fn_meta node) = FileRegular \<and> files destination = None \<and> reads_succeed turns
        \<and> failing = (\<lambda>_. None) \<and> write_failing = (\<lambda>_ _. None) \<and> seen = fn_bytes node"
    then obtain c where "r = Inr c" using returns by blast
    with partly [OF this] all show "\<exists>c copy. r = Inr c \<and> files' destination = Some copy \<and> fn_bytes copy = fn_bytes node"
      by simp
  qed (use partly in blast)+
qed

text \<open>
  Snapshots cannot leave or collide in the machine's snapshot directory: for accepted identifiers
  the published, the partial and the removal directory are direct children of it, a published name
  is never the partial or removal name of any snapshot nor the lock, and it is not hidden, which is how
  the listing tells them apart. The automatic identifier is always accepted.
\<close>

lemma snapshot_directories_apart:
  assumes "validate_snapshot_name dbg a = Inr ()" and "validate_snapshot_name dbg b = Inr ()"
    and "machine_snapshots_dir dbg paths name = Inr dir"
  shows "machine_snapshot_dir dbg paths name a = Inr (path_join dir a)
     \<and> machine_snapshot_partial_dir dbg paths name a = Inr (path_join dir (''.partial-'' @ a))
     \<and> machine_snapshot_removal_dir dbg paths name a = Inr (path_join dir (''.removing-'' @ a))
     \<and> distinct [a, ''.partial-'' @ b, ''.removing-'' @ b, ''.lock''] \<and> \<not> starts_with ''.'' a
     \<and> validate_snapshot_name dbg (auto_snapshot_name rendered) = Inr ()"
proof -
  have a: "a \<noteq> []" "hd a \<noteq> CHR ''.''" using assms(1) by (simp_all add: snapshot_name_ok)
  have "machine_snapshot_dir dbg paths name a = Inr (path_join dir a)"
    using snapshot_name_plain [OF assms(1), of "[]"] assms(3) by (simp add: machine_snapshot_dir_def checked_join_iff)
  moreover have "machine_snapshot_partial_dir dbg paths name a = Inr (path_join dir (''.partial-'' @ a))"
    using snapshot_name_plain [OF assms(1), of "''.partial-''"] assms(3)
    by (simp add: machine_snapshot_partial_dir_def checked_join_iff)
  moreover have "machine_snapshot_removal_dir dbg paths name a = Inr (path_join dir (''.removing-'' @ a))"
    using snapshot_name_plain [OF assms(1), of "''.removing-''"] assms(3)
    by (simp add: machine_snapshot_removal_dir_def checked_join_iff)
  moreover have "distinct [a, ''.partial-'' @ b, ''.removing-'' @ b, ''.lock''] \<and> \<not> starts_with ''.'' a"
    using a by (cases a) (auto simp: starts_with_def)
  ultimately show ?thesis using auto_snapshot_name_valid by blast
qed

section \<open>Witnesses\<close>

definition demo_disk :: FileNode where
  "demo_disk = \<lparr>fn_meta = \<lparr>md_kind = FileRegular, md_uid = 1000, md_mode = 0x180\<rparr>, fn_bytes = [1, 0, 2]\<rparr>"

theorem sparse_copy_exact_witness:
  "\<exists>c copy. fst (sparse_copy_file (\<lambda>_. None) (\<lambda>_ _. None) [ReadInterrupted, ReadTakes 0] [1, 0, 2] 1000
       [''/a'' \<mapsto> demo_disk] ''/a'' ''/b'' 0x180) = Inr c
     \<and> snd (sparse_copy_file (\<lambda>_. None) (\<lambda>_ _. None) [ReadInterrupted, ReadTakes 0] [1, 0, 2] 1000
       [''/a'' \<mapsto> demo_disk] ''/a'' ''/b'' 0x180) ''/b'' = Some copy \<and> fn_bytes copy = [1, 0, 2]"
  using sparse_copy_exact [of "[''/a'' \<mapsto> demo_disk]" "''/a''" demo_disk "[1, 0, 2]" "\<lambda>_. None" "\<lambda>_ _. None"
      "[ReadInterrupted, ReadTakes 0]" 1000 "''/b''" "0x180", OF _ _ _ surjective_pairing]
  by (simp add: demo_disk_def reads_succeed_def)

end
