(* ===== verification/Atomic_File.thy ===== *)
theory Atomic_File
  imports Paths
begin

text \<open>
  Durable replacement of a file, \<^verbatim>\<open>firestone-core/src/atomic.rs\<close>. The disk keeps what a power loss
  may leave: every name has the set of entries it had since its directory was last synced, and every
  file whose data was not synced may hold anything. A run of the writer is its result and the list of
  the disks after each system call, so a crash at any point is a member of the list. The serializer
  and the write callback are arguments.
\<close>

section \<open>The disk\<close>

record Disk =
  dk_entry :: "PathComponent list \<Rightarrow> nat option"
  dk_possible :: "PathComponent list \<Rightarrow> nat option set"
  dk_data :: "nat \<Rightarrow> u8 list"
  dk_synced :: "nat \<Rightarrow> bool"
  dk_mode :: "nat \<Rightarrow> u32 option"
  dk_next :: nat

definition set_entry :: "PathComponent list \<Rightarrow> nat option \<Rightarrow> Disk \<Rightarrow> Disk" where
  "set_entry p e d = d\<lparr>dk_entry := (dk_entry d)(p := e), dk_possible := (dk_possible d)(p := insert e (dk_possible d p))\<rparr>"

definition disk_create :: "string \<Rightarrow> u32 option \<Rightarrow> Disk \<Rightarrow> Disk" where
  "disk_create p mode d =
     (set_entry (components p) (Some (dk_next d)) d)
       \<lparr>dk_data := (dk_data d)(dk_next d := []), dk_synced := (dk_synced d)(dk_next d := False),
        dk_mode := (dk_mode d)(dk_next d := mode), dk_next := Suc (dk_next d)\<rparr>"

definition disk_write :: "nat \<Rightarrow> u8 list \<Rightarrow> Disk \<Rightarrow> Disk" where
  "disk_write i bytes d = d\<lparr>dk_data := (dk_data d)(i := dk_data d i @ bytes), dk_synced := (dk_synced d)(i := False)\<rparr>"

definition disk_sync :: "nat \<Rightarrow> Disk \<Rightarrow> Disk" where
  "disk_sync i d = d\<lparr>dk_synced := (dk_synced d)(i := True)\<rparr>"

definition disk_rename :: "string \<Rightarrow> string \<Rightarrow> Disk \<Rightarrow> Disk" where
  "disk_rename a b d = set_entry (components a) None (set_entry (components b) (dk_entry d (components a)) d)"

definition disk_sync_parent :: "string \<Rightarrow> Disk \<Rightarrow> Disk" where
  "disk_sync_parent p d =
     d\<lparr>dk_possible := (\<lambda>c. if c \<noteq> [] \<and> butlast c = butlast (components p) then {dk_entry d c} else dk_possible d c)\<rparr>"

text \<open>What reading the path gives now, and what it may give after a power loss.\<close>

definition contents :: "Disk \<Rightarrow> string \<Rightarrow> u8 list option" where
  "contents d p = map_option (dk_data d) (dk_entry d (components p))"

definition after_crash :: "Disk \<Rightarrow> string \<Rightarrow> u8 list option set" where
  "after_crash d p = {v. \<exists>e \<in> dk_possible d (components p).
     (case e of None \<Rightarrow> v = None | Some i \<Rightarrow> \<exists>bytes. v = Some bytes \<and> (dk_synced d i \<longrightarrow> bytes = dk_data d i))}"

section \<open>The writer\<close>

definition io_failure :: "string \<Rightarrow> string \<Rightarrow> IoError \<Rightarrow> FirestoneError" where
  "io_failure operation path error =
     with_hint ''check that the directory is writable and has free space''
       (error_new Generic (''cannot '' @ operation @ '' '' @ path))"

definition parent_directory :: "string \<Rightarrow> (FirestoneError, string) result" where
  "parent_directory path =
     (case path_parent path of
        Some parent \<Rightarrow> if parent = [] then Inr ''.'' else Inr parent
      | None \<Rightarrow> Inl (with_hint ''use a file path with a parent directory''
          (error_new Generic (''cannot determine parent directory for '' @ path))))"

definition temp_path :: "string \<Rightarrow> (FirestoneError, string) result" where
  "temp_path path =
     (case path_file_name path of
        None \<Rightarrow> Inl (with_hint ''use a path to a file, not a directory''
          (error_new Generic (''cannot determine file name for '' @ path)))
      | Some file_name \<Rightarrow>
          Inr (path_join (case path_parent path of Some parent \<Rightarrow> parent | None \<Rightarrow> []) (file_name @ ''.tmp'')))"

type_synonym calls = "string \<Rightarrow> IoError option"

definition remove_known_temp :: "calls \<Rightarrow> string \<Rightarrow> Disk \<Rightarrow> (FirestoneError, Disk) result" where
  "remove_known_temp failing temp d =
     (if dk_entry d (components temp) = None then Inr d
      else case failing ''remove stale temporary file'' of
             None \<Rightarrow> Inr (set_entry (components temp) None d)
           | Some error \<Rightarrow> Inl (io_failure ''remove stale temporary file'' temp error))"

definition fail_before_rename :: "calls \<Rightarrow> string \<Rightarrow> string \<Rightarrow> IoError \<Rightarrow> Disk \<Rightarrow> FirestoneError \<times> Disk" where
  "fail_before_rename failing operation temp error d =
     (let failure = io_failure operation temp error
      in if dk_entry d (components temp) = None then (failure, d)
         else case failing ''cleanup'' of
                None \<Rightarrow> (failure, set_entry (components temp) None d)
              | Some cleanup_error \<Rightarrow>
                  (with_hint ''the destination was left unchanged; remove the named temp file and retry''
                     (error_new Generic (message failure @ ''; cannot remove temporary file '' @ temp @ '': ''
                        @ io_text cleanup_error)), d))"

text \<open>\<open>written\<close> is what the callback wrote, and the error it gave.\<close>

definition after_create ::
  "calls \<Rightarrow> string \<Rightarrow> string \<Rightarrow> u32 option \<Rightarrow> u8 list \<times> IoError option \<Rightarrow> Disk \<Rightarrow> (FirestoneError, unit) result \<times> Disk list" where
  "after_create failing path temp mode written d =
     (let i = dk_next d;
          d1 = disk_create temp mode d;
          d2 = disk_write i (fst written) d1;
          d3 = disk_sync i d2;
          d4 = disk_rename temp path d3;
          stop = (\<lambda>operation error s trace. case fail_before_rename failing operation temp error s of
                    (e, s') \<Rightarrow> (Inl e, trace @ [s, s']))
      in case (if mode = None then None else failing ''set temporary file mode'') of
           Some error \<Rightarrow> stop ''set temporary file mode'' error d1 []
         | None \<Rightarrow>
         case snd written of
           Some error \<Rightarrow> stop ''write temporary file'' error d2 [d1]
         | None \<Rightarrow>
         case failing ''fsync temporary file'' of
           Some error \<Rightarrow> stop ''fsync temporary file'' error d2 [d1]
         | None \<Rightarrow>
         case failing ''rename temporary file'' of
           Some error \<Rightarrow> stop ''rename temporary file'' error d3 [d1, d2]
         | None \<Rightarrow>
         case failing ''fsync parent directory'' of
           Some error \<Rightarrow> (Inl (io_failure ''fsync parent directory'' (case parent_directory path of Inr p \<Rightarrow> p | Inl _ \<Rightarrow> []) error),
               [d1, d2, d3, d4])
         | None \<Rightarrow> (Inr (), [d1, d2, d3, d4, disk_sync_parent path d4]))"

definition write_with_options ::
  "calls \<Rightarrow> string \<Rightarrow> u32 option \<Rightarrow> u8 list \<times> IoError option \<Rightarrow> Disk \<Rightarrow> (FirestoneError, unit) result \<times> Disk list" where
  "write_with_options failing path mode written d =
     (if (case mode of Some m \<Rightarrow> unat m \<ge> 0x1000 | None \<Rightarrow> False)
      then (Inl (error_new InvalidSpec (''invalid atomic file mode '' @ show_radix 8 (unat (the mode)))), [d])
      else case parent_directory path of
        Inl e \<Rightarrow> (Inl e, [d])
      | Inr parent \<Rightarrow>
      case temp_path path of
        Inl e \<Rightarrow> (Inl e, [d])
      | Inr temp \<Rightarrow>
      case failing ''open parent directory'' of
        Some error \<Rightarrow> (Inl (io_failure ''open parent directory'' parent error), [d])
      | None \<Rightarrow>
      case remove_known_temp failing temp d of
        Inl e \<Rightarrow> (Inl e, [d])
      | Inr d0 \<Rightarrow>
      case failing ''create temporary file'' of
        Some error \<Rightarrow> (Inl (io_failure ''create temporary file'' temp error), [d, d0])
      | None \<Rightarrow> (case after_create failing path temp mode written d0 of (r, trace) \<Rightarrow> (r, [d, d0] @ trace)))"

definition atomic_write :: "calls \<Rightarrow> string \<Rightarrow> u8 list \<times> IoError option \<Rightarrow> Disk \<Rightarrow> (FirestoneError, unit) result \<times> Disk list" where
  "atomic_write failing path written d = write_with_options failing path None written d"

definition write_with_mode ::
  "calls \<Rightarrow> string \<Rightarrow> u8 list \<times> IoError option \<Rightarrow> u32 \<Rightarrow> Disk \<Rightarrow> (FirestoneError, unit) result \<times> Disk list" where
  "write_with_mode failing path written mode d = write_with_options failing path (Some mode) written d"

definition serialize_json :: "string \<Rightarrow> (unit, u8 list) result \<Rightarrow> (FirestoneError, u8 list) result" where
  "serialize_json path to_vec_pretty =
     and_then (map_err (\<lambda>_. with_hint ''the existing file was left unchanged''
         (error_new Generic (''cannot serialize JSON for '' @ path))) to_vec_pretty) (\<lambda>bytes. Inr (bytes @ [10]))"

text \<open>\<open>write_all\<close> writes the bytes, or the part of them its error leaves.\<close>

definition write_json_with_mode ::
  "calls \<Rightarrow> string \<Rightarrow> (unit, u8 list) result \<Rightarrow> (u8 list \<Rightarrow> u8 list \<times> IoError option) \<Rightarrow> u32 \<Rightarrow> Disk
   \<Rightarrow> (FirestoneError, unit) result \<times> Disk list" where
  "write_json_with_mode failing path to_vec_pretty write_all mode d =
     (case serialize_json path to_vec_pretty of
        Inl e \<Rightarrow> (Inl e, [d])
      | Inr bytes \<Rightarrow> write_with_mode failing path (write_all bytes) mode d)"

definition write_json ::
  "calls \<Rightarrow> string \<Rightarrow> (unit, u8 list) result \<Rightarrow> (u8 list \<Rightarrow> u8 list \<times> IoError option) \<Rightarrow> Disk
   \<Rightarrow> (FirestoneError, unit) result \<times> Disk list" where
  "write_json failing path to_vec_pretty write_all d =
     (case serialize_json path to_vec_pretty of
        Inl e \<Rightarrow> (Inl e, [d])
      | Inr bytes \<Rightarrow> atomic_write failing path (write_all bytes) d)"

section \<open>The temporary name\<close>

lemma temp_components:
  assumes "is_absolute path" "temp_path path = Inr temp"
  obtains dir name where "components path = dir @ [NormalC name]" "components temp = dir @ [NormalC (name @ ''.tmp'')]"
proof -
  obtain cs where cs: "components path = RootDir # cs" "list_all rebuildable cs" by (rule absolute_components [OF assms(1)])
  obtain name where name: "path_file_name path = Some name"
    and temp: "temp = path_join (case path_parent path of Some parent \<Rightarrow> parent | None \<Rightarrow> []) (name @ ''.tmp'')"
    using assms(2) by (auto simp: temp_path_def split: option.splits)
  then obtain ds where ds: "cs = ds @ [NormalC name]"
    unfolding path_file_name_def cs(1) by (cases cs rule: rev_cases) (auto split: PathComponent.splits)
  then have rb: "list_all rebuildable ds" and n: "plain_name name" using cs(2) by (auto simp: rebuildable_def)
  define parent where "parent = foldl path_join [] (map component_str (RootDir # ds))"
  have "components (path_join [] ''/'') = [RootDir]"
    by (simp add: path_join_def components_def is_absolute_def piece_def)
  then have "components parent = RootDir # ds"
    using components_rebuild [OF rb, of "path_join [] ''/''"] by (simp add: parent_def)
  moreover have "path_parent path = Some parent" by (cases ds) (simp_all add: path_parent_def cs(1) ds parent_def butlast_append)
  moreover have "plain_name (name @ ''.tmp'')" using n by (auto simp: plain_name_def append_eq_Cons_conv)
  ultimately have "components temp = RootDir # ds @ [NormalC (name @ ''.tmp'')]" by (simp add: temp components_join)
  then show ?thesis using that [of "RootDir # ds" name] cs(1) ds by simp
qed

section \<open>What each call leaves\<close>

text \<open>A path whose entry and data a power loss cannot change.\<close>

definition settled :: "Disk \<Rightarrow> string \<Rightarrow> bool" where
  "settled d path \<longleftrightarrow> dk_possible d (components path) = {dk_entry d (components path)}
     \<and> (\<forall>i. dk_entry d (components path) = Some i \<longrightarrow> dk_synced d i \<and> i < dk_next d)"

definition same_at :: "Disk \<Rightarrow> PathComponent list \<Rightarrow> Disk \<Rightarrow> bool" where
  "same_at d c s \<longleftrightarrow> dk_entry s c = dk_entry d c \<and> dk_possible s c = dk_possible d c
     \<and> dk_next d \<le> dk_next s \<and> (\<forall>i < dk_next d. dk_data s i = dk_data d i \<and> dk_synced s i = dk_synced d i)"

lemma same_at_refl [simp]: "same_at d c d"
  by (simp add: same_at_def)

lemma same_at_steps:
  "same_at d c s \<Longrightarrow> p \<noteq> c \<Longrightarrow> same_at d c (set_entry p e s)"
  "same_at d c s \<Longrightarrow> components temp \<noteq> c \<Longrightarrow> same_at d c (disk_create temp mode s)"
  "same_at d c s \<Longrightarrow> dk_next d \<le> i \<Longrightarrow> same_at d c (disk_write i bytes s)"
  "same_at d c s \<Longrightarrow> dk_next d \<le> i \<Longrightarrow> same_at d c (disk_sync i s)"
  by (auto simp: same_at_def set_entry_def disk_create_def disk_write_def disk_sync_def)

lemma settled_crash: "settled d path \<Longrightarrow> same_at d (components path) s \<Longrightarrow> after_crash s path = {contents d path}"
  by (auto simp: settled_def same_at_def after_crash_def contents_def split: option.splits)

lemma fail_before_rename_same:
  "fail_before_rename failing operation temp error s = (e, s') \<Longrightarrow> same_at d c s \<Longrightarrow> components temp \<noteq> c \<Longrightarrow> same_at d c s'"
  by (auto simp: fail_before_rename_def Let_def same_at_steps(1) split: if_splits option.splits)

text \<open>After the rename the new file is the only other thing a power loss may leave; after the last sync, the only one.\<close>

lemma renamed_crash:
  assumes "same_at d (components path) s" "settled d path" "components temp \<noteq> components path"
    and "dk_entry s (components temp) = Some i" "dk_next d \<le> i" "i < dk_next s" "dk_synced s i" "dk_data s i = bytes"
    and "components path \<noteq> []"
  shows "after_crash (disk_rename temp path s) path = {contents d path, Some bytes}"
    and "contents (disk_rename temp path s) path = Some bytes"
    and "after_crash (disk_sync_parent path (disk_rename temp path s)) path = {Some bytes}"
    and "settled (disk_sync_parent path (disk_rename temp path s)) path"
proof -
  let ?c = "components path"
  have e: "dk_entry (disk_rename temp path s) ?c = Some i" and
    p: "dk_possible (disk_rename temp path s) ?c = {Some i, dk_entry d ?c}" and
    rest: "dk_data (disk_rename temp path s) = dk_data s" "dk_synced (disk_rename temp path s) = dk_synced s"
      "dk_next (disk_rename temp path s) = dk_next s"
    using assms(1-4) by (auto simp: disk_rename_def set_entry_def settled_def same_at_def)
  show "after_crash (disk_rename temp path s) path = {contents d path, Some bytes}"
    using assms(1,2,7,8) p rest by (auto simp: after_crash_def contents_def settled_def same_at_def split: option.splits)
  show "contents (disk_rename temp path s) path = Some bytes" using e rest assms(8) by (simp add: contents_def)
  have p': "dk_possible (disk_sync_parent path (disk_rename temp path s)) ?c = {Some i}"
    using e assms(9) by (simp add: disk_sync_parent_def)
  show "after_crash (disk_sync_parent path (disk_rename temp path s)) path = {Some bytes}"
    using p' rest assms(7,8) by (simp add: after_crash_def disk_sync_parent_def)
  show "settled (disk_sync_parent path (disk_rename temp path s)) path"
    using p' e rest assms(6,7) by (simp add: settled_def disk_sync_parent_def)
qed

lemma after_create_crash:
  assumes "same_at d (components path) d0" "settled d path" "components temp \<noteq> components path" "components path \<noteq> []"
    and "after_create failing path temp mode (bytes, err) d0 = (r, trace)"
  shows "s \<in> set trace \<Longrightarrow> after_crash s path = {contents d path}
        \<or> err = None \<and> (after_crash s path = {contents d path, Some bytes} \<or> after_crash s path = {Some bytes})"
    and "r = Inr () \<Longrightarrow> err = None \<and> contents (last trace) path = Some bytes \<and> after_crash (last trace) path = {Some bytes}
        \<and> settled (last trace) path"
proof -
  let ?i = "dk_next d0" and ?c = "components path"
  define d1 where "d1 = disk_create temp mode d0"
  define d2 where "d2 = disk_write ?i bytes d1"
  define d3 where "d3 = disk_sync ?i d2"
  define d4 where "d4 = disk_rename temp path d3"
  note ds = d1_def d2_def d3_def d4_def
  have next_le: "dk_next d \<le> ?i" using assms(1) by (simp add: same_at_def)
  then have same: "same_at d ?c d1" "same_at d ?c d2" "same_at d ?c d3"
    using assms(1,3) by (simp_all add: ds same_at_steps)
  have new: "dk_entry d3 (components temp) = Some ?i" "?i < dk_next d3" "dk_synced d3 ?i" "dk_data d3 ?i = bytes"
    by (simp_all add: ds disk_create_def disk_write_def disk_sync_def set_entry_def)
  note renamed = renamed_crash [OF same(3) assms(2,3) new(1) next_le new(2,3,4) assms(4), folded d4_def]
  have old: "after_crash s path = {contents d path}" if "same_at d ?c s" for s using settled_crash [OF assms(2) that] .
  have stopped: "same_at d ?c (snd (fail_before_rename failing operation temp error s))" if "same_at d ?c s" for s operation error
    using fail_before_rename_same [OF prod.collapse [symmetric] that assms(3)] .
  note run = assms(5) [unfolded after_create_def Let_def fst_conv snd_conv case_prod_beta, folded d1_def, folded d2_def, folded d3_def, folded d4_def]
  have members: "list_all (\<lambda>s. same_at d ?c s \<or> err = None \<and> (s = d4 \<or> s = disk_sync_parent path d4)) trace"
    using run same stopped by (simp split: option.splits if_splits) (auto simp: same stopped)
  show "s \<in> set trace \<Longrightarrow> after_crash s path = {contents d path}
        \<or> err = None \<and> (after_crash s path = {contents d path, Some bytes} \<or> after_crash s path = {Some bytes})"
    using members old renamed(1,3) by (auto simp: list_all_iff)
  show "r = Inr () \<Longrightarrow> err = None \<and> contents (last trace) path = Some bytes \<and> after_crash (last trace) path = {Some bytes}
        \<and> settled (last trace) path"
    using run renamed by (auto simp: contents_def disk_sync_parent_def split: option.splits prod.splits if_splits)
qed

lemma remove_known_temp_same:
  "remove_known_temp failing temp d = Inr d0 \<Longrightarrow> components temp \<noteq> c \<Longrightarrow> same_at d c d0"
  by (auto simp: remove_known_temp_def same_at_steps(1) split: if_splits option.splits)

text \<open>
  C21. Writing a file never loses it: for a path whose present contents are on disk, a power loss after
  any call of the writer leaves the file as it was, or complete with the new contents, never anything
  in between, and as it was whenever the callback failed. When the writer reports success only the new
  contents can be found, now and after a power loss.
\<close>

theorem atomic_write_crash_safe:
  assumes "is_absolute path" and "settled d path"
    and "write_with_options failing path mode (bytes, err) d = (r, trace)"
  shows "(\<forall>s \<in> set trace. after_crash s path \<subseteq> {contents d path, Some bytes}
        \<and> (err \<noteq> None \<longrightarrow> after_crash s path = {contents d path}))
     \<and> (r = Inr () \<longrightarrow> err = None \<and> contents (last trace) path = Some bytes
        \<and> after_crash (last trace) path = {Some bytes} \<and> settled (last trace) path)"
proof (cases "trace = [d]")
  case True
  have "r \<noteq> Inr ()" using assms(3) True
    by (auto simp: write_with_options_def split: if_splits sum.splits option.splits prod.splits)
  then show ?thesis using True settled_crash [OF assms(2), of d] by simp
next
  case False
  then obtain temp d0 where t: "temp_path path = Inr temp" "remove_known_temp failing temp d = Inr d0"
    and cases: "(\<exists>e. r = Inl e) \<and> trace = [d, d0] \<or> (\<exists>trace'. after_create failing path temp mode (bytes, err) d0 = (r, trace') \<and> trace = [d, d0] @ trace')"
    using assms(3) by (auto simp: write_with_options_def split: if_splits sum.splits option.splits prod.splits)
  obtain dir name where c: "components path = dir @ [NormalC name]" "components temp = dir @ [NormalC (name @ ''.tmp'')]"
    by (rule temp_components [OF assms(1) t(1)])
  then have ne: "components temp \<noteq> components path" "components path \<noteq> []" by auto
  have same: "same_at d (components path) d0" using remove_known_temp_same [OF t(2) ne(1)] .
  note old = settled_crash [OF assms(2)]
  from cases show ?thesis
  proof
    assume "(\<exists>e. r = Inl e) \<and> trace = [d, d0]"
    then show ?thesis using old [OF same] old [OF same_at_refl] by auto
  next
    assume "\<exists>trace'. after_create failing path temp mode (bytes, err) d0 = (r, trace') \<and> trace = [d, d0] @ trace'"
    then obtain trace' where a: "after_create failing path temp mode (bytes, err) d0 = (r, trace')" "trace = [d, d0] @ trace'" by blast
    note crash = after_create_crash [OF same assms(2) ne a(1)]
    have "trace' \<noteq> []" using a(1) by (auto simp: after_create_def Let_def split: if_splits option.splits prod.splits)
    then have "last trace = last trace'" by (simp add: a(2))
    moreover have "after_crash s path \<subseteq> {contents d path, Some bytes} \<and> (err \<noteq> None \<longrightarrow> after_crash s path = {contents d path})"
      if "s \<in> set trace" for s
      using that a(2) crash(1) [of s] old [OF same] old [OF same_at_refl] by auto
    ultimately show ?thesis using crash(2) by simp
  qed
qed

section \<open>Witness\<close>

definition demo_disk0 :: Disk where
  "demo_disk0 = \<lparr>dk_entry = (\<lambda>_. None), dk_possible = (\<lambda>_. {None}), dk_data = (\<lambda>_. []), dk_synced = (\<lambda>_. True),
     dk_mode = (\<lambda>_. None), dk_next = 0\<rparr>"

theorem atomic_write_crash_safe_witness:
  "after_crash (last (snd (write_with_options (\<lambda>_. None) ''/d/state'' None ([1, 2], None) demo_disk0))) ''/d/state'' = {Some [1, 2]}"
proof -
  have c: "temp_path ''/d/state'' = Inr ''/d/state.tmp''" "parent_directory ''/d/state'' = Inr ''/d''" by code_simp+
  have "fst (write_with_options (\<lambda>_. None) ''/d/state'' None ([1, 2], None) demo_disk0) = Inr ()"
    by (simp add: write_with_options_def c remove_known_temp_def demo_disk0_def after_create_def Let_def)
  moreover have "settled demo_disk0 ''/d/state''" by (simp add: settled_def demo_disk0_def)
  moreover have "is_absolute ''/d/state''" by (simp add: is_absolute_def)
  ultimately show ?thesis
    using atomic_write_crash_safe [of "''/d/state''" demo_disk0 "\<lambda>_. None" None "[1, 2]" None, OF _ _ surjective_pairing] by simp
qed

end
