(* ===== verification/Event_Waits.thy ===== *)
theory Event_Waits
  imports Network
begin

text \<open>
  The event stream of an action (\<^verbatim>\<open>event.rs\<close>, \<^verbatim>\<open>dispatcher.rs\<close>) and the two waits that write to it:
  the machine lock (\<^verbatim>\<open>lock.rs\<close>) and the wait for SSH (\<^verbatim>\<open>readiness.rs\<close>). A sink answers each event
  from the events it has accepted so far. A wait runs over the list of what the clock, the kernel and
  the guest answer in each turn of its loop, and is \<open>None\<close> while it still waits when the list ends.
  Durations are natural numbers of nanoseconds; an instant is the duration since the wait started.
\<close>

section \<open>Events\<close>

type_synonym StepId = string

datatype EventUnit = UnitBytes

datatype Level = LevelTrace | LevelDebug | LevelInfo | LevelWarn | LevelError

datatype Event =
    StepStart StepId string
  | StepUpdate StepId string
  | Progress StepId u64 "u64 option" EventUnit
  | StepDone StepId "string option" nat
  | StepSkip StepId string
  | StepFail StepId FirestoneError
  | Log Level string
  | Output string
  | Result string json

type_synonym event_sink = "Event list \<Rightarrow> Event \<Rightarrow> FirestoneError option"

definition emit :: "event_sink \<Rightarrow> Event \<Rightarrow> Event list \<Rightarrow> (FirestoneError, unit) result \<times> Event list" where
  "emit sink event evs = (case sink evs event of None \<Rightarrow> (Inr (), evs @ [event]) | Some e \<Rightarrow> (Inl e, evs))"

text \<open>The sink that collects events.\<close>

definition vec_sink :: event_sink where "vec_sink evs event = None"

text \<open>Running a part of an action after another one, on the same stream.\<close>

definition run_then ::
  "(FirestoneError, unit) result \<times> Event list \<Rightarrow> (Event list \<Rightarrow> 'a) \<Rightarrow> (FirestoneError \<Rightarrow> Event list \<Rightarrow> 'a) \<Rightarrow> 'a" where
  "run_then r next_part failed = (case r of (Inr _, evs) \<Rightarrow> next_part evs | (Inl e, evs) \<Rightarrow> failed e evs)"

lemma emit_vec [simp]: "emit vec_sink event evs = (Inr (), evs @ [event])"
  by (simp add: emit_def vec_sink_def)

lemma run_then_simps [simp]:
  "run_then (Inr x, evs) next_part failed = next_part evs"
  "run_then (Inl e, evs) next_part failed = failed e evs"
  by (simp_all add: run_then_def)

section \<open>The machine lock\<close>

record LockTiming =
  wait_notice_after :: nanos
  lock_timeout :: nanos
  lock_poll_interval :: nanos

definition WAIT_NOTICE_AFTER :: nanos where "WAIT_NOTICE_AFTER = 1000000000"
definition LOCK_TIMEOUT :: nanos where "LOCK_TIMEOUT = 10000000000"
definition POLL_INTERVAL :: nanos where "POLL_INTERVAL = 25000000"

definition PRODUCTION :: LockTiming where
  "PRODUCTION = \<lparr>wait_notice_after = WAIT_NOTICE_AFTER, lock_timeout = LOCK_TIMEOUT, lock_poll_interval = POLL_INTERVAL\<rparr>"

datatype FlockOutcome = Flocked | FlockWouldBlock | FlockFails IoError

text \<open>One turn: the time before the attempt, its outcome, the time after it.\<close>

record LockTurn =
  lt_before :: nanos
  lt_outcome :: FlockOutcome
  lt_after :: nanos

definition lock_io_failure :: "string \<Rightarrow> string \<Rightarrow> IoError \<Rightarrow> FirestoneError" where
  "lock_io_failure operation path error =
     with_hint ''check that the machine directory is writable''
       (error_new Generic (''cannot '' @ operation @ '' machine lock '' @ path))"

definition lock_busy :: "string \<Rightarrow> FirestoneError" where
  "lock_busy name =
     with_hint ''wait for the other operation to finish and retry''
       (error_new Busy (''machine `'' @ name @ ''` is busy with another firestone operation''))"

definition lock_notice :: "string \<Rightarrow> Event" where
  "lock_notice name = Log LevelInfo (''waiting for another firestone operation on `'' @ name @ ''`'')"

definition lock_sleep :: "LockTiming \<Rightarrow> bool \<Rightarrow> nanos \<Rightarrow> nanos" where
  "lock_sleep timing notice_emitted elapsed =
     (let until_timeout = lock_timeout timing - elapsed;
          until_notice = (if notice_emitted then lock_poll_interval timing else wait_notice_after timing - elapsed)
      in min (min (lock_poll_interval timing) until_timeout) until_notice)"

fun acquire_loop ::
  "LockTiming \<Rightarrow> string \<Rightarrow> string \<Rightarrow> event_sink \<Rightarrow> bool \<Rightarrow> bool \<Rightarrow> Event list \<Rightarrow> LockTurn list
   \<Rightarrow> ((FirestoneError, string) result \<times> Event list) option" where
  "acquire_loop timing name path sink notice_emitted contended evs [] = None"
| "acquire_loop timing name path sink notice_emitted contended evs (t # ts) =
     (let elapsed = lt_before t;
          due = (contended \<and> \<not> notice_emitted \<and> elapsed \<ge> wait_notice_after timing)
      in run_then (if due then emit sink (lock_notice name) evs else (Inr (), evs))
           (\<lambda>evs.
              if contended \<and> elapsed \<ge> lock_timeout timing then Some (Inl (lock_busy name), evs)
              else case lt_outcome t of
                     Flocked \<Rightarrow> Some (Inr path, evs)
                   | FlockFails e \<Rightarrow> Some (Inl (lock_io_failure ''acquire'' path e), evs)
                   | FlockWouldBlock \<Rightarrow> acquire_loop timing name path sink (notice_emitted \<or> due) True evs ts)
           (\<lambda>e evs. Some (Inl e, evs)))"

definition acquire_with_timing ::
  "LockTiming \<Rightarrow> string \<Rightarrow> string \<Rightarrow> IoError option \<Rightarrow> event_sink \<Rightarrow> Event list \<Rightarrow> LockTurn list
   \<Rightarrow> ((FirestoneError, string) result \<times> Event list) option" where
  "acquire_with_timing timing name path open_fails sink evs turns =
     (case open_fails of
        Some e \<Rightarrow> Some (Inl (lock_io_failure ''open'' path e), evs)
      | None \<Rightarrow> acquire_loop timing name path sink False False evs turns)"

definition lock_acquire ::
  "string \<Rightarrow> string \<Rightarrow> IoError option \<Rightarrow> event_sink \<Rightarrow> Event list \<Rightarrow> LockTurn list
   \<Rightarrow> ((FirestoneError, string) result \<times> Event list) option" where
  "lock_acquire name path open_fails sink evs turns = acquire_with_timing PRODUCTION name path open_fails sink evs turns"

section \<open>Waiting for SSH\<close>

definition TRANSPORT_PROBE_TIMEOUT :: nanos where "TRANSPORT_PROBE_TIMEOUT = 250000000"
definition SSH_PROBE_TIMEOUT :: nanos where "SSH_PROBE_TIMEOUT = 750000000"
definition READINESS_POLL_INTERVAL :: nanos where "READINESS_POLL_INTERVAL = 100000000"

datatype SshProbe = SshReady | SshWaiting | SshHostKeyChanged

record ReadinessOptions =
  ro_name :: string
  ro_first_boot :: bool
  ro_deadline :: nanos

text \<open>
  One turn: the cancellation flag, the time, the two probes, the time when the boot step ended, the
  time before the SSH probe, its answer and the time after it, and the time at the end.
\<close>

record ReadinessTurn =
  rt_cancelled :: bool
  rt_now :: nanos
  rt_console :: "(FirestoneError, u64) result"
  rt_transport :: "nanos \<Rightarrow> (FirestoneError, bool) result"
  rt_boot_at :: nanos
  rt_before_ssh :: nanos
  rt_ssh :: "nanos \<Rightarrow> (FirestoneError, SshProbe) result"
  rt_done_at :: nanos
  rt_end :: nanos

definition elapsed_millis :: "nanos \<Rightarrow> nat" where
  "elapsed_millis duration = min (duration div 1000000) (2 ^ 64 - 1)"

definition readiness_timeout :: "ReadinessOptions \<Rightarrow> FirestoneError" where
  "readiness_timeout options =
     with_hint (''inspect `firestone logs '' @ ro_name options @ ''` or attach with `firestone console ''
         @ ro_name options @ ''`; the VM is still running'')
       (error_new Timeout (''machine `'' @ ro_name options @ ''` did not become SSH-ready within the start timeout''))"

definition interrupted_error :: "string \<Rightarrow> FirestoneError" where
  "interrupted_error name =
     with_hint (''still booting in the background; `firestone stop '' @ name @ ''` to stop it'')
       (error_new Interrupted (''SSH readiness wait for machine `'' @ name @ ''` was interrupted''))"

definition host_key_changed_error :: "string \<Rightarrow> FirestoneError" where
  "host_key_changed_error name =
     with_hint (''inspect `firestone console '' @ name @ ''` before changing its known_hosts trust'')
       (error_new Conflict (''SSH host key for machine `'' @ name @ ''` changed without a cloud-init seed change''))"

definition wait_reason :: "ReadinessOptions \<Rightarrow> string" where
  "wait_reason options = (if ro_first_boot options then ''waiting for cloud-init (first boot)'' else ''waiting for sshd on vsock'')"

definition start_ssh :: "event_sink \<Rightarrow> bool \<Rightarrow> string \<Rightarrow> Event list \<Rightarrow> (FirestoneError, unit) result \<times> Event list" where
  "start_ssh sink started reason evs =
     (if started then (Inr (), evs)
      else run_then (emit sink (StepStart ''ssh'' ''wait for SSH'') evs)
             (\<lambda>evs. emit sink (StepUpdate ''ssh'' reason) evs) (\<lambda>e evs. (Inl e, evs)))"

definition fail_wait ::
  "ReadinessOptions \<Rightarrow> event_sink \<Rightarrow> bool \<Rightarrow> bool \<Rightarrow> nanos \<Rightarrow> FirestoneError \<Rightarrow> Event list
   \<Rightarrow> (FirestoneError, unit) result \<times> Event list" where
  "fail_wait options sink boot_done ssh_started now error evs =
     (let stop = (\<lambda>e evs. (Inl e, evs))
      in run_then (if boot_done then (Inr (), evs)
                   else emit sink (StepDone ''boot'' (Some ''no console heartbeat'') (elapsed_millis now)) evs) (\<lambda>evs.
         run_then (start_ssh sink ssh_started (wait_reason options) evs) (\<lambda>evs.
         run_then (emit sink (StepFail ''ssh'' error) evs) (\<lambda>evs. (Inl error, evs)) stop) stop) stop)"

text \<open>The second half of a turn, once the guest answers on its transport.\<close>

definition probe_ssh ::
  "ReadinessOptions \<Rightarrow> event_sink \<Rightarrow> ReadinessTurn \<Rightarrow> Event list
   \<Rightarrow> ((FirestoneError, unit) result \<times> Event list) option \<times> Event list" where
  "probe_ssh options sink t evs =
     (let remaining = ro_deadline options - rt_before_ssh t
      in if remaining = 0 then (None, evs)
         else case rt_ssh t (min SSH_PROBE_TIMEOUT remaining) of
           Inl e \<Rightarrow> (Some (Inl e, evs), evs)
         | Inr SshReady \<Rightarrow>
             (Some (emit sink (StepDone ''ssh'' (Some ''ready'') (elapsed_millis (rt_done_at t))) evs), evs)
         | Inr SshWaiting \<Rightarrow> (None, evs)
         | Inr SshHostKeyChanged \<Rightarrow>
             (Some (run_then (emit sink (StepFail ''ssh'' (host_key_changed_error (ro_name options))) evs)
                (\<lambda>evs. (Inl (host_key_changed_error (ro_name options)), evs)) (\<lambda>e evs. (Inl e, evs))), evs))"

fun readiness_loop ::
  "ReadinessOptions \<Rightarrow> event_sink \<Rightarrow> bool \<Rightarrow> bool \<Rightarrow> Event list \<Rightarrow> ReadinessTurn list
   \<Rightarrow> ((FirestoneError, unit) result \<times> Event list) option" where
  "readiness_loop options sink boot_done ssh_started evs [] = None"
| "readiness_loop options sink boot_done ssh_started evs (t # ts) =
     (if rt_cancelled t
      then Some (fail_wait options sink boot_done ssh_started (rt_now t) (interrupted_error (ro_name options)) evs)
      else if rt_now t \<ge> ro_deadline options
      then Some (fail_wait options sink boot_done ssh_started (rt_now t) (readiness_timeout options) evs)
      else case rt_console t of
        Inl e \<Rightarrow> Some (Inl e, evs)
      | Inr console_bytes \<Rightarrow>
      case rt_transport t (min TRANSPORT_PROBE_TIMEOUT (ro_deadline options - rt_now t)) of
        Inl e \<Rightarrow> Some (Inl e, evs)
      | Inr transport_ready \<Rightarrow>
          let stop = (\<lambda>e evs. Some (Inl e, evs));
              booted = (console_bytes > 0 \<or> transport_ready);
              boot = StepDone ''boot'' (Some ''firmware+kernel'') (elapsed_millis (rt_boot_at t))
          in run_then (if \<not> boot_done \<and> booted then emit sink boot evs else (Inr (), evs)) (\<lambda>evs.
             run_then (if \<not> boot_done \<and> booted then start_ssh sink ssh_started (wait_reason options) evs else (Inr (), evs)) (\<lambda>evs.
             if transport_ready
             then run_then (start_ssh sink (ssh_started \<or> \<not> boot_done) (wait_reason options) evs) (\<lambda>evs.
                  case probe_ssh options sink t evs of
                    (Some r, _) \<Rightarrow> Some r
                  | (None, evs) \<Rightarrow> readiness_loop options sink True True evs ts) stop
             else readiness_loop options sink (boot_done \<or> booted) (ssh_started \<or> \<not> boot_done \<and> booted) evs ts) stop) stop)"

text \<open>The sleep at the end of a turn that goes on waiting.\<close>

definition readiness_sleep :: "ReadinessOptions \<Rightarrow> nanos \<Rightarrow> nanos" where
  "readiness_sleep options now = min READINESS_POLL_INTERVAL (ro_deadline options - now)"

definition wait_with_backend ::
  "ReadinessOptions \<Rightarrow> event_sink \<Rightarrow> Event list \<Rightarrow> ReadinessTurn list
   \<Rightarrow> ((FirestoneError, unit) result \<times> Event list) option" where
  "wait_with_backend options sink evs turns =
     run_then (emit sink (StepStart ''boot'' ''wait for guest boot'') evs)
       (\<lambda>evs. readiness_loop options sink False False evs turns) (\<lambda>e evs. Some (Inl e, evs))"

text \<open>The probes of the running system: the console log, the vsock connection and the SSH command.\<close>

definition transport_answer :: "(FirestoneError, unit) result \<Rightarrow> (FirestoneError, bool) result" where
  "transport_answer connection =
     (case connection of
        Inr _ \<Rightarrow> Inr True
      | Inl error \<Rightarrow> if kind error \<in> {NotRunning, Timeout, Generic} then Inr False else Inl error)"

definition ssh_answer :: "(FirestoneError, bool \<times> string) result \<Rightarrow> (FirestoneError, SshProbe) result" where
  "ssh_answer output =
     (case output of
        Inl error \<Rightarrow> if kind error = Timeout then Inr SshWaiting else Inl error
      | Inr (success, stderr) \<Rightarrow>
          if success then Inr SshReady
          else if contains_str ''REMOTE HOST IDENTIFICATION HAS CHANGED'' stderr
            \<or> contains_str ''Host key verification failed'' stderr
          then Inr SshHostKeyChanged else Inr SshWaiting)"

definition console_answer ::
  "string \<Rightarrow> string \<Rightarrow> (IoError, unit) result \<Rightarrow> (FirestoneError, unit) result \<Rightarrow> (IoError, u64) result \<Rightarrow> (FirestoneError, u64) result" where
  "console_answer name path found owned len =
     (let failure = with_hint ''inspect the machine console log and Firestone data directory permissions''
            (error_new Generic (''cannot inspect boot heartbeat for machine `'' @ name @ ''` at '' @ quoted path))
      in case found of
           Inr _ \<Rightarrow> and_then owned (\<lambda>_. map_err (\<lambda>_. failure) len)
         | Inl e \<Rightarrow> if io_kind e = IoNotFound then Inr 0 else Inl failure)"

section \<open>The lock answers\<close>

text \<open>A clock that does not run backwards and honours the sleeps of the loop.\<close>

fun lock_clock :: "LockTiming \<Rightarrow> bool \<Rightarrow> bool \<Rightarrow> LockTurn list \<Rightarrow> bool" where
  "lock_clock timing notice contended (t # u # ts) \<longleftrightarrow>
     (let notice = (notice \<or> contended \<and> lt_before t \<ge> wait_notice_after timing)
      in lt_before t \<le> lt_after t \<and> lt_after t + lock_sleep timing notice (lt_after t) \<le> lt_before u
         \<and> lock_clock timing notice True (u # ts))"
| "lock_clock timing notice contended _ = True"

text \<open>How many turns are left at most: the poll intervals to the timeout, and the turn of the notice.\<close>

definition polls_left :: "LockTiming \<Rightarrow> nanos \<Rightarrow> nat" where
  "polls_left timing e = (lock_timeout timing - e + lock_poll_interval timing - 1) div lock_poll_interval timing"

definition turns_left :: "LockTiming \<Rightarrow> bool \<Rightarrow> bool \<Rightarrow> nanos \<Rightarrow> nat" where
  "turns_left timing notice contended e =
     polls_left timing e + (if notice then 0 else if contended \<and> wait_notice_after timing \<le> e then 1 else 2)
     + (if contended then 0 else 1)"

lemma polls_left_mono: "e \<le> e' \<Longrightarrow> polls_left timing e' \<le> polls_left timing e"
  unfolding polls_left_def by (intro div_le_mono) linarith

lemma polls_left_positive:
  assumes "0 < lock_poll_interval timing" "e < lock_timeout timing"
  shows "1 \<le> polls_left timing e"
proof -
  have "lock_poll_interval timing \<le> lock_timeout timing - e + lock_poll_interval timing - 1" using assms by linarith
  then show ?thesis unfolding polls_left_def using div_le_mono [of _ _ "lock_poll_interval timing"] assms(1)
    by (metis div_self less_numeral_extra(3))
qed

lemma polls_left_step:
  assumes "0 < lock_poll_interval timing" "e < lock_timeout timing" "min (e + lock_poll_interval timing) (lock_timeout timing) \<le> e'"
  shows "polls_left timing e' + 1 \<le> polls_left timing e"
proof (cases "lock_timeout timing \<le> e'")
  case True
  then have "polls_left timing e' = 0" using assms(1) by (simp add: polls_left_def)
  then show ?thesis using polls_left_positive [OF assms(1,2)] by simp
next
  case False
  let ?p = "lock_poll_interval timing"
  have "polls_left timing e' + 1 = (lock_timeout timing - e' + ?p - 1 + ?p) div ?p"
    using assms(1) div_add_self2 [of ?p "lock_timeout timing - e' + ?p - 1"] by (simp add: polls_left_def)
  also have "\<dots> \<le> polls_left timing e"
    unfolding polls_left_def using False assms by (intro div_le_mono) linarith
  finally show ?thesis .
qed

lemma turns_left_step:
  assumes "0 < lock_poll_interval timing" and go: "\<not> (contended \<and> e \<ge> lock_timeout timing)"
    and n: "notice' \<longleftrightarrow> notice \<or> contended \<and> e \<ge> wait_notice_after timing"
    and clock: "e \<le> a" "a + lock_sleep timing notice' a \<le> e'"
  shows "turns_left timing notice' True e' + 1 \<le> turns_left timing notice contended e"
proof -
  have mono: "polls_left timing e' \<le> polls_left timing e" using clock by (intro polls_left_mono) linarith
  have full: "polls_left timing e' + 1 \<le> polls_left timing e"
    if "contended" "notice' \<or> e' < wait_notice_after timing"
  proof (rule polls_left_step [OF assms(1)])
    show "e < lock_timeout timing" using go that by simp
    show "min (e + lock_poll_interval timing) (lock_timeout timing) \<le> e'"
      using that clock by (auto simp: lock_sleep_def Let_def min_def split: if_splits)
  qed
  show ?thesis
    using mono full n by (cases contended; cases notice') (auto simp: turns_left_def)
qed

lemma acquire_turn:
  assumes "acquire_loop timing name path sink notice contended evs (t # ts) = None"
  obtains evs' where "\<not> (contended \<and> lt_before t \<ge> lock_timeout timing)"
    "acquire_loop timing name path sink (notice \<or> contended \<and> lt_before t \<ge> wait_notice_after timing) True evs' ts = None"
proof -
  let ?late = "wait_notice_after timing \<le> lt_before t"
  let ?r = "if contended \<and> \<not> notice \<and> ?late then emit sink (lock_notice name) evs else (Inr (), evs)"
  have due: "(notice \<or> contended \<and> \<not> notice \<and> ?late) = (notice \<or> contended \<and> ?late)" by blast
  obtain evs' where "?r = (Inr (), evs')"
    using assms by (cases ?r) (auto simp: run_then_def Let_def simp del: if_split split: sum.splits)
  then show ?thesis
    using assms that [of evs'] unfolding acquire_loop.simps Let_def due
    by (simp add: run_then_def split: if_splits FlockOutcome.splits)
qed

lemma acquire_loop_waits:
  assumes "0 < lock_poll_interval timing" "lock_clock timing notice contended (t # ts)"
    and "acquire_loop timing name path sink notice contended evs (t # ts) = None"
  shows "length (t # ts) \<le> turns_left timing notice contended (lt_before t)"
  using assms(2,3)
proof (induction ts arbitrary: t notice contended evs)
  case (Cons u us)
  let ?n = "notice \<or> contended \<and> lt_before t \<ge> wait_notice_after timing"
  obtain evs' where go: "\<not> (contended \<and> lt_before t \<ge> lock_timeout timing)"
    and loop: "acquire_loop timing name path sink ?n True evs' (u # us) = None"
    by (rule acquire_turn [OF Cons.prems(2)])
  have clock: "lt_before t \<le> lt_after t" "lt_after t + lock_sleep timing ?n (lt_after t) \<le> lt_before u" "lock_clock timing ?n True (u # us)"
    using Cons.prems(1) by (simp_all add: Let_def)
  have "length (u # us) \<le> turns_left timing ?n True (lt_before u)" by (rule Cons.IH [OF clock(3) loop])
  then show ?case using turns_left_step [OF assms(1) go refl clock(1,2)] by simp
next
  case Nil
  obtain evs' where "\<not> (contended \<and> lt_before t \<ge> lock_timeout timing)" by (rule acquire_turn [OF Nil(2)])
  then show ?case using polls_left_positive [OF assms(1)] by (cases contended) (auto simp: turns_left_def)
qed

lemma run_notice: "run_then (if due then emit vec_sink event evs else (Inr (), evs)) next_part failed
    = next_part (if due then evs @ [event] else evs)"
  by (simp add: run_then_def)

declare acquire_loop.simps(2) [simp del]

lemma acquire_loop_answer:
  "acquire_loop timing name path vec_sink notice contended evs turns = Some (r, evs') \<Longrightarrow>
     evs' \<in> {evs, evs @ [lock_notice name]} \<and> (notice \<longrightarrow> evs' = evs)
     \<and> (case r of
          Inr p \<Rightarrow> p = path \<and> (\<exists>t \<in> set turns. lt_outcome t = Flocked)
        | Inl e \<Rightarrow> e = lock_busy name \<and> (\<exists>t \<in> set turns. lock_timeout timing \<le> lt_before t)
            \<or> (\<exists>t \<in> set turns. \<exists>io. lt_outcome t = FlockFails io \<and> e = lock_io_failure ''acquire'' path io))"
proof (induction turns arbitrary: notice contended evs)
  case (Cons t ts)
  let ?due = "contended \<and> \<not> notice \<and> wait_notice_after timing \<le> lt_before t"
  define evs1 where "evs1 = (if ?due then evs @ [lock_notice name] else evs)"
  have step: "(if contended \<and> lt_before t \<ge> lock_timeout timing then Some (Inl (lock_busy name), evs1)
      else case lt_outcome t of
             Flocked \<Rightarrow> Some (Inr path, evs1)
           | FlockFails e \<Rightarrow> Some (Inl (lock_io_failure ''acquire'' path e), evs1)
           | FlockWouldBlock \<Rightarrow> acquire_loop timing name path vec_sink (notice \<or> ?due) True evs1 ts) = Some (r, evs')"
    using Cons.prems unfolding acquire_loop.simps Let_def run_notice evs1_def .
  show ?case
  proof (cases "contended \<and> lt_before t \<ge> lock_timeout timing \<or> lt_outcome t \<noteq> FlockWouldBlock")
    case True
    then show ?thesis using step by (auto simp: evs1_def split: if_splits FlockOutcome.splits)
  next
    case False
    then have "acquire_loop timing name path vec_sink (notice \<or> ?due) True evs1 ts = Some (r, evs')" using step by auto
    from Cons.IH [OF this] show ?thesis by (auto simp: evs1_def split: sum.splits if_splits)
  qed
qed simp


section \<open>The events of the wait for SSH\<close>

definition boot_events :: "ReadinessOptions \<Rightarrow> string \<Rightarrow> nat \<Rightarrow> Event list" where
  "boot_events options detail ms =
     [StepStart ''boot'' ''wait for guest boot'', StepDone ''boot'' (Some detail) ms,
      StepStart ''ssh'' ''wait for SSH'', StepUpdate ''ssh'' (wait_reason options)]"

definition probes_answer :: "ReadinessTurn \<Rightarrow> bool" where
  "probes_answer t \<longleftrightarrow> is_ok (rt_console t) \<and> (\<forall>n. is_ok (rt_transport t n)) \<and> (\<forall>n. is_ok (rt_ssh t n))"

text \<open>Where the loop may be: the guest has not booted yet, or both steps of the first part are reported.\<close>

definition loop_events :: "ReadinessOptions \<Rightarrow> Event list \<Rightarrow> bool \<Rightarrow> bool \<Rightarrow> Event list \<Rightarrow> bool" where
  "loop_events options base boot_done ssh_started evs \<longleftrightarrow> ssh_started = boot_done \<and>
     (if boot_done then \<exists>ms. evs = base @ boot_events options ''firmware+kernel'' ms
      else evs = base @ [StepStart ''boot'' ''wait for guest boot''])"

definition final_event :: "(FirestoneError, unit) result \<Rightarrow> Event \<Rightarrow> bool" where
  "final_event r event = (case r of Inr _ \<Rightarrow> (\<exists>ms. event = StepDone ''ssh'' (Some ''ready'') ms) | Inl e \<Rightarrow> event = StepFail ''ssh'' e)"

lemma fail_wait_events:
  assumes "loop_events options base boot_done ssh_started evs" "fail_wait options vec_sink boot_done ssh_started now e evs = (r, evs')"
  shows "r = Inl e \<and> (\<exists>detail ms. evs' = base @ boot_events options detail ms @ [StepFail ''ssh'' e])"
  using assms
  by (cases boot_done) (auto simp: loop_events_def fail_wait_def start_ssh_def boot_events_def run_then_def)

lemma probe_ssh_events:
  assumes "probes_answer t" "evs = base @ boot_events options detail ms"
  shows "case fst (probe_ssh options vec_sink t evs) of
       None \<Rightarrow> snd (probe_ssh options vec_sink t evs) = evs
     | Some (r, evs') \<Rightarrow> \<exists>event. evs' = evs @ [event] \<and> final_event r event"
proof -
  obtain a where "rt_ssh t (min SSH_PROBE_TIMEOUT (ro_deadline options - rt_before_ssh t)) = Inr a"
    using assms(1) by (auto simp: probes_answer_def is_ok_iff)
  then show ?thesis
    by (cases a) (simp_all add: probe_ssh_def Let_def final_event_def run_then_def)
qed

lemma readiness_loop_events:
  assumes "readiness_loop options vec_sink boot_done ssh_started evs turns = Some (r, evs')"
    and "loop_events options base boot_done ssh_started evs" and "list_all probes_answer turns"
  shows "\<exists>detail ms event. evs' = base @ boot_events options detail ms @ [event] \<and> final_event r event"
  using assms
proof (induction turns arbitrary: boot_done ssh_started evs)
  case (Cons t ts)
  show ?case
  proof (cases "rt_cancelled t \<or> rt_now t \<ge> ro_deadline options")
    case True
    then obtain e where "fail_wait options vec_sink boot_done ssh_started (rt_now t) e evs = (r, evs')"
      using Cons.prems(1) by (auto split: if_splits)
    then show ?thesis using fail_wait_events [OF Cons.prems(2)] by (fastforce simp: final_event_def)
  next
    case False
    obtain bytes ready where p: "rt_console t = Inr bytes"
      "rt_transport t (min TRANSPORT_PROBE_TIMEOUT (ro_deadline options - rt_now t)) = Inr ready"
      using Cons.prems(3) that by (simp add: probes_answer_def is_ok_iff) blast
    let ?booted = "boot_done \<or> bytes > 0 \<or> ready"
    define evs1 where "evs1 = (if boot_done \<or> \<not> ?booted then evs
       else evs @ [StepDone ''boot'' (Some ''firmware+kernel'') (elapsed_millis (rt_boot_at t)),
          StepStart ''ssh'' ''wait for SSH'', StepUpdate ''ssh'' (wait_reason options)])"
    have inv: "loop_events options base ?booted ?booted evs1"
      using Cons.prems(2) by (auto simp: loop_events_def evs1_def boot_events_def)
    have started: "ssh_started = boot_done" using Cons.prems(2) by (simp add: loop_events_def)
    have step: "(if ready then case probe_ssh options vec_sink t evs1 of
                    (Some r, _) \<Rightarrow> Some r
                  | (None, evs) \<Rightarrow> readiness_loop options vec_sink True True evs ts
       else readiness_loop options vec_sink ?booted ?booted evs1 ts) = Some (r, evs')"
      using Cons.prems(1) False p started
      by (cases boot_done; cases ready; cases "0 < bytes")
        (simp_all add: Let_def run_then_def start_ssh_def evs1_def)
    show ?thesis
    proof (cases ready)
      case True
      then obtain ms where e1: "evs1 = base @ boot_events options ''firmware+kernel'' ms" using inv by (auto simp: loop_events_def)
      note probe = probe_ssh_events [OF _ e1, of t]
      show ?thesis
      proof (cases "fst (probe_ssh options vec_sink t evs1)")
        case None
        then have "snd (probe_ssh options vec_sink t evs1) = evs1" using probe Cons.prems(3) by simp
        then have "readiness_loop options vec_sink True True evs1 ts = Some (r, evs')"
          using step True None by (simp add: case_prod_beta split: option.splits prod.splits)
        then show ?thesis using Cons.IH inv True Cons.prems(3) by simp
      next
        case (Some x)
        then have "x = (r, evs')" using step True by (simp add: case_prod_beta split: option.splits prod.splits)
        then show ?thesis using probe Cons.prems(3) Some e1 by auto
      qed
    next
      case False
      then show ?thesis using step Cons.IH [OF _ inv] Cons.prems(3) by simp
    qed
  qed
qed simp

text \<open>
  C27. The wait for SSH reports one step after the other: as long as its probes work, whenever it ends,
  by success, cancellation, timeout or a changed host key, the events it emitted are the start and the
  end of the boot step, the start and the reason of the SSH step, and exactly one end of it, which is
  done exactly when the wait succeeded and carries the error it returns otherwise.
\<close>

theorem readiness_reports_both_steps:
  assumes "wait_with_backend options vec_sink base turns = Some (r, evs)" and "list_all probes_answer turns"
  shows "\<exists>detail ms event. evs = base @ boot_events options detail ms @ [event]
     \<and> (case r of Inr _ \<Rightarrow> (\<exists>ms. event = StepDone ''ssh'' (Some ''ready'') ms) | Inl e \<Rightarrow> event = StepFail ''ssh'' e)"
proof -
  have "readiness_loop options vec_sink False False (base @ [StepStart ''boot'' ''wait for guest boot'']) turns = Some (r, evs)"
    using assms(1) by (simp add: wait_with_backend_def)
  from readiness_loop_events [OF this, of base] assms(2) show ?thesis by (simp add: loop_events_def final_event_def)
qed

section \<open>Witnesses\<close>

definition demo_turns :: "LockTurn list" where
  "demo_turns = map (\<lambda>n. \<lparr>lt_before = 2 * n, lt_outcome = FlockWouldBlock, lt_after = 2 * n\<rparr>) [0, 1, 2, 3, 4, 5, 6]"


definition demo_readiness :: ReadinessTurn where
  "demo_readiness = \<lparr>rt_cancelled = False, rt_now = 1, rt_console = Inr 0, rt_transport = (\<lambda>_. Inr True), rt_boot_at = 2,
     rt_before_ssh = 3, rt_ssh = (\<lambda>_. Inr SshReady), rt_done_at = 4, rt_end = 5\<rparr>"

theorem readiness_reports_both_steps_witness:
  "\<exists>evs event. wait_with_backend \<lparr>ro_name = ''m'', ro_first_boot = True, ro_deadline = 10\<rparr> vec_sink [] [demo_readiness] = Some (Inr (), evs)
     \<and> last evs = event \<and> (\<exists>ms. event = StepDone ''ssh'' (Some ''ready'') ms)"
proof -
  let ?o = "\<lparr>ro_name = ''m'', ro_first_boot = True, ro_deadline = 10\<rparr>"
  obtain evs where r: "wait_with_backend ?o vec_sink [] [demo_readiness] = Some (Inr (), evs)"
    by (simp add: wait_with_backend_def demo_readiness_def Let_def run_then_def start_ssh_def probe_ssh_def)
  moreover have "probes_answer demo_readiness" by (simp add: probes_answer_def demo_readiness_def is_ok_def)
  ultimately show ?thesis using readiness_reports_both_steps [OF r] by auto
qed

end
